(* ===== verification/Prelude.thy ===== *)
theory Prelude
  imports Main "HOL-Library.List_Lexorder" "HOL-Library.Product_Lexorder"
begin

text \<open>
  Shared vocabulary of the development: Python strings as lists of code points, results of
  fallible code as sums (\<open>Inl\<close> the raised exception, \<open>Inr\<close> the value), the few loop
  shapes the source uses (check every element, map with failure, thread a state), and
  dictionaries built by comprehension. The collection \<open>result_simps\<close> turns a successful
  run of straight-line checking code into the conjunction of the conditions it checked.
\<close>

named_theorems result_simps \<open>when a checking computation succeeds\<close>

section \<open>Strings\<close>

text \<open>
  A Python \<open>str\<close> is a sequence of code points; comparison is lexicographic by code point,
  which is the order of \<open>List_Lexorder\<close>.
\<close>

type_synonym pystr = "nat list"

abbreviation py :: "string \<Rightarrow> pystr" where
  "py s \<equiv> map of_char s"

definition starts_with :: "'a list \<Rightarrow> 'a list \<Rightarrow> bool" where
  "starts_with p s \<longleftrightarrow> take (length p) s = p"

lemma starts_with_append [simp]: "starts_with p (p @ s)"
  by (simp add: starts_with_def)

lemma starts_with_iff: "starts_with p s \<longleftrightarrow> (\<exists>r. s = p @ r)"
  by (metis append_take_drop_id starts_with_append starts_with_def)

text \<open>\<open>str.split(sep)\<close> for a one-character separator.\<close>

fun split_on :: "'a \<Rightarrow> 'a list \<Rightarrow> 'a list list" where
  "split_on c [] = [[]]"
| "split_on c (x # xs) =
     (if x = c then [] # split_on c xs
      else (case split_on c xs of [] \<Rightarrow> [[x]] | y # ys \<Rightarrow> (x # y) # ys))"

lemma split_on_not_Nil [simp]: "split_on c xs \<noteq> []"
  by (cases xs) (auto split: list.splits)

fun join_with :: "'a \<Rightarrow> 'a list list \<Rightarrow> 'a list" where
  "join_with c [] = []"
| "join_with c [x] = x"
| "join_with c (x # y # ys) = x @ c # join_with c (y # ys)"

lemma join_split [simp]: "join_with c (split_on c xs) = xs"
proof (induction xs)
  case (Cons x xs)
  obtain y ys where "split_on c xs = y # ys"
    by (metis list.exhaust split_on_not_Nil)
  with Cons show ?case by (cases ys) auto
qed simp

lemma split_on_inj: "split_on c xs = split_on c ys \<Longrightarrow> xs = ys"
  by (metis join_split)

lemma split_on_no_sep: "c \<notin> set xs \<Longrightarrow> split_on c xs = [xs]"
  by (induction xs) auto

lemma split_on_append: "c \<notin> set xs \<Longrightarrow> split_on c (xs @ c # ys) = xs # split_on c ys"
  by (induction xs) auto

lemma split_on_components: "x \<in> set (split_on c xs) \<Longrightarrow> c \<notin> set x"
  by (induction xs arbitrary: x) (auto split: list.splits if_splits)

section \<open>Results\<close>

fun bindr :: "'e + 'a \<Rightarrow> ('a \<Rightarrow> 'e + 'b) \<Rightarrow> 'e + 'b" where
  "bindr (Inl e) f = Inl e"
| "bindr (Inr x) f = f x"

text \<open>\<open>if not condition: raise e\<close>, then the rest.\<close>

definition guard :: "bool \<Rightarrow> 'e \<Rightarrow> 'e + 'a \<Rightarrow> 'e + 'a" where
  "guard c e k = (if c then k else Inl e)"

text \<open>Run a checking statement for its exception, then the rest.\<close>

abbreviation andthen :: "'e + unit \<Rightarrow> 'e + 'a \<Rightarrow> 'e + 'a" where
  "andthen m k \<equiv> bindr m (\<lambda>_. k)"

definition okay :: "'a + 'b \<Rightarrow> bool" where
  "okay r \<longleftrightarrow> (\<exists>x. r = Inr x)"

lemma okay_simps [simp]: "okay (Inr x)" "\<not> okay (Inl e)"
  by (auto simp: okay_def)

lemma okay_code [code]: "okay (Inr x) = True" "okay (Inl e) = False"
  by simp_all

lemma bindr_cong [fundef_cong]:
  "m = m' \<Longrightarrow> (\<And>x. m' = Inr x \<Longrightarrow> f x = f' x) \<Longrightarrow> bindr m f = bindr m' f'"
  by (cases m') auto

lemma guard_cong [fundef_cong]:
  "c = c' \<Longrightarrow> e = e' \<Longrightarrow> (c' \<Longrightarrow> k = k') \<Longrightarrow> guard c e k = guard c' e' k'"
  by (simp add: guard_def)

lemma bindr_Inr_iff [result_simps]: "bindr m f = Inr y \<longleftrightarrow> (\<exists>x. m = Inr x \<and> f x = Inr y)"
  by (cases m) auto

lemma bindr_Inl_iff: "bindr m f = Inl e \<longleftrightarrow> m = Inl e \<or> (\<exists>x. m = Inr x \<and> f x = Inl e)"
  by (cases m) auto

lemma guard_Inr_iff [result_simps]: "guard c e k = Inr y \<longleftrightarrow> c \<and> k = Inr y"
  by (simp add: guard_def)

lemma guard_Inl_iff: "guard c e k = Inl e' \<longleftrightarrow> \<not> c \<and> e = e' \<or> c \<and> k = Inl e'"
  by (auto simp: guard_def)

lemma guard_True [simp]: "guard True e k = k"
  by (simp add: guard_def)

lemma guard_False [simp]: "guard False e k = Inl e"
  by (simp add: guard_def)

lemma bindr_assoc: "bindr (bindr m f) g = bindr m (\<lambda>x. bindr (f x) g)"
  by (cases m) auto

section \<open>Loops\<close>

text \<open>A \<open>for\<close> loop that only checks; one that collects; one that threads a state.\<close>

fun for_each :: "('a \<Rightarrow> 'e + unit) \<Rightarrow> 'a list \<Rightarrow> 'e + unit" where
  "for_each f [] = Inr ()"
| "for_each f (x # xs) = andthen (f x) (for_each f xs)"

fun traverse :: "('a \<Rightarrow> 'e + 'b) \<Rightarrow> 'a list \<Rightarrow> 'e + 'b list" where
  "traverse f [] = Inr []"
| "traverse f (x # xs) = bindr (f x) (\<lambda>y. bindr (traverse f xs) (\<lambda>ys. Inr (y # ys)))"

fun foldr_r :: "('s \<Rightarrow> 'a \<Rightarrow> 'e + 's) \<Rightarrow> 's \<Rightarrow> 'a list \<Rightarrow> 'e + 's" where
  "foldr_r f s [] = Inr s"
| "foldr_r f s (x # xs) = bindr (f s x) (\<lambda>s'. foldr_r f s' xs)"

lemma for_each_Inr_iff [result_simps]: "for_each f xs = Inr u \<longleftrightarrow> (\<forall>x\<in>set xs. f x = Inr ())"
  by (induction xs) (auto simp: result_simps)

lemma for_each_cong [fundef_cong]:
  "xs = ys \<Longrightarrow> (\<And>x. x \<in> set ys \<Longrightarrow> f x = g x) \<Longrightarrow> for_each f xs = for_each g ys"
  by (induction xs arbitrary: ys) auto

lemma traverse_cong [fundef_cong]:
  "xs = ys \<Longrightarrow> (\<And>x. x \<in> set ys \<Longrightarrow> f x = g x) \<Longrightarrow> traverse f xs = traverse g ys"
  by (induction xs arbitrary: ys) auto

lemma traverse_Inr_iff: "traverse f xs = Inr ys \<longleftrightarrow> list_all2 (\<lambda>x y. f x = Inr y) xs ys"
  by (induction xs arbitrary: ys) (auto simp: result_simps list_all2_Cons1)

lemma traverse_map: "traverse f (map g xs) = traverse (\<lambda>x. f (g x)) xs"
  by (induction xs) auto

lemma traverse_id: "(\<And>x. x \<in> set xs \<Longrightarrow> f x = Inr (g x)) \<Longrightarrow> traverse f xs = Inr (map g xs)"
  by (induction xs) auto

lemma traverse_okay_iff: "okay (traverse f xs) \<longleftrightarrow> (\<forall>x\<in>set xs. okay (f x))"
  by (induction xs) (auto simp: okay_def bindr_Inr_iff)

lemma foldr_r_append: "foldr_r f s (xs @ ys) = bindr (foldr_r f s xs) (\<lambda>s'. foldr_r f s' ys)"
  by (induction xs arbitrary: s) (auto simp: bindr_assoc)

text \<open>
  The interface of a fallible state machine: a step that may refuse, and a property of the
  state that every accepted step keeps. The client runs lists of steps; what holds of one
  step holds of every run and of every prefix of a run.
\<close>

locale run_invariant =
  fixes step :: "'s \<Rightarrow> 'a \<Rightarrow> 'e + 's" and keeps :: "'s \<Rightarrow> 's \<Rightarrow> bool"
  assumes keeps_refl: "keeps s s"
    and keeps_trans: "keeps s t \<Longrightarrow> keeps t u \<Longrightarrow> keeps s u"
    and step_keeps: "step s a = Inr t \<Longrightarrow> keeps s t"
begin

lemma run_keeps: "foldr_r step s as = Inr t \<Longrightarrow> keeps s t"
  by (induction as arbitrary: s) (auto simp: result_simps intro: keeps_refl keeps_trans step_keeps)

lemma prefix_runs: "foldr_r step s (as @ bs) = Inr t \<Longrightarrow> \<exists>u. foldr_r step s as = Inr u \<and> keeps u t"
  by (auto simp: foldr_r_append bindr_Inr_iff dest: run_keeps)

end

section \<open>Dictionaries\<close>

text \<open>
  \<open>{key: value for ...}\<close>: a later pair overrides an earlier one with the same key.
\<close>

definition dict_of :: "('k \<times> 'v) list \<Rightarrow> 'k \<rightharpoonup> 'v" where
  "dict_of ps = map_of (rev ps)"

text \<open>\<open>d[k]\<close>, which raises where the key is missing.\<close>

definition lookup_or :: "'e \<Rightarrow> ('k \<rightharpoonup> 'v) \<Rightarrow> 'k \<Rightarrow> 'e + 'v" where
  "lookup_or e d k = (case d k of None \<Rightarrow> Inl e | Some v \<Rightarrow> Inr v)"

lemma lookup_or_Inr_iff [result_simps]: "lookup_or e d k = Inr v \<longleftrightarrow> d k = Some v"
  by (simp add: lookup_or_def split: option.splits)

lemma lookup_or_Inl_iff: "lookup_or e d k = Inl e' \<longleftrightarrow> d k = None \<and> e' = e"
  by (auto simp: lookup_or_def split: option.splits)

lemma dom_dict_of [simp]: "dom (dict_of ps) = fst ` set ps"
  by (simp add: dict_of_def dom_map_of_conv_image_fst)

lemma dict_of_distinct: "distinct (map fst ps) \<Longrightarrow> dict_of ps = map_of ps"
  by (simp add: dict_of_def map_of_inject_set rev_map [symmetric])

lemma dict_of_in_set: "dict_of ps k = Some v \<Longrightarrow> (k, v) \<in> set ps"
  by (auto simp: dict_of_def dest: map_of_SomeD)

lemma dict_of_None_iff: "dict_of ps k = None \<longleftrightarrow> k \<notin> fst ` set ps"
  by (simp add: dict_of_def map_of_eq_None_iff)

lemma dict_of_Some: "distinct (map fst ps) \<Longrightarrow> dict_of ps k = Some v \<longleftrightarrow> (k, v) \<in> set ps"
  by (simp add: dict_of_distinct)

text \<open>\<open>enumerate(xs)\<close>.\<close>

definition indexed :: "'a list \<Rightarrow> (nat \<times> 'a) list" where
  "indexed xs = zip [0..<length xs] xs"

lemma in_set_indexed_iff: "(i, x) \<in> set (indexed xs) \<longleftrightarrow> i < length xs \<and> xs ! i = x"
  by (auto simp: indexed_def set_zip intro!: exI [of _ i])

lemma map_snd_indexed [simp]: "map snd (indexed xs) = xs"
  by (simp add: indexed_def)

lemma length_indexed [simp]: "length (indexed xs) = length xs"
  by (simp add: indexed_def)

text \<open>\<open>all(a <= b ...)\<close> as the source checks sortedness: comparing with the sorted copy.\<close>

lemma sort_eq_iff_sorted: "sort xs = xs \<longleftrightarrow> sorted xs"
  by (metis sorted_sort sorted_sort_id)

end
