(* ===== verification/Faults.thy ===== *)
theory Faults
  imports Prelude
begin

text \<open>
  The exceptions the modelled code raises, as values (\<open>atoms/core/errors.py\<close> and the
  Python exceptions that can escape it). Every \<open>raise\<close> statement of the source is one
  constructor, so that two refusals are never confused; the text of the message, which only
  formats the offending values, is not modelled. \<open>SpecValidationError\<close> refuses a
  specification, \<open>ProtocolError\<close> reports a violated engine contract, \<open>ChainStateInvalid\<close> a
  chain on disk that cannot be trusted, \<open>MetadataStoreInvalid\<close> a stored row that cannot be
  interpreted, \<open>IntegrityError\<close> a statement that a constraint or trigger of the schema refuses;
  the others are the run-time exceptions of a missing
  key, a missing attribute, an index out of range, and those of the codecs and the JSON reader
  of the standard library.
\<close>

datatype (plugins del: "quickcheck" transfer lifting size) canonical_fault =
    NotObject | NotArray | NotString | NotInteger | FieldMissing | FieldUnexpected
  | DiscriminatorMissing | DiscriminatorUnknown | StateNotPermitted | SchemaUnsupported
  | JsonDuplicateKey | JsonMalformed | ObjectMalformed | BytesNotUtf8

datatype (plugins del: "quickcheck" transfer lifting size) spec_fault =
    InvalidIdentifier
  | PathEmpty | PathNul | PathNotUtf8 | PathAbsolute | PathTrailingSlash
  | PathEmptyComponent | PathDotComponent | PathAliasesSigil
  | FulfillsFormat | RegisteredUnsorted | RegisteredDuplicate | RegisteredOutsideSurfaces
  | SchemaVersion | IntentDigestFormat | NoEffects
  | ContentHashFormat | ByteLenRange | EmptyHashMismatch
  | TargetEmpty | TargetNotUtf8 | TargetNul | ModeRange
  | DirectoryOwnerBits | FileOwnerRead
  | PathsAlias | StateNotAllowed | MoveOntoItself
  | DuplicateEffectId | AliasingEffectId
  | DependencyUnknown | DependencySelf | DependencyDuplicate | DependencyOrder
  | SurfaceDuplicatePath | TimelineDiscontinuous
  | SurfaceOmitsPath | SurfaceUntouchedPath | InitialMismatch | FinalMismatch
  | BeneathNonDirectory | CreatorLater
  | CanonicalFault canonical_fault

datatype (plugins del: "quickcheck" transfer lifting size) snapshot_fault =
    JournalCoverage | PersistentCoverage | ScratchCoverage
  | TopologySelfParent | TopologyRootParent | TopologyTwoParents | TopologyNoRoot
  | TopologyOrphan | TopologyWorkRootParent | TopologyPersistentCoverage
  | TopologyScratchCoverage | TopologyWorkScratchParent | TopologyScratchUnderWork
  | TopologySharedParent | TopologyNotTree
  | EntryStateKind | UnrecognizedMode | BuildRelationState
  | DiagnosticHaltedSource | DiagnosticJournalVector | DiagnosticPathsOrder
  | DiagnosticPathsGrammar | DiagnosticSlots | DiagnosticRelations
  | RollbackResultPresence | HaltDiagnosticPresence | HaltDiagnosticMismatch

datatype (plugins del: "quickcheck" transfer lifting size) plan_fault =
    TransitionPayload | NonActionDisposition | HaltPlanInvalid | EvidenceSlotsNotUnique

datatype (plugins del: "quickcheck" transfer lifting size) journal_fault =
    JournalRowsMismatch | OutsideLanguageMatrix | HaltedWithoutDiagnostic
  | TimelineEmpty | OccurrenceOutsideOrder | MultipleStarted | UnsupportedReverseState
  | OccurrenceUncovered

datatype (plugins del: "quickcheck" transfer lifting size) reducer_fault =
    PlanNotBound | StepsOutOfRange
  | TransactionStateMismatch | TransactionEdge | TransactionPayload | PreHaltMismatch
  | UnknownEffect | JournalStateMismatch | EffectEdge
  | VariantMismatch | RelationsUnsorted
  | PersistentTupleCoverage | ScratchTupleCoverage | OccupancyTupleCoverage
  | ExpectedBeforeMismatch | StaleOccupancy
  | ScratchNotInTuple | ScratchAlreadyAbsent | ScratchNotRemoved
  | RemoveChangesPersistent | RemoveChangesScratch
  | PreservedDuplicate | PreservedUnknown | AlreadyDetached | DetachNotTerminal
  | ScratchOnlyState | ScratchOnlyEffect | ScratchOnlyJournal | ScratchOnlyKey | ScratchOnlyRole
  | CoverageMismatch | ChildrenDuplicate
  | PersistentKeysDuplicate | ScratchKeysDuplicate | ParentKeysDuplicate
  | UnknownPersistentPath | UnknownScratchEntry | EntryFabricated
  | RemovalNotDirectory | RemovalNotEmpty | UnmodeledChanged
  | OccupancyParentUnobserved | OccupancyParentNotDirectory | OccupancyUnobservable
  | OccupancyNotParent | OccupancyForeignChild
  | NormalizationCoverage | ReplaceLiveMissing

datatype (plugins del: "quickcheck" transfer lifting size) classifier_fault =
    EntryOutsideStates | EffectCoverageMissing | OccupancyOfNonDirectory
  | PersistentArity | ScratchArity | WrongEffectVariant | JournalCoverageMissing
  | NoRetainedScratch | EffectIndexRange | NotCommittedAllDone
  | FrontierDuplicate | FrontierMissing | FrontierCoverage
  | NonSemanticStep | HaltPayload | NonHaltReason | RefusedFlag | StepShape
  | ReversalNotSettled | RollbackNotSettled | CommittedRefused | CommittedNonCleanup
  | CommittedNotSettled
  | NotMutatingStep | NoLongerAuthorizes

datatype (plugins del: "quickcheck" transfer lifting size) assembly_fault =
    FindingKeys | FindingDecimal | FindingObservedKind | FindingLookupProof | FindingWorkBase
  | FindingsEmpty | FindingsOrder | FindingNotSole
  | HaltDuplicateKey | HaltNotObject | HaltNotArray | HaltNotString | HaltFields
  | HaltNotPair | HaltEnum | HaltNotJson | HaltNotCanonical

datatype (plugins del: "quickcheck" transfer lifting size) chain_value_fault =
    ValueNotString | ValueDigest | ValueIdentifier | ValuePath
  | ModeLength | ModeForm | ModeBeyond | DecimalLength | DecimalForm | DecimalBeyond
  | ValueTargetEmpty | ValueTargetNul | ValueTargetNotUtf8
  | StateKindFirst | StateFacts | StateEmptyHash | StateKindUnknown
  | StateContentHash | StateMode | StateByteLen

datatype (plugins del: "quickcheck" transfer lifting size) chain_entry_fault =
    SurfaceNotArray | SurfaceNotPair | SurfaceUnsorted | SurfaceRepeated
  | PayloadBase64 | PayloadNotCanonical
  | GenesisPrevious | RegisteredIntentDigest | SettledOutcome | EntryClassUnknown
  | EnvelopeDuplicateKey | EnvelopeFields | EnvelopeNotJson | EnvelopeNotObject
  | EnvelopeNotUtf8 | EnvelopeNotCanonical
  | ChainMalformed

datatype (plugins del: "quickcheck" transfer lifting size) chain_file_fault =
    PlannedNotCanonical | PlannedDuplicate | PlannedUnlinked
  | ValidatedDigest | ValidatedTip | SurvivorsMany
  | SurvivorName | SurvivorRemoveEnvelope | SurvivorNoEnvelope | SurvivorNotCanonical | SurvivorUnlinked
  | SurvivorsUnapplied | WriteStep
  | ProvenanceUnregistered | ProvenanceNotChain | DirectoryUnlistable
  | ForeignLeafFound | ChainChanged | StagingChanged | StagingAppeared | DestinationForeign | CompletionFailed

datatype (plugins del: "quickcheck" transfer lifting size) reconcile_fault =
    RegistrationsDuplicate | RegistrationUnresolved | RegistrationMissing
  | SettlementsDuplicate | SettlementContradicts | SettlementNotCommittedHalt
  | UnboundSettlementContradicts | NonterminalSettled | ChainMovedOn

datatype (plugins del: "quickcheck" transfer lifting size) chain_fault =
    ChainValue chain_value_fault | ChainEntry chain_entry_fault | ChainFile chain_file_fault
  | Reconcile reconcile_fault

datatype (plugins del: "quickcheck" transfer lifting size) evidence_fault =
    EvidenceNodeNegative | EvidenceNotDirectoryNode
  | EvidenceDuplicateKey | EvidenceNotJson | EvidenceFields | EvidenceMountId | EvidenceNotArray
  | EvidenceNodeFields | EvidenceNode | EvidenceWorkPath | EvidencePathType | EvidenceRootPath
  | EvidencePathGrammar | EvidencePathMismatch | EvidenceWorkIdentity | EvidenceRootIdentity
  | EvidenceIdentityFields | EvidenceIdentityNumber | EvidenceLookup | EvidenceNameMax
  | EvidenceNodesOrder | EvidencePathsRepeated | EvidenceWorkFields | EvidenceRootCount
  | EvidenceWorkMismatch | EvidenceNotCanonical

datatype (plugins del: "quickcheck" transfer lifting size) store_use_fault =
    StoreIdentifier | NoRecordRow | NoEffectRow | NoLifecycleRow | NoOperationRow
  | HaltTxidMismatch | HaltEvidenceMismatch
  | StoreNotLive | TransactionOpen | ReadInTransaction | TransactionPoisoned
  | RecordNotCoherent | PromotedUnreferenced
  | DigestForm | ComponentForm | ManifestLengthNegative | ManifestNameTwice | ManifestLengthsDiffer
  | ManifestNotExact

datatype (plugins del: "quickcheck" transfer lifting size) transition_fault =
    ProofBinding | BindingClosed | WorkspaceNotTheProof | StartOutOfRange | NoActiveRecord | ActiveNotTheProof
  | PlanCompiledDiffers | PlanTopologyDiffers
  | SpecDisagrees | StateDisagrees | DecisionDisagrees | ResultDisagrees | DiagnosticDisagrees
  | JournalsDisagree | PlanDetached | StepNotPersistable
  | DetachOutOfRange | NotDetachStep | DetachUnbound
  | ReconcileTwoAppends | ReconcileNoActive | ReconcileDigest | PlanNotMutating | HaltPlanMutates
  | MutationUnexplained | CommitUnregistered | CommitDetached | RollbackDetached

datatype (plugins del: "quickcheck" transfer lifting size) store_fault =
    DiagnosticNotJson | DiagnosticDuplicateKey | DiagnosticNotObject | DiagnosticFields
  | DiagnosticNotText | DiagnosticNotInteger | DiagnosticNotFlag | DiagnosticNotArray
  | DiagnosticNotMember | DiagnosticStateKind | DiagnosticStateMode
  | RecordFindings | RecordEvidence | RecordAssemblyHalt
  | LifecycleState | LifecycleOrigin | LifecycleHex | LifecycleMachineZero | LifecyclePath
  | OperationKind | OperationPhase | PromotedLengthDiffers
  | OperationAlone | OperationMissing | OperationMismatch | OperationForeign

datatype (plugins del: "quickcheck" transfer lifting size) protocol_fault =
    SnapshotFault snapshot_fault
  | PlanFault plan_fault
  | JournalFault journal_fault
  | ReducerFault reducer_fault
  | ClassifierFault classifier_fault
  | UnknownScratchRole
  | AssemblyFault assembly_fault
  | ChainFault chain_fault
  | EvidenceFault evidence_fault
  | StoreUse store_use_fault
  | TransitionFault transition_fault

datatype (plugins del: "quickcheck" transfer lifting size) error =
    SpecValidationError spec_fault
  | ProtocolError protocol_fault
  | ChainStateInvalid chain_fault
  | KeyError
  | AttributeError
  | IndexError
  | UnicodeEncodeError
  | UnicodeDecodeError
  | JSONDecodeError
  | ValueError
  | RecursionError
  | MetadataStoreInvalid store_fault
  | EffectMismatch
  | PreconditionRefused
  | TransactionHalted
  | IntegrityError
  | FileExistsError
  | FileNotFoundError

type_synonym 'a result = "error + 'a"

abbreviation spec_err :: "spec_fault \<Rightarrow> error" where
  "spec_err \<equiv> SpecValidationError"

abbreviation snap_err :: "snapshot_fault \<Rightarrow> error" where
  "snap_err f \<equiv> ProtocolError (SnapshotFault f)"

abbreviation plan_err :: "plan_fault \<Rightarrow> error" where
  "plan_err f \<equiv> ProtocolError (PlanFault f)"

abbreviation journal_err :: "journal_fault \<Rightarrow> error" where
  "journal_err f \<equiv> ProtocolError (JournalFault f)"

abbreviation red_err :: "reducer_fault \<Rightarrow> error" where
  "red_err f \<equiv> ProtocolError (ReducerFault f)"

abbreviation cls_err :: "classifier_fault \<Rightarrow> error" where
  "cls_err f \<equiv> ProtocolError (ClassifierFault f)"

abbreviation asm_err :: "assembly_fault \<Rightarrow> error" where
  "asm_err f \<equiv> ProtocolError (AssemblyFault f)"

abbreviation evi_err :: "evidence_fault \<Rightarrow> error" where
  "evi_err f \<equiv> ProtocolError (EvidenceFault f)"

abbreviation use_err :: "store_use_fault \<Rightarrow> error" where
  "use_err f \<equiv> ProtocolError (StoreUse f)"

abbreviation step_err :: "transition_fault \<Rightarrow> error" where
  "step_err f \<equiv> ProtocolError (TransitionFault f)"

text \<open>\<open>xs[i]\<close> on a sequence, for a non-negative index.\<close>

definition index_or :: "'a list \<Rightarrow> nat \<Rightarrow> 'a result" where
  "index_or xs i = (if i < length xs then Inr (xs ! i) else Inl IndexError)"

lemma index_or_Inr_iff [result_simps]: "index_or xs i = Inr x \<longleftrightarrow> i < length xs \<and> xs ! i = x"
  by (auto simp: index_or_def)

end
