(* ===== verification/Lexical.thy ===== *)
theory Lexical
  imports Faults
begin

text \<open>
  The lexical layer: path states (\<open>core/fingerprint.py\<close>), safe identifiers
  (\<open>core/identifiers.py\<close>), the reserved scratch grammar (\<open>core/scratch.py\<close>) and
  project-relative paths with their portability key (\<open>core/paths.py\<close>). Unicode
  normalisation and case folding are the tables of Python's \<open>unicodedata\<close>; they enter as
  the record \<open>unicode_tables\<close>, a parameter of every operation that consults them.
\<close>

section \<open>Path states\<close>

datatype path_kind = Kind_ABSENT | Kind_FILE | Kind_DIRECTORY | Kind_SYMLINK

datatype path_state =
    AbsentState
  | FileState (content_hash: pystr) (file_mode: int) (byte_len: int)
  | DirectoryState (directory_mode: int)
  | SymlinkState (link_target: pystr) (link_mode: int)

fun kind_of :: "path_state \<Rightarrow> path_kind" where
  "kind_of AbsentState = Kind_ABSENT"
| "kind_of (FileState _ _ _) = Kind_FILE"
| "kind_of (DirectoryState _) = Kind_DIRECTORY"
| "kind_of (SymlinkState _ _) = Kind_SYMLINK"

text \<open>\<open>state.mode\<close>: the absent state has no such attribute.\<close>

fun mode_of :: "path_state \<Rightarrow> int result" where
  "mode_of AbsentState = Inl AttributeError"
| "mode_of (FileState _ m _) = Inr m"
| "mode_of (DirectoryState m) = Inr m"
| "mode_of (SymlinkState _ m) = Inr m"

section \<open>Identifiers\<close>

definition is_identifier_char :: "nat \<Rightarrow> bool" where
  "is_identifier_char c \<longleftrightarrow>
     65 \<le> c \<and> c \<le> 90 \<or> 97 \<le> c \<and> c \<le> 122 \<or> 48 \<le> c \<and> c \<le> 57 \<or> c = 95 \<or> c = 45"

definition is_valid_identifier :: "pystr \<Rightarrow> bool" where
  "is_valid_identifier value \<longleftrightarrow>
     1 \<le> length value \<and> length value \<le> 64 \<and> list_all is_identifier_char value"

definition require_valid_identifier :: "pystr \<Rightarrow> pystr result" where
  "require_valid_identifier value =
     guard (is_valid_identifier value) (spec_err InvalidIdentifier) (Inr value)"

section \<open>The reserved scratch grammar\<close>

record unicode_tables =
  normalize_nfc :: "pystr \<Rightarrow> pystr"
  normalize_nfd :: "pystr \<Rightarrow> pystr"
  casefold :: "pystr \<Rightarrow> pystr"

definition SCRATCH_SIGIL :: pystr where "SCRATCH_SIGIL = py ''.#~''"
definition CHAIN_LEAF :: pystr where "CHAIN_LEAF = py ''.#~chain''"
definition ROOT_CLAIM_LEAF :: pystr where "ROOT_CLAIM_LEAF = py ''.#~root-claim''"

definition SCRATCH_ROLES :: "pystr list" where
  "SCRATCH_ROLES = [py ''staging'', py ''tombstone'', py ''anchor'', py ''work'']"

abbreviation slash :: nat where "slash \<equiv> 47"
abbreviation dot :: nat where "dot \<equiv> 46"

definition leaf_of :: "pystr \<Rightarrow> pystr" where
  "leaf_of rel_path = last (split_on slash rel_path)"

definition is_scratch_leaf :: "pystr \<Rightarrow> bool" where
  "is_scratch_leaf leaf \<longleftrightarrow>
     (if \<not> starts_with SCRATCH_SIGIL leaf then False
      else (case split_on dot (drop (length SCRATCH_SIGIL) leaf) of
              [txid, effect_id, role] \<Rightarrow>
                is_valid_identifier txid \<and> is_valid_identifier effect_id \<and>
                role \<in> set SCRATCH_ROLES
            | _ \<Rightarrow> False))"

definition is_engine_reserved_leaf :: "pystr \<Rightarrow> bool" where
  "is_engine_reserved_leaf leaf \<longleftrightarrow> starts_with SCRATCH_SIGIL leaf"

definition aliases_scratch_sigil :: "unicode_tables \<Rightarrow> pystr \<Rightarrow> bool" where
  "aliases_scratch_sigil u leaf \<longleftrightarrow>
     (\<exists>form \<in> {leaf, normalize_nfc u leaf, normalize_nfd u leaf, casefold u leaf}.
        starts_with SCRATCH_SIGIL form)"

definition scratch_leaf :: "pystr \<Rightarrow> pystr \<Rightarrow> pystr \<Rightarrow> pystr result" where
  "scratch_leaf txid effect_id role =
     bindr (require_valid_identifier txid) (\<lambda>_.
     bindr (require_valid_identifier effect_id) (\<lambda>_.
     guard (role \<in> set SCRATCH_ROLES) (ProtocolError UnknownScratchRole)
       (Inr (SCRATCH_SIGIL @ txid @ [dot] @ effect_id @ [dot] @ role))))"

section \<open>Project-relative paths\<close>

text \<open>A \<open>str\<close> encodes as UTF-8 unless it holds a surrogate code point.\<close>

definition utf8_encodable :: "pystr \<Rightarrow> bool" where
  "utf8_encodable s \<longleftrightarrow> list_all (\<lambda>c. \<not> (55296 \<le> c \<and> c \<le> 57343)) s"

lemma utf8_encodable_code [code]:
  "utf8_encodable s = list_all (\<lambda>c. let i = int c in \<not> (55296 \<le> i \<and> i \<le> 57343)) s"
  by (auto simp: utf8_encodable_def list_all_iff Let_def)

definition require_component :: "unicode_tables \<Rightarrow> pystr \<Rightarrow> unit result" where
  "require_component u component =
     guard (component \<noteq> []) (spec_err PathEmptyComponent)
     (guard (component \<notin> {py ''.'', py ''..''}) (spec_err PathDotComponent)
     (guard (\<not> aliases_scratch_sigil u component) (spec_err PathAliasesSigil)
     (Inr ())))"

definition require_rel_path :: "unicode_tables \<Rightarrow> pystr \<Rightarrow> pystr result" where
  "require_rel_path u value =
     guard (value \<noteq> []) (spec_err PathEmpty)
     (guard (0 \<notin> set value) (spec_err PathNul)
     (guard (utf8_encodable value) (spec_err PathNotUtf8)
     (guard (\<not> starts_with [slash] value) (spec_err PathAbsolute)
     (guard (last value \<noteq> slash) (spec_err PathTrailingSlash)
     (andthen (for_each (require_component u) (split_on slash value))
     (Inr value))))))"

definition portability_equivalence_key :: "unicode_tables \<Rightarrow> pystr \<Rightarrow> pystr" where
  "portability_equivalence_key u value = normalize_nfc u (casefold u (normalize_nfc u value))"

end
