(* ===== verification/Effects.thy ===== *)
theory Effects
  imports Lexical
begin

text \<open>
  The closed effect set with its per-path occurrences (\<open>core/effects.py\<close>), the capability
  vocabulary (\<open>core/capabilities.py\<close>), the transaction specification with its canonical
  builder and version-2 members (\<open>core/spec.py\<close>) and the per-path timelines with the
  continuity rule (\<open>core/timeline.py\<close>). The state-valued fields of an effect hold any of
  the four path states, as the Python fields do; which states a variant may hold is what
  phase 5 of the compiler checks.
\<close>

section \<open>Effects and occurrences\<close>

datatype effect =
    ReplaceFile (effect_id_of: pystr) pystr path_state path_state
  | CreateFileNoClobber (effect_id_of: pystr) pystr path_state
  | DeletePath (effect_id_of: pystr) pystr path_state
  | MoveNoClobber (effect_id_of: pystr) pystr pystr path_state
  | CreateDirectory (effect_id_of: pystr) pystr path_state

datatype occurrence_role = Role_target | Role_source | Role_destination

datatype occurrence =
  Occurrence (occ_path: pystr) (occ_pre: path_state) (occ_post: path_state)
    (occ_role: occurrence_role)

fun occurrences :: "effect \<Rightarrow> occurrence list" where
  "occurrences (ReplaceFile _ path pre post) = [Occurrence path pre post Role_target]"
| "occurrences (CreateFileNoClobber _ path post) = [Occurrence path AbsentState post Role_target]"
| "occurrences (DeletePath _ path pre) = [Occurrence path pre AbsentState Role_target]"
| "occurrences (MoveNoClobber _ source destination source_pre) =
     [Occurrence source source_pre AbsentState Role_source,
      Occurrence destination AbsentState source_pre Role_destination]"
| "occurrences (CreateDirectory _ path post) = [Occurrence path AbsentState post Role_target]"

lemma occurrences_not_Nil [simp]: "occurrences e \<noteq> []"
  by (cases e) auto

section \<open>Capabilities\<close>

datatype capability =
    ATOMIC_EXCHANGE | NOCLOBBER_TRANSFER | IDENTITY_ANCHOR | ANCHORED_TRAVERSAL
  | DURABLE_PUBLISH | NOFOLLOW_COHERENT_READ | SYMLINK_FINGERPRINT | ADVISORY_PROJECT_LOCK

definition ALWAYS_REQUIRED :: "capability set" where
  "ALWAYS_REQUIRED =
     {ANCHORED_TRAVERSAL, DURABLE_PUBLISH, ADVISORY_PROJECT_LOCK, NOCLOBBER_TRANSFER}"

fun variant_capabilities :: "effect \<Rightarrow> capability set" where
  "variant_capabilities (ReplaceFile _ _ _ _) = {ATOMIC_EXCHANGE, NOFOLLOW_COHERENT_READ}"
| "variant_capabilities (CreateFileNoClobber _ _ _) = {NOCLOBBER_TRANSFER}"
| "variant_capabilities (DeletePath _ _ pre) =
     {NOCLOBBER_TRANSFER,
      (if kind_of pre = Kind_FILE then NOFOLLOW_COHERENT_READ else SYMLINK_FINGERPRINT)}"
| "variant_capabilities (MoveNoClobber _ _ _ _) =
     {IDENTITY_ANCHOR, NOCLOBBER_TRANSFER, NOFOLLOW_COHERENT_READ}"
| "variant_capabilities (CreateDirectory _ _ _) = {NOCLOBBER_TRANSFER}"

definition required_capabilities :: "effect list \<Rightarrow> capability set" where
  "required_capabilities effects =
     fold (\<lambda>effect caps. caps \<union> variant_capabilities effect) effects ALWAYS_REQUIRED"

section \<open>Specifications\<close>

definition SCHEMA_VERSION :: int where "SCHEMA_VERSION = 2"

datatype surface_entry = SurfaceEntry (entry_path: pystr) (entry_state: path_state)

datatype dependency = Dependency (dep_before: pystr) (dep_after: pystr)

text \<open>\<open>@dataclass(order=True)\<close>: dependencies compare as the pair of their fields.\<close>

instantiation dependency :: linorder
begin

definition less_eq_dependency :: "dependency \<Rightarrow> dependency \<Rightarrow> bool" where
  "less_eq_dependency a b \<longleftrightarrow> (dep_before a, dep_after a) \<le> (dep_before b, dep_after b)"

definition less_dependency :: "dependency \<Rightarrow> dependency \<Rightarrow> bool" where
  "less_dependency a b \<longleftrightarrow> (dep_before a, dep_after a) < (dep_before b, dep_after b)"

instance
proof
  fix a b c :: dependency
  show "a < b \<longleftrightarrow> a \<le> b \<and> \<not> b \<le> a"
    unfolding less_eq_dependency_def less_dependency_def by (rule less_le_not_le)
  show "a \<le> a" and "a \<le> b \<or> b \<le> a"
    unfolding less_eq_dependency_def by (simp, rule linear)
  show "a \<le> b \<Longrightarrow> b \<le> c \<Longrightarrow> a \<le> c"
    unfolding less_eq_dependency_def by (rule order_trans)
  show "a \<le> b \<Longrightarrow> b \<le> a \<Longrightarrow> a = b"
    unfolding less_eq_dependency_def by (meson antisym dependency.expand prod.inject)
qed

end

record transaction_spec =
  schema_version :: int
  consumer_tag :: pystr
  intent_digest :: pystr
  initial_surface :: "surface_entry list"
  final_surface :: "surface_entry list"
  spec_effects :: "effect list"
  dependencies :: "dependency list"
  fulfills :: "pystr option"
  registered_paths :: "pystr list"

text \<open>\<open>^[0-9a-f]{64}$\<close>, matched against the whole string.\<close>

definition is_lower_hex :: "nat \<Rightarrow> bool" where
  "is_lower_hex c \<longleftrightarrow> 48 \<le> c \<and> c \<le> 57 \<or> 97 \<le> c \<and> c \<le> 102"

definition is_hex_digest :: "pystr \<Rightarrow> bool" where
  "is_hex_digest s \<longleftrightarrow> length s = 64 \<and> list_all is_lower_hex s"

definition validate_v2_members :: "transaction_spec \<Rightarrow> unit result" where
  "validate_v2_members spec =
     guard (case fulfills spec of None \<Rightarrow> True | Some d \<Rightarrow> is_hex_digest d) (spec_err FulfillsFormat)
     (guard (registered_paths spec = sort (registered_paths spec)) (spec_err RegisteredUnsorted)
     (guard (length (remdups (registered_paths spec)) = length (registered_paths spec))
        (spec_err RegisteredDuplicate)
     (guard (\<forall>path \<in> set (registered_paths spec).
               path \<in> entry_path ` set (initial_surface spec) \<union> entry_path ` set (final_surface spec))
        (spec_err RegisteredOutsideSurfaces)
     (Inr ()))))"

text \<open>\<open>sorted(surface)\<close> of a mapping given by its items.\<close>

definition canonical_surface :: "(pystr \<times> path_state) list \<Rightarrow> surface_entry list" where
  "canonical_surface items =
     map (\<lambda>(path, state). SurfaceEntry path state) (sort_key fst items)"

definition build_spec ::
  "pystr \<Rightarrow> pystr \<Rightarrow> (pystr \<times> path_state) list \<Rightarrow> (pystr \<times> path_state) list \<Rightarrow> effect list \<Rightarrow>
   (pystr \<times> pystr) list \<Rightarrow> pystr option \<Rightarrow> pystr list \<Rightarrow> transaction_spec" where
  "build_spec tag digest initial final effects deps fulfilled registered =
     \<lparr>schema_version = SCHEMA_VERSION,
      consumer_tag = tag,
      intent_digest = digest,
      initial_surface = canonical_surface initial,
      final_surface = canonical_surface final,
      spec_effects = effects,
      dependencies = sort (map (\<lambda>(before, after). Dependency before after) deps),
      fulfills = fulfilled,
      registered_paths = sort registered\<rparr>"

section \<open>Timelines\<close>

datatype timeline_occurrence =
  TimelineOccurrence (tl_effect_id: pystr) (tl_index: nat) (tl_role: occurrence_role)
    (tl_pre: path_state) (tl_post: path_state)

datatype path_timeline =
  PathTimeline (timeline_path: pystr) (timeline_occurrences: "timeline_occurrence list")

text \<open>\<open>grouped.setdefault(path, []).append(item)\<close> on a dictionary in insertion order.\<close>

fun append_at :: "'k \<Rightarrow> 'v \<Rightarrow> ('k \<times> 'v list) list \<Rightarrow> ('k \<times> 'v list) list" where
  "append_at k v [] = [(k, [v])]"
| "append_at k v ((k', vs) # rest) =
     (if k' = k then (k', vs @ [v]) # rest else (k', vs) # append_at k v rest)"

definition timeline_events :: "effect list \<Rightarrow> (pystr \<times> timeline_occurrence) list" where
  "timeline_events effects =
     concat (map (\<lambda>(index, effect).
       map (\<lambda>occ. (occ_path occ,
              TimelineOccurrence (effect_id_of effect) index (occ_role occ) (occ_pre occ) (occ_post occ)))
         (occurrences effect)) (indexed effects))"

definition group_occurrences :: "effect list \<Rightarrow> (pystr \<times> timeline_occurrence list) list" where
  "group_occurrences effects =
     fold (\<lambda>(path, item) grouped. append_at path item grouped) (timeline_events effects) []"

text \<open>\<open>for earlier, later in pairwise(items)\<close>.\<close>

fun require_continuous :: "timeline_occurrence list \<Rightarrow> unit result" where
  "require_continuous (earlier # later # items) =
     guard (tl_post earlier = tl_pre later) (spec_err TimelineDiscontinuous)
       (require_continuous (later # items))"
| "require_continuous _ = Inr ()"

definition build_timelines :: "effect list \<Rightarrow> path_timeline list result" where
  "build_timelines effects =
     traverse (\<lambda>(path, items). andthen (require_continuous items) (Inr (PathTimeline path items)))
       (sort_key fst (group_occurrences effects))"

end
