(* ===== verification/Compiler.thy ===== *)
theory Compiler
  imports Effects "HOL-Library.AList"
begin

unbundle bit_operations_syntax

text \<open>
  The specification compiler (\<open>core/compiler.py\<close>): thirteen validation phases over a
  \<open>TransactionSpec\<close> and the \<open>CompiledSpec\<close> they license. Phase 1 tests the exact
  runtime type of every field, which the types of this model give, and the four value
  checks below; from phase 2 on every check of the source is one \<open>guard\<close>. The two path
  tries are the source's nodes with a child dictionary in insertion order, and the surface
  walk keeps the source's explicit stack.
\<close>

definition MAX_MODE :: int where "MAX_MODE = 4095"
definition MAX_SQLITE_INTEGER :: int where "MAX_SQLITE_INTEGER = 2 ^ 63 - 1"

definition is_sha256_digest :: "pystr \<Rightarrow> bool" where
  "is_sha256_digest s \<longleftrightarrow>
     starts_with (py ''sha256:'') s \<and> is_hex_digest (drop 7 s)"

definition EMPTY_CONTENT_HASH :: pystr where
  "EMPTY_CONTENT_HASH =
     py ''sha256:e3b0c44298fc1c149afbf4c8996fb92427ae41e4649b934ca495991b7852b855''"

record compiled_spec =
  compiled_of :: transaction_spec
  timelines :: "path_timeline list"

section \<open>Phases 1 to 9: the specification alone\<close>

definition phase1_structure :: "transaction_spec \<Rightarrow> unit result" where
  "phase1_structure spec =
     guard (schema_version spec = SCHEMA_VERSION) (spec_err SchemaVersion)
     (bindr (require_valid_identifier (consumer_tag spec)) (\<lambda>_.
     guard (is_sha256_digest (intent_digest spec)) (spec_err IntentDigestFormat)
     (guard (spec_effects spec \<noteq> []) (spec_err NoEffects)
     (Inr ()))))"

text \<open>The state-valued and the path-valued fields of a variant (\<open>_EFFECT_FIELDS\<close>).\<close>

fun effect_states :: "effect \<Rightarrow> path_state list" where
  "effect_states (ReplaceFile _ _ pre post) = [pre, post]"
| "effect_states (CreateFileNoClobber _ _ post) = [post]"
| "effect_states (DeletePath _ _ pre) = [pre]"
| "effect_states (MoveNoClobber _ _ _ source_pre) = [source_pre]"
| "effect_states (CreateDirectory _ _ post) = [post]"

fun effect_path_fields :: "effect \<Rightarrow> pystr list" where
  "effect_path_fields (ReplaceFile _ path _ _) = [path]"
| "effect_path_fields (CreateFileNoClobber _ path _) = [path]"
| "effect_path_fields (DeletePath _ path _) = [path]"
| "effect_path_fields (MoveNoClobber _ source destination _) = [source, destination]"
| "effect_path_fields (CreateDirectory _ path _) = [path]"

definition every_state :: "transaction_spec \<Rightarrow> path_state list" where
  "every_state spec =
     map entry_state (initial_surface spec) @ map entry_state (final_surface spec) @
     concat (map effect_states (spec_effects spec))"

definition require_mode :: "int \<Rightarrow> unit result" where
  "require_mode mode = guard (0 \<le> mode \<and> mode \<le> MAX_MODE) (spec_err ModeRange) (Inr ())"

fun require_fingerprint :: "path_state \<Rightarrow> unit result" where
  "require_fingerprint (FileState hash mode len) =
     guard (is_sha256_digest hash) (spec_err ContentHashFormat)
     (guard (0 \<le> len \<and> len \<le> MAX_SQLITE_INTEGER) (spec_err ByteLenRange)
     (guard ((hash = EMPTY_CONTENT_HASH) = (len = 0)) (spec_err EmptyHashMismatch)
     (require_mode mode)))"
| "require_fingerprint (SymlinkState target mode) =
     guard (target \<noteq> []) (spec_err TargetEmpty)
     (guard (utf8_encodable target) (spec_err TargetNotUtf8)
     (guard (0 \<notin> set target) (spec_err TargetNul)
     (require_mode mode)))"
| "require_fingerprint (DirectoryState mode) = require_mode mode"
| "require_fingerprint AbsentState = Inr ()"

text \<open>The owner bits that the engine needs on what it creates: \<open>0o700\<close> and \<open>0o400\<close>.\<close>

fun require_owner_bits :: "effect \<Rightarrow> unit result" where
  "require_owner_bits (CreateDirectory _ _ post) =
     bindr (mode_of post) (\<lambda>mode.
       guard (mode AND 448 = 448) (spec_err DirectoryOwnerBits) (Inr ()))"
| "require_owner_bits (CreateFileNoClobber _ _ post) =
     bindr (mode_of post) (\<lambda>mode.
       guard (mode AND 256 = 256) (spec_err FileOwnerRead) (Inr ()))"
| "require_owner_bits (ReplaceFile _ _ _ post) =
     bindr (mode_of post) (\<lambda>mode.
       guard (mode AND 256 = 256) (spec_err FileOwnerRead) (Inr ()))"
| "require_owner_bits _ = Inr ()"

definition phase2_fingerprints :: "transaction_spec \<Rightarrow> unit result" where
  "phase2_fingerprints spec =
     andthen (for_each require_fingerprint (every_state spec))
     (for_each require_owner_bits (spec_effects spec))"

definition declared_paths :: "transaction_spec \<Rightarrow> pystr list" where
  "declared_paths spec =
     map entry_path (initial_surface spec) @ map entry_path (final_surface spec) @
     concat (map effect_path_fields (spec_effects spec))"

definition phase3_path_grammar :: "unicode_tables \<Rightarrow> transaction_spec \<Rightarrow> unit result" where
  "phase3_path_grammar u spec =
     for_each (\<lambda>path. bindr (require_rel_path u path) (\<lambda>_. Inr ())) (declared_paths spec)"

text \<open>\<open>previous = first_seen.setdefault(key, value)\<close>, refused when another value came first.\<close>

definition claim_key ::
  "('a \<Rightarrow> 'k) \<Rightarrow> spec_fault \<Rightarrow> ('k \<rightharpoonup> 'a) \<Rightarrow> 'a \<Rightarrow> ('k \<rightharpoonup> 'a) result" where
  "claim_key key fault first_seen value =
     (case first_seen (key value) of
        None \<Rightarrow> Inr (first_seen(key value \<mapsto> value))
      | Some previous \<Rightarrow> guard (previous = value) (spec_err fault) (Inr first_seen))"

definition phase4_alias_distinctness :: "unicode_tables \<Rightarrow> transaction_spec \<Rightarrow> unit result" where
  "phase4_alias_distinctness u spec =
     bindr (foldr_r (claim_key (portability_equivalence_key u) PathsAlias) Map.empty
              (sort (remdups (declared_paths spec)))) (\<lambda>_. Inr ())"

text \<open>Which states each state-valued field may hold (\<open>_ALLOWED_STATES\<close>).\<close>

fun states_allowed :: "effect \<Rightarrow> bool" where
  "states_allowed (ReplaceFile _ _ pre post) \<longleftrightarrow> kind_of pre = Kind_FILE \<and> kind_of post = Kind_FILE"
| "states_allowed (CreateFileNoClobber _ _ post) \<longleftrightarrow> kind_of post = Kind_FILE"
| "states_allowed (DeletePath _ _ pre) \<longleftrightarrow> kind_of pre \<in> {Kind_FILE, Kind_SYMLINK}"
| "states_allowed (MoveNoClobber _ _ _ source_pre) \<longleftrightarrow> kind_of source_pre = Kind_FILE"
| "states_allowed (CreateDirectory _ _ post) \<longleftrightarrow> kind_of post = Kind_DIRECTORY"

fun moves_onto_itself :: "effect \<Rightarrow> bool" where
  "moves_onto_itself (MoveNoClobber _ source destination _) \<longleftrightarrow> source = destination"
| "moves_onto_itself _ \<longleftrightarrow> False"

definition require_variant_shape :: "effect \<Rightarrow> unit result" where
  "require_variant_shape effect =
     bindr (require_valid_identifier (effect_id_of effect)) (\<lambda>_.
     guard (states_allowed effect) (spec_err StateNotAllowed)
     (guard (\<not> moves_onto_itself effect) (spec_err MoveOntoItself)
     (Inr ())))"

definition phase5_variant_shapes :: "transaction_spec \<Rightarrow> unit result" where
  "phase5_variant_shapes spec = for_each require_variant_shape (spec_effects spec)"

definition claim_effect_id ::
  "unicode_tables \<Rightarrow> pystr set \<times> (pystr \<rightharpoonup> pystr) \<Rightarrow> effect \<Rightarrow>
   (pystr set \<times> (pystr \<rightharpoonup> pystr)) result" where
  "claim_effect_id u = (\<lambda>(exact_seen, first_by_key) effect.
     guard (effect_id_of effect \<notin> exact_seen) (spec_err DuplicateEffectId)
     (bindr (claim_key (portability_equivalence_key u) AliasingEffectId first_by_key (effect_id_of effect))
       (\<lambda>first_by_key'. Inr (insert (effect_id_of effect) exact_seen, first_by_key'))))"

definition phase6_unique_effect_ids :: "unicode_tables \<Rightarrow> transaction_spec \<Rightarrow> unit result" where
  "phase6_unique_effect_ids u spec =
     bindr (foldr_r (claim_effect_id u) ({}, Map.empty) (spec_effects spec)) (\<lambda>_. Inr ())"

definition effect_order :: "effect list \<Rightarrow> pystr \<rightharpoonup> nat" where
  "effect_order effects = dict_of (map (\<lambda>(index, effect). (effect_id_of effect, index)) (indexed effects))"

definition claim_dependency ::
  "(pystr \<rightharpoonup> nat) \<Rightarrow> (pystr \<times> pystr) set \<Rightarrow> dependency \<Rightarrow> (pystr \<times> pystr) set result" where
  "claim_dependency order seen dep =
     guard (dep_before dep \<in> dom order) (spec_err DependencyUnknown)
     (guard (dep_after dep \<in> dom order) (spec_err DependencyUnknown)
     (guard (dep_before dep \<noteq> dep_after dep) (spec_err DependencySelf)
     (guard ((dep_before dep, dep_after dep) \<notin> seen) (spec_err DependencyDuplicate)
     (bindr (lookup_or KeyError order (dep_before dep)) (\<lambda>i.
      bindr (lookup_or KeyError order (dep_after dep)) (\<lambda>j.
     guard (i < j) (spec_err DependencyOrder)
     (Inr (insert (dep_before dep, dep_after dep) seen))))))))"

definition phase7_dependencies :: "transaction_spec \<Rightarrow> unit result" where
  "phase7_dependencies spec =
     bindr (foldr_r (claim_dependency (effect_order (spec_effects spec))) {} (dependencies spec))
       (\<lambda>_. Inr ())"

definition claim_path :: "pystr set \<Rightarrow> surface_entry \<Rightarrow> pystr set result" where
  "claim_path seen entry =
     guard (entry_path entry \<notin> seen) (spec_err SurfaceDuplicatePath)
       (Inr (insert (entry_path entry) seen))"

definition phase8_surface_shape :: "transaction_spec \<Rightarrow> unit result" where
  "phase8_surface_shape spec =
     bindr (foldr_r claim_path {} (initial_surface spec)) (\<lambda>_.
     bindr (foldr_r claim_path {} (final_surface spec)) (\<lambda>_.
     Inr ()))"

definition phase9_registration :: "transaction_spec \<Rightarrow> unit result" where
  "phase9_registration spec = validate_v2_members spec"

section \<open>Phases 10 and 11: surfaces against timelines\<close>

text \<open>\<open>{entry.path: entry.state}\<close>, as a dictionary in insertion order.\<close>

definition surface_map :: "surface_entry list \<Rightarrow> (pystr \<times> path_state) list" where
  "surface_map entries =
     fold (\<lambda>entry surface. AList.update (entry_path entry) (entry_state entry) surface) entries []"

definition covers_surface :: "pystr set \<Rightarrow> (pystr \<times> path_state) list \<Rightarrow> unit result" where
  "covers_surface effect_paths declared =
     guard (effect_paths - fst ` set declared = {}) (spec_err SurfaceOmitsPath)
     (guard (fst ` set declared - effect_paths = {}) (spec_err SurfaceUntouchedPath)
     (Inr ()))"

definition phase10_coverage ::
  "path_timeline list \<Rightarrow> (pystr \<times> path_state) list \<Rightarrow> (pystr \<times> path_state) list \<Rightarrow> unit result" where
  "phase10_coverage tls initial final =
     andthen (covers_surface (timeline_path ` set tls) initial)
       (covers_surface (timeline_path ` set tls) final)"

definition endpoints_match ::
  "(pystr \<times> path_state) list \<Rightarrow> (pystr \<times> path_state) list \<Rightarrow> path_timeline \<Rightarrow> unit result" where
  "endpoints_match initial final timeline =
     bindr (index_or (timeline_occurrences timeline) 0) (\<lambda>first.
     bindr (lookup_or KeyError (map_of initial) (timeline_path timeline)) (\<lambda>initial_state.
     guard (tl_pre first = initial_state) (spec_err InitialMismatch)
     (bindr (lookup_or KeyError (map_of final) (timeline_path timeline)) (\<lambda>final_state.
     guard (tl_post (last (timeline_occurrences timeline)) = final_state) (spec_err FinalMismatch)
     (Inr ())))))"

definition phase11_endpoints ::
  "path_timeline list \<Rightarrow> (pystr \<times> path_state) list \<Rightarrow> (pystr \<times> path_state) list \<Rightarrow> unit result" where
  "phase11_endpoints tls initial final = for_each (endpoints_match initial final) tls"

section \<open>Phases 12 and 13: path tries\<close>

datatype path_trie_node =
  PathTrieNode (children: "(pystr \<times> path_trie_node) list")
    (node_surface: "(pystr \<times> path_state) option") (node_creator: "(pystr \<times> nat) option")

definition empty_node :: path_trie_node where
  "empty_node = PathTrieNode [] None None"

fun set_surface :: "pystr \<times> path_state \<Rightarrow> path_trie_node \<Rightarrow> path_trie_node" where
  "set_surface m (PathTrieNode cs s k) = PathTrieNode cs (Some m) k"

fun set_creator :: "pystr \<times> nat \<Rightarrow> path_trie_node \<Rightarrow> path_trie_node" where
  "set_creator m (PathTrieNode cs s k) = PathTrieNode cs s (Some m)"

text \<open>
  \<open>_insert_path\<close> walks the components, making the missing children, and returns the node
  it reaches; the caller then writes one field of that node, here the argument \<open>write\<close>.
\<close>

fun insert_components ::
  "(path_trie_node \<Rightarrow> path_trie_node) \<Rightarrow> pystr list \<Rightarrow> path_trie_node \<Rightarrow> path_trie_node" where
  "insert_components write [] node = write node"
| "insert_components write (component # rest) (PathTrieNode cs s k) =
     PathTrieNode
       (AList.update component
          (insert_components write rest
             (case map_of cs component of None \<Rightarrow> empty_node | Some child \<Rightarrow> child)) cs) s k"

definition insert_path ::
  "(path_trie_node \<Rightarrow> path_trie_node) \<Rightarrow> pystr \<Rightarrow> path_trie_node \<Rightarrow> path_trie_node" where
  "insert_path write path root = insert_components write (split_on slash path) root"

definition surface_trie :: "(pystr \<times> path_state) list \<Rightarrow> path_trie_node" where
  "surface_trie surface =
     fold (\<lambda>(path, state) root. insert_path (set_surface (path, state)) path root) surface empty_node"

fun node_count :: "path_trie_node \<Rightarrow> nat" where
  "node_count (PathTrieNode cs s k) = Suc (sum_list (map (\<lambda>(_, child). node_count child) cs))"

definition surface_clear :: "path_trie_node \<Rightarrow> (pystr \<times> path_state) option \<Rightarrow> bool" where
  "surface_clear node constraint =
     (case node_surface node of
        None \<Rightarrow> True
      | Some (path, state) \<Rightarrow> constraint = None \<or> kind_of state = Kind_ABSENT)"

definition next_constraint ::
  "path_trie_node \<Rightarrow> (pystr \<times> path_state) option \<Rightarrow> (pystr \<times> path_state) option" where
  "next_constraint node constraint =
     (case node_surface node of
        None \<Rightarrow> constraint
      | Some (path, state) \<Rightarrow>
          (if kind_of state = Kind_DIRECTORY then None else Some (path, state)))"

text \<open>The explicit stack, its top first; the children of a node are pushed in order.\<close>

function walk_surface :: "(path_trie_node \<times> (pystr \<times> path_state) option) list \<Rightarrow> unit result" where
  "walk_surface [] = Inr ()"
| "walk_surface ((node, constraint) # stack) =
     guard (surface_clear node constraint) (spec_err BeneathNonDirectory)
       (walk_surface
         (rev (map (\<lambda>(_, child). (child, next_constraint node constraint)) (children node)) @ stack))"
  by pat_completeness auto
termination
proof (relation "measure (\<lambda>stack. sum_list (map (\<lambda>(node, _). node_count node) stack))")
  fix node :: path_trie_node and constraint :: "(pystr \<times> path_state) option"
    and stack :: "(path_trie_node \<times> (pystr \<times> path_state) option) list"
  have "node_count node = Suc (sum_list (map (\<lambda>(_, child). node_count child) (children node)))"
    by (cases node) simp
  then show "(rev (map (\<lambda>(_, child). (child, next_constraint node constraint)) (children node)) @ stack,
          (node, constraint) # stack)
        \<in> measure (\<lambda>stack. sum_list (map (\<lambda>(node, _). node_count node) stack))"
    by (simp add: rev_map [symmetric] comp_def case_prod_unfold sum_list_rev)
qed simp

definition phase12_surface_tree :: "(pystr \<times> path_state) list \<Rightarrow> unit result" where
  "phase12_surface_tree surface = walk_surface [(surface_trie surface, None)]"

definition creator_trie :: "effect list \<Rightarrow> path_trie_node" where
  "creator_trie effects =
     fold (\<lambda>(index, effect) root.
       (case effect of
          CreateDirectory _ path _ \<Rightarrow> insert_path (set_creator (path, index)) path root
        | _ \<Rightarrow> root)) (indexed effects) empty_node"

fun is_create_directory :: "effect \<Rightarrow> bool" where
  "is_create_directory (CreateDirectory _ _ _) = True"
| "is_create_directory _ = False"

fun walk_creators :: "nat \<Rightarrow> path_trie_node \<Rightarrow> pystr list \<Rightarrow> unit result" where
  "walk_creators index node [] = Inr ()"
| "walk_creators index node (component # rest) =
     (case map_of (children node) component of
        None \<Rightarrow> Inr ()
      | Some child \<Rightarrow>
          (case node_creator child of
             None \<Rightarrow> walk_creators index child rest
           | Some (_, creator_index) \<Rightarrow>
               guard (creator_index < index) (spec_err CreatorLater)
                 (walk_creators index child rest)))"

definition phase13_ancestor_ordering :: "transaction_spec \<Rightarrow> unit result" where
  "phase13_ancestor_ordering spec =
     (if \<not> list_ex is_create_directory (spec_effects spec) then Inr ()
      else for_each (\<lambda>(index, effect).
             for_each (\<lambda>occ.
               walk_creators index (creator_trie (spec_effects spec))
                 (butlast (split_on slash (occ_path occ))))
               (occurrences effect)) (indexed (spec_effects spec)))"

section \<open>Compilation\<close>

definition canonicalize :: "transaction_spec \<Rightarrow> transaction_spec" where
  "canonicalize spec = spec\<lparr>
     initial_surface := sort_key entry_path (initial_surface spec),
     final_surface := sort_key entry_path (final_surface spec),
     dependencies := sort (dependencies spec)\<rparr>"

definition compile_spec :: "unicode_tables \<Rightarrow> transaction_spec \<Rightarrow> compiled_spec result" where
  "compile_spec u spec =
     andthen (phase1_structure spec)
     (andthen (phase2_fingerprints spec)
     (andthen (phase3_path_grammar u spec)
     (andthen (phase4_alias_distinctness u spec)
     (andthen (phase5_variant_shapes spec)
     (andthen (phase6_unique_effect_ids u spec)
     (andthen (phase7_dependencies spec)
     (andthen (phase8_surface_shape spec)
     (andthen (phase9_registration spec)
     (bindr (build_timelines (spec_effects spec)) (\<lambda>tls.
      let initial = surface_map (initial_surface spec);
          final = surface_map (final_surface spec)
      in andthen (phase10_coverage tls initial final)
        (andthen (phase11_endpoints tls initial final)
        (andthen (phase12_surface_tree initial)
        (andthen (phase12_surface_tree final)
        (andthen (phase13_ancestor_ordering spec)
        (Inr \<lparr>compiled_of = canonicalize spec, timelines = tls\<rparr>)))))))))))))))"

end
