(* ===== verification/CompilerTries.thy ===== *)
theory CompilerTries
  imports Compiler "HOL-Library.Sublist"
begin

text \<open>
  What the path tries of phases 12 and 13 hold, and what their walks decide: a surface trie
  maps the components of a declared path to its declaration, the stack walk accepts exactly
  the surfaces in which nothing exists beneath a non-directory, and the creator walk looks
  at every creator strictly above a path.
\<close>

section \<open>Lookup in a trie\<close>

text \<open>The mark (a declaration or a creator) that a trie holds at some components.\<close>

fun mark_at :: "(path_trie_node \<Rightarrow> 'm option) \<Rightarrow> path_trie_node \<Rightarrow> pystr list \<Rightarrow> 'm option" where
  "mark_at sel node [] = sel node"
| "mark_at sel node (component # rest) =
     (case map_of (children node) component of None \<Rightarrow> None | Some child \<Rightarrow> mark_at sel child rest)"

abbreviation "declared_at \<equiv> mark_at node_surface"
abbreviation "creator_at \<equiv> mark_at node_creator"

fun wf_trie :: "path_trie_node \<Rightarrow> bool" where
  "wf_trie (PathTrieNode cs s k) \<longleftrightarrow>
     distinct (map fst cs) \<and> (\<forall>(_, child) \<in> set cs. wf_trie child)"

lemma wf_trie_iff: "wf_trie node \<longleftrightarrow>
    distinct (map fst (children node)) \<and> (\<forall>(_, child) \<in> set (children node). wf_trie child)"
  by (cases node) simp

lemma wf_empty [simp]: "wf_trie empty_node"
  by (simp add: empty_node_def)

lemma mark_empty [simp]:
  "declared_at empty_node ds = None" "creator_at empty_node ds = None"
  by (cases ds; simp add: empty_node_def)+

lemma set_simps [simp]:
  "node_surface (set_surface m node) = Some m" "node_creator (set_surface m node) = node_creator node"
  "node_creator (set_creator k node) = Some k" "node_surface (set_creator k node) = node_surface node"
  "children (set_surface m node) = children node" "children (set_creator k node) = children node"
  by (cases node; simp)+

lemma wf_insert_components:
  assumes "\<And>n. children (write n) = children n" and "wf_trie node"
  shows "wf_trie (insert_components write cs node)"
  using assms(2)
proof (induction cs arbitrary: node)
  case Nil
  with assms(1) show ?case by (simp add: wf_trie_iff [of "write node"] wf_trie_iff [of node])
next
  case (Cons c cs)
  obtain ch s k where node: "node = PathTrieNode ch s k" by (cases node)
  let ?new = "insert_components write cs
      (case map_of ch c of None \<Rightarrow> empty_node | Some child \<Rightarrow> child)"
  have "wf_trie ?new"
    using Cons by (auto simp: node split: option.split dest: map_of_SomeD)
  moreover have "set (AList.update c ?new ch) \<subseteq> insert (c, ?new) (set ch)"
    by (induction ch) auto
  ultimately show ?case
    using Cons.prems by (auto simp: node distinct_update)
qed

lemma declared_insert_components:
  "declared_at (insert_components (set_surface m) cs node) ds =
     (if ds = cs then Some m else declared_at node ds)"
proof (induction cs arbitrary: node ds)
  case Nil
  then show ?case by (cases ds) auto
next
  case (Cons c cs)
  then show ?case by (cases node; cases ds) (auto simp: update_conv split: option.splits)
qed

lemma creator_insert_components:
  "creator_at (insert_components (set_creator m) cs node) ds =
     (if ds = cs then Some m else creator_at node ds)"
proof (induction cs arbitrary: node ds)
  case Nil
  then show ?case by (cases ds) auto
next
  case (Cons c cs)
  then show ?case by (cases node; cases ds) (auto simp: update_conv split: option.splits)
qed

lemma wf_insert_path [simp]:
  "wf_trie node \<Longrightarrow> wf_trie (insert_path (set_surface m) p node)"
  by (simp add: insert_path_def wf_insert_components)

lemma split_slash_eq: "split_on slash p = split_on slash q \<longleftrightarrow> p = q"
  by (metis join_split)

lemma declared_insert_path [simp]:
  "declared_at (insert_path (set_surface (p, st)) p node) (split_on slash q) =
     (if q = p then Some (p, st) else declared_at node (split_on slash q))"
  by (simp add: insert_path_def declared_insert_components split_slash_eq)

section \<open>The surface trie\<close>

lemma surface_trie_wf [simp]: "wf_trie (surface_trie surface)"
proof -
  have "wf_trie node \<Longrightarrow> wf_trie (fold (\<lambda>(path, state). insert_path (set_surface (path, state)) path) surface node)"
    for node by (induction surface arbitrary: node) auto
  then show ?thesis by (simp add: surface_trie_def)
qed

lemma surface_trie_declared:
  assumes "distinct (map fst surface)"
  shows "declared_at (surface_trie surface) cs = Some (p, st) \<longleftrightarrow>
           cs = split_on slash p \<and> (p, st) \<in> set surface"
proof -
  have "distinct (map fst surface) \<Longrightarrow>
      declared_at (fold (\<lambda>(path, state). insert_path (set_surface (path, state)) path) surface node) cs
        = Some (p, st) \<longleftrightarrow>
      cs = split_on slash p \<and> (p, st) \<in> set surface \<or>
      declared_at node cs = Some (p, st) \<and> cs \<notin> split_on slash ` fst ` set surface" for node
  proof (induction surface arbitrary: node)
    case (Cons x surface)
    then show ?case
      by (cases x) (force simp: insert_path_def declared_insert_components split_slash_eq)
  qed simp
  from this [OF assms, of empty_node] show ?thesis by (simp add: surface_trie_def)
qed

text \<open>The walk over a subtree, and its equality with the stack loop.\<close>

function clear_below :: "path_trie_node \<Rightarrow> (pystr \<times> path_state) option \<Rightarrow> bool" where
  "clear_below node constraint \<longleftrightarrow> surface_clear node constraint \<and>
     (\<forall>(_, child) \<in> set (children node). clear_below child (next_constraint node constraint))"
  by auto
termination
proof (relation "measure (\<lambda>(node, _). node_count node)")
  fix node :: path_trie_node and constraint x xa y
  assume "x \<in> set (children node)" "(xa, y) = x"
  then have "node_count y \<in> set (map (\<lambda>(_, child). node_count child) (children node))"
    by force
  then have "node_count y \<le> sum_list (map (\<lambda>(_, child). node_count child) (children node))"
    by (simp only: member_le_sum_list)
  then show "((y, next_constraint node constraint), node, constraint) \<in> measure (\<lambda>(node, _). node_count node)"
    by (cases node) simp
qed simp

declare clear_below.simps [simp del] walk_surface.simps [simp del]

lemma walk_surface_iff:
  "walk_surface stack = Inr () \<longleftrightarrow> (\<forall>(node, constraint) \<in> set stack. clear_below node constraint)"
proof (induction stack rule: walk_surface.induct)
  case (2 node constraint stack)
  then show ?case
    by (cases "surface_clear node constraint")
      (auto simp: walk_surface.simps guard_def clear_below.simps [of node] ball_Un split: prod.splits)
qed (simp add: walk_surface.simps)

definition exists_at :: "path_trie_node \<Rightarrow> pystr list \<Rightarrow> bool" where
  "exists_at node cs \<longleftrightarrow> (\<exists>p st. declared_at node cs = Some (p, st) \<and> st \<noteq> AbsentState)"

lemma kind_absent [simp]: "kind_of st = Kind_ABSENT \<longleftrightarrow> st = AbsentState"
  by (cases st) auto

definition nothing_at :: "path_trie_node \<Rightarrow> bool" where
  "nothing_at node \<longleftrightarrow> (\<forall>cs. \<not> exists_at node cs)"

definition tree_below :: "path_trie_node \<Rightarrow> bool" where
  "tree_below node \<longleftrightarrow> (\<forall>ds cs p st. strict_prefix ds cs \<and> declared_at node ds = Some (p, st) \<and>
     exists_at node cs \<longrightarrow> kind_of st = Kind_DIRECTORY)"

lemma exists_at_Nil: "exists_at node [] \<longleftrightarrow>
    (\<exists>p st. node_surface node = Some (p, st) \<and> st \<noteq> AbsentState)"
  by (simp add: exists_at_def)

lemma exists_at_Cons: "exists_at node (c # cs) \<longleftrightarrow>
    (\<exists>child. map_of (children node) c = Some child \<and> exists_at child cs)"
  by (auto simp: exists_at_def split: option.split)

lemma declared_at_Cons: "declared_at node (c # cs) = Some d \<longleftrightarrow>
    (\<exists>child. map_of (children node) c = Some child \<and> declared_at child cs = Some d)"
  by (auto split: option.split)

lemma nothing_at_iff:
  assumes "distinct (map fst (children node))"
  shows "nothing_at node \<longleftrightarrow> \<not> exists_at node [] \<and> (\<forall>(_, child) \<in> set (children node). nothing_at child)"
proof -
  have split: "(\<forall>cs. P cs) \<longleftrightarrow> P [] \<and> (\<forall>c cs. P (c # cs))" for P :: "pystr list \<Rightarrow> bool"
    by (metis list.exhaust)
  show ?thesis
    using assms unfolding nothing_at_def split [of "\<lambda>cs. \<not> exists_at node cs"]
    by (auto simp: exists_at_Cons)
qed

lemma tree_below_iff:
  assumes "distinct (map fst (children node))"
  shows "tree_below node \<longleftrightarrow>
    (\<forall>p st. node_surface node = Some (p, st) \<longrightarrow> kind_of st \<noteq> Kind_DIRECTORY \<longrightarrow>
       (\<forall>(_, child) \<in> set (children node). nothing_at child)) \<and>
    (\<forall>(_, child) \<in> set (children node). tree_below child)"
  (is "?l \<longleftrightarrow> ?r \<and> ?s")
proof (intro iffI conjI)
  assume ?l
  show ?r
  proof (clarify)
    fix p st c child assume *: "node_surface node = Some (p, st)" "kind_of st \<noteq> Kind_DIRECTORY"
      "(c, child) \<in> set (children node)"
    have "\<not> exists_at child cs" for cs
      using * \<open>?l\<close> [unfolded tree_below_def, rule_format, of "[]" "c # cs" p st] assms
      by (auto simp: exists_at_Cons)
    then show "nothing_at child" by (simp add: nothing_at_def)
  qed
  show ?s
  proof (clarify)
    fix c child assume *: "(c, child) \<in> set (children node)"
    show "tree_below child"
      unfolding tree_below_def
    proof (intro allI impI, elim conjE)
      fix ds cs p st assume "strict_prefix ds cs" "declared_at child ds = Some (p, st)" "exists_at child cs"
      with * show "kind_of st = Kind_DIRECTORY"
        using \<open>?l\<close> [unfolded tree_below_def, rule_format, of "c # ds" "c # cs" p st] assms
        by (auto simp: exists_at_Cons)
    qed
  qed
next
  assume rs: "?r \<and> ?s"
  show ?l
    unfolding tree_below_def
  proof (intro allI impI, elim conjE)
    fix ds cs p st
    assume a: "strict_prefix ds cs" "declared_at node ds = Some (p, st)" "exists_at node cs"
    from a(1) obtain c cs' where cs: "cs = c # cs'" by (cases cs) auto
    with a(3) obtain child where child: "map_of (children node) c = Some child" "exists_at child cs'"
      by (auto simp: exists_at_Cons)
    then have mem: "(c, child) \<in> set (children node)" by (simp add: map_of_SomeD)
    show "kind_of st = Kind_DIRECTORY"
    proof (cases ds)
      case Nil
      with a mem child rs show ?thesis by (fastforce simp: nothing_at_def)
    next
      case (Cons d ds')
      with a cs child have "declared_at child ds' = Some (p, st)" "strict_prefix ds' cs'"
        by (auto split: option.splits)
      moreover from mem rs have "tree_below child" by blast
      ultimately show ?thesis using child(2) by (auto simp: tree_below_def)
    qed
  qed
qed

lemma clear_below_iff:
  assumes "wf_trie node"
  shows "clear_below node constraint \<longleftrightarrow>
    (constraint \<noteq> None \<longrightarrow> nothing_at node) \<and> tree_below node"
  using assms
proof (induction node constraint rule: clear_below.induct)
  case (1 node constraint)
  let ?next = "next_constraint node constraint"
  have wf: "distinct (map fst (children node))"
    and wfc: "\<And>c child. (c, child) \<in> set (children node) \<Longrightarrow> wf_trie child"
    using "1.prems" by (auto simp: wf_trie_iff [of node])
  have "(\<forall>(_, child) \<in> set (children node). clear_below child ?next) \<longleftrightarrow>
      (?next \<noteq> None \<longrightarrow> (\<forall>(_, child) \<in> set (children node). nothing_at child)) \<and>
      (\<forall>(_, child) \<in> set (children node). tree_below child)"
    using "1.IH" wfc by fastforce
  then show ?case
    unfolding clear_below.simps [of node] nothing_at_iff [OF wf] tree_below_iff [OF wf]
    by (cases "node_surface node"; cases constraint)
      (auto simp: surface_clear_def next_constraint_def exists_at_Nil)
qed

text \<open>Nothing exists beneath what is not a directory.\<close>

definition tree_shaped :: "(pystr \<times> path_state) list \<Rightarrow> bool" where
  "tree_shaped surface \<longleftrightarrow>
     (\<forall>(p, above) \<in> set surface. \<forall>(q, state) \<in> set surface.
        strict_prefix (split_on slash p) (split_on slash q) \<and> state \<noteq> AbsentState \<longrightarrow>
        kind_of above = Kind_DIRECTORY)"

lemma phase12_iff:
  assumes "distinct (map fst surface)"
  shows "phase12_surface_tree surface = Inr () \<longleftrightarrow> tree_shaped surface"
proof -
  have "phase12_surface_tree surface = Inr () \<longleftrightarrow> tree_below (surface_trie surface)"
    by (simp add: phase12_surface_tree_def walk_surface_iff clear_below_iff)
  also have "\<dots> \<longleftrightarrow> tree_shaped surface"
    by (fastforce simp: tree_below_def tree_shaped_def exists_at_def surface_trie_declared [OF assms])
  finally show ?thesis .
qed

section \<open>The creator walk\<close>

lemma walk_creators_iff:
  "walk_creators index node cs = Inr () \<longleftrightarrow>
     (\<forall>d ds p j. prefix (d # ds) cs \<and> creator_at node (d # ds) = Some (p, j) \<longrightarrow> j < index)"
proof (induction cs arbitrary: node)
  case (Cons c cs)
  show ?case
  proof (cases "map_of (children node) c")
    case None
    then show ?thesis by auto
  next
    case (Some child)
    have "(\<forall>d ds p j. prefix (d # ds) (c # cs) \<and> creator_at node (d # ds) = Some (p, j) \<longrightarrow> j < index) \<longleftrightarrow>
        (\<forall>ds p j. prefix ds cs \<and> creator_at child ds = Some (p, j) \<longrightarrow> j < index)"
      using Some by auto
    also have "\<dots> \<longleftrightarrow> (\<forall>p j. node_creator child = Some (p, j) \<longrightarrow> j < index) \<and>
        (\<forall>d ds p j. prefix (d # ds) cs \<and> creator_at child (d # ds) = Some (p, j) \<longrightarrow> j < index)"
      by (metis Nil_prefix list.exhaust mark_at.simps(1))
    finally show ?thesis
      using Some Cons.IH [of child] by (auto simp: guard_Inr_iff split: option.split)
  qed
qed simp

fun created_path :: "effect \<Rightarrow> pystr option" where
  "created_path (CreateDirectory _ path _) = Some path"
| "created_path _ = None"

lemma is_create_directory_iff: "is_create_directory e \<longleftrightarrow> created_path e \<noteq> None"
  by (cases e) auto

lemma creator_trie_at:
  "creator_at (creator_trie effects) cs =
     (case filter (\<lambda>(i, e). map_option (split_on slash) (created_path e) = Some cs) (indexed effects) of
        [] \<Rightarrow> None
      | xs \<Rightarrow> (case last xs of (i, e) \<Rightarrow> Some (the (created_path e), i)))"
proof -
  have "creator_at (fold (\<lambda>(index, effect) root.
       (case effect of
          CreateDirectory _ path _ \<Rightarrow> insert_path (set_creator (path, index)) path root
        | _ \<Rightarrow> root)) xs node) cs =
     (case filter (\<lambda>(i, e). map_option (split_on slash) (created_path e) = Some cs) xs of
        [] \<Rightarrow> creator_at node cs
      | xs \<Rightarrow> (case last xs of (i, e) \<Rightarrow> Some (the (created_path e), i)))" for xs node
  proof (induction xs arbitrary: node)
    case (Cons x xs)
    obtain i e where x: "x = (i, e)" by (cases x)
    show ?case
      by (cases e) (auto simp: x Cons.IH insert_path_def creator_insert_components split: list.split)
  qed simp
  note at = this [of "indexed effects" empty_node]
  show ?thesis
    unfolding creator_trie_def at mark_empty ..
qed

text \<open>When no directory is created twice, the trie holds each creator.\<close>

lemma creator_trie_unique:
  assumes unique: "\<And>i j p. i < length effects \<Longrightarrow> j < length effects \<Longrightarrow>
      created_path (effects ! i) = Some p \<Longrightarrow> created_path (effects ! j) = Some p \<Longrightarrow> i = j"
  shows "creator_at (creator_trie effects) cs = Some (p, i) \<longleftrightarrow>
      i < length effects \<and> created_path (effects ! i) = Some p \<and> cs = split_on slash p"
proof -
  define xs where "xs = filter (\<lambda>(i, e). map_option (split_on slash) (created_path e) = Some cs) (indexed effects)"
  have mem: "(j, e) \<in> set xs \<longleftrightarrow> j < length effects \<and> e = effects ! j \<and>
      (\<exists>q. created_path e = Some q \<and> cs = split_on slash q)" for j e
    by (auto simp: xs_def in_set_indexed_iff)
  show ?thesis
  proof (cases "xs = []")
    case True
    with mem have "\<not> (i < length effects \<and> created_path (effects ! i) = Some p \<and> cs = split_on slash p)"
      by (metis list.set(1) emptyE)
    with True show ?thesis by (auto simp: creator_trie_at xs_def)
  next
    case False
    obtain j e where last: "last xs = (j, e)" by (cases "last xs")
    with False have "(j, e) \<in> set xs" by (metis last_in_set)
    then have j: "j < length effects" "e = effects ! j"
      and q: "\<exists>q. created_path e = Some q \<and> cs = split_on slash q" by (auto simp: mem)
    from q obtain q where q: "created_path e = Some q" "cs = split_on slash q" by blast
    have "creator_at (creator_trie effects) cs = Some (q, j)"
      using False last q by (auto simp: creator_trie_at xs_def split: list.split)
    then show ?thesis
      using j q unique by (auto simp: split_slash_eq)
  qed
qed

end
