(* ===== verification/CompilerMeaning.thy ===== *)
theory CompilerMeaning
  imports CompilerTries
begin

text \<open>
  What the compiler promises: a declarative notion of a well-formed specification, in which
  the effects, executed in order on the initial surface, lead to the final surface; and the
  lemmas that each of the thirteen phases decides one part of it.
\<close>

section \<open>Executing effects on a surface\<close>

type_synonym surface = "pystr \<rightharpoonup> path_state"

definition land :: "surface \<Rightarrow> occurrence \<Rightarrow> surface option" where
  "land fs occ = (if fs (occ_path occ) = Some (occ_pre occ)
     then Some (fs(occ_path occ \<mapsto> occ_post occ)) else None)"

fun land_all :: "surface \<Rightarrow> occurrence list \<Rightarrow> surface option" where
  "land_all fs [] = Some fs"
| "land_all fs (occ # occs) = (case land fs occ of None \<Rightarrow> None | Some fs' \<Rightarrow> land_all fs' occs)"

definition all_occurrences :: "effect list \<Rightarrow> occurrence list" where
  "all_occurrences effects = concat (map occurrences effects)"

text \<open>A path's own history: every occurrence starts where the one before it ended.\<close>

fun chained :: "path_state \<Rightarrow> (path_state \<times> path_state) list \<Rightarrow> path_state \<Rightarrow> bool" where
  "chained a [] b \<longleftrightarrow> a = b"
| "chained a ((pre, post) # xs) b \<longleftrightarrow> a = pre \<and> chained post xs b"

definition history :: "pystr \<Rightarrow> occurrence list \<Rightarrow> (path_state \<times> path_state) list" where
  "history p occs = map (\<lambda>occ. (occ_pre occ, occ_post occ)) (filter (\<lambda>occ. occ_path occ = p) occs)"

lemma history_simps [simp]: "history p [] = []"
  "history p (occ # occs) =
     (if occ_path occ = p then [(occ_pre occ, occ_post occ)] else []) @ history p occs"
  "history p (xs @ ys) = history p xs @ history p ys"
  by (auto simp: history_def)

lemma history_Nil_iff: "history p occs = [] \<longleftrightarrow> p \<notin> occ_path ` set occs"
  by (auto simp: history_def filter_empty_conv)

lemma land_all_iff:
  "land_all fs occs = Some fs' \<longleftrightarrow>
     (\<forall>p. case fs p of
            None \<Rightarrow> fs' p = None \<and> history p occs = []
          | Some a \<Rightarrow> \<exists>b. fs' p = Some b \<and> chained a (history p occs) b)"
proof (induction occs arbitrary: fs)
  case Nil
  show ?case by (auto simp: fun_eq_iff split: option.splits) (metis option.exhaust)
next
  case (Cons occ occs)
  show ?case
  proof (cases "fs (occ_path occ) = Some (occ_pre occ)")
    case True
    then show ?thesis
      by (auto simp: land_def Cons.IH split: option.splits if_splits)
  next
    case False
    then show ?thesis
      by (auto simp: land_def split: option.splits intro!: exI [of _ "occ_path occ"])
  qed
qed

section \<open>Timelines\<close>

lemma map_of_append_at:
  "map_of (append_at k v grouped) p =
     (if p = k then Some ((case map_of grouped k of None \<Rightarrow> [] | Some vs \<Rightarrow> vs) @ [v])
      else map_of grouped p)"
  by (induction grouped) auto

lemma keys_append_at:
  "map fst (append_at k v grouped) =
     (if k \<in> set (map fst grouped) then map fst grouped else map fst grouped @ [k])"
  by (induction grouped) (auto simp del: set_map)

lemma distinct_append_at:
  "distinct (map fst grouped) \<Longrightarrow> distinct (map fst (append_at k v grouped))"
  by (simp add: keys_append_at)

definition events_of :: "pystr \<Rightarrow> effect list \<Rightarrow> timeline_occurrence list" where
  "events_of p effects = map snd (filter (\<lambda>(q, _). q = p) (timeline_events effects))"

lemma group_occurrences_distinct: "distinct (map fst (group_occurrences effects))"
proof -
  have "distinct (map fst grouped) \<Longrightarrow>
      distinct (map fst (fold (\<lambda>(path, item). append_at path item) evs grouped))" for evs and grouped :: "(pystr \<times> timeline_occurrence list) list"
    by (induction evs arbitrary: grouped) (auto simp: distinct_append_at)
  then show ?thesis by (simp add: group_occurrences_def)
qed

lemma map_of_group_occurrences:
  "map_of (group_occurrences effects) p =
     (if events_of p effects = [] then None else Some (events_of p effects))"
proof -
  have "map_of (fold (\<lambda>(path, item). append_at path item) evs grouped) p =
      (let xs = map snd (filter (\<lambda>(q, _). q = p) evs) in
       case map_of grouped p of
         None \<Rightarrow> if xs = [] then None else Some xs
       | Some vs \<Rightarrow> Some (vs @ xs))" for evs and grouped :: "(pystr \<times> timeline_occurrence list) list"
    by (induction evs arbitrary: grouped) (auto simp: map_of_append_at Let_def split: option.splits if_splits)
  then show ?thesis by (simp add: group_occurrences_def events_of_def Let_def)
qed

lemma in_group_iff:
  "(p, items) \<in> set (group_occurrences effects) \<longleftrightarrow> items = events_of p effects \<and> items \<noteq> []"
  by (auto simp: map_of_eq_Some_iff [OF group_occurrences_distinct, symmetric] map_of_group_occurrences)

abbreviation tl_ends :: "timeline_occurrence \<Rightarrow> path_state \<times> path_state" where
  "tl_ends occ \<equiv> (tl_pre occ, tl_post occ)"

lemma events_history: "map tl_ends (events_of p effects) = history p (all_occurrences effects)"
proof -
  have "map tl_ends (map snd (filter (\<lambda>(q, _). q = p)
        (concat (map (\<lambda>(index, effect). map (\<lambda>occ. (occ_path occ,
              TimelineOccurrence (effect_id_of effect) index (occ_role occ) (occ_pre occ) (occ_post occ)))
         (occurrences effect)) ixs))))
      = history p (all_occurrences (map snd ixs))" for ixs
    by (induction ixs) (auto simp: all_occurrences_def history_def filter_map comp_def)
  from this [of "indexed effects"] show ?thesis
    by (simp add: events_of_def timeline_events_def)
qed

lemma events_Nil_iff: "events_of p effects = [] \<longleftrightarrow> p \<notin> occ_path ` set (all_occurrences effects)"
  by (metis events_history history_Nil_iff map_is_Nil_conv)

lemma continuous_iff_chained:
  "items \<noteq> [] \<Longrightarrow> require_continuous items = Inr () \<and> tl_pre (hd items) = a \<and> tl_post (last items) = b
     \<longleftrightarrow> chained a (map tl_ends items) b"
proof (induction items arbitrary: a rule: require_continuous.induct)
  case (1 earlier later items)
  from "1.IH" [of "tl_pre later"] show ?case by (auto simp: guard_Inr_iff)
qed auto

lemma build_timelines_iff:
  "build_timelines effects = Inr tls \<longleftrightarrow>
     (\<forall>p. require_continuous (events_of p effects) = Inr ()) \<and>
     tls = map (\<lambda>(p, items). PathTimeline p items) (sort_key fst (group_occurrences effects))"
proof -
  let ?step = "\<lambda>(path, items). andthen (require_continuous items) (Inr (PathTimeline path items))"
  have step: "?step x = Inr y \<longleftrightarrow>
      require_continuous (snd x) = Inr () \<and> y = PathTimeline (fst x) (snd x)" for x y
    by (cases x) (auto simp: bindr_Inr_iff)
  have "traverse ?step xs = Inr tls \<longleftrightarrow>
      (\<forall>(p, items) \<in> set xs. require_continuous items = Inr ()) \<and>
      tls = map (\<lambda>(p, items). PathTimeline p items) xs" for xs
    by (induction xs arbitrary: tls) (auto simp: bindr_Inr_iff step)
  moreover have "(\<forall>(p, items) \<in> set (group_occurrences effects). require_continuous items = Inr ())
      \<longleftrightarrow> (\<forall>p. require_continuous (events_of p effects) = Inr ())"
  proof -
    have "(\<forall>(p, items) \<in> set (group_occurrences effects). require_continuous items = Inr ())
        \<longleftrightarrow> (\<forall>p items. (p, items) \<in> set (group_occurrences effects) \<longrightarrow> require_continuous items = Inr ())"
      by blast
    also have "\<dots> \<longleftrightarrow> (\<forall>p. events_of p effects \<noteq> [] \<longrightarrow> require_continuous (events_of p effects) = Inr ())"
      unfolding in_group_iff by blast
    finally show ?thesis by (metis require_continuous.simps(2))
  qed
  ultimately show ?thesis
    unfolding build_timelines_def by (simp add: case_prod_unfold)
qed

lemma timelines_of_build:
  assumes "build_timelines effects = Inr tls"
  shows "PathTimeline p items \<in> set tls \<longleftrightarrow> items = events_of p effects \<and> items \<noteq> []"
    and "timeline_path ` set tls = occ_path ` set (all_occurrences effects)"
proof -
  from assms have tls: "set tls = (\<lambda>(p, items). PathTimeline p items) ` set (group_occurrences effects)"
    by (auto simp: build_timelines_iff)
  show *: "PathTimeline p items \<in> set tls \<longleftrightarrow> items = events_of p effects \<and> items \<noteq> []" for p items
    by (auto simp: tls in_group_iff)
  show "timeline_path ` set tls = occ_path ` set (all_occurrences effects)"
  proof (intro set_eqI iffI)
    fix q assume "q \<in> timeline_path ` set tls"
    then obtain items where "PathTimeline q items \<in> set tls"
      by (auto simp: image_iff) (metis path_timeline.collapse)
    then show "q \<in> occ_path ` set (all_occurrences effects)"
      using events_Nil_iff [of q effects] by (auto simp: *)
  next
    fix q assume "q \<in> occ_path ` set (all_occurrences effects)"
    then have "PathTimeline q (events_of q effects) \<in> set tls"
      by (simp add: * events_Nil_iff)
    then show "q \<in> timeline_path ` set tls" by force
  qed
qed

section \<open>Phases 8, 10 and 11\<close>

lemma update_fresh: "k \<notin> fst ` set al \<Longrightarrow> AList.update k v al = al @ [(k, v)]"
  by (induction al) auto

abbreviation entry_pair :: "surface_entry \<Rightarrow> pystr \<times> path_state" where
  "entry_pair e \<equiv> (entry_path e, entry_state e)"

lemma surface_map_distinct:
  assumes "distinct (map entry_path entries)"
  shows "surface_map entries = map entry_pair entries"
proof -
  have "distinct (map fst acc @ map entry_path entries) \<Longrightarrow>
      fold (\<lambda>entry. AList.update (entry_path entry) (entry_state entry)) entries acc
        = acc @ map entry_pair entries" for acc
    by (induction entries arbitrary: acc) (auto simp: update_fresh)
  from this [of "[]"] assms show ?thesis by (simp add: surface_map_def)
qed

text \<open>The surfaces cover the touched paths, and running the effects joins them.\<close>

definition joins :: "(pystr \<times> path_state) list \<Rightarrow> effect list \<Rightarrow> (pystr \<times> path_state) list \<Rightarrow> bool" where
  "joins initial effects final \<longleftrightarrow>
     fst ` set initial = occ_path ` set (all_occurrences effects) \<and>
     fst ` set final = occ_path ` set (all_occurrences effects) \<and>
     land_all (map_of initial) (all_occurrences effects) = Some (map_of final)"

lemma phase10_iff: "phase10_coverage tls initial final = Inr () \<longleftrightarrow>
    fst ` set initial = timeline_path ` set tls \<and> fst ` set final = timeline_path ` set tls"
  by (auto simp: phase10_coverage_def covers_surface_def bindr_Inr_iff guard_Inr_iff)

lemma endpoints_match_iff:
  "items \<noteq> [] \<Longrightarrow> endpoints_match initial final (PathTimeline p items) = Inr () \<longleftrightarrow>
     map_of initial p = Some (tl_pre (hd items)) \<and> map_of final p = Some (tl_post (last items))"
  by (auto simp: endpoints_match_def bindr_Inr_iff guard_Inr_iff index_or_def lookup_or_Inr_iff hd_conv_nth)

lemma joins_iff:
  "(\<exists>tls. build_timelines effects = Inr tls \<and> phase10_coverage tls initial final = Inr () \<and>
          phase11_endpoints tls initial final = Inr ()) \<longleftrightarrow> joins initial effects final"
  (is "?l \<longleftrightarrow> _")
proof -
  let ?P = "occ_path ` set (all_occurrences effects)"
  have ends: "require_continuous (events_of p effects) = Inr () \<and>
      map_of initial p = Some (tl_pre (hd (events_of p effects))) \<and>
      map_of final p = Some (tl_post (last (events_of p effects))) \<longleftrightarrow>
      (\<exists>a b. map_of initial p = Some a \<and> map_of final p = Some b \<and>
         chained a (history p (all_occurrences effects)) b)" if "p \<in> ?P" for p
  proof -
    have "events_of p effects \<noteq> []" using that by (simp add: events_Nil_iff)
    from continuous_iff_chained [OF this] show ?thesis unfolding events_history by metis
  qed
  have "?l \<longleftrightarrow> fst ` set initial = ?P \<and> fst ` set final = ?P \<and>
      (\<forall>p \<in> ?P. require_continuous (events_of p effects) = Inr () \<and>
        map_of initial p = Some (tl_pre (hd (events_of p effects))) \<and>
        map_of final p = Some (tl_post (last (events_of p effects))))"
  proof -
    have cont: "(\<exists>tls. build_timelines effects = Inr tls) \<longleftrightarrow>
        (\<forall>p \<in> ?P. require_continuous (events_of p effects) = Inr ())"
      unfolding build_timelines_iff by (metis events_Nil_iff require_continuous.simps(2))
    have surfaces: "phase10_coverage tls initial final = Inr () \<and> phase11_endpoints tls initial final = Inr () \<longleftrightarrow>
        fst ` set initial = ?P \<and> fst ` set final = ?P \<and>
        (\<forall>p \<in> ?P. map_of initial p = Some (tl_pre (hd (events_of p effects))) \<and>
           map_of final p = Some (tl_post (last (events_of p effects))))"
      if "build_timelines effects = Inr tls" for tls
    proof -
      note tl = timelines_of_build [OF that]
      have "phase11_endpoints tls initial final = Inr () \<longleftrightarrow>
          (\<forall>p items. PathTimeline p items \<in> set tls \<longrightarrow>
             endpoints_match initial final (PathTimeline p items) = Inr ())"
        unfolding phase11_endpoints_def for_each_Inr_iff by (metis path_timeline.exhaust)
      also have "\<dots> \<longleftrightarrow> (\<forall>p \<in> ?P. map_of initial p = Some (tl_pre (hd (events_of p effects))) \<and>
           map_of final p = Some (tl_post (last (events_of p effects))))"
        by (auto simp: tl(1) endpoints_match_iff events_Nil_iff)
      finally show ?thesis by (auto simp: phase10_iff tl(2))
    qed
    show ?thesis
    proof (cases "\<exists>tls. build_timelines effects = Inr tls")
      case True
      then obtain tls where tls: "build_timelines effects = Inr tls" by blast
      then have "?l \<longleftrightarrow>
          phase10_coverage tls initial final = Inr () \<and> phase11_endpoints tls initial final = Inr ()"
        by auto
      with surfaces [OF tls] cont True show ?thesis by simp
    next
      case False
      with cont show ?thesis by auto
    qed
  qed
  also have "\<dots> \<longleftrightarrow> joins initial effects final"
  proof -
    have point: "(case map_of initial p of
            None \<Rightarrow> map_of final p = None \<and> history p (all_occurrences effects) = []
          | Some a \<Rightarrow> \<exists>b. map_of final p = Some b \<and> chained a (history p (all_occurrences effects)) b)
        \<longleftrightarrow> (p \<in> ?P \<longrightarrow> (\<exists>a b. map_of initial p = Some a \<and> map_of final p = Some b \<and>
             chained a (history p (all_occurrences effects)) b))"
      if "fst ` set initial = ?P" "fst ` set final = ?P" for p
    proof (cases "p \<in> ?P")
      case True
      with that obtain a where "map_of initial p = Some a" by (metis map_of_eq_None_iff option.exhaust set_map)
      with True show ?thesis by auto
    next
      case False
      with that have "map_of initial p = None" "map_of final p = None"
        by (auto simp: map_of_eq_None_iff)
      with False show ?thesis by (auto simp: history_Nil_iff)
    qed
    have "joins initial effects final \<longleftrightarrow> fst ` set initial = ?P \<and> fst ` set final = ?P \<and>
        (\<forall>p. p \<in> ?P \<longrightarrow> (\<exists>a b. map_of initial p = Some a \<and> map_of final p = Some b \<and>
             chained a (history p (all_occurrences effects)) b))"
      unfolding joins_def land_all_iff by (intro conj_cong refl arg_cong [where f = All] ext) (rule point)
    then show ?thesis unfolding Ball_def by (simp only: ends cong: conj_cong imp_cong)
  qed
  finally show ?thesis .
qed

end
