(* ===== verification/Examples.thy ===== *)
theory Examples
  imports Compiler
begin

text \<open>
  A concrete transaction on which the properties are instantiated: create a directory
  \<open>a\<close>, create a file \<open>a/b\<close> in it and replace the file \<open>c\<close>. The Unicode tables are
  the identity, which is what they are on ASCII text without capitals.
\<close>

definition plain_tables :: unicode_tables where
  "plain_tables = \<lparr>normalize_nfc = (\<lambda>s. s), normalize_nfd = (\<lambda>s. s), casefold = (\<lambda>s. s)\<rparr>"

definition digest_of :: "nat \<Rightarrow> pystr" where
  "digest_of c = py ''sha256:'' @ replicate 64 c"

definition file_b :: path_state where "file_b = FileState (digest_of 97) 420 5"
definition old_c :: path_state where "old_c = FileState (digest_of 98) 420 6"
definition new_c :: path_state where "new_c = FileState (digest_of 99) 420 7"
definition dir_a :: path_state where "dir_a = DirectoryState 493"

definition example_effects :: "effect list" where
  "example_effects =
     [CreateDirectory (py ''e0'') (py ''a'') dir_a,
      CreateFileNoClobber (py ''e1'') (py ''a/b'') file_b,
      ReplaceFile (py ''e2'') (py ''c'') old_c new_c]"

definition example_spec :: transaction_spec where
  "example_spec =
     build_spec (py ''tool'') (digest_of 48)
       [(py ''c'', old_c), (py ''a'', AbsentState), (py ''a/b'', AbsentState)]
       [(py ''a'', dir_a), (py ''a/b'', file_b), (py ''c'', new_c)]
       example_effects [(py ''e0'', py ''e1'')] None [py ''a/b'']"

text \<open>The same transaction with its surfaces and dependencies written in another order.\<close>

definition shuffled_spec :: transaction_spec where
  "shuffled_spec = example_spec\<lparr>
     initial_surface := rev (initial_surface example_spec),
     final_surface := rev (final_surface example_spec)\<rparr>"

definition example_compiled :: compiled_spec where
  "example_compiled = \<lparr>compiled_of = canonicalize example_spec,
     timelines =
       [PathTimeline (py ''a'') [TimelineOccurrence (py ''e0'') 0 Role_target AbsentState dir_a],
        PathTimeline (py ''a/b'') [TimelineOccurrence (py ''e1'') 1 Role_target AbsentState file_b],
        PathTimeline (py ''c'') [TimelineOccurrence (py ''e2'') 2 Role_target old_c new_c]]\<rparr>"

lemma example_compiles: "compile_spec plain_tables example_spec = Inr example_compiled"
  by code_simp

text \<open>A creation of the absent state: phase 1 lets it through.\<close>

definition absent_creation_spec :: transaction_spec where
  "absent_creation_spec =
     build_spec (py ''tool'') (digest_of 48) [(py ''a'', AbsentState)] [(py ''a'', AbsentState)]
       [CreateDirectory (py ''e0'') (py ''a'') AbsentState] [] None []"

end
