(* ===== verification/CompilerCorrect.thy ===== *)
theory CompilerCorrect
  imports CompilerMeaning Examples "HOL-Library.Multiset"
begin

text \<open>
  The compiler is correct: it accepts exactly the well-formed specifications, and what it
  returns does not depend on the order in which the surfaces and dependencies were written.
\<close>

section \<open>Well-formed specifications\<close>

fun fingerprint_ok :: "path_state \<Rightarrow> bool" where
  "fingerprint_ok AbsentState \<longleftrightarrow> True"
| "fingerprint_ok (FileState hash mode len) \<longleftrightarrow>
     is_sha256_digest hash \<and> 0 \<le> len \<and> len < 2 ^ 63 \<and>
     (hash = EMPTY_CONTENT_HASH \<longleftrightarrow> len = 0) \<and> 0 \<le> mode \<and> mode < 2 ^ 12"
| "fingerprint_ok (DirectoryState mode) \<longleftrightarrow> 0 \<le> mode \<and> mode < 2 ^ 12"
| "fingerprint_ok (SymlinkState target mode) \<longleftrightarrow>
     target \<noteq> [] \<and> utf8_encodable target \<and> 0 \<notin> set target \<and> 0 \<le> mode \<and> mode < 2 ^ 12"

text \<open>A path: components that are neither empty, a dot, nor an alias of the scratch sigil.\<close>

definition path_ok :: "unicode_tables \<Rightarrow> pystr \<Rightarrow> bool" where
  "path_ok u path \<longleftrightarrow> 0 \<notin> set path \<and> utf8_encodable path \<and>
     (\<forall>component \<in> set (split_on slash path).
        component \<notin> {[], py ''.'', py ''..''} \<and> \<not> aliases_scratch_sigil u component)"

text \<open>What an effect may do: the kinds of its states, and the owner's permission bits.\<close>

fun effect_ok :: "effect \<Rightarrow> bool" where
  "effect_ok (ReplaceFile i _ pre post) \<longleftrightarrow> is_valid_identifier i \<and> kind_of pre = Kind_FILE \<and>
     (\<exists>mode \<in> {mode. mode_of post = Inr mode}. kind_of post = Kind_FILE \<and> bit mode 8)"
| "effect_ok (CreateFileNoClobber i _ post) \<longleftrightarrow> is_valid_identifier i \<and>
     (\<exists>mode \<in> {mode. mode_of post = Inr mode}. kind_of post = Kind_FILE \<and> bit mode 8)"
| "effect_ok (DeletePath i _ pre) \<longleftrightarrow> is_valid_identifier i \<and> kind_of pre \<in> {Kind_FILE, Kind_SYMLINK}"
| "effect_ok (MoveNoClobber i source destination pre) \<longleftrightarrow> is_valid_identifier i \<and>
     kind_of pre = Kind_FILE \<and> source \<noteq> destination"
| "effect_ok (CreateDirectory i _ post) \<longleftrightarrow> is_valid_identifier i \<and>
     (\<exists>mode \<in> {mode. mode_of post = Inr mode}. kind_of post = Kind_DIRECTORY \<and>
        bit mode 6 \<and> bit mode 7 \<and> bit mode 8)"

definition ordered_in :: "effect list \<Rightarrow> dependency \<Rightarrow> bool" where
  "ordered_in effects dep \<longleftrightarrow> (\<exists>i j. i < j \<and> j < length effects \<and>
     effect_id_of (effects ! i) = dep_before dep \<and> effect_id_of (effects ! j) = dep_after dep)"

text \<open>A directory is created before anything is done strictly beneath it.\<close>

definition creators_first :: "effect list \<Rightarrow> bool" where
  "creators_first effects \<longleftrightarrow>
     (\<forall>i < length effects. \<forall>j < length effects. \<forall>occ \<in> set (occurrences (effects ! i)). \<forall>p.
        created_path (effects ! j) = Some p \<and>
        strict_prefix (split_on slash p) (split_on slash (occ_path occ)) \<longrightarrow> j < i)"

abbreviation pairs :: "surface_entry list \<Rightarrow> (pystr \<times> path_state) list" where
  "pairs entries \<equiv> map entry_pair entries"

text \<open>
  What a specification must be for the code to accept it. The dependencies only have to be
  distinct and to agree with the order of the effects; the sentence of \<open>docs/records.md\<close> that
  effects on one path, or on a path and its ancestor, must be ordered by explicit
  dependencies has no counterpart in \<open>compiler.py\<close>, and none here.
\<close>

definition well_formed :: "unicode_tables \<Rightarrow> transaction_spec \<Rightarrow> bool" where
  "well_formed u spec \<longleftrightarrow>
     schema_version spec = 2 \<and> is_valid_identifier (consumer_tag spec) \<and>
     is_sha256_digest (intent_digest spec) \<and> spec_effects spec \<noteq> [] \<and>
     (\<forall>state \<in> set (every_state spec). fingerprint_ok state) \<and>
     (\<forall>path \<in> set (declared_paths spec). path_ok u path) \<and>
     inj_on (portability_equivalence_key u) (set (declared_paths spec)) \<and>
     (\<forall>effect \<in> set (spec_effects spec). effect_ok effect) \<and>
     distinct (map (\<lambda>effect. portability_equivalence_key u (effect_id_of effect)) (spec_effects spec)) \<and>
     distinct (dependencies spec) \<and>
     (\<forall>dep \<in> set (dependencies spec). ordered_in (spec_effects spec) dep) \<and>
     distinct (map entry_path (initial_surface spec)) \<and>
     distinct (map entry_path (final_surface spec)) \<and>
     (\<forall>digest \<in> set_option (fulfills spec). is_hex_digest digest) \<and>
     sorted (registered_paths spec) \<and> distinct (registered_paths spec) \<and>
     set (registered_paths spec) \<subseteq> entry_path ` set (initial_surface spec @ final_surface spec) \<and>
     joins (pairs (initial_surface spec)) (spec_effects spec) (pairs (final_surface spec)) \<and>
     tree_shaped (pairs (initial_surface spec)) \<and> tree_shaped (pairs (final_surface spec)) \<and>
     creators_first (spec_effects spec)"

section \<open>Phases 1 to 5\<close>

lemma require_valid_identifier_iff [result_simps]:
  "require_valid_identifier i = Inr j \<longleftrightarrow> is_valid_identifier i \<and> j = i"
  by (auto simp: require_valid_identifier_def guard_Inr_iff)

lemma phase1_iff: "phase1_structure spec = Inr () \<longleftrightarrow>
    schema_version spec = 2 \<and> is_valid_identifier (consumer_tag spec) \<and>
    is_sha256_digest (intent_digest spec) \<and> spec_effects spec \<noteq> []"
  by (auto simp: phase1_structure_def result_simps SCHEMA_VERSION_def)

lemma require_fingerprint_iff: "require_fingerprint state = Inr () \<longleftrightarrow> fingerprint_ok state"
  by (cases state) (auto simp: result_simps require_mode_def MAX_MODE_def MAX_SQLITE_INTEGER_def)

lemma and_eq_mask: "(m :: int) AND k = k \<longleftrightarrow> (\<forall>n. bit k n \<longrightarrow> bit m n)"
  by (auto simp: bit_eq_iff bit_and_iff)

lemma bit_448: "bit (448 :: int) n \<longleftrightarrow> n = 6 \<or> n = 7 \<or> n = 8"
proof -
  have "(448 :: int) = push_bit 6 (mask 3)"
    by (simp add: push_bit_eq_mult mask_eq_exp_minus_1)
  then have "bit (448 :: int) n = bit (push_bit 6 (mask 3 :: int)) n"
    by (rule arg_cong)
  also have "\<dots> \<longleftrightarrow> 6 \<le> n \<and> n - 6 < 3"
    by (simp only: bit_push_bit_iff bit_mask_iff) auto
  also have "\<dots> \<longleftrightarrow> n = 6 \<or> n = 7 \<or> n = 8"
    by arith
  finally show ?thesis .
qed

lemma owner_bits_448: "(m :: int) AND 448 = 448 \<longleftrightarrow> bit m 6 \<and> bit m 7 \<and> bit m 8"
  unfolding and_eq_mask bit_448 by blast

lemma bit_256: "bit (256 :: int) n \<longleftrightarrow> n = 8"
  using bit_exp_iff [where 'a = int, of 8 n] by simp

lemma owner_bits_256: "(m :: int) AND 256 = 256 \<longleftrightarrow> bit m 8"
  unfolding and_eq_mask bit_256 by blast

lemma require_component_iff: "require_component u c = Inr () \<longleftrightarrow>
    c \<notin> {[], py ''.'', py ''..''} \<and> \<not> aliases_scratch_sigil u c"
  by (auto simp: require_component_def guard_Inr_iff)

lemma split_hd: "starts_with [c] xs \<Longrightarrow> [] \<in> set (split_on c xs)"
  by (cases xs) (auto simp: starts_with_def)

lemma split_on_snoc: "split_on c (xs @ [c]) = split_on c xs @ [[]]"
  by (induction xs) (auto split: list.splits)

lemma split_last: "xs \<noteq> [] \<Longrightarrow> last xs = c \<Longrightarrow> [] \<in> set (split_on c xs)"
  by (cases xs rule: rev_cases) (auto simp: split_on_snoc)

lemma require_rel_path_iff: "require_rel_path u p = Inr q \<longleftrightarrow> q = p \<and> path_ok u p"
proof -
  have "p \<noteq> [] \<and> \<not> starts_with [slash] p \<and> last p \<noteq> slash" if "[] \<notin> set (split_on slash p)"
    using that split_hd [of slash p] split_last [of p slash] by (cases "p = []") auto
  then show ?thesis
    by (auto simp: require_rel_path_def path_ok_def result_simps require_component_iff)
qed

lemma phase3_iff: "phase3_path_grammar u spec = Inr () \<longleftrightarrow>
    (\<forall>path \<in> set (declared_paths spec). path_ok u path)"
  by (auto simp: phase3_path_grammar_def result_simps require_rel_path_iff)

lemma inj_on_insert_iff:
  "inj_on f (insert x A) \<longleftrightarrow> inj_on f A \<and> (\<forall>y \<in> A. f y = f x \<longrightarrow> x = y)"
  by (auto simp: inj_on_def)

lemma claim_key_run:
  assumes "\<forall>k v. seen k = Some v \<longrightarrow> key v = k"
  shows "(\<exists>seen'. foldr_r (claim_key key fault) seen xs = Inr seen') \<longleftrightarrow>
    inj_on key (set xs) \<and> (\<forall>x \<in> set xs. \<forall>v. seen (key x) = Some v \<longrightarrow> v = x)"
  using assms
proof (induction xs arbitrary: seen)
  case (Cons x xs)
  show ?case
  proof (cases "seen (key x)")
    case None
    with Cons.prems have "\<forall>k v. (seen(key x \<mapsto> x)) k = Some v \<longrightarrow> key v = k" by auto
    note IH = Cons.IH [OF this]
    have run: "foldr_r (claim_key key fault) seen (x # xs)
        = foldr_r (claim_key key fault) (seen(key x \<mapsto> x)) xs"
      using None by (simp add: claim_key_def)
    have "(\<forall>y \<in> set xs. \<forall>v. (seen(key x \<mapsto> x)) (key y) = Some v \<longrightarrow> v = y) \<longleftrightarrow>
        (\<forall>y \<in> set xs. key y = key x \<longrightarrow> x = y) \<and> (\<forall>y \<in> set xs. \<forall>v. seen (key y) = Some v \<longrightarrow> v = y)"
      using None by (auto split: if_splits)
    then show ?thesis
      unfolding run IH list.set inj_on_insert_iff using None by auto
  next
    case (Some v)
    show ?thesis
    proof (cases "v = x")
      case True
      with Some have run: "foldr_r (claim_key key fault) seen (x # xs) = foldr_r (claim_key key fault) seen xs"
        by (simp add: claim_key_def)
      have "\<forall>y \<in> set xs. key y = key x \<longrightarrow> x = y"
        if *: "\<forall>y \<in> set xs. \<forall>v. seen (key y) = Some v \<longrightarrow> v = y"
      proof (intro ballI impI)
        fix y assume "y \<in> set xs" "key y = key x"
        with * Some True show "x = y" by simp
      qed
      moreover have "\<forall>v. seen (key x) = Some v \<longrightarrow> v = x"
        using Some True by simp
      ultimately show ?thesis
        unfolding run Cons.IH [OF Cons.prems] list.set inj_on_insert_iff by blast
    next
      case False
      with Some show ?thesis by (auto simp: claim_key_def)
    qed
  qed
qed simp

lemma phase4_iff: "phase4_alias_distinctness u spec = Inr () \<longleftrightarrow>
    inj_on (portability_equivalence_key u) (set (declared_paths spec))"
  using claim_key_run [of Map.empty "portability_equivalence_key u" PathsAlias]
  by (simp add: phase4_alias_distinctness_def bindr_Inr_iff)

lemma phase2_5_iff:
  "phase2_fingerprints spec = Inr () \<and> phase5_variant_shapes spec = Inr () \<longleftrightarrow>
     (\<forall>state \<in> set (every_state spec). fingerprint_ok state) \<and>
     (\<forall>effect \<in> set (spec_effects spec). effect_ok effect)"
proof -
  have "require_owner_bits e = Inr () \<and> require_variant_shape e = Inr () \<longleftrightarrow> effect_ok e" for e
    by (cases e) (auto simp: require_variant_shape_def result_simps owner_bits_448 owner_bits_256)
  then show ?thesis
    by (auto simp: phase2_fingerprints_def phase5_variant_shapes_def result_simps require_fingerprint_iff)
qed

section \<open>Phases 6 to 9\<close>

lemma claim_effect_id_run:
  assumes "\<forall>k v. first_by_key k = Some v \<longrightarrow> portability_equivalence_key u v = k"
    and "ran first_by_key = exact_seen"
  shows "(\<exists>st. foldr_r (claim_effect_id u) (exact_seen, first_by_key) effects = Inr st) \<longleftrightarrow>
    distinct (map (\<lambda>e. portability_equivalence_key u (effect_id_of e)) effects) \<and>
    (\<forall>e \<in> set effects. first_by_key (portability_equivalence_key u (effect_id_of e)) = None)"
  using assms
proof (induction effects arbitrary: exact_seen first_by_key)
  case (Cons e effects)
  let ?id = "effect_id_of e" and ?k = "portability_equivalence_key u (effect_id_of e)"
  show ?case
  proof (cases "first_by_key ?k")
    case None
    then have "?id \<notin> exact_seen"
      using Cons.prems by (auto simp: ran_def)
    moreover have "ran (first_by_key(?k \<mapsto> ?id)) = insert ?id exact_seen"
      using None Cons.prems(2) by (simp add: ran_map_upd)
    moreover have "\<forall>k v. (first_by_key(?k \<mapsto> ?id)) k = Some v \<longrightarrow> portability_equivalence_key u v = k"
      using Cons.prems(1) by auto
    ultimately have IH: "(\<exists>st. foldr_r (claim_effect_id u) (insert ?id exact_seen, first_by_key(?k \<mapsto> ?id)) effects = Inr st)
      \<longleftrightarrow> distinct (map (\<lambda>e. portability_equivalence_key u (effect_id_of e)) effects) \<and>
        (\<forall>e \<in> set effects. (first_by_key(?k \<mapsto> ?id)) (portability_equivalence_key u (effect_id_of e)) = None)"
      using Cons.IH by blast
    have "foldr_r (claim_effect_id u) (exact_seen, first_by_key) (e # effects)
        = foldr_r (claim_effect_id u) (insert ?id exact_seen, first_by_key(?k \<mapsto> ?id)) effects"
      using None \<open>?id \<notin> exact_seen\<close> by (simp add: claim_effect_id_def claim_key_def)
    then show ?thesis
      using None by (simp only: IH) (auto simp: image_iff split: if_splits)
  next
    case (Some v)
    with Cons.prems(2) have "v \<in> exact_seen" by (auto simp: ran_def)
    with Some have "\<not> okay (claim_effect_id u (exact_seen, first_by_key) e)"
      by (auto simp: claim_effect_id_def claim_key_def guard_def)
    with Some show ?thesis by (auto simp: okay_def bindr_Inr_iff)
  qed
qed simp

lemma phase6_iff: "phase6_unique_effect_ids u spec = Inr () \<longleftrightarrow>
    distinct (map (\<lambda>effect. portability_equivalence_key u (effect_id_of effect)) (spec_effects spec))"
  using claim_effect_id_run [of Map.empty u "{}" "spec_effects spec"]
  by (simp add: phase6_unique_effect_ids_def bindr_Inr_iff)

abbreviation dep_pair :: "dependency \<Rightarrow> pystr \<times> pystr" where
  "dep_pair dep \<equiv> (dep_before dep, dep_after dep)"

lemma claim_dependency_run:
  "(\<exists>seen'. foldr_r (claim_dependency order) seen deps = Inr seen') \<longleftrightarrow>
     distinct deps \<and> (\<forall>dep \<in> set deps. dep_pair dep \<notin> seen \<and>
       (\<exists>i j. order (dep_before dep) = Some i \<and> order (dep_after dep) = Some j \<and> i < j))"
proof (induction deps arbitrary: seen)
  case (Cons dep deps)
  have step: "claim_dependency order seen dep = Inr seen' \<longleftrightarrow>
      seen' = insert (dep_pair dep) seen \<and> dep_pair dep \<notin> seen \<and>
      (\<exists>i j. order (dep_before dep) = Some i \<and> order (dep_after dep) = Some j \<and> i < j)" for seen'
    by (auto simp: claim_dependency_def result_simps)
  have same: "dep_before d = dep_before dep \<and> dep_after d = dep_after dep \<longleftrightarrow> d = dep" for d
    by (auto intro: dependency.expand)
  show ?case
    by (simp add: bindr_Inr_iff step Cons.IH same) blast
qed simp

lemma effect_order_iff:
  assumes "distinct (map effect_id_of effects)"
  shows "effect_order effects i = Some n \<longleftrightarrow> n < length effects \<and> effect_id_of (effects ! n) = i"
proof -
  let ?f = "\<lambda>(index, effect). (effect_id_of effect, index)"
  have "map fst (map ?f (indexed effects)) = map effect_id_of (map snd (indexed effects))"
    by (simp add: case_prod_unfold comp_def del: map_snd_indexed)
  with assms have "distinct (map fst (map ?f (indexed effects)))"
    by simp
  then have "effect_order effects i = Some n \<longleftrightarrow> (i, n) \<in> set (map ?f (indexed effects))"
    unfolding effect_order_def by (rule dict_of_Some)
  also have "\<dots> \<longleftrightarrow> (\<exists>e. (n, e) \<in> set (indexed effects) \<and> effect_id_of e = i)"
    by force
  finally show ?thesis by (simp add: in_set_indexed_iff)
qed

lemma phase7_iff:
  assumes "distinct (map effect_id_of (spec_effects spec))"
  shows "phase7_dependencies spec = Inr () \<longleftrightarrow>
    distinct (dependencies spec) \<and> (\<forall>dep \<in> set (dependencies spec). ordered_in (spec_effects spec) dep)"
  using claim_dependency_run [of "effect_order (spec_effects spec)" "{}" "dependencies spec"]
  by (auto simp: phase7_dependencies_def bindr_Inr_iff ordered_in_def effect_order_iff [OF assms])
    (meson less_trans)+

lemma claim_path_run:
  "(\<exists>seen'. foldr_r claim_path seen entries = Inr seen') \<longleftrightarrow>
     distinct (map entry_path entries) \<and> seen \<inter> entry_path ` set entries = {}"
proof (induction entries arbitrary: seen)
  case (Cons e entries)
  from Cons.IH [of "insert (entry_path e) seen"] show ?case
    by (auto simp: claim_path_def bindr_Inr_iff guard_Inr_iff)
qed simp

lemma phase8_iff: "phase8_surface_shape spec = Inr () \<longleftrightarrow>
    distinct (map entry_path (initial_surface spec)) \<and> distinct (map entry_path (final_surface spec))"
  using claim_path_run [of "{}" "initial_surface spec"] claim_path_run [of "{}" "final_surface spec"]
  by (simp add: phase8_surface_shape_def bindr_Inr_iff)

lemma phase9_iff: "phase9_registration spec = Inr () \<longleftrightarrow>
    (\<forall>digest \<in> set_option (fulfills spec). is_hex_digest digest) \<and>
    sorted (registered_paths spec) \<and> distinct (registered_paths spec) \<and>
    set (registered_paths spec) \<subseteq> entry_path ` set (initial_surface spec @ final_surface spec)"
proof -
  have "length (remdups xs) = length xs \<longleftrightarrow> distinct xs" for xs :: "pystr list"
    by (metis length_remdups_eq remdups_id_iff_distinct)
  then show ?thesis
    by (auto simp: phase9_registration_def validate_v2_members_def guard_Inr_iff
          sort_eq_iff_sorted [symmetric] image_Un split: option.splits)
qed

section \<open>Phases 12 and 13\<close>

lemma chained_append: "chained a (xs @ ys) b \<longleftrightarrow> (\<exists>c. chained a xs c \<and> chained c ys b)"
  by (induction xs arbitrary: a) auto

lemma chained_hd: "chained a (x # xs) b \<Longrightarrow> a = fst x"
  by (cases x) simp

lemma all_occurrences_append [simp]:
  "all_occurrences (xs @ ys) = all_occurrences xs @ all_occurrences ys"
  "all_occurrences (e # ys) = occurrences e @ all_occurrences ys"
  by (simp_all add: all_occurrences_def)

lemma effect_ok_pre: "effect_ok e \<Longrightarrow> occ \<in> set (occurrences e) \<Longrightarrow> kind_of (occ_pre occ) \<noteq> Kind_DIRECTORY"
  by (cases e) auto

lemma history_pre_no_directory:
  assumes "\<forall>e \<in> set effects. effect_ok e" and "x \<in> set (history p (all_occurrences effects))"
  shows "kind_of (fst x) \<noteq> Kind_DIRECTORY"
  using assms effect_ok_pre by (fastforce simp: history_def all_occurrences_def)

lemma creation_history:
  "effect_ok e \<Longrightarrow> created_path e = Some p \<Longrightarrow>
     \<exists>post. history p (occurrences e) = [(AbsentState, post)] \<and> kind_of post = Kind_DIRECTORY"
  by (cases e) auto

text \<open>Nothing a specification does can follow the creation of a directory, so no directory
  is created twice.\<close>

lemma created_once:
  assumes ok: "\<forall>e \<in> set effects. effect_ok e" and joins: "joins initial effects final"
    and ij: "i < j" "j < length effects"
    and created: "created_path (effects ! i) = Some p" "created_path (effects ! j) = Some p"
  shows False
proof -
  define ys where "ys = take (j - Suc i) (drop (Suc i) effects)"
  have "drop (Suc i) effects = ys @ effects ! j # drop (Suc j) effects"
    using ij unfolding ys_def
    by (metis (no_types) Cons_nth_drop_Suc Suc_leI append_take_drop_id drop_drop le_add_diff_inverse2)
  then have effects: "effects = take i effects @ effects ! i # ys @ effects ! j # drop (Suc j) effects"
    using ij by (metis id_take_nth_drop less_trans)
  from ok ij have "effect_ok (effects ! i)" "effect_ok (effects ! j)" by auto
  from creation_history [OF this(1) created(1)] creation_history [OF this(2) created(2)]
  obtain d d' where h: "history p (occurrences (effects ! i)) = [(AbsentState, d)]"
      "history p (occurrences (effects ! j)) = [(AbsentState, d')]" "kind_of d = Kind_DIRECTORY"
    by blast
  define rest where "rest = history p (all_occurrences ys) @ (AbsentState, d') # history p (all_occurrences (drop (Suc j) effects))"
  have history: "history p (all_occurrences effects)
      = history p (all_occurrences (take i effects)) @ (AbsentState, d) # rest"
    by (subst effects) (simp add: h rest_def)
  have "history p (all_occurrences effects) \<noteq> []" by (simp add: history)
  with joins obtain a b where "chained a (history p (all_occurrences effects)) b"
    by (auto simp: joins_def land_all_iff split: option.splits)
      (metis (no_types, lifting) option.exhaust)
  then have chained: "chained d rest b"
    by (auto simp: history chained_append)
  obtain x xs where rest: "rest = x # xs" by (cases rest) (auto simp: rest_def)
  then have "x \<in> set (history p (all_occurrences effects))" by (simp add: history)
  from history_pre_no_directory [OF ok this] chained_hd [OF chained [unfolded rest]] h(3)
  show False by simp
qed

lemma prefix_butlast: "cs \<noteq> [] \<Longrightarrow> prefix ds (butlast cs) \<longleftrightarrow> strict_prefix ds cs"
  by (cases cs rule: rev_cases) (auto simp: strict_prefix_def)

lemma phase13_iff:
  assumes ok: "\<forall>e \<in> set (spec_effects spec). effect_ok e" and joins: "joins initial (spec_effects spec) final"
  shows "phase13_ancestor_ordering spec = Inr () \<longleftrightarrow> creators_first (spec_effects spec)"
proof -
  let ?es = "spec_effects spec"
  have unique: "i = j" if "i < length ?es" "j < length ?es" "created_path (?es ! i) = Some p"
      "created_path (?es ! j) = Some p" for i j p
    using created_once [OF ok joins, of i j p] created_once [OF ok joins, of j i p] that
    by (metis nat_neq_iff)
  have at: "creator_at (creator_trie ?es) cs = Some (p, j) \<longleftrightarrow>
      j < length ?es \<and> created_path (?es ! j) = Some p \<and> cs = split_on slash p" for cs p j
    using unique by (rule creator_trie_unique)
  have walk: "walk_creators i (creator_trie ?es) (butlast (split_on slash q)) = Inr () \<longleftrightarrow>
      (\<forall>p j. j < length ?es \<and> created_path (?es ! j) = Some p \<and>
        strict_prefix (split_on slash p) (split_on slash q) \<longrightarrow> j < i)" for i q
    unfolding walk_creators_iff at prefix_butlast [OF split_on_not_Nil]
  proof (intro iffI allI impI; elim conjE)
    fix p j
    assume *: "\<forall>d ds p j. strict_prefix (d # ds) (split_on slash q) \<and> j < length ?es \<and>
        created_path (?es ! j) = Some p \<and> d # ds = split_on slash p \<longrightarrow> j < i"
      and "j < length ?es" "created_path (?es ! j) = Some p"
        "strict_prefix (split_on slash p) (split_on slash q)"
    moreover obtain d ds where "split_on slash p = d # ds"
      by (metis list.exhaust split_on_not_Nil)
    ultimately show "j < i" by metis
  qed simp
  have loop: "for_each (\<lambda>(index, effect). for_each (\<lambda>occ.
          walk_creators index (creator_trie ?es) (butlast (split_on slash (occ_path occ))))
        (occurrences effect)) (indexed ?es) = Inr () \<longleftrightarrow> creators_first ?es"
    by (simp add: for_each_Inr_iff Ball_def split_paired_All in_set_indexed_iff walk creators_first_def)
      blast
  show ?thesis
  proof (cases "list_ex is_create_directory ?es")
    case True
    with loop show ?thesis by (simp add: phase13_ancestor_ordering_def)
  next
    case False
    then have "created_path (?es ! j) = None" if "j < length ?es" for j
      using that by (metis is_create_directory_iff list_ex_iff nth_mem)
    with False show ?thesis
      by (auto simp: phase13_ancestor_ordering_def creators_first_def)
  qed
qed

section \<open>The compiler\<close>

lemma distinct_ids:
  "distinct (map (\<lambda>e. key (effect_id_of e)) effects) \<Longrightarrow> distinct (map effect_id_of effects)"
  by (induction effects) auto

lemma compile_spec_iff:
  "compile_spec u spec = Inr c \<longleftrightarrow>
     well_formed u spec \<and> compiled_of c = canonicalize spec \<and>
     build_timelines (spec_effects spec) = Inr (timelines c)"
proof -
  let ?i = "pairs (initial_surface spec)" and ?f = "pairs (final_surface spec)" and ?es = "spec_effects spec"
  have run: "compile_spec u spec = Inr c \<longleftrightarrow>
      phase1_structure spec = Inr () \<and>
      (phase2_fingerprints spec = Inr () \<and> phase5_variant_shapes spec = Inr ()) \<and>
      phase3_path_grammar u spec = Inr () \<and> phase4_alias_distinctness u spec = Inr () \<and>
      phase6_unique_effect_ids u spec = Inr () \<and> phase7_dependencies spec = Inr () \<and>
      phase8_surface_shape spec = Inr () \<and> phase9_registration spec = Inr () \<and>
      (\<exists>tls. build_timelines ?es = Inr tls \<and>
         phase10_coverage tls (surface_map (initial_surface spec)) (surface_map (final_surface spec)) = Inr () \<and>
         phase11_endpoints tls (surface_map (initial_surface spec)) (surface_map (final_surface spec)) = Inr () \<and>
         phase12_surface_tree (surface_map (initial_surface spec)) = Inr () \<and>
         phase12_surface_tree (surface_map (final_surface spec)) = Inr () \<and>
         phase13_ancestor_ordering spec = Inr () \<and>
         c = \<lparr>compiled_of = canonicalize spec, timelines = tls\<rparr>)"
    by (auto simp: compile_spec_def bindr_Inr_iff Let_def)
  have maps: "surface_map (initial_surface spec) = ?i" "surface_map (final_surface spec) = ?f"
    if "distinct (map entry_path (initial_surface spec))" "distinct (map entry_path (final_surface spec))"
    using that by (simp_all add: surface_map_distinct)
  have trees: "phase12_surface_tree ?i = Inr () \<longleftrightarrow> tree_shaped ?i"
      "phase12_surface_tree ?f = Inr () \<longleftrightarrow> tree_shaped ?f"
    if "distinct (map entry_path (initial_surface spec))" "distinct (map entry_path (final_surface spec))"
    using that by (simp_all add: phase12_iff comp_def)
  note simple = phase1_iff phase2_5_iff phase3_iff phase4_iff phase6_iff phase8_iff phase9_iff
  show ?thesis
  proof
    assume l: "compile_spec u spec = Inr c"
    note l = l [unfolded run simple]
    from l have d: "distinct (map entry_path (initial_surface spec))" "distinct (map entry_path (final_surface spec))"
      and ok: "\<forall>e \<in> set ?es. effect_ok e" and ids: "distinct (map effect_id_of ?es)"
      by (auto dest: distinct_ids)
    note l = l [unfolded maps [OF d] trees [OF d] phase7_iff [OF ids]]
    from l have joins: "joins ?i ?es ?f" unfolding joins_iff [symmetric] by blast
    from l show "well_formed u spec \<and> compiled_of c = canonicalize spec \<and> build_timelines ?es = Inr (timelines c)"
      unfolding well_formed_def phase13_iff [OF ok joins] using joins by auto
  next
    assume r: "well_formed u spec \<and> compiled_of c = canonicalize spec \<and> build_timelines ?es = Inr (timelines c)"
    then have d: "distinct (map entry_path (initial_surface spec))" "distinct (map entry_path (final_surface spec))"
      and ok: "\<forall>e \<in> set ?es. effect_ok e" and ids: "distinct (map effect_id_of ?es)"
      and joins: "joins ?i ?es ?f"
      by (auto simp: well_formed_def dest: distinct_ids)
    from joins r have "phase10_coverage (timelines c) ?i ?f = Inr () \<and> phase11_endpoints (timelines c) ?i ?f = Inr ()"
      unfolding joins_iff [symmetric] by auto
    with r show "compile_spec u spec = Inr c"
      unfolding run simple maps [OF d] trees [OF d] phase7_iff [OF ids] phase13_iff [OF ok joins]
      by (auto simp: well_formed_def)
  qed
qed

lemma joins_build: "joins initial effects final \<Longrightarrow> \<exists>tls. build_timelines effects = Inr tls"
  unfolding joins_iff [symmetric] by blast

lemma compile_okay_iff: "okay (compile_spec u spec) \<longleftrightarrow> well_formed u spec"
proof -
  have "\<exists>c. compile_spec u spec = Inr c" if wf: "well_formed u spec"
  proof -
    from wf have "joins (pairs (initial_surface spec)) (spec_effects spec) (pairs (final_surface spec))"
      by (simp add: well_formed_def)
    from joins_build [OF this] obtain tls where "build_timelines (spec_effects spec) = Inr tls" ..
    with wf have "compile_spec u spec = Inr \<lparr>compiled_of = canonicalize spec, timelines = tls\<rparr>"
      by (simp add: compile_spec_iff)
    then show ?thesis ..
  qed
  then show ?thesis by (auto simp: okay_def compile_spec_iff)
qed

section \<open>Order of declaration\<close>

text \<open>Two specifications that list the same surfaces and dependencies, in any order.\<close>

definition same_declarations :: "transaction_spec \<Rightarrow> transaction_spec \<Rightarrow> bool" where
  "same_declarations spec spec' \<longleftrightarrow>
     mset (initial_surface spec) = mset (initial_surface spec') \<and>
     mset (final_surface spec) = mset (final_surface spec') \<and>
     mset (dependencies spec) = mset (dependencies spec') \<and>
     spec' = spec\<lparr>initial_surface := initial_surface spec', final_surface := final_surface spec',
                  dependencies := dependencies spec'\<rparr>"

lemma map_of_permuted:
  assumes "mset xs = mset ys" "distinct (map fst xs)"
  shows "map_of xs = map_of ys"
proof -
  have "distinct (map fst ys)"
    using assms by (metis mset_eq_imp_distinct_iff mset_map)
  with assms show ?thesis
    by (intro map_of_inject_set [THEN iffD2]) (auto dest: mset_eq_setD)
qed

lemma same_declarations_fields:
  assumes "same_declarations spec spec'"
  shows "schema_version spec' = schema_version spec" "consumer_tag spec' = consumer_tag spec"
    "intent_digest spec' = intent_digest spec" "spec_effects spec' = spec_effects spec"
    "fulfills spec' = fulfills spec" "registered_paths spec' = registered_paths spec"
    "set (initial_surface spec') = set (initial_surface spec)"
    "set (final_surface spec') = set (final_surface spec)"
    "set (dependencies spec') = set (dependencies spec)"
    "distinct (dependencies spec') = distinct (dependencies spec)"
    "distinct (map entry_path (initial_surface spec')) = distinct (map entry_path (initial_surface spec))"
    "distinct (map entry_path (final_surface spec')) = distinct (map entry_path (final_surface spec))"
proof -
  have sp: "spec' = spec\<lparr>initial_surface := initial_surface spec', final_surface := final_surface spec',
      dependencies := dependencies spec'\<rparr>"
    and m: "mset (initial_surface spec) = mset (initial_surface spec')"
      "mset (final_surface spec) = mset (final_surface spec')"
      "mset (dependencies spec) = mset (dependencies spec')"
    using assms by (auto simp: same_declarations_def)
  show "schema_version spec' = schema_version spec" "consumer_tag spec' = consumer_tag spec"
    "intent_digest spec' = intent_digest spec" "spec_effects spec' = spec_effects spec"
    "fulfills spec' = fulfills spec" "registered_paths spec' = registered_paths spec"
    by (subst sp, simp)+
  show "set (initial_surface spec') = set (initial_surface spec)"
    "set (final_surface spec') = set (final_surface spec)"
    "set (dependencies spec') = set (dependencies spec)"
    using m by (auto dest: mset_eq_setD)
  show "distinct (dependencies spec') = distinct (dependencies spec)"
    "distinct (map entry_path (initial_surface spec')) = distinct (map entry_path (initial_surface spec))"
    "distinct (map entry_path (final_surface spec')) = distinct (map entry_path (final_surface spec))"
    using m by (metis mset_eq_imp_distinct_iff mset_map)+
qed

lemma well_formed_permuted:
  assumes same: "same_declarations spec spec'" and wf: "well_formed u spec"
  shows "well_formed u spec'"
proof -
  note f = same_declarations_fields [OF same]
  have m: "mset (pairs (initial_surface spec)) = mset (pairs (initial_surface spec'))"
    "mset (pairs (final_surface spec)) = mset (pairs (final_surface spec'))"
    using same by (simp_all add: same_declarations_def)
  have d: "distinct (map fst (pairs (initial_surface spec)))" "distinct (map fst (pairs (final_surface spec)))"
    using wf by (simp_all add: well_formed_def comp_def)
  note maps = map_of_permuted [OF m(1) d(1), symmetric] map_of_permuted [OF m(2) d(2), symmetric]
  have sets: "set (declared_paths spec') = set (declared_paths spec)"
    "set (every_state spec') = set (every_state spec)"
    by (simp_all add: declared_paths_def every_state_def f)
  have joins: "joins (pairs (initial_surface spec')) es (pairs (final_surface spec'))
      = joins (pairs (initial_surface spec)) es (pairs (final_surface spec))" for es
    by (simp add: joins_def maps f)
  have trees: "tree_shaped (pairs (initial_surface spec')) = tree_shaped (pairs (initial_surface spec))"
    "tree_shaped (pairs (final_surface spec')) = tree_shaped (pairs (final_surface spec))"
    by (simp_all add: tree_shaped_def f)
  show ?thesis
    using wf unfolding well_formed_def sets joins trees by (simp add: f image_Un)
qed

lemma sort_surface_permuted:
  assumes "mset xs = mset ys" "distinct (map entry_path xs)"
  shows "sort_key entry_path xs = sort_key entry_path ys"
  using assms by (intro sort_key_inj_key_eq) (auto simp: distinct_map)

lemma canonicalize_permuted:
  assumes same: "same_declarations spec spec'" and wf: "well_formed u spec"
  shows "canonicalize spec' = canonicalize spec"
proof -
  have "sort (dependencies spec') = sort (dependencies spec)"
    using same by (intro properties_for_sort) (auto simp: same_declarations_def)
  moreover have "sort_key entry_path (initial_surface spec') = sort_key entry_path (initial_surface spec)"
    "sort_key entry_path (final_surface spec') = sort_key entry_path (final_surface spec)"
    using same wf sort_surface_permuted by (metis same_declarations_def well_formed_def)+
  ultimately show ?thesis
    by (intro transaction_spec.equality)
      (simp_all add: canonicalize_def same_declarations_fields [OF same])
qed

lemma canonicalize_same: "same_declarations spec (canonicalize spec)"
  by (simp add: same_declarations_def canonicalize_def)

lemma sort_key_sorted: "sorted (map f xs) \<Longrightarrow> sort_key f xs = xs"
  by (induction xs) (auto simp: insort_is_Cons)

lemma canonicalize_idem: "canonicalize (canonicalize spec) = canonicalize spec"
  by (simp add: canonicalize_def sort_key_sorted)

text \<open>
  The list order of the effects alone orders them. The dependencies are checked to be distinct
  and to agree with that order, and nothing else of the compiler reads them: dropping every
  dependency of an accepted specification leaves it accepted, two effects on one path included.
\<close>

lemma dependencies_only_checked:
  "okay (compile_spec u spec) \<longleftrightarrow> okay (compile_spec u (spec\<lparr>dependencies := []\<rparr>)) \<and>
     distinct (dependencies spec) \<and> list_all (ordered_in (spec_effects spec)) (dependencies spec)"
  unfolding compile_okay_iff
  by (auto simp: well_formed_def every_state_def declared_paths_def list_all_iff)

section \<open>Properties\<close>

text \<open>
  C4: \<open>compile_spec\<close> accepts exactly the well-formed specifications: valid fingerprints,
  paths and identifiers, no two declared paths or effect ids that alias, dependencies ordered
  as the effects are, surfaces that cover exactly the touched paths and that the execution of
  the effects joins, nothing existing beneath a non-directory in either surface, and every
  directory created before anything beneath it is touched. This is what the code decides, and it
  is less than \<open>docs/records.md\<close> asks, where effects on one path, or on a path and one above it,
  must be ordered by explicit dependencies: a specification is accepted exactly if it is accepted
  without its dependencies and these are distinct and agree with the order of the effects.
\<close>

theorem compile_accepts_iff:
  "(okay (compile_spec u spec) \<longleftrightarrow> well_formed u spec) \<and>
   (okay (compile_spec u spec) \<longleftrightarrow> okay (compile_spec u (spec\<lparr>dependencies := []\<rparr>)) \<and>
      distinct (dependencies spec) \<and> list_all (ordered_in (spec_effects spec)) (dependencies spec))"
  using compile_okay_iff dependencies_only_checked by (rule conjI)

text \<open>
  C5: Executing the effects of a compiled specification in order, each occurrence requiring
  its declared precondition at its path, never gets stuck on the initial surface and ends
  exactly in the final surface.
\<close>

theorem compile_executes:
  assumes "compile_spec u spec = Inr c"
  shows "land_all (map_of (pairs (initial_surface (compiled_of c))))
           (all_occurrences (spec_effects (compiled_of c)))
         = Some (map_of (pairs (final_surface (compiled_of c))))"
proof -
  from assms have "well_formed u (compiled_of c)"
    using well_formed_permuted [OF canonicalize_same] by (simp add: compile_spec_iff)
  then show ?thesis by (simp add: well_formed_def joins_def)
qed

theorem compile_executes_example:
  "land_all (map_of (pairs (initial_surface (compiled_of example_compiled))))
     (all_occurrences (spec_effects (compiled_of example_compiled)))
   = Some (map_of (pairs (final_surface (compiled_of example_compiled))))"
  by (rule compile_executes [OF example_compiles])

text \<open>
  C23: The compiled timelines are complete and exact: a path has a timeline if and only if an
  effect touches it, its occurrences are the occurrences of the effects at that path in
  order, and the timelines are listed by path.
\<close>

theorem compile_timelines:
  assumes "compile_spec u spec = Inr c"
  shows "(PathTimeline p items \<in> set (timelines c) \<longleftrightarrow>
            items \<noteq> [] \<and> items = events_of p (spec_effects spec)) \<and>
         map tl_ends (events_of p (spec_effects spec)) = history p (all_occurrences (spec_effects spec)) \<and>
         sorted (map timeline_path (timelines c)) \<and> distinct (map timeline_path (timelines c))"
proof -
  from assms have b: "build_timelines (spec_effects spec) = Inr (timelines c)"
    by (simp add: compile_spec_iff)
  then have "map timeline_path (timelines c) = map fst (sort_key fst (group_occurrences (spec_effects spec)))"
    by (auto simp: build_timelines_iff case_prod_unfold)
  with timelines_of_build [OF b] show ?thesis
    using group_occurrences_distinct [of "spec_effects spec"]
    by (auto simp: distinct_map events_history)
qed

theorem compile_timelines_example:
  "PathTimeline (py ''c'') [TimelineOccurrence (py ''e2'') 2 Role_target old_c new_c]
     \<in> set (timelines example_compiled)
   \<longleftrightarrow> [TimelineOccurrence (py ''e2'') 2 Role_target old_c new_c] \<noteq> [] \<and>
      [TimelineOccurrence (py ''e2'') 2 Role_target old_c new_c] = events_of (py ''c'') (spec_effects example_spec)"
  using compile_timelines [OF example_compiles] by (rule conjunct1)

text \<open>
  C24: What the compiler returns does not depend on the order in which surfaces and
  dependencies are listed: two listings of the same declarations compile to the same value.
\<close>

theorem compile_order_independent:
  assumes "same_declarations spec spec'" and "compile_spec u spec = Inr c"
  shows "compile_spec u spec' = Inr c"
  using assms well_formed_permuted canonicalize_permuted
  by (auto simp: compile_spec_iff same_declarations_fields)

theorem compile_order_independent_example:
  "compile_spec plain_tables shuffled_spec = Inr example_compiled"
proof (rule compile_order_independent [OF _ example_compiles])
  show "same_declarations example_spec shuffled_spec"
    by (simp add: same_declarations_def shuffled_spec_def)
qed

text \<open>
  Compilation is idempotent: the canonical specification inside a compiled one compiles
  again, to the same compiled specification.
\<close>

theorem compile_idempotent:
  assumes "compile_spec u spec = Inr c"
  shows "compile_spec u (compiled_of c) = Inr c"
proof -
  from assms have c: "well_formed u spec" "compiled_of c = canonicalize spec"
      "build_timelines (spec_effects spec) = Inr (timelines c)"
    by (auto simp: compile_spec_iff)
  from well_formed_permuted [OF canonicalize_same c(1)] show ?thesis
    using c by (simp add: compile_spec_iff canonicalize_idem)
      (simp add: same_declarations_fields [OF canonicalize_same])
qed

theorem compile_idempotent_example:
  "compile_spec plain_tables (compiled_of example_compiled) = Inr example_compiled"
  by (rule compile_idempotent [OF example_compiles])

end
