(* ===== verification/CompilerErrors.thy ===== *)
theory CompilerErrors
  imports CompilerCorrect
begin

text \<open>
  The exceptions of \<open>compile_spec\<close>. Each phase raises \<open>SpecValidationError\<close> and nothing
  else, but for the second: it reads the mode of what an effect creates before phase 5 has
  checked which state that is. The dictionary reads of phases 7 and 11 and the first
  occurrence of a timeline are always there.
\<close>

section \<open>Phases that only refuse\<close>

definition only_refuses :: "'a result \<Rightarrow> bool" where
  "only_refuses r \<longleftrightarrow> (\<forall>e. r = Inl e \<longrightarrow> e \<in> range SpecValidationError)"

named_theorems refuses

lemma refuses_basic [refuses]: "only_refuses (Inr x)" "only_refuses (Inl (spec_err f))"
  by (auto simp: only_refuses_def)

lemma refuses_bindr: "only_refuses m \<Longrightarrow> (\<And>x. m = Inr x \<Longrightarrow> only_refuses (f x)) \<Longrightarrow> only_refuses (bindr m f)"
  by (auto simp: only_refuses_def bindr_Inl_iff)

lemma refuses_guard: "(c \<Longrightarrow> only_refuses r) \<Longrightarrow> only_refuses (guard c (spec_err f) r)"
  by (auto simp: only_refuses_def guard_Inl_iff)

lemma refuses_for_each: "(\<And>x. x \<in> set xs \<Longrightarrow> only_refuses (f x)) \<Longrightarrow> only_refuses (for_each f xs)"
  by (induction xs) (auto intro!: refuses_bindr simp: refuses)

lemma refuses_traverse: "(\<And>x. x \<in> set xs \<Longrightarrow> only_refuses (f x)) \<Longrightarrow> only_refuses (traverse f xs)"
  by (induction xs) (auto intro!: refuses_bindr simp: refuses)

lemma refuses_foldr: "(\<And>s x. only_refuses (f s x)) \<Longrightarrow> only_refuses (foldr_r f s xs)"
  by (induction xs arbitrary: s) (auto intro!: refuses_bindr simp: refuses)

lemmas refusing = refuses_bindr refuses_guard refuses_for_each refuses_traverse refuses_foldr

lemma refuses_identifier [refuses]: "only_refuses (require_valid_identifier i)"
  unfolding require_valid_identifier_def by (intro refusing refuses)

lemma refuses_claim_key [refuses]: "only_refuses (claim_key key fault seen v)"
  unfolding claim_key_def by (auto split: option.split intro!: refusing refuses)

lemma refuses_fingerprint [refuses]: "only_refuses (require_fingerprint state)"
  by (cases state) (auto simp: require_mode_def intro!: refusing refuses)

lemma refuses_rel_path [refuses]: "only_refuses (require_rel_path u p)"
  unfolding require_rel_path_def require_component_def by (intro refusing refuses)

lemma refuses_continuous [refuses]: "only_refuses (require_continuous items)"
  by (induction items rule: require_continuous.induct) (auto intro!: refusing refuses)

lemma refuses_walk_surface [refuses]: "only_refuses (walk_surface stack)"
  by (induction stack rule: walk_surface.induct) (auto intro!: refusing refuses)

lemma refuses_walk_creators [refuses]: "only_refuses (walk_creators i node cs)"
  by (induction i node cs rule: walk_creators.induct)
    (auto intro!: refusing refuses split: option.split)

lemma refuses_dependency [refuses]: "only_refuses (claim_dependency order seen dep)"
  unfolding claim_dependency_def by (auto simp: lookup_or_def intro!: refusing refuses)

lemma refuses_phases [refuses]:
  "only_refuses (phase1_structure spec)" "only_refuses (phase3_path_grammar u spec)"
  "only_refuses (phase4_alias_distinctness u spec)" "only_refuses (phase5_variant_shapes spec)"
  "only_refuses (phase6_unique_effect_ids u spec)" "only_refuses (phase7_dependencies spec)"
  "only_refuses (phase8_surface_shape spec)" "only_refuses (phase9_registration spec)"
  "only_refuses (build_timelines effects)" "only_refuses (phase10_coverage tls initial final)"
  "only_refuses (phase12_surface_tree surface)" "only_refuses (phase13_ancestor_ordering spec)"
  unfolding phase1_structure_def phase3_path_grammar_def phase4_alias_distinctness_def
    phase5_variant_shapes_def require_variant_shape_def phase6_unique_effect_ids_def claim_effect_id_def
    phase7_dependencies_def phase8_surface_shape_def claim_path_def phase9_registration_def
    validate_v2_members_def build_timelines_def phase10_coverage_def covers_surface_def
    phase12_surface_tree_def phase13_ancestor_ordering_def
  by (auto split: prod.split intro!: refusing refuses)

text \<open>After phase 10 both surfaces list the path of every timeline.\<close>

lemma refuses_phase11 [refuses]:
  assumes "build_timelines effects = Inr tls" and "phase10_coverage tls initial final = Inr ()"
  shows "only_refuses (phase11_endpoints tls initial final)"
  unfolding phase11_endpoints_def
proof (rule refuses_for_each)
  fix tl assume tl: "tl \<in> set tls"
  from tl assms(2) have "timeline_path tl \<in> fst ` set initial" "timeline_path tl \<in> fst ` set final"
    by (auto simp: phase10_coverage_def covers_surface_def result_simps)
  then obtain a b where ab: "map_of initial (timeline_path tl) = Some a" "map_of final (timeline_path tl) = Some b"
    by (metis domD dom_map_of_conv_image_fst)
  from tl have "timeline_occurrences tl \<noteq> []"
    using timelines_of_build(1) [OF assms(1), of "timeline_path tl" "timeline_occurrences tl"] by auto
  with ab show "only_refuses (endpoints_match initial final tl)"
    unfolding endpoints_match_def by (auto simp: index_or_def lookup_or_def intro!: refusing refuses)
qed

section \<open>The phase that does not\<close>

text \<open>An effect that creates a file or a directory in the absent state.\<close>

fun creates_absent :: "effect \<Rightarrow> bool" where
  "creates_absent (ReplaceFile _ _ _ post) \<longleftrightarrow> post = AbsentState"
| "creates_absent (CreateFileNoClobber _ _ post) \<longleftrightarrow> post = AbsentState"
| "creates_absent (CreateDirectory _ _ post) \<longleftrightarrow> post = AbsentState"
| "creates_absent _ \<longleftrightarrow> False"

lemma owner_bits_absent: "require_owner_bits e = Inl AttributeError \<longleftrightarrow> creates_absent e"
proof (cases e)
  case (ReplaceFile i p pre post)
  then show ?thesis by (cases post) (auto simp: guard_def)
next
  case (CreateFileNoClobber i p post)
  then show ?thesis by (cases post) (auto simp: guard_def)
next
  case (CreateDirectory i p post)
  then show ?thesis by (cases post) (auto simp: guard_def)
qed simp_all

lemma owner_bits_else: "\<not> creates_absent e \<Longrightarrow> only_refuses (require_owner_bits e)"
  by (cases e; cases "case e of ReplaceFile _ _ _ post \<Rightarrow> post | CreateFileNoClobber _ _ post \<Rightarrow> post
      | CreateDirectory _ _ post \<Rightarrow> post | _ \<Rightarrow> AbsentState")
    (auto intro!: refusing refuses)

lemma for_each_Inl_iff: "for_each f xs = Inl e \<longleftrightarrow>
    (\<exists>before x after. xs = before @ x # after \<and> (\<forall>y \<in> set before. f y = Inr ()) \<and> f x = Inl e)"
  (is "_ \<longleftrightarrow> ?first xs")
proof
  show "for_each f xs = Inl e \<Longrightarrow> ?first xs"
  proof (induction xs)
    case (Cons x xs)
    then consider "f x = Inl e" | "f x = Inr ()" "for_each f xs = Inl e" by (auto simp: bindr_Inl_iff)
    then show ?case
    proof cases
      case 1
      then have "x # xs = [] @ x # xs \<and> (\<forall>y \<in> set []. f y = Inr ()) \<and> f x = Inl e" by simp
      then show ?thesis by blast
    next
      case 2
      with Cons.IH obtain before y after where "xs = before @ y # after"
          "\<forall>z \<in> set before. f z = Inr ()" "f y = Inl e" by blast
      with 2 have "x # xs = (x # before) @ y # after \<and> (\<forall>z \<in> set (x # before). f z = Inr ()) \<and> f y = Inl e" by simp
      then show ?thesis by blast
    qed
  qed simp
next
  assume "?first xs"
  then obtain before x after where "xs = before @ x # after" "\<forall>y \<in> set before. f y = Inr ()" "f x = Inl e"
    by blast
  then show "for_each f xs = Inl e" by (induction before arbitrary: xs) auto
qed

lemma compile_after_fingerprints:
  assumes "phase2_fingerprints spec = Inr ()"
  shows "only_refuses (compile_spec u spec)"
  unfolding compile_spec_def Let_def assms bindr.simps
  by (intro refusing refuses) auto

lemma fingerprints_absent:
  "phase2_fingerprints spec = Inl AttributeError \<longleftrightarrow>
     (\<forall>state \<in> set (every_state spec). fingerprint_ok state) \<and>
     (\<exists>before e after. spec_effects spec = before @ e # after \<and> creates_absent e \<and>
        (\<forall>e' \<in> set before. require_owner_bits e' = Inr ()))"
proof -
  have "only_refuses (for_each require_fingerprint (every_state spec))"
    by (intro refusing refuses)
  then have "for_each require_fingerprint (every_state spec) \<noteq> Inl AttributeError"
    by (auto simp: only_refuses_def)
  then show ?thesis
    unfolding phase2_fingerprints_def bindr_Inl_iff for_each_Inr_iff require_fingerprint_iff
    by (auto simp: for_each_Inl_iff [of require_owner_bits] owner_bits_absent)
qed

lemma fingerprints_else:
  assumes "phase2_fingerprints spec \<noteq> Inl AttributeError"
  shows "only_refuses (phase2_fingerprints spec)"
  unfolding only_refuses_def
proof (intro allI impI)
  fix e assume e: "phase2_fingerprints spec = Inl e"
  have fp: "only_refuses (for_each require_fingerprint (every_state spec))"
    by (intro refusing refuses)
  from e [unfolded phase2_fingerprints_def bindr_Inl_iff]
  show "e \<in> range SpecValidationError"
  proof
    assume "for_each require_fingerprint (every_state spec) = Inl e"
    with fp show ?thesis by (simp add: only_refuses_def)
  next
    assume "\<exists>x. for_each require_fingerprint (every_state spec) = Inr x \<and>
      for_each require_owner_bits (spec_effects spec) = Inl e"
    then obtain ef where "require_owner_bits ef = Inl e" unfolding for_each_Inl_iff by blast
    moreover from this assms e have "\<not> creates_absent ef" by (auto simp: owner_bits_absent [symmetric])
    then have "only_refuses (require_owner_bits ef)" by (rule owner_bits_else)
    ultimately show ?thesis by (simp add: only_refuses_def)
  qed
qed

section \<open>Properties\<close>

text \<open>
  C31: Which exceptions \<open>compile_spec\<close> raises, and exactly when. Whatever values of
  the declared types a specification holds, it returns, raises \<open>SpecValidationError\<close>, or raises \<open>AttributeError\<close>; no \<open>KeyError\<close>
  or \<open>IndexError\<close> of its dictionaries and lists escapes. The \<open>AttributeError\<close>, where the
  contract promises a refusal, escapes if and only if phase 1 and every fingerprint pass and
  some effect that creates a directory, creates a file or replaces a file declares the absent
  state as its result while no effect listed before it is refused for its owner bits:
  \<open>_phase2_fingerprints\<close> then reads the mode of the absent state.
\<close>

theorem compile_raises:
  "compile_spec u spec \<in> range Inr \<union> Inl ` (range SpecValidationError \<union> {AttributeError}) \<and>
   (compile_spec u spec = Inl AttributeError \<longleftrightarrow>
      schema_version spec = 2 \<and> is_valid_identifier (consumer_tag spec) \<and>
      is_sha256_digest (intent_digest spec) \<and>
      (\<forall>state \<in> set (every_state spec). fingerprint_ok state) \<and>
      (\<exists>before e after. spec_effects spec = before @ e # after \<and> creates_absent e \<and>
         (\<forall>e' \<in> set before. require_owner_bits e' = Inr ())))"
proof (cases "phase1_structure spec")
  case (Inl e)
  with refuses_phases(1) [of spec] phase1_iff [of spec] show ?thesis
    by (auto simp: only_refuses_def compile_spec_def)
next
  case (Inr x)
  then have one: "phase1_structure spec = Inr ()" by simp
  show ?thesis
  proof (cases "phase2_fingerprints spec = Inl AttributeError")
    case True
    then show ?thesis
      using one [unfolded phase1_iff] fingerprints_absent [of spec] one
      by (auto simp: compile_spec_def)
  next
    case False
    have "only_refuses (compile_spec u spec)"
    proof (cases "phase2_fingerprints spec")
      case (Inl e)
      with one fingerprints_else [OF False] show ?thesis by (auto simp: compile_spec_def only_refuses_def)
    qed (auto intro: compile_after_fingerprints)
    then show ?thesis
      using False fingerprints_absent [of spec] by (cases "compile_spec u spec") (auto simp: only_refuses_def)
  qed
qed

theorem compile_raises_example:
  "compile_spec plain_tables absent_creation_spec = Inl AttributeError"
proof -
  have "schema_version absent_creation_spec = 2 \<and> is_valid_identifier (consumer_tag absent_creation_spec) \<and>
      is_sha256_digest (intent_digest absent_creation_spec)"
    by code_simp
  moreover have "for_each require_fingerprint (every_state absent_creation_spec) = Inr ()" by code_simp
  then have "\<forall>state \<in> set (every_state absent_creation_spec). fingerprint_ok state"
    by (simp only: for_each_Inr_iff require_fingerprint_iff)
  moreover have "spec_effects absent_creation_spec = [] @ CreateDirectory (py ''e0'') (py ''a'') AbsentState # []"
    by (simp add: absent_creation_spec_def build_spec_def)
  then have "\<exists>before e after. spec_effects absent_creation_spec = before @ e # after \<and> creates_absent e \<and>
      (\<forall>e' \<in> set before. require_owner_bits e' = Inr ())"
    by (metis creates_absent.simps(3) empty_iff empty_set)
  ultimately show ?thesis
    using compile_raises [of plain_tables absent_creation_spec] by blast
qed

end
