(* ===== verification/RecoveryModel.thy ===== *)
theory RecoveryModel
  imports Compiler
begin

text \<open>
  The vocabulary of the recovery model (\<open>core/recovery/model.py\<close>): durable states of a
  transaction and of one effect, what the engine can observe at a path, and the closed
  diagnostic evidence of a halt. An \<open>EntryIdentity\<close> is a fresh object that compares equal
  to itself only; it is modelled by a number.
\<close>

section \<open>Durable state\<close>

datatype transaction_state =
    Tx_PREPARED | Tx_APPLYING | Tx_APPLIED | Tx_COMMITTED
  | Tx_ROLLING_BACK | Tx_ROLLED_BACK | Tx_HALTED

datatype commit_decision = Decision_UNCOMMITTED | Decision_COMMITTED

datatype journal_state = J_PENDING | J_STARTED | J_DONE | J_UNDO_STARTED | J_UNDONE

datatype rollback_result = Result_RESTORED | Result_EXTERNAL_DRIFT_PRESERVED

datatype halt_reason =
    JOURNAL_TOPOLOGY_INVALID | COMMIT_DECISION_CONFLICT | ACTIVE_BINDING_MISSING
  | EFFECT_TUPLE_UNATTRIBUTABLE | DIRECTORY_NOT_EMPTY | COMMITTED_SURFACE_MISMATCH
  | PLAN_PRECONDITION_CHANGED | MUTATION_DENIED

datatype scratch_role = Scratch_STAGING | Scratch_TOMBSTONE | Scratch_ANCHOR | Scratch_WORK

datatype file_build_relation = Build_EXACT | Build_STRICT_PREFIX | Build_DIVERGED

datatype identity_relation = Identity_SAME | Identity_DIFFERENT

datatype operator_action = INSPECT_PRESERVED_EVIDENCE | REPAIR_DURABLE_METADATA

fun role_value :: "scratch_role \<Rightarrow> pystr" where
  "role_value Scratch_STAGING = py ''staging''"
| "role_value Scratch_TOMBSTONE = py ''tombstone''"
| "role_value Scratch_ANCHOR = py ''anchor''"
| "role_value Scratch_WORK = py ''work''"

section \<open>Observations\<close>

type_synonym entry_identity = nat

datatype observed_entry =
    ObservedAbsent
  | ObservedFile path_state entry_identity
  | ObservedSymlink path_state
  | ObservedDirectory path_state entry_identity "bool option"
  | ObservedUnrecognized int
  | ObservedContended
  | ObservedInaccessible

fun is_absent :: "observed_entry \<Rightarrow> bool" where
  "is_absent ObservedAbsent = True"
| "is_absent _ = False"

fun is_file :: "observed_entry \<Rightarrow> bool" where
  "is_file (ObservedFile _ _) = True"
| "is_file _ = False"

fun is_directory :: "observed_entry \<Rightarrow> bool" where
  "is_directory (ObservedDirectory _ _ _) = True"
| "is_directory _ = False"

lemma is_absent_iff: "is_absent e \<longleftrightarrow> e = ObservedAbsent"
  by (cases e) auto

datatype journal_row = EffectJournalState (row_effect_id: pystr) (row_state: journal_state)

datatype persistent_observation = PersistentObservation (po_path: pystr) (po_entry: observed_entry)

datatype scratch_observation =
  ScratchObservation (so_effect_id: pystr) (so_role: scratch_role) (so_entry: observed_entry)
    (so_relation: "file_build_relation option")

abbreviation so_key :: "scratch_observation \<Rightarrow> pystr \<times> scratch_role" where
  "so_key item \<equiv> (so_effect_id item, so_role item)"

text \<open>\<open>stat.S_IFMT(value) in {S_IFIFO, S_IFSOCK, S_IFBLK, S_IFCHR}\<close>, in octal
  \<open>0o10000\<close>, \<open>0o140000\<close>, \<open>0o60000\<close>, \<open>0o20000\<close> under the mask \<open>0o170000\<close>.\<close>

definition is_unrecognized_st_mode :: "int \<Rightarrow> bool" where
  "is_unrecognized_st_mode v \<longleftrightarrow>
     0 \<le> v \<and> v \<le> 65535 \<and> v AND 61440 \<in> {4096, 49152, 24576, 8192}"

section \<open>Halt evidence\<close>

datatype diagnostic_state =
    DiagState path_state | DiagUnrecognized int | DiagContended | DiagInaccessible

datatype diagnostic_entry =
  DiagnosticEntry (de_slot: pystr) (de_state: diagnostic_state) (de_unmodeled: "bool option")
    (de_relation: "file_build_relation option")

datatype diagnostic_identity_relation =
  DiagnosticIdentityRelation (left_slot: pystr) (right_slot: pystr) (id_relation: identity_relation)

abbreviation relation_slots :: "diagnostic_identity_relation \<Rightarrow> pystr \<times> pystr" where
  "relation_slots r \<equiv> (left_slot r, right_slot r)"

record halt_diagnostic =
  pre_halt_state :: transaction_state
  diag_commit_decision :: commit_decision
  diag_journals :: "journal_row list"
  projected_transaction_state :: transaction_state
  projected_journals :: "journal_row list"
  diag_effect_id :: "pystr option"
  diag_paths :: "pystr list"
  diag_expected :: "diagnostic_entry list"
  diag_observed :: "diagnostic_entry list"
  diag_relations :: "diagnostic_identity_relation list"
  diag_reason :: halt_reason
  diag_action :: operator_action

end
