(* ===== verification/Snapshot.thy ===== *)
theory Snapshot
  imports RecoveryModel
begin

text \<open>
  Recovery snapshots (\<open>core/recovery/snapshot.py\<close>): the topology of the nodes a
  transaction owns, and the factory that validates a candidate snapshot. The factory's
  keyword arguments are the fields of the record; it returns the same fields, now vouched
  for, or the first violated contract. Its type tests are the types of the model.
\<close>

section \<open>Topology and snapshots\<close>

datatype topology_node =
    ProjectRoot
  | WorkRoot
  | TopologyDirectory int
  | PersistentNode pystr
  | ScratchNode pystr scratch_role

datatype topology_parent = TopologyParent (tp_node: topology_node) (tp_parent: topology_node)

record recovery_snapshot =
  compiled :: compiled_spec
  topology :: "topology_parent list"
  tx_state :: transaction_state
  commit_decision :: commit_decision
  rollback_result :: "rollback_result option"
  halt_diagnostic :: "halt_diagnostic option"
  active :: bool
  journals :: "journal_row list"
  persistent_observations :: "persistent_observation list"
  scratch_observations :: "scratch_observation list"

abbreviation snapshot_effects :: "recovery_snapshot \<Rightarrow> effect list" where
  "snapshot_effects s \<equiv> spec_effects (compiled_of (compiled s))"

fun required_scratch_role :: "effect \<Rightarrow> scratch_role" where
  "required_scratch_role (ReplaceFile _ _ _ _) = Scratch_STAGING"
| "required_scratch_role (CreateFileNoClobber _ _ _) = Scratch_STAGING"
| "required_scratch_role (DeletePath _ _ _) = Scratch_TOMBSTONE"
| "required_scratch_role (MoveNoClobber _ _ _ _) = Scratch_ANCHOR"
| "required_scratch_role (CreateDirectory _ _ _) = Scratch_WORK"

abbreviation scratch_key :: "effect \<Rightarrow> pystr \<times> scratch_role" where
  "scratch_key effect \<equiv> (effect_id_of effect, required_scratch_role effect)"

abbreviation scratch_node :: "effect \<Rightarrow> topology_node" where
  "scratch_node effect \<equiv> ScratchNode (effect_id_of effect) (required_scratch_role effect)"

definition persistent_dict :: "persistent_observation list \<Rightarrow> pystr \<rightharpoonup> observed_entry" where
  "persistent_dict items = dict_of (map (\<lambda>item. (po_path item, po_entry item)) items)"

definition persistent_map :: "recovery_snapshot \<Rightarrow> pystr \<rightharpoonup> observed_entry" where
  "persistent_map s = persistent_dict (persistent_observations s)"

definition scratch_dict ::
  "scratch_observation list \<Rightarrow> pystr \<times> scratch_role \<rightharpoonup> scratch_observation" where
  "scratch_dict items = dict_of (map (\<lambda>item. (so_key item, item)) items)"

definition scratch_map :: "recovery_snapshot \<Rightarrow> pystr \<times> scratch_role \<rightharpoonup> scratch_observation" where
  "scratch_map s = scratch_dict (scratch_observations s)"

definition journal_dict :: "journal_row list \<Rightarrow> pystr \<rightharpoonup> journal_state" where
  "journal_dict rows = dict_of (map (\<lambda>row. (row_effect_id row, row_state row)) rows)"

definition effect_dict :: "compiled_spec \<Rightarrow> pystr \<rightharpoonup> effect" where
  "effect_dict c = dict_of (map (\<lambda>effect. (effect_id_of effect, effect)) (spec_effects (compiled_of c)))"

section \<open>Coverage\<close>

definition validate_journal_coverage :: "compiled_spec \<Rightarrow> journal_row list \<Rightarrow> unit result" where
  "validate_journal_coverage c rows =
     guard (map row_effect_id rows = map effect_id_of (spec_effects (compiled_of c)))
       (snap_err JournalCoverage) (Inr ())"

definition validate_persistent_coverage ::
  "compiled_spec \<Rightarrow> persistent_observation list \<Rightarrow> unit result" where
  "validate_persistent_coverage c items =
     guard (length items = length (timelines c) \<and>
            po_path ` set items = timeline_path ` set (timelines c))
       (snap_err PersistentCoverage) (Inr ())"

definition validate_scratch_coverage ::
  "compiled_spec \<Rightarrow> scratch_observation list \<Rightarrow> unit result" where
  "validate_scratch_coverage c items =
     guard (length items = length (spec_effects (compiled_of c)) \<and>
            so_key ` set items = scratch_key ` set (spec_effects (compiled_of c)))
       (snap_err ScratchCoverage) (Inr ())"

section \<open>The topology is a tree\<close>

type_synonym edge_index =
  "(topology_node \<rightharpoonup> topology_node) \<times> (topology_node \<Rightarrow> topology_node list) \<times> topology_node list"

text \<open>
  The three tables built while the edges are read: the parent of a node, the children of a
  node (an absent key reads as no children) and the nodes seen, here a list without
  repetitions.
\<close>

definition add_edge :: "edge_index \<Rightarrow> topology_parent \<Rightarrow> edge_index result" where
  "add_edge = (\<lambda>(parents, children, nodes) edge.
     guard (tp_node edge \<noteq> tp_parent edge) (snap_err TopologySelfParent)
     (guard (tp_node edge \<noteq> ProjectRoot) (snap_err TopologyRootParent)
     (guard (parents (tp_node edge) = None) (snap_err TopologyTwoParents)
     (Inr (parents(tp_node edge \<mapsto> tp_parent edge),
           children(tp_parent edge := children (tp_parent edge) @ [tp_node edge]),
           List.insert (tp_parent edge) (List.insert (tp_node edge) nodes))))))"

definition index_edges :: "topology_parent list \<Rightarrow> edge_index result" where
  "index_edges edges = foldr_r add_edge (Map.empty, \<lambda>_. [], []) edges"

fun is_persistent_node :: "topology_node \<Rightarrow> bool" where
  "is_persistent_node (PersistentNode _) = True"
| "is_persistent_node _ = False"

fun is_scratch_node :: "topology_node \<Rightarrow> bool" where
  "is_scratch_node (ScratchNode _ _) = True"
| "is_scratch_node _ = False"

text \<open>The persistent path whose parent the scratch of an effect must share.\<close>

fun scratch_sibling :: "effect \<Rightarrow> pystr option" where
  "scratch_sibling (CreateDirectory _ _ _) = None"
| "scratch_sibling (MoveNoClobber _ source _ _) = Some source"
| "scratch_sibling (ReplaceFile _ path _ _) = Some path"
| "scratch_sibling (CreateFileNoClobber _ path _) = Some path"
| "scratch_sibling (DeletePath _ path _) = Some path"

definition require_scratch_parent ::
  "(topology_node \<rightharpoonup> topology_node) \<Rightarrow> effect \<Rightarrow> unit result" where
  "require_scratch_parent parents effect =
     bindr (lookup_or KeyError parents (scratch_node effect)) (\<lambda>parent.
       if required_scratch_role effect = Scratch_WORK
       then guard (parent = WorkRoot) (snap_err TopologyWorkScratchParent) (Inr ())
       else guard (parent \<noteq> WorkRoot) (snap_err TopologyScratchUnderWork) (Inr ()))"

definition require_shared_parent ::
  "(topology_node \<rightharpoonup> topology_node) \<Rightarrow> effect \<Rightarrow> unit result" where
  "require_shared_parent parents effect =
     (case scratch_sibling effect of
        None \<Rightarrow> Inr ()
      | Some path \<Rightarrow>
          bindr (lookup_or KeyError parents (scratch_node effect)) (\<lambda>p.
          bindr (lookup_or KeyError parents (PersistentNode path)) (\<lambda>q.
          guard (p = q) (snap_err TopologySharedParent) (Inr ()))))"

text \<open>One step of the worklist: decrement a child's in-degree and push it when it drops to 0.\<close>

definition relax_child ::
  "(topology_node \<times> int) list \<times> topology_node list \<Rightarrow> topology_node \<Rightarrow>
   ((topology_node \<times> int) list \<times> topology_node list) result" where
  "relax_child = (\<lambda>(indegree, worklist) child.
     bindr (lookup_or KeyError (map_of indegree) child) (\<lambda>degree.
       Inr (AList.update child (degree - 1) indegree,
            if degree - 1 = 0 then child # worklist else worklist)))"

lemma relax_child_keys:
  assumes "relax_child (indegree, worklist) child = Inr (indegree', worklist')"
  shows "fst ` set indegree' = fst ` set indegree"
    and "set worklist' \<subseteq> set worklist \<union> fst ` set indegree"
proof -
  from assms obtain degree where d: "map_of indegree child = Some degree"
      and i: "indegree' = AList.update child (degree - 1) indegree"
      and w: "worklist' = (if degree - 1 = 0 then child # worklist else worklist)"
    by (auto simp: relax_child_def result_simps)
  have "child \<in> fst ` set indegree"
    using d by (metis domI dom_map_of_conv_image_fst)
  then show "fst ` set indegree' = fst ` set indegree"
    and "set worklist' \<subseteq> set worklist \<union> fst ` set indegree"
    by (auto simp: i w dom_update insert_absorb)
qed

lemma relax_children_keys:
  "foldr_r relax_child (indegree, worklist) cs = Inr (indegree', worklist') \<Longrightarrow>
   fst ` set indegree' = fst ` set indegree \<and> set worklist' \<subseteq> set worklist \<union> fst ` set indegree"
proof (induction cs arbitrary: indegree worklist)
  case (Cons c cs)
  from Cons.prems obtain i w where
      one: "relax_child (indegree, worklist) c = Inr (i, w)"
    and rest: "foldr_r relax_child (i, w) cs = Inr (indegree', worklist')"
    by (cases "relax_child (indegree, worklist) c") auto
  from relax_child_keys [OF one] Cons.IH [OF rest] show ?case by auto
qed simp

function topology_visit ::
  "(topology_node \<Rightarrow> topology_node list) \<Rightarrow> (topology_node \<times> int) list \<Rightarrow>
   topology_node set \<Rightarrow> topology_node list \<Rightarrow> topology_node set result" where
  "topology_visit successors indegree visited [] = Inr visited"
| "topology_visit successors indegree visited (node # worklist) =
     (if node \<in> visited then topology_visit successors indegree visited worklist
      else bindr (foldr_r relax_child (indegree, worklist) (successors node))
             (\<lambda>(indegree', worklist').
                topology_visit successors indegree' (insert node visited) worklist'))"
  by pat_completeness auto
termination
proof (relation "measures
    [\<lambda>(c, indegree, visited, worklist). card ((set worklist \<union> fst ` set indegree) - visited),
     \<lambda>(c, indegree, visited, worklist). length worklist]", goal_cases)
  case (2 successors indegree visited node worklist)
  then have "(set (node # worklist) \<union> fst ` set indegree) - visited
      = (set worklist \<union> fst ` set indegree) - visited"
    by auto
  then show ?case by simp
next
  case (3 successors indegree visited node worklist p indegree' worklist')
  then have "foldr_r relax_child (indegree, worklist) (successors node) = Inr (indegree', worklist')"
    by simp
  note keys = relax_children_keys [OF this]
  with 3 have "(set worklist' \<union> fst ` set indegree') - insert node visited
      \<subset> (set (node # worklist) \<union> fst ` set indegree) - visited"
    by auto
  then show ?case by (simp add: psubset_card_mono)
qed simp

definition node_indegree :: "(topology_node \<rightharpoonup> topology_node) \<Rightarrow> topology_node \<Rightarrow> int" where
  "node_indegree parents node = (if parents node = None then 0 else 1)"

definition require_tree :: "edge_index \<Rightarrow> unit result" where
  "require_tree = (\<lambda>(parents, children, nodes).
     bindr (topology_visit children (map (\<lambda>node. (node, node_indegree parents node)) nodes)
              {} [ProjectRoot]) (\<lambda>visited.
     guard (visited = set nodes) (snap_err TopologyNotTree) (Inr ())))"

definition validate_topology :: "compiled_spec \<Rightarrow> topology_parent list \<Rightarrow> unit result" where
  "validate_topology c edges =
     bindr (index_edges edges) (\<lambda>(parents, children, nodes).
       guard (ProjectRoot \<in> set nodes) (snap_err TopologyNoRoot)
       (guard (\<forall>node \<in> set nodes. node = ProjectRoot \<or> parents node \<noteq> None)
          (snap_err TopologyOrphan)
       (guard (parents WorkRoot = None \<or> parents WorkRoot = Some ProjectRoot)
          (snap_err TopologyWorkRootParent)
       (guard (Set.filter is_persistent_node (set nodes)
               = PersistentNode ` timeline_path ` set (timelines c))
          (snap_err TopologyPersistentCoverage)
       (guard (Set.filter is_scratch_node (set nodes)
               = scratch_node ` set (spec_effects (compiled_of c)))
          (snap_err TopologyScratchCoverage)
       (andthen (for_each (require_scratch_parent parents) (spec_effects (compiled_of c)))
       (andthen (for_each (require_shared_parent parents) (spec_effects (compiled_of c)))
       (require_tree (parents, children, nodes)))))))))"

section \<open>Observed entries\<close>

definition require_kind :: "path_kind \<Rightarrow> path_state \<Rightarrow> unit result" where
  "require_kind kind state = guard (kind_of state = kind) (snap_err EntryStateKind) (Inr ())"

fun validate_observed_entry :: "observed_entry \<Rightarrow> unit result" where
  "validate_observed_entry ObservedAbsent = Inr ()"
| "validate_observed_entry (ObservedFile state _) = require_kind Kind_FILE state"
| "validate_observed_entry (ObservedSymlink state) = require_kind Kind_SYMLINK state"
| "validate_observed_entry (ObservedDirectory state _ _) = require_kind Kind_DIRECTORY state"
| "validate_observed_entry (ObservedUnrecognized st_mode) =
     guard (is_unrecognized_st_mode st_mode) (snap_err UnrecognizedMode) (Inr ())"
| "validate_observed_entry ObservedContended = Inr ()"
| "validate_observed_entry ObservedInaccessible = Inr ()"

text \<open>
  When a scratch file carries a build relation: while its construction is journalled
  \<open>STARTED\<close>, for a creation always and for a replacement as long as the live file is still
  the declared precondition. The missing live path is the argument: \<open>KeyError\<close> here, a
  \<open>ProtocolError\<close> in the reducer's copy of this function.
\<close>

definition construction_relation_required ::
  "error \<Rightarrow> effect \<Rightarrow> journal_state \<Rightarrow> (pystr \<rightharpoonup> observed_entry) \<Rightarrow> scratch_observation \<Rightarrow> bool result" where
  "construction_relation_required missing effect journal persistent_by_path scratch =
     (if journal \<noteq> J_STARTED \<or> \<not> is_file (so_entry scratch) then Inr False
      else case effect of
        CreateFileNoClobber _ _ _ \<Rightarrow> Inr True
      | ReplaceFile _ path pre _ \<Rightarrow>
          bindr (lookup_or missing persistent_by_path path) (\<lambda>live.
            Inr (case live of ObservedFile state _ \<Rightarrow> state = pre | _ \<Rightarrow> False))
      | _ \<Rightarrow> Inr False)"

definition validate_build_relation ::
  "compiled_spec \<Rightarrow> journal_row list \<Rightarrow> persistent_observation list \<Rightarrow> scratch_observation \<Rightarrow> unit result" where
  "validate_build_relation c rows persistent observation =
     bindr (lookup_or KeyError (effect_dict c) (so_effect_id observation)) (\<lambda>effect.
     bindr (lookup_or KeyError (journal_dict rows) (so_effect_id observation)) (\<lambda>journal.
     bindr (construction_relation_required KeyError effect journal (persistent_dict persistent) observation)
       (\<lambda>required.
     guard (required = (so_relation observation \<noteq> None)) (snap_err BuildRelationState) (Inr ()))))"

definition validate_observations ::
  "compiled_spec \<Rightarrow> journal_row list \<Rightarrow> persistent_observation list \<Rightarrow> scratch_observation list \<Rightarrow> unit result" where
  "validate_observations c rows persistent scratch =
     andthen (for_each (\<lambda>item. validate_observed_entry (po_entry item)) persistent)
     (andthen (for_each (\<lambda>item. validate_observed_entry (so_entry item)) scratch)
     (for_each (validate_build_relation c rows persistent) scratch))"

section \<open>Halt diagnostics\<close>

definition validate_diagnostic_paths :: "unicode_tables \<Rightarrow> pystr list \<Rightarrow> unit result" where
  "validate_diagnostic_paths u paths =
     guard (sort paths = paths \<and> card (set paths) = length paths) (snap_err DiagnosticPathsOrder)
     (for_each (\<lambda>path.
        case require_rel_path u path of
          Inl (SpecValidationError _) \<Rightarrow> Inl (snap_err DiagnosticPathsGrammar)
        | Inl e \<Rightarrow> Inl e
        | Inr _ \<Rightarrow> Inr ()) paths)"

fun validate_diagnostic_state :: "diagnostic_state \<Rightarrow> unit result" where
  "validate_diagnostic_state (DiagUnrecognized st_mode) =
     validate_observed_entry (ObservedUnrecognized st_mode)"
| "validate_diagnostic_state DiagContended = validate_observed_entry ObservedContended"
| "validate_diagnostic_state DiagInaccessible = validate_observed_entry ObservedInaccessible"
| "validate_diagnostic_state (DiagState _) = Inr ()"

definition validate_diagnostic_entries :: "diagnostic_entry list \<Rightarrow> unit result" where
  "validate_diagnostic_entries items =
     andthen (for_each (\<lambda>item. validate_diagnostic_state (de_state item)) items)
     (guard (map de_slot items = sort (map de_slot items) \<and>
             card (set (map de_slot items)) = length (map de_slot items))
       (snap_err DiagnosticSlots) (Inr ()))"

definition validate_diagnostic_relations :: "diagnostic_identity_relation list \<Rightarrow> unit result" where
  "validate_diagnostic_relations items =
     guard (map relation_slots items = sort (map relation_slots items) \<and>
            card (set (map relation_slots items)) = length (map relation_slots items))
       (snap_err DiagnosticRelations) (Inr ())"

definition validate_halt_diagnostic :: "unicode_tables \<Rightarrow> halt_diagnostic option \<Rightarrow> unit result" where
  "validate_halt_diagnostic u diagnostic =
     (case diagnostic of
        None \<Rightarrow> Inr ()
      | Some d \<Rightarrow>
          guard (pre_halt_state d \<noteq> Tx_HALTED) (snap_err DiagnosticHaltedSource)
          (guard (map row_effect_id (projected_journals d) = map row_effect_id (diag_journals d))
             (snap_err DiagnosticJournalVector)
          (andthen (validate_diagnostic_paths u (diag_paths d))
          (andthen (validate_diagnostic_entries (diag_expected d))
          (andthen (validate_diagnostic_entries (diag_observed d))
          (validate_diagnostic_relations (diag_relations d)))))))"

section \<open>The factory\<close>

definition validate_terminal_payloads :: "recovery_snapshot \<Rightarrow> unit result" where
  "validate_terminal_payloads s =
     guard ((rollback_result s \<noteq> None) = (tx_state s = Tx_ROLLED_BACK)) (snap_err RollbackResultPresence)
     (guard ((halt_diagnostic s \<noteq> None) = (tx_state s = Tx_HALTED)) (snap_err HaltDiagnosticPresence)
     (guard (case halt_diagnostic s of
               None \<Rightarrow> True
             | Some d \<Rightarrow> commit_decision s = diag_commit_decision d \<and> journals s = diag_journals d)
        (snap_err HaltDiagnosticMismatch)
     (Inr ())))"

definition build_recovery_snapshot ::
  "unicode_tables \<Rightarrow> recovery_snapshot \<Rightarrow> recovery_snapshot result" where
  "build_recovery_snapshot u s =
     andthen (validate_journal_coverage (compiled s) (journals s))
     (andthen (validate_persistent_coverage (compiled s) (persistent_observations s))
     (andthen (validate_scratch_coverage (compiled s) (scratch_observations s))
     (andthen (validate_topology (compiled s) (topology s))
     (andthen (validate_observations (compiled s) (journals s)
                 (persistent_observations s) (scratch_observations s))
     (andthen (validate_halt_diagnostic u (halt_diagnostic s))
     (andthen (validate_terminal_payloads s)
     (Inr s)))))))"

end
