(* ===== verification/Plan.thy ===== *)
theory Plan
  imports Snapshot
begin

text \<open>
  Recovery plans and their factories (\<open>core/recovery/plan.py\<close>) and the halt evidence
  projected from observations (\<open>core/recovery/diagnostics.py\<close>). Plans and authorized steps
  are issued by the factories alone; the construction tokens of the source keep other code
  from building them, which needs no counterpart here.
\<close>

section \<open>Plan vocabulary\<close>

datatype plan_disposition =
    ROLL_BACK | ROLL_BACK_REFUSED | COMMITTED_CLEANUP | DETACH_TERMINAL | HALT | NO_RECOVERY

datatype settlement_kind =
    RESTORE_PRE | REMOVE_ATTRIBUTABLE_CREATION | REPAIR_INTERMEDIATE
  | FINISH_LANDED_UNDO | REMOVE_COMMITTED_SCRATCH

datatype effect_variant =
    REPLACE_FILE | CREATE_FILE_NO_CLOBBER | DELETE_PATH | MOVE_NO_CLOBBER | CREATE_DIRECTORY

datatype parent_occupancy =
  ParentOccupancy (occupied_parent: topology_node) (present_children: "topology_node list")
    (occupied_unmodeled: "bool option")

datatype joint_observation =
  JointObservation (jo_persistent: "persistent_observation list")
    (jo_scratch: "scratch_observation list") (jo_occupancy: "parent_occupancy list")

datatype recovery_step =
    TransitionTransactionState transaction_state transaction_state
      "rollback_result option" "halt_diagnostic option"
  | TransitionEffectState pystr journal_state journal_state
  | TransformEffectTuple pystr effect_variant settlement_kind
      joint_observation joint_observation "diagnostic_identity_relation list"
  | RemoveScratch pystr scratch_role joint_observation joint_observation
  | PreserveExternal "topology_node list"
  | DetachActive

datatype recovery_plan =
    ActionPlan (bound_snapshot: recovery_snapshot) plan_disposition
      "recovery_step list" "rollback_result option"
  | HaltPlan (bound_snapshot: recovery_snapshot) halt_diagnostic "recovery_step list"
  | NoRecoveryPlan (bound_snapshot: recovery_snapshot)

fun plan_steps :: "recovery_plan \<Rightarrow> recovery_step list" where
  "plan_steps (ActionPlan _ _ steps _) = steps"
| "plan_steps (HaltPlan _ _ steps) = steps"
| "plan_steps (NoRecoveryPlan _) = []"

fun disposition :: "recovery_plan \<Rightarrow> plan_disposition" where
  "disposition (ActionPlan _ d _ _) = d"
| "disposition (HaltPlan _ _ _) = HALT"
| "disposition (NoRecoveryPlan _) = NO_RECOVERY"

fun plan_rollback_result :: "recovery_plan \<Rightarrow> rollback_result option" where
  "plan_rollback_result (ActionPlan _ _ _ r) = r"
| "plan_rollback_result _ = None"

text \<open>The steps that mutate the file system, with their tuples before and after.\<close>

fun is_mutating :: "recovery_step \<Rightarrow> bool" where
  "is_mutating (TransformEffectTuple _ _ _ _ _ _) = True"
| "is_mutating (RemoveScratch _ _ _ _) = True"
| "is_mutating _ = False"

fun expected_before :: "recovery_step \<Rightarrow> joint_observation option" where
  "expected_before (TransformEffectTuple _ _ _ e _ _) = Some e"
| "expected_before (RemoveScratch _ _ e _) = Some e"
| "expected_before _ = None"

datatype authorized_step =
  AuthorizedStep (authorized_plan: recovery_plan) (authorized_index: nat) (authorized_of: recovery_step)

section \<open>Plan factories\<close>

definition valid_payload ::
  "transaction_state \<Rightarrow> rollback_result option \<Rightarrow> halt_diagnostic option \<Rightarrow> bool" where
  "valid_payload to_state result diagnostic \<longleftrightarrow>
     (if to_state = Tx_ROLLED_BACK then result \<noteq> None \<and> diagnostic = None
      else if to_state = Tx_HALTED then diagnostic \<noteq> None \<and> result = None
      else result = None \<and> diagnostic = None)"

fun validate_step :: "recovery_step \<Rightarrow> unit result" where
  "validate_step (TransitionTransactionState _ to_state result diagnostic) =
     guard (valid_payload to_state result diagnostic) (plan_err TransitionPayload) (Inr ())"
| "validate_step _ = Inr ()"

definition validate_steps :: "recovery_step list \<Rightarrow> unit result" where
  "validate_steps steps = for_each validate_step steps"

fun expected_result :: "plan_disposition \<rightharpoonup> rollback_result option" where
  "expected_result ROLL_BACK = Some (Some Result_RESTORED)"
| "expected_result ROLL_BACK_REFUSED = Some (Some Result_EXTERNAL_DRIFT_PRESERVED)"
| "expected_result COMMITTED_CLEANUP = Some None"
| "expected_result DETACH_TERMINAL = Some None"
| "expected_result _ = None"

definition new_action_plan ::
  "recovery_snapshot \<Rightarrow> plan_disposition \<Rightarrow> recovery_step list \<Rightarrow> recovery_plan result" where
  "new_action_plan bound disp steps =
     andthen (validate_steps steps)
     (bindr (lookup_or (plan_err NonActionDisposition) expected_result disp) (\<lambda>result.
     Inr (ActionPlan bound disp steps result)))"

definition halt_plan_valid :: "recovery_snapshot \<Rightarrow> halt_diagnostic \<Rightarrow> recovery_step list \<Rightarrow> bool" where
  "halt_plan_valid bound diagnostic steps \<longleftrightarrow>
     (if tx_state bound = Tx_HALTED
      then steps = [] \<and> halt_diagnostic bound = Some diagnostic
      else steps = [TransitionTransactionState (tx_state bound) Tx_HALTED None (Some diagnostic)])"

definition new_halt_plan ::
  "recovery_snapshot \<Rightarrow> halt_diagnostic \<Rightarrow> recovery_step list \<Rightarrow> recovery_plan result" where
  "new_halt_plan bound diagnostic steps =
     guard (halt_plan_valid bound diagnostic steps) (plan_err HaltPlanInvalid)
       (Inr (HaltPlan bound diagnostic steps))"

definition new_no_recovery_plan :: "recovery_snapshot \<Rightarrow> recovery_plan" where
  "new_no_recovery_plan bound = NoRecoveryPlan bound"

definition new_authorized_step :: "recovery_plan \<Rightarrow> nat \<Rightarrow> recovery_step \<Rightarrow> authorized_step result" where
  "new_authorized_step plan step_index step =
     guard (is_mutating step) (cls_err NotMutatingStep) (Inr (AuthorizedStep plan step_index step))"

section \<open>Diagnostics\<close>

abbreviation colon :: nat where "colon \<equiv> 58"

definition persistent_slot :: "pystr \<Rightarrow> pystr" where
  "persistent_slot path = py ''persistent:'' @ path"

definition scratch_slot :: "pystr \<Rightarrow> scratch_role \<Rightarrow> pystr" where
  "scratch_slot effect_id role = py ''scratch:'' @ effect_id @ [colon] @ role_value role"

fun entry_fields :: "observed_entry \<Rightarrow> diagnostic_state \<times> bool option \<times> entry_identity option" where
  "entry_fields ObservedAbsent = (DiagState AbsentState, None, None)"
| "entry_fields (ObservedFile state identity) = (DiagState state, None, Some identity)"
| "entry_fields (ObservedSymlink state) = (DiagState state, None, None)"
| "entry_fields (ObservedDirectory state identity unmodeled) =
     (DiagState state, unmodeled, Some identity)"
| "entry_fields (ObservedUnrecognized st_mode) = (DiagUnrecognized st_mode, None, None)"
| "entry_fields ObservedContended = (DiagContended, None, None)"
| "entry_fields ObservedInaccessible = (DiagInaccessible, None, None)"

type_synonym named_entry = "pystr \<times> observed_entry \<times> file_build_relation option"

definition named_entries :: "joint_observation option \<Rightarrow> named_entry list result" where
  "named_entries observation =
     (case observation of
        None \<Rightarrow> Inr []
      | Some ob \<Rightarrow>
          let entries = sort_key fst
                (map (\<lambda>item. (persistent_slot (po_path item), po_entry item, None)) (jo_persistent ob) @
                 map (\<lambda>item. (scratch_slot (so_effect_id item) (so_role item), so_entry item, so_relation item))
                   (jo_scratch ob))
          in guard (card (set (map fst entries)) = length (map fst entries))
               (plan_err EvidenceSlotsNotUnique) (Inr entries))"

definition diagnostic_paths ::
  "joint_observation option \<Rightarrow> joint_observation option \<Rightarrow> pystr list" where
  "diagnostic_paths expected observed =
     sort (remdups (concat (map (\<lambda>observation.
       case observation of None \<Rightarrow> [] | Some ob \<Rightarrow> map po_path (jo_persistent ob)) [expected, observed])))"

definition project_entries :: "joint_observation option \<Rightarrow> diagnostic_entry list result" where
  "project_entries observation =
     bindr (named_entries observation) (\<lambda>entries. Inr (map (\<lambda>(slot, entry, relation).
       case entry_fields entry of (state, unmodeled, _) \<Rightarrow>
         DiagnosticEntry slot state unmodeled relation) entries))"

fun pair_relations :: "(pystr \<times> entry_identity) list \<Rightarrow> diagnostic_identity_relation list" where
  "pair_relations [] = []"
| "pair_relations ((left, i) # rest) =
     map (\<lambda>(right, j). DiagnosticIdentityRelation left right
            (if i = j then Identity_SAME else Identity_DIFFERENT)) rest @ pair_relations rest"

definition project_identity_relations ::
  "pystr \<Rightarrow> joint_observation option \<Rightarrow> diagnostic_identity_relation list result" where
  "project_identity_relations namespace observation =
     bindr (named_entries observation) (\<lambda>entries.
       Inr (sort_key relation_slots (pair_relations
         (concat (map (\<lambda>(slot, entry, _).
            case entry_fields entry of
              (_, _, Some identity) \<Rightarrow> [(namespace @ [colon] @ slot, identity)]
            | _ \<Rightarrow> []) entries)))))"

definition action_for :: "halt_reason \<Rightarrow> operator_action" where
  "action_for reason =
     (if reason \<in> {JOURNAL_TOPOLOGY_INVALID, COMMIT_DECISION_CONFLICT, ACTIVE_BINDING_MISSING}
      then REPAIR_DURABLE_METADATA else INSPECT_PRESERVED_EVIDENCE)"

definition diagnostic ::
  "recovery_snapshot \<Rightarrow> halt_reason \<Rightarrow> recovery_snapshot option \<Rightarrow> pystr option \<Rightarrow>
   joint_observation option \<Rightarrow> joint_observation option \<Rightarrow> halt_diagnostic result" where
  "diagnostic source reason projected effect_id expected observed =
     (let evidence = (case projected of None \<Rightarrow> source | Some p \<Rightarrow> p) in
      bindr (project_entries expected) (\<lambda>expected_entries.
      bindr (project_entries observed) (\<lambda>observed_entries.
      bindr (project_identity_relations (py ''expected'') expected) (\<lambda>expected_relations.
      bindr (project_identity_relations (py ''observed'') observed) (\<lambda>observed_relations.
      Inr \<lparr>pre_halt_state = tx_state source,
           diag_commit_decision = commit_decision source,
           diag_journals = journals source,
           projected_transaction_state = tx_state evidence,
           projected_journals = journals evidence,
           diag_effect_id = effect_id,
           diag_paths = diagnostic_paths expected observed,
           diag_expected = expected_entries,
           diag_observed = observed_entries,
           diag_relations = expected_relations @ observed_relations,
           diag_reason = reason,
           diag_action = action_for reason\<rparr>)))))"

end
