(* ===== verification/Journal.thy ===== *)
theory Journal
  imports Plan
begin

text \<open>
  Transaction authority and path frontiers (\<open>core/recovery/journal.py\<close>): which vectors of
  journal states are legal in a transaction state, what recovery may do with a snapshot, and
  how far the effects of each path have landed.
\<close>

section \<open>Journal languages\<close>

definition all_states :: "journal_state list \<Rightarrow> journal_state \<Rightarrow> bool" where
  "all_states states wanted \<longleftrightarrow> list_all (\<lambda>state. state = wanted) states"

fun forward_from :: "nat \<Rightarrow> journal_state list \<Rightarrow> bool" where
  "forward_from phase [] = True"
| "forward_from phase (state # states) =
     (if phase = 0 \<and> state = J_DONE then forward_from phase states
      else if phase = 0 \<and> state = J_STARTED then forward_from 1 states
      else if state = J_PENDING then forward_from 2 states
      else False)"

definition forward_language :: "journal_state list \<Rightarrow> bool" where
  "forward_language states = forward_from 0 states"

fun reverse_from :: "nat \<Rightarrow> journal_state list \<Rightarrow> bool" where
  "reverse_from phase [] = True"
| "reverse_from phase (state # states) =
     (if phase = 0 \<and> state = J_DONE then reverse_from phase states
      else if phase = 0 \<and> state = J_UNDO_STARTED then reverse_from 1 states
      else if state = J_UNDONE \<and> phase \<in> {0, 1, 2} then reverse_from 2 states
      else if state = J_PENDING \<and> phase \<in> {0, 2, 3} then reverse_from 3 states
      else False)"

definition reverse_language :: "journal_state list \<Rightarrow> bool" where
  "reverse_language states = reverse_from 0 states"

fun rolled_back_from :: "bool \<Rightarrow> journal_state list \<Rightarrow> bool" where
  "rolled_back_from pending [] = True"
| "rolled_back_from pending (state # states) =
     (if state = J_PENDING then rolled_back_from True states
      else if state = J_UNDONE \<and> \<not> pending then rolled_back_from pending states
      else False)"

definition rolled_back_language :: "journal_state list \<Rightarrow> bool" where
  "rolled_back_language states = rolled_back_from False states"

definition compatible_commit_decision :: "transaction_state \<Rightarrow> commit_decision \<Rightarrow> bool" where
  "compatible_commit_decision state decision =
     (if state = Tx_HALTED then True
      else if state = Tx_COMMITTED then decision = Decision_COMMITTED
      else decision = Decision_UNCOMMITTED)"

fun legal_journal_language :: "transaction_state \<Rightarrow> journal_state list \<Rightarrow> bool result" where
  "legal_journal_language Tx_PREPARED states = Inr (all_states states J_PENDING)"
| "legal_journal_language Tx_APPLYING states = Inr (forward_language states)"
| "legal_journal_language Tx_APPLIED states = Inr (all_states states J_DONE)"
| "legal_journal_language Tx_ROLLING_BACK states =
     Inr (forward_language states \<or> reverse_language states)"
| "legal_journal_language Tx_COMMITTED states = Inr (all_states states J_DONE)"
| "legal_journal_language Tx_ROLLED_BACK states = Inr (rolled_back_language states)"
| "legal_journal_language Tx_HALTED states = Inl (journal_err OutsideLanguageMatrix)"

section \<open>Transaction authority\<close>

datatype authority_kind =
    Authority_CLASSIFY | Authority_DETACH | Authority_NO_RECOVERY
  | Authority_STABLE_HALT | Authority_HALT

datatype authority_decision =
  AuthorityDecision (authority_kind: authority_kind) (authority_reason: "halt_reason option")

definition require_snapshot :: "recovery_snapshot \<Rightarrow> recovery_snapshot result" where
  "require_snapshot s =
     guard (map row_effect_id (journals s) = map effect_id_of (snapshot_effects s))
       (journal_err JournalRowsMismatch) (Inr s)"

definition classify_transaction_authority :: "recovery_snapshot \<Rightarrow> authority_decision result" where
  "classify_transaction_authority s =
     bindr (require_snapshot s) (\<lambda>s.
     if \<not> compatible_commit_decision (tx_state s) (commit_decision s) then
       Inr (AuthorityDecision Authority_HALT (Some COMMIT_DECISION_CONFLICT))
     else if tx_state s = Tx_HALTED then
       (case halt_diagnostic s of
          None \<Rightarrow> Inl (journal_err HaltedWithoutDiagnostic)
        | Some d \<Rightarrow> Inr (AuthorityDecision Authority_STABLE_HALT (Some (diag_reason d))))
     else
       bindr (legal_journal_language (tx_state s) (map row_state (journals s))) (\<lambda>legal.
       if \<not> legal then Inr (AuthorityDecision Authority_HALT (Some JOURNAL_TOPOLOGY_INVALID))
       else if \<not> active s \<and> tx_state s \<in> {Tx_COMMITTED, Tx_ROLLED_BACK} then
         Inr (AuthorityDecision Authority_NO_RECOVERY None)
       else if \<not> active s then
         Inr (AuthorityDecision Authority_HALT (Some ACTIVE_BINDING_MISSING))
       else if tx_state s = Tx_ROLLED_BACK then
         Inr (AuthorityDecision Authority_DETACH None)
       else Inr (AuthorityDecision Authority_CLASSIFY None)))"

section \<open>Path frontiers\<close>

datatype frontier_direction = Frontier_FORWARD | Frontier_REVERSE | Frontier_INITIAL

datatype path_frontier =
  PathFrontier (frontier_path: pystr) (frontier_direction: frontier_direction)
    (frontier_index: "nat option") (frontier_effect_id: "pystr option")
    (frontier_journal: "journal_state option") (frontier_expected: path_state)
    (frontier_admissible: "path_state list")

type_synonym journalled_occurrence = "timeline_occurrence \<times> journal_state"

definition unique_states :: "path_state list \<Rightarrow> path_state list" where
  "unique_states states =
     fold (\<lambda>state unique. if state \<in> set unique then unique else unique @ [state]) states []"

definition initial_frontier :: "pystr \<Rightarrow> journalled_occurrence list \<Rightarrow> path_frontier result" where
  "initial_frontier path occs =
     (case occs of
        [] \<Rightarrow> Inl (journal_err TimelineEmpty)
      | (occ, _) # _ \<Rightarrow>
          Inr (PathFrontier path Frontier_INITIAL None None None (tl_pre occ) [tl_pre occ]))"

definition forward_frontier ::
  "pystr \<Rightarrow> journalled_occurrence list \<Rightarrow> (pystr \<rightharpoonup> nat) \<Rightarrow> path_frontier result" where
  "forward_frontier path occs index_by_id =
     (let started = map fst (filter (\<lambda>(_, state). state = J_STARTED) occs);
          completed = map fst (filter (\<lambda>(_, state). state = J_DONE) occs)
      in guard (length started \<le> 1) (journal_err MultipleStarted)
         (if started \<noteq> [] then
            let selected = hd started in
            bindr (lookup_or (journal_err OccurrenceOutsideOrder) index_by_id (tl_effect_id selected))
              (\<lambda>index. Inr (PathFrontier path Frontier_FORWARD (Some index)
                 (Some (tl_effect_id selected)) (Some J_STARTED) (tl_pre selected)
                 (unique_states [tl_pre selected, tl_post selected])))
          else if completed = [] then initial_frontier path occs
          else
            let selected = last completed in
            bindr (lookup_or (journal_err OccurrenceOutsideOrder) index_by_id (tl_effect_id selected))
              (\<lambda>index. Inr (PathFrontier path Frontier_FORWARD (Some index)
                 (Some (tl_effect_id selected)) (Some J_DONE) (tl_post selected)
                 [tl_post selected]))))"

fun reverse_admissible :: "timeline_occurrence \<Rightarrow> journal_state \<Rightarrow> path_state list result" where
  "reverse_admissible occ J_DONE = Inr [tl_post occ]"
| "reverse_admissible occ J_STARTED = Inr (unique_states [tl_pre occ, tl_post occ])"
| "reverse_admissible occ J_UNDO_STARTED = Inr (unique_states [tl_post occ, tl_pre occ])"
| "reverse_admissible occ _ = Inl (journal_err UnsupportedReverseState)"

definition reverse_frontier ::
  "pystr \<Rightarrow> journalled_occurrence list \<Rightarrow> (pystr \<rightharpoonup> nat) \<Rightarrow> path_frontier result" where
  "reverse_frontier path occs index_by_id =
     (let candidates = filter (\<lambda>(_, state). state \<in> {J_DONE, J_STARTED, J_UNDO_STARTED}) occs
      in if candidates = [] then initial_frontier path occs
         else case last candidates of (selected, journal) \<Rightarrow>
           bindr (reverse_admissible selected journal) (\<lambda>admissible.
           bindr (lookup_or (journal_err OccurrenceOutsideOrder) index_by_id (tl_effect_id selected))
             (\<lambda>index. Inr (PathFrontier path Frontier_REVERSE (Some index)
                (Some (tl_effect_id selected)) (Some journal) (tl_post selected) admissible))))"

definition journalled ::
  "(pystr \<rightharpoonup> journal_state) \<Rightarrow> path_timeline \<Rightarrow> journalled_occurrence list result" where
  "journalled journal_by_id timeline =
     traverse (\<lambda>occ. bindr (lookup_or (journal_err OccurrenceUncovered) journal_by_id (tl_effect_id occ))
       (\<lambda>state. Inr (occ, state))) (timeline_occurrences timeline)"

definition path_frontier_of :: "recovery_snapshot \<Rightarrow> path_timeline \<Rightarrow> path_frontier result" where
  "path_frontier_of s timeline =
     bindr (journalled (journal_dict (journals s)) timeline) (\<lambda>occs.
       if tx_state s = Tx_ROLLING_BACK
       then reverse_frontier (timeline_path timeline) occs (effect_order (snapshot_effects s))
       else forward_frontier (timeline_path timeline) occs (effect_order (snapshot_effects s)))"

definition reconstruct_frontiers :: "recovery_snapshot \<Rightarrow> path_frontier list result" where
  "reconstruct_frontiers s =
     bindr (require_snapshot s) (\<lambda>s. traverse (path_frontier_of s) (timelines (compiled s)))"

end
