(* ===== verification/Reducer.thy ===== *)
theory Reducer
  imports Journal
begin

text \<open>
  The recovery reducer (\<open>core/recovery/reducer.py\<close>): what each recovery step does to a
  snapshot, with every contract it enforces, and the reduction of a plan prefix. A reducer
  never repairs its input: it returns a snapshot the factory has validated again, or the
  first contract that fails. The operations of this file that would share a name with the
  plan's constructors carry the prefix \<open>reduce_\<close>.
\<close>

fun variant_of :: "effect \<Rightarrow> effect_variant" where
  "variant_of (ReplaceFile _ _ _ _) = REPLACE_FILE"
| "variant_of (CreateFileNoClobber _ _ _) = CREATE_FILE_NO_CLOBBER"
| "variant_of (DeletePath _ _ _) = DELETE_PATH"
| "variant_of (MoveNoClobber _ _ _ _) = MOVE_NO_CLOBBER"
| "variant_of (CreateDirectory _ _ _) = CREATE_DIRECTORY"

definition transaction_recovery_edge :: "transaction_state \<Rightarrow> transaction_state \<Rightarrow> bool" where
  "transaction_recovery_edge a b \<longleftrightarrow>
     (a, b) \<in> {(Tx_PREPARED, Tx_ROLLING_BACK), (Tx_APPLYING, Tx_ROLLING_BACK),
               (Tx_APPLIED, Tx_ROLLING_BACK), (Tx_ROLLING_BACK, Tx_ROLLED_BACK)} \<or>
     b = Tx_HALTED \<and> a \<noteq> Tx_HALTED"

definition effect_recovery_edge :: "journal_state \<Rightarrow> journal_state \<Rightarrow> bool" where
  "effect_recovery_edge a b \<longleftrightarrow>
     (a, b) \<in> {(J_STARTED, J_UNDO_STARTED), (J_DONE, J_UNDO_STARTED), (J_UNDO_STARTED, J_UNDONE)}"

section \<open>Construction relations\<close>

definition normalize_relation ::
  "compiled_spec \<Rightarrow> journal_row list \<Rightarrow> persistent_observation list \<Rightarrow>
   scratch_observation \<Rightarrow> scratch_observation result" where
  "normalize_relation c rows persistent item =
     bindr (lookup_or (red_err NormalizationCoverage) (effect_dict c) (so_effect_id item)) (\<lambda>effect.
     bindr (lookup_or (red_err NormalizationCoverage) (journal_dict rows) (so_effect_id item)) (\<lambda>journal.
     bindr (construction_relation_required (red_err ReplaceLiveMissing) effect journal
              (persistent_dict persistent) item) (\<lambda>required.
     Inr (if required \<or> so_relation item = None then item
          else ScratchObservation (so_effect_id item) (so_role item) (so_entry item) None))))"

definition normalize_file_build_relations ::
  "compiled_spec \<Rightarrow> journal_row list \<Rightarrow> persistent_observation list \<Rightarrow>
   scratch_observation list \<Rightarrow> scratch_observation list result" where
  "normalize_file_build_relations c rows persistent scratch =
     traverse (normalize_relation c rows persistent) scratch"

text \<open>
  \<open>_rebuild\<close>: the snapshot with some fields replaced, its build relations normalized and
  the whole validated by the factory. The replaced fields are already written into \<open>s\<close>.
\<close>

definition rebuild :: "unicode_tables \<Rightarrow> recovery_snapshot \<Rightarrow> recovery_snapshot result" where
  "rebuild u s =
     bindr (normalize_file_build_relations (compiled s) (journals s) (persistent_observations s)
              (scratch_observations s)) (\<lambda>scratch.
     build_recovery_snapshot u (s\<lparr>scratch_observations := scratch\<rparr>))"

section \<open>Transitions\<close>

definition transition_transaction ::
  "unicode_tables \<Rightarrow> recovery_snapshot \<Rightarrow> transaction_state \<Rightarrow> transaction_state \<Rightarrow>
   rollback_result option \<Rightarrow> halt_diagnostic option \<Rightarrow> recovery_snapshot result" where
  "transition_transaction u s from_state to_state result diag =
     guard (tx_state s = from_state) (red_err TransactionStateMismatch)
     (guard (transaction_recovery_edge from_state to_state) (red_err TransactionEdge)
     (guard (valid_payload to_state result diag) (red_err TransactionPayload)
     (guard (case diag of
               Some d \<Rightarrow> \<not> (to_state = Tx_HALTED \<and> pre_halt_state d \<noteq> from_state)
             | None \<Rightarrow> True) (red_err PreHaltMismatch)
     (rebuild u (s\<lparr>tx_state := to_state, rollback_result := result, halt_diagnostic := diag\<rparr>)))))"

definition matching_rows :: "journal_row list \<Rightarrow> pystr \<Rightarrow> nat list" where
  "matching_rows rows effect_id =
     map fst (filter (\<lambda>(_, row). row_effect_id row = effect_id) (indexed rows))"

definition transition_effect ::
  "unicode_tables \<Rightarrow> recovery_snapshot \<Rightarrow> pystr \<Rightarrow> journal_state \<Rightarrow> journal_state \<Rightarrow>
   recovery_snapshot result" where
  "transition_effect u s effect_id from_state to_state =
     (case matching_rows (journals s) effect_id of
        [index] \<Rightarrow>
          guard (row_state (journals s ! index) = from_state) (red_err JournalStateMismatch)
          (guard (effect_recovery_edge from_state to_state) (red_err EffectEdge)
          (rebuild u (s\<lparr>journals := (journals s)[index :=
             EffectJournalState (row_effect_id (journals s ! index)) to_state]\<rparr>)))
      | _ \<Rightarrow> Inl (red_err UnknownEffect))"

definition mutating_effect :: "recovery_snapshot \<Rightarrow> pystr \<Rightarrow> effect result" where
  "mutating_effect s effect_id =
     (case filter (\<lambda>effect. effect_id_of effect = effect_id) (snapshot_effects s) of
        [effect] \<Rightarrow> Inr effect
      | _ \<Rightarrow> Inl (red_err UnknownEffect))"

definition validate_identity_relations :: "diagnostic_identity_relation list \<Rightarrow> unit result" where
  "validate_identity_relations relations =
     guard (map relation_slots relations = sort (map relation_slots relations) \<and>
            card (set (map relation_slots relations)) = length (map relation_slots relations))
       (red_err RelationsUnsorted) (Inr ())"

section \<open>Coverage of a joint observation\<close>

definition validate_occupancy_item :: "parent_occupancy \<Rightarrow> unit result" where
  "validate_occupancy_item item =
     guard (card (set (present_children item)) = length (present_children item))
       (red_err ChildrenDuplicate) (Inr ())"

definition joint_keys ::
  "joint_observation \<Rightarrow> (pystr set \<times> (pystr \<times> scratch_role) set \<times> topology_node set) result" where
  "joint_keys ob =
     andthen (for_each (\<lambda>item. validate_observed_entry (po_entry item)) (jo_persistent ob))
     (andthen (for_each (\<lambda>item. validate_observed_entry (so_entry item)) (jo_scratch ob))
     (andthen (for_each validate_occupancy_item (jo_occupancy ob))
     (guard (card (set (map po_path (jo_persistent ob))) = length (jo_persistent ob))
        (red_err PersistentKeysDuplicate)
     (guard (card (set (map so_key (jo_scratch ob))) = length (jo_scratch ob))
        (red_err ScratchKeysDuplicate)
     (guard (card (set (map occupied_parent (jo_occupancy ob))) = length (jo_occupancy ob))
        (red_err ParentKeysDuplicate)
     (Inr (po_path ` set (jo_persistent ob), so_key ` set (jo_scratch ob),
           occupied_parent ` set (jo_occupancy ob))))))))"

definition validate_joint_coverage :: "joint_observation \<Rightarrow> joint_observation \<Rightarrow> unit result" where
  "validate_joint_coverage expected observed =
     bindr (joint_keys expected) (\<lambda>expected_keys.
     bindr (joint_keys observed) (\<lambda>observed_keys.
     guard (expected_keys = observed_keys) (red_err CoverageMismatch) (Inr ())))"

definition topology_parents :: "recovery_snapshot \<Rightarrow> topology_node set" where
  "topology_parents s = tp_parent ` set (topology s)"

definition observed_persistent_node ::
  "joint_observation \<Rightarrow> occurrence \<Rightarrow> (topology_node \<times> observed_entry) result" where
  "observed_persistent_node ob item =
     bindr (lookup_or KeyError (persistent_dict (jo_persistent ob)) (occ_path item))
       (\<lambda>entry. Inr (PersistentNode (occ_path item), entry))"

definition effect_observed_nodes ::
  "effect \<Rightarrow> joint_observation \<Rightarrow> (topology_node \<times> observed_entry) list result" where
  "effect_observed_nodes effect ob =
     bindr (traverse (observed_persistent_node ob) (occurrences effect)) (\<lambda>persistent.
     bindr (lookup_or KeyError (scratch_dict (jo_scratch ob)) (scratch_key effect)) (\<lambda>scratch.
     Inr (persistent @ [(scratch_node effect, so_entry scratch)])))"

definition required_occupancy_parents ::
  "recovery_snapshot \<Rightarrow> effect \<Rightarrow> joint_observation \<Rightarrow> topology_node set result" where
  "required_occupancy_parents s effect ob =
     bindr (effect_observed_nodes effect ob) (\<lambda>nodes.
     Inr (fst ` set (filter (\<lambda>(node, entry). is_directory entry \<and> node \<in> topology_parents s) nodes)))"

definition validate_effect_joint_coverage ::
  "recovery_snapshot \<Rightarrow> effect \<Rightarrow> joint_observation \<Rightarrow> unit result" where
  "validate_effect_joint_coverage s effect ob =
     guard (po_path ` set (jo_persistent ob) = occ_path ` set (occurrences effect))
       (red_err PersistentTupleCoverage)
     (guard (so_key ` set (jo_scratch ob) = {scratch_key effect}) (red_err ScratchTupleCoverage)
     (bindr (required_occupancy_parents s effect ob) (\<lambda>required.
     guard (occupied_parent ` set (jo_occupancy ob) = required) (red_err OccupancyTupleCoverage)
     (Inr ()))))"

fun retains_scratch :: "effect \<Rightarrow> bool" where
  "retains_scratch (ReplaceFile _ _ _ _) = True"
| "retains_scratch (DeletePath _ _ _) = True"
| "retains_scratch (MoveNoClobber _ _ _ _) = True"
| "retains_scratch _ = False"

definition validate_remove_scratch_coverage ::
  "recovery_snapshot \<Rightarrow> effect \<Rightarrow> scratch_role \<Rightarrow> joint_observation \<Rightarrow> unit result" where
  "validate_remove_scratch_coverage s effect role ob =
     (if \<not> (jo_persistent ob = [] \<and> jo_occupancy ob = [])
      then validate_effect_joint_coverage s effect ob
      else
        guard (tx_state s = Tx_COMMITTED \<and> commit_decision s = Decision_COMMITTED)
          (red_err ScratchOnlyState)
        (guard (retains_scratch effect) (red_err ScratchOnlyEffect)
        (guard (map row_state (filter (\<lambda>row. row_effect_id row = effect_id_of effect) (journals s)) = [J_DONE])
           (red_err ScratchOnlyJournal)
        (guard (so_key ` set (jo_scratch ob) = {scratch_key effect}) (red_err ScratchOnlyKey)
        (guard (role = required_scratch_role effect) (red_err ScratchOnlyRole)
        (Inr ()))))))"

section \<open>Occupancy\<close>

text \<open>The unmodeled-child fact of an occupied directory as the snapshot currently observes it.\<close>

definition current_directory_unmodeled_fact ::
  "topology_node \<Rightarrow> (pystr \<rightharpoonup> observed_entry) \<Rightarrow> (pystr \<times> scratch_role \<rightharpoonup> scratch_observation) \<Rightarrow>
   bool option result" where
  "current_directory_unmodeled_fact parent persistent scratch =
     bindr (case parent of
              PersistentNode path \<Rightarrow> lookup_or KeyError persistent path
            | ScratchNode effect_id role \<Rightarrow>
                bindr (lookup_or KeyError scratch (effect_id, role)) (\<lambda>item. Inr (so_entry item))
            | _ \<Rightarrow> Inl (red_err OccupancyParentUnobserved)) (\<lambda>entry.
       case entry of
         ObservedDirectory _ _ unmodeled \<Rightarrow>
           guard (unmodeled \<noteq> None) (red_err OccupancyUnobservable) (Inr unmodeled)
       | _ \<Rightarrow> Inl (red_err OccupancyParentNotDirectory))"

definition direct_children :: "recovery_snapshot \<Rightarrow> topology_node \<Rightarrow> topology_node list" where
  "direct_children s parent = map tp_node (filter (\<lambda>edge. tp_parent edge = parent) (topology s))"

definition validate_occupancy_topology ::
  "recovery_snapshot \<Rightarrow> parent_occupancy list \<Rightarrow> unit result" where
  "validate_occupancy_topology s occupancy =
     for_each (\<lambda>item.
       guard (occupied_parent item \<in> topology_parents s) (red_err OccupancyNotParent)
       (guard (\<forall>child \<in> set (present_children item). child \<in> set (direct_children s (occupied_parent item)))
          (red_err OccupancyForeignChild)
       (Inr ()))) occupancy"

definition child_present ::
  "(pystr \<rightharpoonup> observed_entry) \<Rightarrow> (pystr \<times> scratch_role \<rightharpoonup> scratch_observation) \<Rightarrow>
   topology_node \<Rightarrow> bool result" where
  "child_present persistent scratch child =
     (case child of
        PersistentNode path \<Rightarrow>
          bindr (lookup_or KeyError persistent path) (\<lambda>entry. Inr (\<not> is_absent entry))
      | ScratchNode effect_id role \<Rightarrow>
          bindr (lookup_or KeyError scratch (effect_id, role)) (\<lambda>item. Inr (\<not> is_absent (so_entry item)))
      | _ \<Rightarrow> Inr True)"

definition present_children_of ::
  "recovery_snapshot \<Rightarrow> topology_node \<Rightarrow> (pystr \<rightharpoonup> observed_entry) \<Rightarrow>
   (pystr \<times> scratch_role \<rightharpoonup> scratch_observation) \<Rightarrow> topology_node list result" where
  "present_children_of s parent persistent scratch =
     bindr (traverse (\<lambda>child. bindr (child_present persistent scratch child)
              (\<lambda>present. Inr (child, present))) (direct_children s parent))
       (\<lambda>flags. Inr (map fst (filter snd flags)))"

definition recompute_item ::
  "recovery_snapshot \<Rightarrow> bool \<Rightarrow> (pystr \<rightharpoonup> observed_entry) \<Rightarrow>
   (pystr \<times> scratch_role \<rightharpoonup> scratch_observation) \<Rightarrow> parent_occupancy \<Rightarrow> parent_occupancy result" where
  "recompute_item s validate_current persistent scratch item =
     bindr (if validate_current
            then current_directory_unmodeled_fact (occupied_parent item) persistent scratch
            else Inr (occupied_unmodeled item)) (\<lambda>unmodeled.
     bindr (present_children_of s (occupied_parent item) persistent scratch) (\<lambda>present.
     Inr (ParentOccupancy (occupied_parent item) present unmodeled)))"

definition recompute_occupancy ::
  "recovery_snapshot \<Rightarrow> parent_occupancy list \<Rightarrow> persistent_observation list \<Rightarrow>
   scratch_observation list \<Rightarrow> bool \<Rightarrow> parent_occupancy list result" where
  "recompute_occupancy s occupancy persistent scratch validate_current =
     andthen (validate_occupancy_topology s occupancy)
     (traverse (recompute_item s validate_current (persistent_dict persistent) (scratch_dict scratch))
        occupancy)"

section \<open>Reading and writing a joint observation\<close>

definition dict_lookup_all ::
  "('k \<rightharpoonup> 'v) \<Rightarrow> 'k list \<Rightarrow> 'v list result" where
  "dict_lookup_all d keys = traverse (lookup_or KeyError d) keys"

definition current_joint_observation ::
  "recovery_snapshot \<Rightarrow> joint_observation \<Rightarrow> joint_observation result" where
  "current_joint_observation s template =
     bindr (joint_keys template) (\<lambda>(persistent_keys, scratch_keys, _).
     guard (persistent_keys \<subseteq> po_path ` set (persistent_observations s)) (red_err UnknownPersistentPath)
     (guard (scratch_keys \<subseteq> so_key ` set (scratch_observations s)) (red_err UnknownScratchEntry)
     (bindr (dict_lookup_all (dict_of (map (\<lambda>item. (po_path item, item)) (persistent_observations s)))
               (map po_path (jo_persistent template))) (\<lambda>persistent.
     bindr (dict_lookup_all (scratch_map s) (map so_key (jo_scratch template))) (\<lambda>scratch.
     bindr (recompute_occupancy s (jo_occupancy template) (persistent_observations s)
              (scratch_observations s) True) (\<lambda>occupancy.
     Inr (JointObservation persistent scratch occupancy)))))))"

definition updated_persistent ::
  "persistent_observation list \<Rightarrow> persistent_observation list \<Rightarrow> persistent_observation list" where
  "updated_persistent updates items =
     map (\<lambda>item. case dict_of (map (\<lambda>u. (po_path u, u)) updates) (po_path item) of
                   None \<Rightarrow> item | Some u \<Rightarrow> u) items"

definition updated_scratch ::
  "scratch_observation list \<Rightarrow> scratch_observation list \<Rightarrow> scratch_observation list" where
  "updated_scratch updates items =
     map (\<lambda>item. case scratch_dict updates (so_key item) of None \<Rightarrow> item | Some u \<Rightarrow> u) items"

definition merge_joint_observation ::
  "recovery_snapshot \<Rightarrow> joint_observation \<Rightarrow>
   (persistent_observation list \<times> scratch_observation list) result" where
  "merge_joint_observation s ob =
     bindr (joint_keys ob) (\<lambda>(persistent_keys, scratch_keys, _).
     guard (persistent_keys \<subseteq> po_path ` set (persistent_observations s)) (red_err UnknownPersistentPath)
     (guard (scratch_keys \<subseteq> so_key ` set (scratch_observations s)) (red_err UnknownScratchEntry)
     (Inr (updated_persistent (jo_persistent ob) (persistent_observations s),
           updated_scratch (jo_scratch ob) (scratch_observations s)))))"

definition joint_entries :: "joint_observation \<Rightarrow> observed_entry list" where
  "joint_entries ob = map po_entry (jo_persistent ob) @ map so_entry (jo_scratch ob)"

definition require_exact_entry_transfers :: "joint_observation \<Rightarrow> joint_observation \<Rightarrow> unit result" where
  "require_exact_entry_transfers expected after =
     guard (\<forall>entry \<in> set (joint_entries after).
              \<not> is_absent entry \<longrightarrow> entry \<in> set (joint_entries expected))
       (red_err EntryFabricated) (Inr ())"

definition require_parent_unmodeled_conservation ::
  "joint_observation \<Rightarrow> joint_observation \<Rightarrow> unit result" where
  "require_parent_unmodeled_conservation expected after =
     for_each (\<lambda>item.
       bindr (lookup_or KeyError
                (dict_of (map (\<lambda>i. (occupied_parent i, occupied_unmodeled i)) (jo_occupancy expected)))
                (occupied_parent item)) (\<lambda>fact.
       guard (occupied_unmodeled item = fact) (red_err UnmodeledChanged) (Inr ()))) (jo_occupancy after)"

definition occupied_nonempty :: "parent_occupancy list \<Rightarrow> topology_node \<Rightarrow> bool" where
  "occupied_nonempty occupancy node =
     (case dict_of (map (\<lambda>item. (occupied_parent item, item)) occupancy) node of
        None \<Rightarrow> False | Some item \<Rightarrow> present_children item \<noteq> [])"

text \<open>
  A \<open>CreateDirectory\<close> may be undone only by removing directories that are empty: nothing
  unmodeled inside, no modelled child present.
\<close>

definition require_removed_directories_empty ::
  "effect \<Rightarrow> joint_observation \<Rightarrow> joint_observation \<Rightarrow> unit result" where
  "require_removed_directories_empty effect expected after =
     (if \<not> is_create_directory effect then Inr ()
      else
        bindr (effect_observed_nodes effect expected) (\<lambda>expected_nodes.
        bindr (effect_observed_nodes effect after) (\<lambda>result_nodes.
        let removed = filter (\<lambda>(node, entry).
              dict_of result_nodes node = Some ObservedAbsent \<and> \<not> is_absent entry) expected_nodes
        in guard (\<forall>(node, entry) \<in> set removed. is_directory entry) (red_err RemovalNotDirectory)
          (guard (\<not> ((\<forall>(node, entry) \<in> set result_nodes. is_absent entry) \<and> removed = []))
             (red_err RemovalNotDirectory)
          (guard (\<forall>(node, entry) \<in> set expected_nodes.
                    case entry of
                      ObservedDirectory _ _ unmodeled \<Rightarrow>
                        entry \<notin> set (joint_entries after) \<longrightarrow>
                        unmodeled \<noteq> Some True \<and> \<not> occupied_nonempty (jo_occupancy expected) node
                    | _ \<Rightarrow> True)
             (red_err RemovalNotEmpty)
          (Inr ()))))))"

section \<open>Mutating steps\<close>

definition write_result ::
  "unicode_tables \<Rightarrow> recovery_snapshot \<Rightarrow> joint_observation \<Rightarrow> recovery_snapshot result" where
  "write_result u s after =
     bindr (merge_joint_observation s after) (\<lambda>(persistent, scratch).
     bindr (recompute_occupancy s (jo_occupancy after) persistent scratch False) (\<lambda>recomputed.
     guard (recomputed = jo_occupancy after) (red_err StaleOccupancy)
     (rebuild u (s\<lparr>persistent_observations := persistent, scratch_observations := scratch\<rparr>))))"

definition require_current ::
  "recovery_snapshot \<Rightarrow> effect \<Rightarrow> joint_observation \<Rightarrow> joint_observation \<Rightarrow> unit result" where
  "require_current s effect expected after =
     bindr (current_joint_observation s expected) (\<lambda>current.
     guard (current = expected) (red_err ExpectedBeforeMismatch)
     (andthen (require_exact_entry_transfers expected after)
     (andthen (require_parent_unmodeled_conservation expected after)
     (require_removed_directories_empty effect expected after))))"

definition transform_effect_tuple ::
  "unicode_tables \<Rightarrow> recovery_snapshot \<Rightarrow> pystr \<Rightarrow> effect_variant \<Rightarrow> joint_observation \<Rightarrow>
   joint_observation \<Rightarrow> diagnostic_identity_relation list \<Rightarrow> recovery_snapshot result" where
  "transform_effect_tuple u s effect_id variant expected after relations =
     bindr (mutating_effect s effect_id) (\<lambda>effect.
     guard (variant_of effect = variant) (red_err VariantMismatch)
     (andthen (validate_identity_relations relations)
     (andthen (validate_joint_coverage expected after)
     (andthen (validate_effect_joint_coverage s effect expected)
     (andthen (require_current s effect expected after)
     (write_result u s after))))))"

definition require_only_scratch_removed ::
  "pystr \<times> scratch_role \<Rightarrow> joint_observation \<Rightarrow> joint_observation \<Rightarrow> unit result" where
  "require_only_scratch_removed key expected after =
     (let expected_scratch = scratch_dict (jo_scratch expected);
          result_scratch = scratch_dict (jo_scratch after)
      in case (expected_scratch key, result_scratch key) of
           (Some present, Some removed) \<Rightarrow>
             guard (\<not> is_absent (so_entry present)) (red_err ScratchAlreadyAbsent)
             (guard (is_absent (so_entry removed) \<and> so_relation removed = None) (red_err ScratchNotRemoved)
             (guard (jo_persistent after = jo_persistent expected) (red_err RemoveChangesPersistent)
             (guard (\<forall>item \<in> set (jo_scratch expected). so_key item \<noteq> key \<longrightarrow>
                       result_scratch (so_key item) = expected_scratch (so_key item))
                (red_err RemoveChangesScratch)
             (Inr ()))))
         | _ \<Rightarrow> Inl (red_err ScratchNotInTuple))"

definition reduce_remove_scratch ::
  "unicode_tables \<Rightarrow> recovery_snapshot \<Rightarrow> pystr \<Rightarrow> scratch_role \<Rightarrow> joint_observation \<Rightarrow>
   joint_observation \<Rightarrow> recovery_snapshot result" where
  "reduce_remove_scratch u s effect_id role expected after =
     bindr (mutating_effect s effect_id) (\<lambda>effect.
     andthen (validate_joint_coverage expected after)
     (andthen (validate_remove_scratch_coverage s effect role expected)
     (andthen (require_current s effect expected after)
     (andthen (require_only_scratch_removed (effect_id, role) expected after)
     (write_result u s after)))))"

definition topology_nodes :: "recovery_snapshot \<Rightarrow> topology_node set" where
  "topology_nodes s = insert ProjectRoot (tp_node ` set (topology s) \<union> tp_parent ` set (topology s))"

definition reduce_preserve_external ::
  "recovery_snapshot \<Rightarrow> topology_node list \<Rightarrow> recovery_snapshot result" where
  "reduce_preserve_external s nodes =
     guard (card (set nodes) = length nodes) (red_err PreservedDuplicate)
     (guard (\<forall>node \<in> set nodes. node \<in> topology_nodes s) (red_err PreservedUnknown)
     (Inr s))"

definition reduce_detach_active :: "unicode_tables \<Rightarrow> recovery_snapshot \<Rightarrow> recovery_snapshot result" where
  "reduce_detach_active u s =
     guard (active s) (red_err AlreadyDetached)
     (guard (tx_state s \<in> {Tx_COMMITTED, Tx_ROLLED_BACK}) (red_err DetachNotTerminal)
     (rebuild u (s\<lparr>active := False\<rparr>)))"

section \<open>Applying steps\<close>

fun apply_step :: "unicode_tables \<Rightarrow> recovery_snapshot \<Rightarrow> recovery_step \<Rightarrow> recovery_snapshot result" where
  "apply_step u s (TransitionTransactionState from_state to_state result diag) =
     transition_transaction u s from_state to_state result diag"
| "apply_step u s (TransitionEffectState effect_id from_state to_state) =
     transition_effect u s effect_id from_state to_state"
| "apply_step u s (TransformEffectTuple effect_id variant _ expected after relations) =
     transform_effect_tuple u s effect_id variant expected after relations"
| "apply_step u s (RemoveScratch effect_id role expected after) =
     reduce_remove_scratch u s effect_id role expected after"
| "apply_step u s (PreserveExternal nodes) = reduce_preserve_external s nodes"
| "apply_step u s DetachActive = reduce_detach_active u s"

definition apply_steps ::
  "unicode_tables \<Rightarrow> recovery_snapshot \<Rightarrow> recovery_step list \<Rightarrow> recovery_snapshot result" where
  "apply_steps u s steps = foldr_r (apply_step u) s steps"

definition reduce_recovery_plan_prefix ::
  "unicode_tables \<Rightarrow> recovery_snapshot \<Rightarrow> recovery_plan \<Rightarrow> nat \<Rightarrow> recovery_snapshot result" where
  "reduce_recovery_plan_prefix u s plan completed =
     guard (s = bound_snapshot plan) (red_err PlanNotBound)
     (guard (completed \<le> length (plan_steps plan)) (red_err StepsOutOfRange)
     (if completed = 0 then Inr s else apply_steps u s (take completed (plan_steps plan))))"

definition apply_recovery_plan ::
  "unicode_tables \<Rightarrow> recovery_snapshot \<Rightarrow> recovery_plan \<Rightarrow> recovery_snapshot result" where
  "apply_recovery_plan u s plan = reduce_recovery_plan_prefix u s plan (length (plan_steps plan))"

definition normalize_joint_observation ::
  "recovery_snapshot \<Rightarrow> joint_observation \<Rightarrow> joint_observation result" where
  "normalize_joint_observation s ob =
     bindr (merge_joint_observation s ob) (\<lambda>(persistent, scratch).
     andthen (validate_occupancy_topology s (jo_occupancy ob))
     (bindr (normalize_file_build_relations (compiled s) (journals s) persistent scratch) (\<lambda>normalized.
     bindr (dict_lookup_all (scratch_dict normalized) (map so_key (jo_scratch ob))) (\<lambda>items.
     Inr (JointObservation (jo_persistent ob) items (jo_occupancy ob))))))"

end
