(* ===== verification/ReducerCorrect.thy ===== *)
theory ReducerCorrect
  imports Reducer CompilerCorrect
begin

text \<open>
  What every recovery step keeps: the reducer returns only snapshots that the factory vouches
  for, never changes the compiled specification, the topology or the commit decision, and
  writes nothing outside the tuple of the effect it names.
\<close>

section \<open>Snapshots the factory issues\<close>

definition valid_snapshot :: "unicode_tables \<Rightarrow> recovery_snapshot \<Rightarrow> bool" where
  "valid_snapshot u s \<longleftrightarrow> build_recovery_snapshot u s = Inr s"

text \<open>A snapshot is issued for a compiled specification by the snapshot factory.\<close>

definition issued :: "unicode_tables \<Rightarrow> recovery_snapshot \<Rightarrow> bool" where
  "issued u s \<longleftrightarrow> (\<exists>spec. compile_spec u spec = Inr (compiled s)) \<and> valid_snapshot u s"

lemma build_returns_input: "build_recovery_snapshot u s = Inr t \<Longrightarrow> t = s \<and> valid_snapshot u s"
  by (auto simp: build_recovery_snapshot_def valid_snapshot_def bindr_Inr_iff)

lemma valid_snapshot_iff: "valid_snapshot u s \<longleftrightarrow>
    validate_journal_coverage (compiled s) (journals s) = Inr () \<and>
    validate_persistent_coverage (compiled s) (persistent_observations s) = Inr () \<and>
    validate_scratch_coverage (compiled s) (scratch_observations s) = Inr () \<and>
    validate_topology (compiled s) (topology s) = Inr () \<and>
    validate_observations (compiled s) (journals s) (persistent_observations s) (scratch_observations s) = Inr () \<and>
    validate_halt_diagnostic u (halt_diagnostic s) = Inr () \<and>
    validate_terminal_payloads s = Inr ()"
  by (auto simp: valid_snapshot_def build_recovery_snapshot_def bindr_Inr_iff)

lemma valid_rows: "valid_snapshot u s \<Longrightarrow>
    map row_effect_id (journals s) = map effect_id_of (snapshot_effects s)"
  by (simp add: valid_snapshot_iff validate_journal_coverage_def guard_Inr_iff)

lemma valid_persistent_paths: "valid_snapshot u s \<Longrightarrow>
    length (persistent_observations s) = length (timelines (compiled s)) \<and>
    po_path ` set (persistent_observations s) = timeline_path ` set (timelines (compiled s))"
  by (simp add: valid_snapshot_iff validate_persistent_coverage_def guard_Inr_iff)

lemma valid_scratch_keys: "valid_snapshot u s \<Longrightarrow>
    length (scratch_observations s) = length (snapshot_effects s) \<and>
    so_key ` set (scratch_observations s) = scratch_key ` set (snapshot_effects s)"
  by (simp add: valid_snapshot_iff validate_scratch_coverage_def guard_Inr_iff)

lemma distinct_by_cover:
  "length xs = length ys \<Longrightarrow> f ` set xs = g ` set ys \<Longrightarrow> distinct (map g ys) \<Longrightarrow> distinct (map f xs)"
  by (metis card_distinct distinct_card length_map list.set_map)

lemma compiled_effect_ids:
  assumes "compile_spec u spec = Inr c"
  shows "distinct (map effect_id_of (spec_effects (compiled_of c)))"
  using assms by (auto simp: compile_spec_iff well_formed_def canonicalize_def dest: distinct_ids)

lemma compiled_timeline_paths:
  assumes "compile_spec u spec = Inr c"
  shows "distinct (map timeline_path (timelines c))"
proof -
  from assms have "map timeline_path (timelines c) = map fst (sort_key fst (group_occurrences (spec_effects spec)))"
    by (auto simp: compile_spec_iff build_timelines_iff case_prod_unfold)
  then show ?thesis using group_occurrences_distinct by (simp add: distinct_map)
qed

lemma issued_valid [dest]: "issued u s \<Longrightarrow> valid_snapshot u s"
  by (simp add: issued_def)

lemma issued_ids: "issued u s \<Longrightarrow> distinct (map effect_id_of (snapshot_effects s))"
  by (auto simp: issued_def dest: compiled_effect_ids)

lemma issued_row_ids: "issued u s \<Longrightarrow> distinct (map row_effect_id (journals s))"
  using issued_ids valid_rows by (metis issued_valid)

lemma issued_paths: "issued u s \<Longrightarrow> distinct (map po_path (persistent_observations s))"
proof -
  assume a: "issued u s"
  then have "distinct (map timeline_path (timelines (compiled s)))"
    by (auto simp: issued_def dest: compiled_timeline_paths)
  with valid_persistent_paths [OF issued_valid [OF a]] show ?thesis
    by (metis distinct_by_cover)
qed

lemma issued_scratch_keys: "issued u s \<Longrightarrow> distinct (map so_key (scratch_observations s))"
proof -
  assume a: "issued u s"
  have "distinct (map scratch_key (snapshot_effects s))"
    using issued_ids [OF a] by (auto simp: distinct_map inj_on_def)
  with valid_scratch_keys [OF issued_valid [OF a]] show ?thesis
    by (metis distinct_by_cover)
qed

section \<open>Rebuilding\<close>

lemma normalize_relation_Inr:
  "normalize_relation c rows persistent item = Inr item' \<Longrightarrow>
     so_key item' = so_key item \<and> so_entry item' = so_entry item \<and>
     (so_relation item' = so_relation item \<or> so_relation item' = None)"
  by (auto simp: normalize_relation_def result_simps split: if_splits)

lemma normalize_relations_Inr:
  assumes "normalize_file_build_relations c rows persistent scratch = Inr scratch'"
  shows "map so_key scratch' = map so_key scratch \<and> map so_entry scratch' = map so_entry scratch"
  using assms unfolding normalize_file_build_relations_def traverse_Inr_iff
  by (induction rule: list_all2_induct) (auto dest: normalize_relation_Inr)

lemma rebuild_Inr:
  assumes "rebuild u s = Inr t"
  shows "\<exists>scratch. normalize_file_build_relations (compiled s) (journals s) (persistent_observations s)
      (scratch_observations s) = Inr scratch \<and> t = s\<lparr>scratch_observations := scratch\<rparr> \<and> valid_snapshot u t"
  using assms by (auto simp: rebuild_def bindr_Inr_iff dest: build_returns_input)

text \<open>What is fixed for the whole recovery of a transaction.\<close>

definition same_transaction :: "recovery_snapshot \<Rightarrow> recovery_snapshot \<Rightarrow> bool" where
  "same_transaction s t \<longleftrightarrow>
     compiled t = compiled s \<and> topology t = topology s \<and> commit_decision t = commit_decision s \<and>
     map row_effect_id (journals t) = map row_effect_id (journals s) \<and>
     map po_path (persistent_observations t) = map po_path (persistent_observations s) \<and>
     map so_key (scratch_observations t) = map so_key (scratch_observations s)"

lemma same_transaction_refl [simp]: "same_transaction s s"
  by (simp add: same_transaction_def)

lemma same_transaction_trans:
  "same_transaction s t \<Longrightarrow> same_transaction t v \<Longrightarrow> same_transaction s v"
  by (simp add: same_transaction_def)

lemma rebuild_same:
  assumes "rebuild u s' = Inr t" and "same_transaction s s'"
  shows "same_transaction s t"
  using rebuild_Inr [OF assms(1)] assms(2)
  by (auto simp: same_transaction_def dest: normalize_relations_Inr)

section \<open>Reading and merging\<close>

lemma updated_persistent_paths [simp]:
  "map po_path (updated_persistent updates items) = map po_path items"
  by (auto simp: updated_persistent_def split: option.split dest!: dict_of_in_set)

lemma updated_scratch_keys [simp]: "map so_key (updated_scratch updates items) = map so_key items"
  by (auto simp: updated_scratch_def scratch_dict_def split: option.split dest!: dict_of_in_set)

lemma merge_Inr:
  "merge_joint_observation s ob = Inr (persistent, scratch) \<longleftrightarrow>
     (\<exists>keys. joint_keys ob = Inr keys) \<and>
     po_path ` set (jo_persistent ob) \<subseteq> po_path ` set (persistent_observations s) \<and>
     so_key ` set (jo_scratch ob) \<subseteq> so_key ` set (scratch_observations s) \<and>
     persistent = updated_persistent (jo_persistent ob) (persistent_observations s) \<and>
     scratch = updated_scratch (jo_scratch ob) (scratch_observations s)"
  by (auto simp: merge_joint_observation_def joint_keys_def result_simps)

lemma write_result_Inr:
  assumes "write_result u s after = Inr t"
  shows "\<exists>scratch. normalize_file_build_relations (compiled s) (journals s)
        (updated_persistent (jo_persistent after) (persistent_observations s))
        (updated_scratch (jo_scratch after) (scratch_observations s)) = Inr scratch \<and>
      t = s\<lparr>persistent_observations := updated_persistent (jo_persistent after) (persistent_observations s),
             scratch_observations := scratch\<rparr> \<and> valid_snapshot u t"
  using assms
  by (auto simp: write_result_def bindr_Inr_iff guard_Inr_iff merge_Inr dest!: rebuild_Inr)

lemma write_result_same: "write_result u s after = Inr t \<Longrightarrow> same_transaction s t"
  by (auto simp: same_transaction_def dest!: write_result_Inr normalize_relations_Inr)

section \<open>Steps\<close>

definition keeps_issued :: "unicode_tables \<Rightarrow> recovery_snapshot \<Rightarrow> recovery_snapshot \<Rightarrow> bool" where
  "keeps_issued u s t \<longleftrightarrow> same_transaction s t \<and> (valid_snapshot u s \<longrightarrow> valid_snapshot u t)"

lemma transition_transaction_Inr:
  assumes "transition_transaction u s from_state to_state result diag = Inr t"
  shows "tx_state s = from_state \<and> transaction_recovery_edge from_state to_state \<and>
    valid_payload to_state result diag \<and>
    rebuild u (s\<lparr>tx_state := to_state, rollback_result := result, halt_diagnostic := diag\<rparr>) = Inr t"
  using assms by (auto simp: transition_transaction_def guard_Inr_iff)

lemma transition_effect_Inr:
  assumes "transition_effect u s effect_id from_state to_state = Inr t"
  shows "\<exists>index. matching_rows (journals s) effect_id = [index] \<and>
    row_state (journals s ! index) = from_state \<and> effect_recovery_edge from_state to_state \<and>
    rebuild u (s\<lparr>journals := (journals s)[index :=
             EffectJournalState (row_effect_id (journals s ! index)) to_state]\<rparr>) = Inr t"
  using assms by (auto simp: transition_effect_def guard_Inr_iff split: list.splits)

lemma transform_Inr:
  assumes "transform_effect_tuple u s effect_id variant expected after relations = Inr t"
  shows "\<exists>effect. mutating_effect s effect_id = Inr effect \<and> variant_of effect = variant \<and>
    validate_joint_coverage expected after = Inr () \<and>
    validate_effect_joint_coverage s effect expected = Inr () \<and>
    require_current s effect expected after = Inr () \<and> write_result u s after = Inr t"
  using assms by (auto simp: transform_effect_tuple_def result_simps)

lemma remove_Inr:
  assumes "reduce_remove_scratch u s effect_id role expected after = Inr t"
  shows "\<exists>effect. mutating_effect s effect_id = Inr effect \<and>
    validate_joint_coverage expected after = Inr () \<and>
    validate_remove_scratch_coverage s effect role expected = Inr () \<and>
    require_current s effect expected after = Inr () \<and>
    require_only_scratch_removed (effect_id, role) expected after = Inr () \<and> write_result u s after = Inr t"
  using assms by (auto simp: reduce_remove_scratch_def result_simps)

lemma matching_rows_iff:
  "index \<in> set (matching_rows rows effect_id) \<longleftrightarrow>
     index < length rows \<and> row_effect_id (rows ! index) = effect_id"
  by (force simp: matching_rows_def in_set_indexed_iff)

lemma update_row_ids [simp]:
  "map row_effect_id (rows[i := EffectJournalState (row_effect_id (rows ! i)) j]) = map row_effect_id rows"
  by (cases "i < length rows") (simp_all add: map_update list_update_same_conv list_update_beyond)

lemma step_keeps: "apply_step u s step = Inr t \<Longrightarrow> keeps_issued u s t"
proof (cases step)
  case (TransitionTransactionState a b r d)
  assume "apply_step u s step = Inr t"
  with TransitionTransactionState
  have "rebuild u (s\<lparr>tx_state := b, rollback_result := r, halt_diagnostic := d\<rparr>) = Inr t"
    by (auto dest: transition_transaction_Inr)
  then show ?thesis
    using rebuild_same [of u _ t s] rebuild_Inr by (fastforce simp: keeps_issued_def same_transaction_def)
next
  case (TransitionEffectState i a b)
  assume "apply_step u s step = Inr t"
  with TransitionEffectState obtain n where
    "rebuild u (s\<lparr>journals := (journals s)[n := EffectJournalState (row_effect_id (journals s ! n)) b]\<rparr>) = Inr t"
    by (auto dest: transition_effect_Inr)
  then show ?thesis
    using rebuild_same [of u _ t s] rebuild_Inr by (fastforce simp: keeps_issued_def same_transaction_def)
next
  case (TransformEffectTuple i v k e a r)
  assume "apply_step u s step = Inr t"
  with TransformEffectTuple have "write_result u s a = Inr t" by (auto dest: transform_Inr)
  then show ?thesis by (auto simp: keeps_issued_def dest: write_result_same write_result_Inr)
next
  case (RemoveScratch i r e a)
  assume "apply_step u s step = Inr t"
  with RemoveScratch have "write_result u s a = Inr t" by (auto dest: remove_Inr)
  then show ?thesis by (auto simp: keeps_issued_def dest: write_result_same write_result_Inr)
next
  case (PreserveExternal nodes)
  assume "apply_step u s step = Inr t"
  with PreserveExternal show ?thesis
    by (auto simp: keeps_issued_def reduce_preserve_external_def guard_Inr_iff)
next
  case DetachActive
  assume "apply_step u s step = Inr t"
  with DetachActive have "rebuild u (s\<lparr>active := False\<rparr>) = Inr t"
    by (auto simp: reduce_detach_active_def guard_Inr_iff)
  then show ?thesis
    using rebuild_same [of u _ t s] rebuild_Inr by (fastforce simp: keeps_issued_def same_transaction_def)
qed

interpretation issued_run: run_invariant "apply_step u" "keeps_issued u" for u
proof
  show "keeps_issued u s s" for s by (simp add: keeps_issued_def)
  show "keeps_issued u s t \<Longrightarrow> keeps_issued u t v \<Longrightarrow> keeps_issued u s v" for s t v
    by (auto simp: keeps_issued_def intro: same_transaction_trans)
  show "apply_step u s step = Inr t \<Longrightarrow> keeps_issued u s t" for s step t
    by (rule step_keeps)
qed

section \<open>What a step may write\<close>

lemma persistent_map_Some:
  "distinct (map po_path (persistent_observations s)) \<Longrightarrow>
     persistent_map s p = Some x \<longleftrightarrow> PersistentObservation p x \<in> set (persistent_observations s)"
proof -
  assume d: "distinct (map po_path (persistent_observations s))"
  then have "persistent_map s p = Some x \<longleftrightarrow>
      (p, x) \<in> (\<lambda>item. (po_path item, po_entry item)) ` set (persistent_observations s)"
    unfolding persistent_map_def persistent_dict_def by (subst dict_of_Some) (simp_all add: comp_def)
  also have "\<dots> \<longleftrightarrow> PersistentObservation p x \<in> set (persistent_observations s)"
    by (force simp: image_iff)
  finally show ?thesis .
qed

lemma scratch_dict_Some:
  "distinct (map so_key items) \<Longrightarrow> scratch_dict items k = Some x \<longleftrightarrow> x \<in> set items \<and> so_key x = k"
  unfolding scratch_dict_def by (subst dict_of_Some) (auto simp: comp_def)

lemma scratch_map_Some:
  "distinct (map so_key (scratch_observations s)) \<Longrightarrow>
     scratch_map s k = Some x \<longleftrightarrow> x \<in> set (scratch_observations s) \<and> so_key x = k"
  unfolding scratch_map_def by (rule scratch_dict_Some)

lemma dict_lookup_all_Inr:
  "dict_lookup_all d keys = Inr xs \<Longrightarrow> x \<in> set xs \<Longrightarrow> \<exists>k \<in> set keys. d k = Some x"
  unfolding dict_lookup_all_def traverse_Inr_iff lookup_or_Inr_iff
  by (auto simp: list_all2_conv_all_nth in_set_conv_nth) (metis nth_mem)

lemma current_joint_Inr:
  assumes "current_joint_observation s template = Inr ob"
  shows "set (jo_persistent ob) \<subseteq> set (persistent_observations s) \<and>
    set (jo_scratch ob) \<subseteq> set (scratch_observations s)"
proof -
  from assms have p: "dict_lookup_all (dict_of (map (\<lambda>item. (po_path item, item)) (persistent_observations s)))
      (map po_path (jo_persistent template)) = Inr (jo_persistent ob)"
    and c: "dict_lookup_all (scratch_map s) (map so_key (jo_scratch template)) = Inr (jo_scratch ob)"
    by (auto simp: current_joint_observation_def result_simps split: prod.splits)
  have "x \<in> set (persistent_observations s)" if "x \<in> set (jo_persistent ob)" for x
    using dict_lookup_all_Inr [OF p that] by (auto dest: dict_of_in_set)
  moreover have "x \<in> set (scratch_observations s)" if "x \<in> set (jo_scratch ob)" for x
    using dict_lookup_all_Inr [OF c that] by (auto simp: scratch_map_def scratch_dict_def dest: dict_of_in_set)
  ultimately show ?thesis by blast
qed

lemma require_current_Inr:
  assumes "require_current s effect expected after = Inr ()"
  shows "current_joint_observation s expected = Inr expected \<and>
    (\<forall>x \<in> set (joint_entries after). is_absent x \<or> x \<in> set (joint_entries expected)) \<and>
    require_parent_unmodeled_conservation expected after = Inr () \<and>
    require_removed_directories_empty effect expected after = Inr ()"
  using assms by (auto simp: require_current_def require_exact_entry_transfers_def result_simps)

lemma joint_keys_Inr:
  "joint_keys ob = Inr keys \<Longrightarrow> keys = (po_path ` set (jo_persistent ob), so_key ` set (jo_scratch ob),
      occupied_parent ` set (jo_occupancy ob))"
  by (auto simp: joint_keys_def result_simps)

lemma coverage_keys:
  assumes "validate_joint_coverage expected after = Inr ()"
  shows "po_path ` set (jo_persistent after) = po_path ` set (jo_persistent expected) \<and>
    so_key ` set (jo_scratch after) = so_key ` set (jo_scratch expected)"
proof -
  from assms obtain keys where "joint_keys expected = Inr keys" "joint_keys after = Inr keys"
    by (auto simp: validate_joint_coverage_def result_simps)
  then have "(po_path ` set (jo_persistent after), so_key ` set (jo_scratch after), occupied_parent ` set (jo_occupancy after))
      = (po_path ` set (jo_persistent expected), so_key ` set (jo_scratch expected), occupied_parent ` set (jo_occupancy expected))"
    using joint_keys_Inr [of expected keys] joint_keys_Inr [of after keys] by (simp only:)
  then show ?thesis by (simp only: prod.inject simp_thms)
qed

lemma updated_in:
  "x \<in> set (updated_persistent updates items) \<Longrightarrow> x \<in> set updates \<or> x \<in> set items \<and> po_path x \<notin> po_path ` set updates"
  by (auto simp: updated_persistent_def dict_of_None_iff image_image comp_def split: option.splits dest!: dict_of_in_set)

lemma updated_scratch_in:
  "x \<in> set (updated_scratch updates items) \<Longrightarrow> x \<in> set updates \<or> x \<in> set items \<and> so_key x \<notin> so_key ` set updates"
proof -
  assume "x \<in> set (updated_scratch updates items)"
  then obtain item where item: "item \<in> set items"
      and x: "x = (case scratch_dict updates (so_key item) of None \<Rightarrow> item | Some u \<Rightarrow> u)"
    unfolding updated_scratch_def set_map by (rule imageE)
  show ?thesis
  proof (cases "scratch_dict updates (so_key item)")
    case None
    then have "so_key item \<notin> so_key ` set updates"
      unfolding scratch_dict_def dict_of_None_iff by (simp add: image_image)
    with None item x show ?thesis by simp
  next
    case (Some v)
    then have "v \<in> set updates" unfolding scratch_dict_def by (auto dest: dict_of_in_set)
    with Some x show ?thesis by simp
  qed
qed

text \<open>The entries that the snapshot observes at the paths and the scratch of an effect.\<close>

definition tuple_entries :: "recovery_snapshot \<Rightarrow> effect \<Rightarrow> observed_entry set" where
  "tuple_entries s effect =
     {x. \<exists>occ \<in> set (occurrences effect). persistent_map s (occ_path occ) = Some x} \<union>
     {so_entry x | x. scratch_map s (scratch_key effect) = Some x}"

fun step_effect :: "recovery_step \<Rightarrow> pystr option" where
  "step_effect (TransformEffectTuple i _ _ _ _ _) = Some i"
| "step_effect (RemoveScratch i _ _ _) = Some i"
| "step_effect _ = None"

definition scratch_entry :: "recovery_snapshot \<Rightarrow> pystr \<times> scratch_role \<Rightarrow> observed_entry option" where
  "scratch_entry s k = map_option so_entry (scratch_map s k)"

text \<open>The tuple a mutating step may write: at most the named effect's paths and scratch.\<close>

definition within_tuple :: "recovery_snapshot \<Rightarrow> effect \<Rightarrow> joint_observation \<Rightarrow> bool" where
  "within_tuple s effect ob \<longleftrightarrow>
     effect \<in> set (snapshot_effects s) \<and>
     po_path ` set (jo_persistent ob) \<subseteq> occ_path ` set (occurrences effect) \<and>
     so_key ` set (jo_scratch ob) \<subseteq> {scratch_key effect}"

lemma mutating_effect_Inr:
  "mutating_effect s i = Inr e \<Longrightarrow> e \<in> set (snapshot_effects s) \<and> effect_id_of e = i"
proof -
  assume "mutating_effect s i = Inr e"
  then have "filter (\<lambda>e. effect_id_of e = i) (snapshot_effects s) = [e]"
    by (auto simp: mutating_effect_def split: list.splits)
  then have "e \<in> set (filter (\<lambda>e. effect_id_of e = i) (snapshot_effects s))" by simp
  then show ?thesis by simp
qed

lemma effect_coverage_within:
  "validate_effect_joint_coverage s e ob = Inr () \<Longrightarrow> e \<in> set (snapshot_effects s) \<Longrightarrow> within_tuple s e ob"
  by (auto simp: validate_effect_joint_coverage_def within_tuple_def result_simps)

lemma remove_coverage_within:
  "validate_remove_scratch_coverage s e role ob = Inr () \<Longrightarrow> e \<in> set (snapshot_effects s) \<Longrightarrow> within_tuple s e ob"
proof -
  assume a: "validate_remove_scratch_coverage s e role ob = Inr ()" and e: "e \<in> set (snapshot_effects s)"
  show ?thesis
  proof (cases "jo_persistent ob = [] \<and> jo_occupancy ob = []")
    case True
    with a e show ?thesis
      by (simp add: validate_remove_scratch_coverage_def within_tuple_def result_simps)
  next
    case False
    with a have "validate_effect_joint_coverage s e ob = Inr ()"
      by (simp add: validate_remove_scratch_coverage_def)
    then show ?thesis using e by (rule effect_coverage_within)
  qed
qed

lemma within_tuple_after:
  "validate_joint_coverage expected after = Inr () \<Longrightarrow> within_tuple s e expected \<Longrightarrow> within_tuple s e after"
  by (simp only: within_tuple_def coverage_keys)

lemma mutating_step_Inr:
  assumes step: "apply_step u s step = Inr t" and mut: "is_mutating step"
  obtains effect expected after where "step_effect step = Some (effect_id_of effect)"
    "within_tuple s effect expected" "within_tuple s effect after"
    "require_current s effect expected after = Inr ()" "write_result u s after = Inr t"
proof (cases step)
  case (TransformEffectTuple i v k e a r)
  with step obtain eff where eff: "mutating_effect s i = Inr eff" "validate_joint_coverage e a = Inr ()"
      "validate_effect_joint_coverage s eff e = Inr ()" "require_current s eff e a = Inr ()" "write_result u s a = Inr t"
    by (auto dest: transform_Inr)
  note m = mutating_effect_Inr [OF eff(1)]
  from m have w: "within_tuple s eff e" by (intro effect_coverage_within eff(3)) simp
  from TransformEffectTuple m have "step_effect step = Some (effect_id_of eff)" by simp
  from that [OF this w within_tuple_after [OF eff(2) w] eff(4,5)] show thesis .
next
  case (RemoveScratch i r e a)
  with step obtain eff where eff: "mutating_effect s i = Inr eff" "validate_joint_coverage e a = Inr ()"
      "validate_remove_scratch_coverage s eff r e = Inr ()" "require_current s eff e a = Inr ()" "write_result u s a = Inr t"
    by (auto dest: remove_Inr)
  note m = mutating_effect_Inr [OF eff(1)]
  from m have w: "within_tuple s eff e" by (intro remove_coverage_within [OF eff(3)]) simp
  from RemoveScratch m have "step_effect step = Some (effect_id_of eff)" by simp
  from that [OF this w within_tuple_after [OF eff(2) w] eff(4,5)] show thesis .
qed (use mut in auto)

lemma joint_entries_in_tuple:
  assumes s: "issued u s" and w: "within_tuple s effect ob" and c: "current_joint_observation s ob = Inr ob"
    and x: "x \<in> set (joint_entries ob)"
  shows "x \<in> tuple_entries s effect"
proof -
  note cur = current_joint_Inr [OF c]
  from x consider item where "item \<in> set (jo_persistent ob)" "x = po_entry item"
    | item where "item \<in> set (jo_scratch ob)" "x = so_entry item"
    by (auto simp: joint_entries_def)
  then show ?thesis
  proof cases
    case 1
    with cur have "PersistentObservation (po_path item) x \<in> set (persistent_observations s)" by auto
    then have "persistent_map s (po_path item) = Some x"
      by (simp add: persistent_map_Some issued_paths [OF s])
    moreover from 1 w have "po_path item \<in> occ_path ` set (occurrences effect)"
      unfolding within_tuple_def by blast
    then obtain occ where "occ \<in> set (occurrences effect)" "occ_path occ = po_path item" by (metis imageE)
    ultimately show ?thesis unfolding tuple_entries_def by (intro UnI1 CollectI bexI [of _ occ]) simp_all
  next
    case 2
    with cur w have "item \<in> set (scratch_observations s)" "so_key item = scratch_key effect"
      by (auto simp: within_tuple_def)
    then have "scratch_map s (scratch_key effect) = Some item"
      by (simp add: scratch_map_Some issued_scratch_keys [OF s])
    with 2 show ?thesis by (auto simp: tuple_entries_def)
  qed
qed

lemma non_mutating_observations:
  assumes "apply_step u s step = Inr t" and "\<not> is_mutating step"
  shows "persistent_observations t = persistent_observations s \<and>
    map so_entry (scratch_observations t) = map so_entry (scratch_observations s)"
  using assms
  by (cases step)
    (auto simp: reduce_preserve_external_def reduce_detach_active_def guard_Inr_iff
      dest!: transition_transaction_Inr transition_effect_Inr rebuild_Inr normalize_relations_Inr)

lemma scratch_entry_by_lists:
  assumes "map so_key xs = map so_key ys" "map so_entry xs = map so_entry ys"
  shows "map_option so_entry (scratch_dict xs k) = map_option so_entry (scratch_dict ys k)"
proof -
  have "map_option so_entry (dict_of (map (\<lambda>item. (so_key item, item)) zs) k)
      = dict_of (zip (map so_key zs) (map so_entry zs)) k" for zs
  proof -
    have "map_option f (map_of ps k) = map_of (map (\<lambda>(a, b). (a, f b)) ps) k" for f :: "scratch_observation \<Rightarrow> observed_entry" and ps
      by (induction ps) auto
    then show ?thesis by (simp add: dict_of_def rev_map [symmetric] zip_map_map zip_same_conv_map comp_def)
  qed
  with assms show ?thesis by (simp add: scratch_dict_def)
qed

lemma same_keys_maps:
  assumes "same_transaction s t" and "map so_entry (scratch_observations t) = map so_entry (scratch_observations s)"
  shows "scratch_entry t k = scratch_entry s k"
proof -
  have "map so_key (scratch_observations t) = map so_key (scratch_observations s)"
    using assms(1) by (simp only: same_transaction_def)
  from scratch_entry_by_lists [OF this assms(2)] show ?thesis
    by (simp only: scratch_entry_def scratch_map_def)
qed

lemma issued_keeps: "issued u s \<Longrightarrow> keeps_issued u s t \<Longrightarrow> issued u t"
  by (auto simp: issued_def keeps_issued_def same_transaction_def)

lemma issued_step: "issued u s \<Longrightarrow> apply_step u s step = Inr t \<Longrightarrow> issued u t"
  using issued_keeps step_keeps by blast

lemma issued_steps: "issued u s \<Longrightarrow> apply_steps u s steps = Inr t \<Longrightarrow> issued u t"
  using issued_keeps issued_run.run_keeps unfolding apply_steps_def by blast

lemma map_None_same:
  assumes "same_transaction s t"
  shows "persistent_map t p = None \<longleftrightarrow> persistent_map s p = None"
    and "scratch_entry t k = None \<longleftrightarrow> scratch_entry s k = None"
proof -
  have p: "persistent_map x p = None \<longleftrightarrow> p \<notin> set (map po_path (persistent_observations x))" for x
    unfolding persistent_map_def persistent_dict_def dict_of_None_iff by (simp add: image_image)
  have k: "scratch_entry x k = None \<longleftrightarrow> k \<notin> set (map so_key (scratch_observations x))" for x
    unfolding scratch_entry_def scratch_map_def scratch_dict_def by (simp add: dict_of_None_iff image_image)
  show "persistent_map t p = None \<longleftrightarrow> persistent_map s p = None"
    and "scratch_entry t k = None \<longleftrightarrow> scratch_entry s k = None"
    using assms by (simp_all only: p k same_transaction_def)
qed

text \<open>A value that a mutating step of the effect may put into its tuple.\<close>

definition moved :: "recovery_snapshot \<Rightarrow> effect \<Rightarrow> observed_entry \<Rightarrow> bool" where
  "moved s effect x \<longleftrightarrow> x = ObservedAbsent \<or> x \<in> tuple_entries s effect"

lemma write_persistent:
  assumes s: "issued u s" and w: "write_result u s after = Inr t"
    and changed: "persistent_map t p \<noteq> persistent_map s p"
  shows "\<exists>x. persistent_map t p = Some x \<and> PersistentObservation p x \<in> set (jo_persistent after)"
proof -
  from w have same: "same_transaction s t" by (rule write_result_same)
  with changed map_None_same(1) obtain x where x: "persistent_map t p = Some x"
    by (metis not_Some_eq)
  have "distinct (map po_path (persistent_observations t))"
    using issued_paths [OF s] same by (simp only: same_transaction_def)
  with x have "PersistentObservation p x \<in> set (updated_persistent (jo_persistent after) (persistent_observations s))"
    using write_result_Inr [OF w] by (auto simp: persistent_map_Some)
  with changed x show ?thesis
    by (auto dest!: updated_in simp: persistent_map_Some [OF issued_paths [OF s], symmetric])
qed

lemma write_scratch:
  assumes s: "issued u s" and w: "write_result u s after = Inr t"
    and changed: "scratch_entry t k \<noteq> scratch_entry s k"
  shows "\<exists>item. scratch_entry t k = Some (so_entry item) \<and> item \<in> set (jo_scratch after) \<and> so_key item = k"
proof -
  from w have same: "same_transaction s t" by (rule write_result_same)
  let ?items = "updated_scratch (jo_scratch after) (scratch_observations s)"
  from write_result_Inr [OF w] have
    "map so_key (scratch_observations t) = map so_key ?items"
    "map so_entry (scratch_observations t) = map so_entry ?items"
    by (auto dest!: normalize_relations_Inr simp del: updated_scratch_keys)
  from scratch_entry_by_lists [OF this] have t: "scratch_entry t k = map_option so_entry (scratch_dict ?items k)"
    by (simp only: scratch_entry_def scratch_map_def)
  have d: "distinct (map so_key ?items)"
    using issued_scratch_keys [OF s] by (simp only: updated_scratch_keys)
  from changed map_None_same(2) [OF same] have "scratch_entry t k \<noteq> None" by metis
  with t obtain item where item: "scratch_dict ?items k = Some item" by auto
  then have i: "item \<in> set ?items" "so_key item = k"
    by (simp_all only: scratch_dict_Some [OF d])
  have "item \<notin> set (scratch_observations s)"
  proof
    assume "item \<in> set (scratch_observations s)"
    with i have "scratch_map s k = Some item" by (simp only: scratch_map_Some [OF issued_scratch_keys [OF s]])
    then have "scratch_entry s k = Some (so_entry item)" unfolding scratch_entry_def by (simp only: option.map)
    moreover have "scratch_entry t k = Some (so_entry item)" unfolding t item by (simp only: option.map)
    ultimately show False using changed by simp
  qed
  with i(1) have "item \<in> set (jo_scratch after)" by (auto dest: updated_scratch_in)
  with t item i show ?thesis by auto
qed

lemma mutating_within:
  assumes s: "issued u s" and step: "apply_step u s step = Inr t" and mut: "is_mutating step"
  shows "\<exists>e \<in> set (snapshot_effects s). step_effect step = Some (effect_id_of e) \<and>
    (\<forall>p. persistent_map t p \<noteq> persistent_map s p \<longrightarrow>
       p \<in> occ_path ` set (occurrences e) \<and> (\<exists>x. persistent_map t p = Some x \<and> moved s e x)) \<and>
    (\<forall>k. scratch_entry t k \<noteq> scratch_entry s k \<longrightarrow>
       k = scratch_key e \<and> (\<exists>x. scratch_entry t k = Some x \<and> moved s e x))"
proof -
  from step mut obtain e expected after where e: "step_effect step = Some (effect_id_of e)"
    and we: "within_tuple s e expected" and wa: "within_tuple s e after"
    and cur: "require_current s e expected after = Inr ()" and w: "write_result u s after = Inr t"
    by (rule mutating_step_Inr)
  note cur = require_current_Inr [OF cur]
  have ok: "moved s e x" if "x \<in> set (joint_entries after)" for x
    using cur that joint_entries_in_tuple [OF s we] by (auto simp: moved_def is_absent_iff)
  have "p \<in> occ_path ` set (occurrences e) \<and> (\<exists>x. persistent_map t p = Some x \<and> moved s e x)"
    if ch: "persistent_map t p \<noteq> persistent_map s p" for p
  proof -
    obtain x where x: "persistent_map t p = Some x" "PersistentObservation p x \<in> set (jo_persistent after)"
      using write_persistent [OF s w ch] by blast
    from x(2) have "p \<in> po_path ` set (jo_persistent after)" "x \<in> set (joint_entries after)"
      by (force simp: joint_entries_def)+
    with x(1) wa ok show ?thesis by (auto simp: within_tuple_def)
  qed
  moreover have "k = scratch_key e \<and> (\<exists>x. scratch_entry t k = Some x \<and> moved s e x)"
    if ch: "scratch_entry t k \<noteq> scratch_entry s k" for k
  proof -
    obtain item where item: "scratch_entry t k = Some (so_entry item)" "item \<in> set (jo_scratch after)" "so_key item = k"
      using write_scratch [OF s w ch] by blast
    from item(2) have "so_entry item \<in> set (joint_entries after)" by (simp add: joint_entries_def)
    with item wa ok show ?thesis unfolding within_tuple_def by blast
  qed
  ultimately show ?thesis using e we by (auto simp: within_tuple_def)
qed

end
