(* ===== verification/Variants.thy ===== *)
theory Variants
  imports Reducer
begin

text \<open>
  Classification of one effect (\<open>core/recovery/variants.py\<close>): from the journal state of
  the effect and what is observed at its paths and its scratch, what recovery does about it.
  Each variant is one decision table over the class of every entry; a combination the table
  does not name is not attributable to the transaction, and halts.
\<close>

datatype entry_class = Class_ABSENT | Class_PRE | Class_POST | Class_PREFIX | Class_EXTERNAL

datatype decision_kind =
    NO_ACTION | PRESERVE_EXTERNAL | UNDO_WITHOUT_MUTATION | REMOVE_SCRATCH | EXCHANGE_BACK
  | REFUSED_EXCHANGE_BACK | ALREADY_UNDONE | REMOVE_LIVE_CREATION | REFUSED_PRESERVE_LIVE
  | RESTORE_TOMBSTONE | REMOVE_ANCHOR | RESTORE_SOURCE | REMOVE_DESTINATION
  | RESTORE_FROM_ANCHOR | REFUSED_PRESERVE_DESTINATION | REMOVE_WORK | REMOVE_LIVE_DIRECTORY
  | REMOVE_DUAL_NAME_DIRECTORY | DECISION_HALT

record effect_decision =
  decision_kind :: decision_kind
  decision_steps :: "recovery_step list"
  refused :: bool
  halt_of :: "halt_reason option"
  decision_expected :: joint_observation
  decision_observed :: joint_observation

definition decision ::
  "decision_kind \<Rightarrow> joint_observation \<Rightarrow> recovery_step list \<Rightarrow> bool \<Rightarrow> effect_decision" where
  "decision kind observed steps ref =
     \<lparr>decision_kind = kind, decision_steps = steps, refused = ref, halt_of = None,
      decision_expected = observed, decision_observed = observed\<rparr>"

definition halt_decision :: "joint_observation \<Rightarrow> halt_reason \<Rightarrow> effect_decision" where
  "halt_decision observed reason =
     \<lparr>decision_kind = DECISION_HALT, decision_steps = [], refused = False, halt_of = Some reason,
      decision_expected = observed, decision_observed = observed\<rparr>"

abbreviation unattributable :: "joint_observation \<Rightarrow> effect_decision" where
  "unattributable observed \<equiv> halt_decision observed EFFECT_TUPLE_UNATTRIBUTABLE"

section \<open>Classes of entries\<close>

fun entry_state_of :: "observed_entry \<Rightarrow> path_state result" where
  "entry_state_of ObservedAbsent = Inr AbsentState"
| "entry_state_of (ObservedFile state _) = Inr state"
| "entry_state_of (ObservedSymlink state) = Inr state"
| "entry_state_of (ObservedDirectory state _ _) = Inr state"
| "entry_state_of _ = Inl (cls_err EntryOutsideStates)"

definition classify_entry ::
  "observed_entry \<Rightarrow> path_state \<Rightarrow> path_state \<Rightarrow> file_build_relation option \<Rightarrow> entry_class result" where
  "classify_entry entry pre post relation =
     (if is_absent entry then Inr Class_ABSENT
      else bindr (entry_state_of entry) (\<lambda>state.
        Inr (if state = pre then Class_PRE
             else if state = post then Class_POST
             else if relation = Some Build_STRICT_PREFIX then Class_PREFIX
             else Class_EXTERNAL)))"

section \<open>The joint observation of an effect\<close>

fun effect_paths :: "effect \<Rightarrow> pystr list" where
  "effect_paths (ReplaceFile _ path _ _) = [path]"
| "effect_paths (CreateFileNoClobber _ path _) = [path]"
| "effect_paths (DeletePath _ path _) = [path]"
| "effect_paths (CreateDirectory _ path _) = [path]"
| "effect_paths (MoveNoClobber _ source destination _) = [source, destination]"

definition observed_occupancy ::
  "recovery_snapshot \<Rightarrow> topology_node \<Rightarrow> observed_entry \<Rightarrow> parent_occupancy result" where
  "observed_occupancy s parent entry =
     (case entry of
        ObservedDirectory _ _ unmodeled \<Rightarrow>
          bindr (present_children_of s parent (persistent_map s) (scratch_map s)) (\<lambda>present.
          Inr (ParentOccupancy parent present unmodeled))
      | _ \<Rightarrow> Inl (cls_err OccupancyOfNonDirectory))"

definition joint :: "recovery_snapshot \<Rightarrow> effect \<Rightarrow> joint_observation result" where
  "joint s effect =
     bindr (traverse (\<lambda>path.
              bindr (lookup_or (cls_err EffectCoverageMissing) (persistent_map s) path)
                (\<lambda>entry. Inr (PersistentObservation path entry))) (effect_paths effect)) (\<lambda>persistent.
     bindr (lookup_or (cls_err EffectCoverageMissing) (scratch_map s) (scratch_key effect)) (\<lambda>scratch.
     let nodes = map (\<lambda>item. (PersistentNode (po_path item), po_entry item)) persistent @
                 [(scratch_node effect, so_entry scratch)]
     in bindr (traverse (\<lambda>(node, entry). observed_occupancy s node entry)
                (filter (\<lambda>(node, entry). is_directory entry \<and> node \<in> topology_parents s) nodes))
          (\<lambda>occupancy. Inr (JointObservation persistent [scratch] occupancy))))"

definition replace_persistent ::
  "joint_observation \<Rightarrow> observed_entry list \<Rightarrow> persistent_observation list result" where
  "replace_persistent observed entries =
     guard (length entries = length (jo_persistent observed)) (cls_err PersistentArity)
       (Inr (map (\<lambda>(item, entry). PersistentObservation (po_path item) entry)
               (zip (jo_persistent observed) entries)))"

definition replace_scratch :: "joint_observation \<Rightarrow> observed_entry \<Rightarrow> scratch_observation list result" where
  "replace_scratch observed entry =
     (case jo_scratch observed of
        [item] \<Rightarrow> Inr [ScratchObservation (so_effect_id item) (so_role item) entry None]
      | _ \<Rightarrow> Inl (cls_err ScratchArity))"

definition transform ::
  "effect \<Rightarrow> joint_observation \<Rightarrow> observed_entry list \<Rightarrow> observed_entry \<Rightarrow> settlement_kind \<Rightarrow>
   diagnostic_identity_relation list \<Rightarrow> (recovery_step \<times> joint_observation) result" where
  "transform effect observed persistent scratch settlement relations =
     bindr (replace_persistent observed persistent) (\<lambda>new_persistent.
     bindr (replace_scratch observed scratch) (\<lambda>new_scratch.
     let after = JointObservation new_persistent new_scratch (jo_occupancy observed)
     in Inr (TransformEffectTuple (effect_id_of effect) (variant_of effect) settlement
               observed after relations, after)))"

definition remove_scratch_step ::
  "effect \<Rightarrow> joint_observation \<Rightarrow> (recovery_step \<times> joint_observation) result" where
  "remove_scratch_step effect observed =
     bindr (replace_scratch observed ObservedAbsent) (\<lambda>new_scratch.
     let after = JointObservation (jo_persistent observed) new_scratch (jo_occupancy observed)
     in Inr (RemoveScratch (effect_id_of effect) (required_scratch_role effect) observed after, after))"

text \<open>A decision whose steps are: remove the scratch; transform, then remove the scratch.\<close>

definition remove_decision ::
  "decision_kind \<Rightarrow> effect \<Rightarrow> joint_observation \<Rightarrow> effect_decision result" where
  "remove_decision kind effect observed =
     bindr (remove_scratch_step effect observed) (\<lambda>(remove, _).
     Inr (decision kind observed [remove] False))"

definition transform_decision ::
  "decision_kind \<Rightarrow> effect \<Rightarrow> joint_observation \<Rightarrow> observed_entry list \<Rightarrow> observed_entry \<Rightarrow>
   settlement_kind \<Rightarrow> diagnostic_identity_relation list \<Rightarrow> effect_decision result" where
  "transform_decision kind effect observed persistent scratch settlement relations =
     bindr (transform effect observed persistent scratch settlement relations) (\<lambda>(step, after).
     bindr (remove_scratch_step effect after) (\<lambda>(remove, _).
     Inr (decision kind observed [step, remove] False)))"

fun find_journal :: "journal_row list \<Rightarrow> pystr \<Rightarrow> journal_state result" where
  "find_journal [] effect_id = Inl (cls_err JournalCoverageMissing)"
| "find_journal (row # rows) effect_id =
     (if row_effect_id row = effect_id then Inr (row_state row) else find_journal rows effect_id)"

definition live_entry :: "joint_observation \<Rightarrow> nat \<Rightarrow> observed_entry result" where
  "live_entry observed i = bindr (index_or (jo_persistent observed) i) (\<lambda>item. Inr (po_entry item))"

definition scratch_item :: "joint_observation \<Rightarrow> scratch_observation result" where
  "scratch_item observed = index_or (jo_scratch observed) 0"

section \<open>ReplaceFile\<close>

fun file_with_state :: "observed_entry \<Rightarrow> path_state \<Rightarrow> bool" where
  "file_with_state (ObservedFile state _) pre = (state = pre)"
| "file_with_state _ _ = False"

text \<open>A replacement by the same state: the live file alone never tells which side landed.\<close>

definition classify_noop_replace ::
  "recovery_snapshot \<Rightarrow> effect \<Rightarrow> path_state \<Rightarrow> joint_observation \<Rightarrow> effect_decision result" where
  "classify_noop_replace s effect pre observed =
     bindr (live_entry observed 0) (\<lambda>live.
     bindr (scratch_item observed) (\<lambda>staging_item.
     bindr (find_journal (journals s) (effect_id_of effect)) (\<lambda>journal.
     let staging = so_entry staging_item;
         staging_absent = is_absent staging;
         staging_same = file_with_state staging pre;
         staging_prefix = so_relation staging_item = Some Build_STRICT_PREFIX
     in if \<not> file_with_state live pre then Inr (unattributable observed)
        else if commit_decision s = Decision_COMMITTED then
          (if journal = J_DONE \<and> staging_same then remove_decision REMOVE_SCRATCH effect observed
           else if journal = J_DONE \<and> staging_absent then Inr (decision NO_ACTION observed [] False)
           else Inr (unattributable observed))
        else if journal = J_STARTED \<and> staging_absent then
          Inr (decision UNDO_WITHOUT_MUTATION observed [] False)
        else if journal = J_STARTED \<and> (staging_prefix \<or> staging_same) then
          remove_decision REMOVE_SCRATCH effect observed
        else if journal = J_DONE \<and> staging_same then
          remove_decision REMOVE_SCRATCH effect observed
        else if journal = J_UNDO_STARTED \<and> staging_same then
          remove_decision REMOVE_SCRATCH effect observed
        else if journal = J_UNDO_STARTED \<and> staging_absent then
          Inr (decision ALREADY_UNDONE observed [] False)
        else Inr (unattributable observed))))"

definition replace_exchange ::
  "effect \<Rightarrow> pystr \<Rightarrow> joint_observation \<Rightarrow> bool \<Rightarrow> effect_decision result" where
  "replace_exchange effect path observed ref =
     bindr (live_entry observed 0) (\<lambda>live.
     bindr (scratch_item observed) (\<lambda>staging_item.
     bindr (transform effect observed [so_entry staging_item] live RESTORE_PRE []) (\<lambda>(step, after).
     bindr (remove_scratch_step effect after) (\<lambda>(remove, _).
     Inr (if ref
          then decision REFUSED_EXCHANGE_BACK observed
                 [step, PreserveExternal [PersistentNode path], remove] True
          else decision EXCHANGE_BACK observed [step, remove] False)))))"

definition classify_replace ::
  "recovery_snapshot \<Rightarrow> effect \<Rightarrow> pystr \<Rightarrow> path_state \<Rightarrow> path_state \<Rightarrow> effect_decision result" where
  "classify_replace s effect path pre post =
     bindr (joint s effect) (\<lambda>observed.
     if pre = post then classify_noop_replace s effect pre observed
     else
       bindr (live_entry observed 0) (\<lambda>live.
       bindr (scratch_item observed) (\<lambda>staging_item.
       bindr (classify_entry live pre post None) (\<lambda>live_class.
       bindr (classify_entry (so_entry staging_item) pre post (so_relation staging_item)) (\<lambda>staging_class.
       bindr (find_journal (journals s) (effect_id_of effect)) (\<lambda>journal.
       if commit_decision s = Decision_COMMITTED then
         (if journal = J_DONE \<and> live_class = Class_POST \<and> staging_class = Class_PRE
            then remove_decision REMOVE_SCRATCH effect observed
          else if journal = J_DONE \<and> live_class = Class_POST \<and> staging_class = Class_ABSENT
            then Inr (decision NO_ACTION observed [] False)
          else Inr (unattributable observed))
       else if journal = J_STARTED then
         (if live_class = Class_PRE \<and> staging_class = Class_ABSENT
            then Inr (decision UNDO_WITHOUT_MUTATION observed [] False)
          else if live_class = Class_PRE \<and> staging_class \<in> {Class_PREFIX, Class_POST}
            then remove_decision REMOVE_SCRATCH effect observed
          else if live_class = Class_POST \<and> staging_class = Class_PRE
            then replace_exchange effect path observed False
          else if live_class = Class_POST \<and> staging_class = Class_EXTERNAL
            then replace_exchange effect path observed True
          else Inr (unattributable observed))
       else if journal = J_DONE then
         (if live_class = Class_POST \<and> staging_class = Class_PRE
            then replace_exchange effect path observed False
          else Inr (unattributable observed))
       else if journal = J_UNDO_STARTED then
         (if live_class = Class_POST \<and> staging_class = Class_PRE
            then replace_exchange effect path observed False
          else if live_class = Class_PRE \<and> staging_class = Class_POST
            then remove_decision REMOVE_SCRATCH effect observed
          else if live_class = Class_PRE \<and> staging_class = Class_ABSENT
            then Inr (decision ALREADY_UNDONE observed [] False)
          else Inr (unattributable observed))
       else Inr (unattributable observed)))))))"

section \<open>CreateFileNoClobber\<close>

definition remove_live_creation :: "effect \<Rightarrow> joint_observation \<Rightarrow> effect_decision result" where
  "remove_live_creation effect observed =
     bindr (live_entry observed 0) (\<lambda>live.
     transform_decision REMOVE_LIVE_CREATION effect observed [ObservedAbsent] live
       REMOVE_ATTRIBUTABLE_CREATION [])"

definition refuse_create_live ::
  "effect \<Rightarrow> pystr \<Rightarrow> joint_observation \<Rightarrow> bool \<Rightarrow> effect_decision result" where
  "refuse_create_live effect path observed remove_staging =
     (if remove_staging
      then bindr (remove_scratch_step effect observed) (\<lambda>(remove, _).
             Inr (decision REFUSED_PRESERVE_LIVE observed
                    [PreserveExternal [PersistentNode path], remove] True))
      else Inr (decision REFUSED_PRESERVE_LIVE observed [PreserveExternal [PersistentNode path]] True))"

definition classify_create_file ::
  "recovery_snapshot \<Rightarrow> effect \<Rightarrow> pystr \<Rightarrow> path_state \<Rightarrow> effect_decision result" where
  "classify_create_file s effect path post =
     bindr (joint s effect) (\<lambda>observed.
     bindr (live_entry observed 0) (\<lambda>live.
     bindr (scratch_item observed) (\<lambda>staging_item.
     bindr (classify_entry live AbsentState post None) (\<lambda>live_class.
     bindr (classify_entry (so_entry staging_item) AbsentState post (so_relation staging_item)) (\<lambda>staging_class.
     bindr (find_journal (journals s) (effect_id_of effect)) (\<lambda>journal.
     if commit_decision s = Decision_COMMITTED then
       (if journal = J_DONE \<and> live_class = Class_POST \<and> staging_class = Class_ABSENT
          then Inr (decision NO_ACTION observed [] False)
        else Inr (unattributable observed))
     else if journal = J_STARTED then
       (if live_class = Class_ABSENT \<and> staging_class = Class_ABSENT
          then Inr (decision UNDO_WITHOUT_MUTATION observed [] False)
        else if live_class = Class_ABSENT \<and> staging_class \<in> {Class_PREFIX, Class_POST}
          then remove_decision REMOVE_SCRATCH effect observed
        else if live_class = Class_POST \<and> staging_class = Class_ABSENT
          then remove_live_creation effect observed
        else if live_class = Class_POST \<and> staging_class \<in> {Class_PREFIX, Class_POST}
          then refuse_create_live effect path observed True
        else if live_class = Class_EXTERNAL \<and> staging_class \<in> {Class_ABSENT, Class_PREFIX, Class_POST}
          then refuse_create_live effect path observed (staging_class \<noteq> Class_ABSENT)
        else Inr (unattributable observed))
     else if journal = J_DONE then
       (if live_class = Class_POST \<and> staging_class = Class_ABSENT
          then remove_live_creation effect observed
        else Inr (unattributable observed))
     else if journal = J_UNDO_STARTED then
       (if live_class = Class_POST \<and> staging_class = Class_ABSENT
          then remove_live_creation effect observed
        else if live_class = Class_ABSENT \<and> staging_class = Class_POST
          then remove_decision REMOVE_SCRATCH effect observed
        else if live_class = Class_ABSENT \<and> staging_class = Class_ABSENT
          then Inr (decision ALREADY_UNDONE observed [] False)
        else Inr (unattributable observed))
     else Inr (unattributable observed)))))))"

section \<open>DeletePath\<close>

definition restore_tombstone :: "effect \<Rightarrow> joint_observation \<Rightarrow> effect_decision result" where
  "restore_tombstone effect observed =
     bindr (scratch_item observed) (\<lambda>tombstone.
     bindr (transform effect observed [so_entry tombstone] ObservedAbsent RESTORE_PRE []) (\<lambda>(step, _).
     Inr (decision RESTORE_TOMBSTONE observed [step] False)))"

definition classify_delete :: "recovery_snapshot \<Rightarrow> effect \<Rightarrow> path_state \<Rightarrow> effect_decision result" where
  "classify_delete s effect pre =
     bindr (joint s effect) (\<lambda>observed.
     bindr (live_entry observed 0) (\<lambda>live.
     bindr (scratch_item observed) (\<lambda>tombstone.
     bindr (classify_entry live pre AbsentState None) (\<lambda>live_class.
     bindr (classify_entry (so_entry tombstone) pre AbsentState None) (\<lambda>tombstone_class.
     bindr (find_journal (journals s) (effect_id_of effect)) (\<lambda>journal.
     if commit_decision s = Decision_COMMITTED then
       (if journal = J_DONE \<and> live_class = Class_ABSENT \<and> tombstone_class = Class_PRE
          then remove_decision REMOVE_SCRATCH effect observed
        else if journal = J_DONE \<and> live_class = Class_ABSENT \<and> tombstone_class = Class_ABSENT
          then Inr (decision NO_ACTION observed [] False)
        else Inr (unattributable observed))
     else if journal = J_STARTED then
       (if live_class = Class_PRE \<and> tombstone_class = Class_ABSENT
          then Inr (decision UNDO_WITHOUT_MUTATION observed [] False)
        else if live_class = Class_ABSENT \<and> tombstone_class = Class_PRE
          then restore_tombstone effect observed
        else Inr (unattributable observed))
     else if journal = J_DONE then
       (if live_class = Class_ABSENT \<and> tombstone_class = Class_PRE
          then restore_tombstone effect observed
        else Inr (unattributable observed))
     else if journal = J_UNDO_STARTED then
       (if live_class = Class_ABSENT \<and> tombstone_class = Class_PRE
          then restore_tombstone effect observed
        else if live_class = Class_PRE \<and> tombstone_class = Class_ABSENT
          then Inr (decision ALREADY_UNDONE observed [] False)
        else Inr (unattributable observed))
     else Inr (unattributable observed)))))))"

section \<open>MoveNoClobber\<close>

definition move_entry_class :: "observed_entry \<Rightarrow> path_state \<Rightarrow> entry_class result" where
  "move_entry_class entry source_pre = classify_entry entry source_pre source_pre None"

fun entry_identity_of :: "observed_entry \<Rightarrow> entry_identity option" where
  "entry_identity_of (ObservedFile _ identity) = Some identity"
| "entry_identity_of (ObservedDirectory _ identity _) = Some identity"
| "entry_identity_of _ = None"

definition same_identity :: "observed_entry \<Rightarrow> observed_entry \<Rightarrow> bool" where
  "same_identity left right \<longleftrightarrow>
     entry_identity_of left \<noteq> None \<and> entry_identity_of left = entry_identity_of right"

definition destination_is_anchor :: diagnostic_identity_relation where
  "destination_is_anchor = DiagnosticIdentityRelation (py ''destination'') (py ''anchor'') Identity_SAME"

definition source_is_anchor :: diagnostic_identity_relation where
  "source_is_anchor = DiagnosticIdentityRelation (py ''source'') (py ''anchor'') Identity_SAME"

definition move_restore_source :: "effect \<Rightarrow> joint_observation \<Rightarrow> effect_decision result" where
  "move_restore_source effect observed =
     bindr (live_entry observed 1) (\<lambda>destination.
     bindr (scratch_item observed) (\<lambda>anchor.
     transform_decision RESTORE_SOURCE effect observed [destination, ObservedAbsent] (so_entry anchor)
       RESTORE_PRE [destination_is_anchor]))"

definition move_remove_destination :: "effect \<Rightarrow> joint_observation \<Rightarrow> effect_decision result" where
  "move_remove_destination effect observed =
     bindr (live_entry observed 0) (\<lambda>source.
     bindr (scratch_item observed) (\<lambda>anchor.
     transform_decision REMOVE_DESTINATION effect observed [source, ObservedAbsent] (so_entry anchor)
       REPAIR_INTERMEDIATE [destination_is_anchor, source_is_anchor]))"

definition move_restore_from_anchor :: "effect \<Rightarrow> joint_observation \<Rightarrow> effect_decision result" where
  "move_restore_from_anchor effect observed =
     bindr (scratch_item observed) (\<lambda>anchor.
     transform_decision RESTORE_FROM_ANCHOR effect observed [so_entry anchor, ObservedAbsent]
       (so_entry anchor) REPAIR_INTERMEDIATE [source_is_anchor])"

definition classify_move ::
  "recovery_snapshot \<Rightarrow> effect \<Rightarrow> pystr \<Rightarrow> path_state \<Rightarrow> effect_decision result" where
  "classify_move s effect destination_path source_pre =
     bindr (joint s effect) (\<lambda>observed.
     bindr (live_entry observed 0) (\<lambda>source.
     bindr (live_entry observed 1) (\<lambda>destination.
     bindr (scratch_item observed) (\<lambda>anchor_item.
     bindr (move_entry_class source source_pre) (\<lambda>source_class.
     bindr (move_entry_class destination source_pre) (\<lambda>destination_class.
     bindr (move_entry_class (so_entry anchor_item) source_pre) (\<lambda>anchor_class.
     bindr (find_journal (journals s) (effect_id_of effect)) (\<lambda>journal.
     let source_anchor_same = same_identity source (so_entry anchor_item);
         destination_anchor_same = same_identity destination (so_entry anchor_item)
     in if commit_decision s = Decision_COMMITTED then
          (if journal = J_DONE \<and> source_class = Class_ABSENT \<and> destination_class = Class_PRE \<and>
              anchor_class = Class_PRE \<and> destination_anchor_same
             then remove_decision REMOVE_ANCHOR effect observed
           else if journal = J_DONE \<and> source_class = Class_ABSENT \<and> destination_class = Class_PRE \<and>
                   anchor_class = Class_ABSENT
             then Inr (decision NO_ACTION observed [] False)
           else Inr (unattributable observed))
        else if journal = J_DONE then
          (if source_class = Class_ABSENT \<and> destination_class = Class_PRE \<and>
              anchor_class = Class_PRE \<and> destination_anchor_same
             then move_restore_source effect observed
           else Inr (unattributable observed))
        else if journal \<notin> {J_STARTED, J_UNDO_STARTED} then Inr (unattributable observed)
        else if source_class = Class_PRE \<and> destination_class = Class_ABSENT \<and> anchor_class = Class_ABSENT
          then Inr (decision (if journal = J_UNDO_STARTED then ALREADY_UNDONE else UNDO_WITHOUT_MUTATION)
                      observed [] False)
        else if source_class = Class_PRE \<and> destination_class = Class_ABSENT \<and>
                anchor_class = Class_PRE \<and> source_anchor_same
          then remove_decision REMOVE_ANCHOR effect observed
        else if source_class = Class_ABSENT \<and> destination_class = Class_PRE \<and>
                anchor_class = Class_PRE \<and> destination_anchor_same
          then move_restore_source effect observed
        else if source_class = Class_PRE \<and> destination_class = Class_PRE \<and>
                anchor_class = Class_PRE \<and> source_anchor_same \<and> destination_anchor_same
          then move_remove_destination effect observed
        else if source_class = Class_ABSENT \<and> destination_class = Class_ABSENT \<and> anchor_class = Class_PRE
          then move_restore_from_anchor effect observed
        else if source_class = Class_PRE \<and> destination_class = Class_EXTERNAL \<and>
                anchor_class = Class_PRE \<and> source_anchor_same
          then bindr (remove_scratch_step effect observed) (\<lambda>(remove, _).
               Inr (decision REFUSED_PRESERVE_DESTINATION observed
                      [PreserveExternal [PersistentNode destination_path], remove] True))
        else Inr (unattributable observed)))))))))"

section \<open>CreateDirectory\<close>

text \<open>A work directory still under construction: no permission outside the owner's, empty.\<close>

fun is_directory_scaffold :: "observed_entry \<Rightarrow> bool" where
  "is_directory_scaffold (ObservedDirectory (DirectoryState mode) _ unmodeled) \<longleftrightarrow>
     mode AND NOT 448 = 0 \<and> unmodeled \<noteq> Some True"
| "is_directory_scaffold _ \<longleftrightarrow> False"

definition directory_is_empty :: "joint_observation \<Rightarrow> topology_node \<Rightarrow> observed_entry \<Rightarrow> bool" where
  "directory_is_empty observed node entry =
     (case entry of
        ObservedDirectory _ _ unmodeled \<Rightarrow>
          (if unmodeled = Some True then False
           else case find (\<lambda>item. occupied_parent item = node) (jo_occupancy observed) of
                  None \<Rightarrow> True
                | Some item \<Rightarrow> present_children item = [])
      | _ \<Rightarrow> False)"

definition live_is_work :: diagnostic_identity_relation where
  "live_is_work = DiagnosticIdentityRelation (py ''live'') (py ''work'') Identity_SAME"

definition remove_live_directory ::
  "effect \<Rightarrow> joint_observation \<Rightarrow> diagnostic_identity_relation list \<Rightarrow> effect_decision result" where
  "remove_live_directory effect observed relations =
     bindr (transform effect observed [ObservedAbsent] ObservedAbsent REMOVE_ATTRIBUTABLE_CREATION relations)
       (\<lambda>(step, _). Inr (decision REMOVE_LIVE_DIRECTORY observed [step] False))"

definition remove_dual_name ::
  "effect \<Rightarrow> joint_observation \<Rightarrow> effect_decision result" where
  "remove_dual_name effect observed =
     bindr (remove_scratch_step effect observed) (\<lambda>(remove_stale, after).
     bindr (remove_live_directory effect after [live_is_work]) (\<lambda>landed.
     Inr (decision REMOVE_DUAL_NAME_DIRECTORY observed (remove_stale # decision_steps landed) False)))"

definition classify_directory ::
  "recovery_snapshot \<Rightarrow> effect \<Rightarrow> pystr \<Rightarrow> path_state \<Rightarrow> effect_decision result" where
  "classify_directory s effect path post =
     bindr (joint s effect) (\<lambda>observed.
     bindr (live_entry observed 0) (\<lambda>live.
     bindr (scratch_item observed) (\<lambda>work_item.
     bindr (classify_entry live AbsentState post None) (\<lambda>live_class.
     bindr (classify_entry (so_entry work_item) AbsentState post None) (\<lambda>work_class.
     bindr (find_journal (journals s) (effect_id_of effect)) (\<lambda>journal.
     let work = so_entry work_item;
         work_attributable = (work_class = Class_POST \<or> is_directory_scaffold work);
         same = same_identity live work;
         live_empty = directory_is_empty observed (PersistentNode path) live;
         work_empty = directory_is_empty observed (scratch_node effect) work
     in if commit_decision s = Decision_COMMITTED then
          (if journal = J_DONE \<and> live_class = Class_POST \<and> work_class = Class_ABSENT
             then Inr (decision NO_ACTION observed [] False)
           else Inr (unattributable observed))
        else if journal = J_DONE then
          (if live_class = Class_POST \<and> work_class = Class_ABSENT
             then (if \<not> live_empty then Inr (halt_decision observed DIRECTORY_NOT_EMPTY)
                   else remove_live_directory effect observed [])
           else Inr (unattributable observed))
        else if journal \<notin> {J_STARTED, J_UNDO_STARTED} then Inr (unattributable observed)
        else if live_class = Class_ABSENT \<and> work_class = Class_ABSENT
          then Inr (decision (if journal = J_UNDO_STARTED then ALREADY_UNDONE else UNDO_WITHOUT_MUTATION)
                      observed [] False)
        else if live_class = Class_ABSENT \<and> work_attributable
          then (if \<not> work_empty then Inr (halt_decision observed DIRECTORY_NOT_EMPTY)
                else remove_decision REMOVE_WORK effect observed)
        else if live_class = Class_POST \<and> work_class = Class_ABSENT
          then (if \<not> live_empty then Inr (halt_decision observed DIRECTORY_NOT_EMPTY)
                else remove_live_directory effect observed [])
        else if live_class = Class_POST \<and> work_attributable \<and> same
          then (if \<not> (live_empty \<and> work_empty) then Inr (halt_decision observed DIRECTORY_NOT_EMPTY)
                else remove_dual_name effect observed)
        else if live_class \<in> {Class_POST, Class_EXTERNAL} \<and> work_attributable \<and> \<not> same
          then (if \<not> work_empty then Inr (halt_decision observed DIRECTORY_NOT_EMPTY)
                else bindr (remove_scratch_step effect observed) (\<lambda>(remove, _).
                     Inr (decision REFUSED_PRESERVE_LIVE observed
                            [PreserveExternal [PersistentNode path], remove] True)))
        else Inr (unattributable observed)))))))"

section \<open>Committed cleanup\<close>

fun expected_retained_state :: "effect \<Rightarrow> path_state result" where
  "expected_retained_state (ReplaceFile _ _ pre _) = Inr pre"
| "expected_retained_state (DeletePath _ _ pre) = Inr pre"
| "expected_retained_state (MoveNoClobber _ _ _ source_pre) = Inr source_pre"
| "expected_retained_state _ = Inl (cls_err NoRetainedScratch)"

definition committed_scratch_joint :: "recovery_snapshot \<Rightarrow> effect \<Rightarrow> joint_observation result" where
  "committed_scratch_joint s effect =
     bindr (lookup_or KeyError (scratch_map s) (scratch_key effect)) (\<lambda>scratch.
     Inr (JointObservation [] [scratch] []))"

definition classify_committed_cleanup :: "recovery_snapshot \<Rightarrow> nat \<Rightarrow> effect_decision result" where
  "classify_committed_cleanup s effect_index =
     guard (effect_index < length (snapshot_effects s)) (cls_err EffectIndexRange)
     (guard (tx_state s = Tx_COMMITTED \<and> commit_decision s = Decision_COMMITTED \<and>
             (\<forall>row \<in> set (journals s). row_state row = J_DONE)) (cls_err NotCommittedAllDone)
     (let effect = snapshot_effects s ! effect_index in
      bindr (committed_scratch_joint s effect) (\<lambda>observed.
      bindr (scratch_item observed) (\<lambda>item.
      if is_absent (so_entry item) then Inr (decision NO_ACTION observed [] False)
      else if \<not> retains_scratch effect then Inr (unattributable observed)
      else
        bindr (entry_state_of (so_entry item)) (\<lambda>state.
        bindr (expected_retained_state effect) (\<lambda>retained.
        if state \<noteq> retained then Inr (unattributable observed)
        else remove_decision
               (case effect of MoveNoClobber _ _ _ _ \<Rightarrow> REMOVE_ANCHOR | _ \<Rightarrow> REMOVE_SCRATCH)
               effect observed))))))"

section \<open>Pending and undone effects; the classifier\<close>

definition claim_frontier ::
  "(pystr \<rightharpoonup> path_frontier) \<Rightarrow> path_frontier \<Rightarrow> (pystr \<rightharpoonup> path_frontier) result" where
  "claim_frontier by_path frontier =
     guard (by_path (frontier_path frontier) = None) (cls_err FrontierDuplicate)
       (Inr (by_path(frontier_path frontier \<mapsto> frontier)))"

definition frontier_map :: "path_frontier list \<Rightarrow> (pystr \<rightharpoonup> path_frontier) result" where
  "frontier_map frontiers = foldr_r claim_frontier Map.empty frontiers"

definition drifted_nodes ::
  "joint_observation \<Rightarrow> (pystr \<rightharpoonup> path_frontier) \<Rightarrow> topology_node list result" where
  "drifted_nodes observed frontiers =
     bindr (traverse (\<lambda>item.
         bindr (lookup_or (cls_err FrontierMissing) frontiers (po_path item)) (\<lambda>frontier.
         bindr (entry_state_of (po_entry item)) (\<lambda>state.
         Inr (po_path item, state \<noteq> frontier_expected frontier)))) (jo_persistent observed))
       (\<lambda>flags. Inr (map (\<lambda>(path, _). PersistentNode path) (filter snd flags)))"

definition classify_pending ::
  "recovery_snapshot \<Rightarrow> effect \<Rightarrow> (pystr \<rightharpoonup> path_frontier) \<Rightarrow> effect_decision result" where
  "classify_pending s effect frontiers =
     bindr (joint s effect) (\<lambda>observed.
     if \<exists>item \<in> set (jo_scratch observed). \<not> is_absent (so_entry item)
     then Inr (unattributable observed)
     else bindr (drifted_nodes observed frontiers) (\<lambda>drifted.
       if drifted = [] then Inr (decision NO_ACTION observed [] False)
       else Inr (decision PRESERVE_EXTERNAL observed [PreserveExternal drifted] True)))"

definition classify_undone ::
  "recovery_snapshot \<Rightarrow> effect \<Rightarrow> (pystr \<rightharpoonup> path_frontier) \<Rightarrow> effect_decision result" where
  "classify_undone s effect frontiers =
     bindr (joint s effect) (\<lambda>observed.
     bindr (drifted_nodes observed frontiers) (\<lambda>drifted.
     if (\<forall>item \<in> set (jo_scratch observed). is_absent (so_entry item)) \<and> drifted = []
     then Inr (decision NO_ACTION observed [] False)
     else Inr (unattributable observed)))"

definition classify_variant :: "recovery_snapshot \<Rightarrow> effect \<Rightarrow> effect_decision result" where
  "classify_variant s effect =
     (case effect of
        ReplaceFile _ path pre post \<Rightarrow> classify_replace s effect path pre post
      | CreateFileNoClobber _ path post \<Rightarrow> classify_create_file s effect path post
      | DeletePath _ path pre \<Rightarrow> classify_delete s effect pre
      | MoveNoClobber _ source destination source_pre \<Rightarrow> classify_move s effect destination source_pre
      | CreateDirectory _ path post \<Rightarrow> classify_directory s effect path post)"

definition classify_effect ::
  "recovery_snapshot \<Rightarrow> nat \<Rightarrow> path_frontier list \<Rightarrow> effect_decision result" where
  "classify_effect s effect_index frontiers =
     guard (effect_index < length (snapshot_effects s)) (cls_err EffectIndexRange)
     (bindr (frontier_map frontiers) (\<lambda>by_path.
      guard (dom by_path = po_path ` set (persistent_observations s)) (cls_err FrontierCoverage)
      (let effect = snapshot_effects s ! effect_index in
       bindr (find_journal (journals s) (effect_id_of effect)) (\<lambda>journal.
       if journal = J_PENDING then classify_pending s effect by_path
       else if journal = J_UNDONE then classify_undone s effect by_path
       else classify_variant s effect))))"

text \<open>The paths of the claimed frontiers are computable from the list.\<close>

lemma frontier_map_dom: "foldr_r claim_frontier m fs = Inr by_path \<Longrightarrow> dom by_path = dom m \<union> frontier_path ` set fs"
proof (induction fs arbitrary: m)
  case (Cons f fs)
  then obtain m' where m': "claim_frontier m f = Inr m'" "foldr_r claim_frontier m' fs = Inr by_path"
    by (auto simp: result_simps)
  then have "foldr_r claim_frontier (m(frontier_path f \<mapsto> f)) fs = Inr by_path"
    by (auto simp: claim_frontier_def guard_Inr_iff)
  from Cons.IH [OF this] show ?case by (simp del: fun_upd_apply)
qed simp

lemma classify_effect_code [code]:
  "classify_effect s effect_index frontiers =
     guard (effect_index < length (snapshot_effects s)) (cls_err EffectIndexRange)
     (bindr (frontier_map frontiers) (\<lambda>by_path.
      guard (frontier_path ` set frontiers = po_path ` set (persistent_observations s)) (cls_err FrontierCoverage)
      (let effect = snapshot_effects s ! effect_index in
       bindr (find_journal (journals s) (effect_id_of effect)) (\<lambda>journal.
       if journal = J_PENDING then classify_pending s effect by_path
       else if journal = J_UNDONE then classify_undone s effect by_path
       else classify_variant s effect))))"
proof (cases "frontier_map frontiers")
  case (Inr by_path)
  then have "dom by_path = frontier_path ` set frontiers"
    using frontier_map_dom [of Map.empty] by (simp add: frontier_map_def)
  with Inr show ?thesis by (simp add: classify_effect_def)
qed (simp add: classify_effect_def)

end
