(* ===== verification/Classifier.thy ===== *)
theory Classifier
  imports Variants
begin

text \<open>
  Recovery classification (\<open>core/recovery/classifier.py\<close>): from a snapshot to the plan
  that settles it, or to the halt that preserves the evidence; and the authorization of one
  mutating step against a fresh observation (\<open>core/recovery/authorization.py\<close>). The
  rollback loop keeps the source's cursor: the snapshot every step so far has been applied to.
\<close>

section \<open>Decision contracts\<close>

datatype step_type = Step_transform | Step_remove | Step_preserve | Step_other

fun step_type_of :: "recovery_step \<Rightarrow> step_type" where
  "step_type_of (TransformEffectTuple _ _ _ _ _ _) = Step_transform"
| "step_type_of (RemoveScratch _ _ _ _) = Step_remove"
| "step_type_of (PreserveExternal _) = Step_preserve"
| "step_type_of _ = Step_other"

fun decision_step_shapes :: "decision_kind \<Rightarrow> step_type list set" where
  "decision_step_shapes NO_ACTION = {[]}"
| "decision_step_shapes PRESERVE_EXTERNAL = {[Step_preserve]}"
| "decision_step_shapes UNDO_WITHOUT_MUTATION = {[]}"
| "decision_step_shapes REMOVE_SCRATCH = {[Step_remove]}"
| "decision_step_shapes EXCHANGE_BACK = {[Step_transform, Step_remove]}"
| "decision_step_shapes REFUSED_EXCHANGE_BACK = {[Step_transform, Step_preserve, Step_remove]}"
| "decision_step_shapes ALREADY_UNDONE = {[]}"
| "decision_step_shapes REMOVE_LIVE_CREATION = {[Step_transform, Step_remove]}"
| "decision_step_shapes REFUSED_PRESERVE_LIVE = {[Step_preserve], [Step_preserve, Step_remove]}"
| "decision_step_shapes RESTORE_TOMBSTONE = {[Step_transform]}"
| "decision_step_shapes REMOVE_ANCHOR = {[Step_remove]}"
| "decision_step_shapes RESTORE_SOURCE = {[Step_transform, Step_remove]}"
| "decision_step_shapes REMOVE_DESTINATION = {[Step_transform, Step_remove]}"
| "decision_step_shapes RESTORE_FROM_ANCHOR = {[Step_transform, Step_remove]}"
| "decision_step_shapes REFUSED_PRESERVE_DESTINATION = {[Step_preserve, Step_remove]}"
| "decision_step_shapes REMOVE_WORK = {[Step_remove]}"
| "decision_step_shapes REMOVE_LIVE_DIRECTORY = {[Step_transform]}"
| "decision_step_shapes REMOVE_DUAL_NAME_DIRECTORY = {[Step_remove, Step_transform]}"
| "decision_step_shapes DECISION_HALT = {[]}"

definition refused_kinds :: "decision_kind set" where
  "refused_kinds =
     {PRESERVE_EXTERNAL, REFUSED_EXCHANGE_BACK, REFUSED_PRESERVE_LIVE, REFUSED_PRESERVE_DESTINATION}"

fun validate_decision_step :: "recovery_step \<Rightarrow> unit result" where
  "validate_decision_step (TransformEffectTuple _ _ _ expected after relations) =
     andthen (validate_identity_relations relations) (validate_joint_coverage expected after)"
| "validate_decision_step (RemoveScratch _ _ expected after) = validate_joint_coverage expected after"
| "validate_decision_step _ = Inr ()"

definition validate_effect_decision :: "effect_decision \<Rightarrow> unit result" where
  "validate_effect_decision d =
     andthen (validate_steps (decision_steps d))
     (guard (\<forall>step \<in> set (decision_steps d). step_type_of step \<noteq> Step_other) (cls_err NonSemanticStep)
     (andthen (for_each validate_decision_step (decision_steps d))
     (andthen (validate_joint_coverage (decision_expected d) (decision_observed d))
     (if decision_kind d = DECISION_HALT then
        guard (decision_steps d = [] \<and> \<not> refused d \<and> halt_of d \<noteq> None) (cls_err HaltPayload) (Inr ())
      else
        guard (halt_of d = None) (cls_err NonHaltReason)
        (guard (refused d = (decision_kind d \<in> refused_kinds)) (cls_err RefusedFlag)
        (guard (map step_type_of (decision_steps d) \<in> decision_step_shapes (decision_kind d))
           (cls_err StepShape)
        (Inr ())))))))"

section \<open>Binding decisions to the cursor\<close>

definition joint_from_cursor ::
  "recovery_snapshot \<Rightarrow> joint_observation \<Rightarrow> joint_observation result" where
  "joint_from_cursor cursor template =
     bindr (current_joint_observation cursor template) (normalize_joint_observation cursor)"

text \<open>Rebind a provisional step's tuple to what the cursor observes now.\<close>

fun bind_step :: "recovery_snapshot \<Rightarrow> recovery_step \<Rightarrow> recovery_step result" where
  "bind_step cursor (TransformEffectTuple effect_id variant settlement expected after relations) =
     bindr (joint_from_cursor cursor expected) (\<lambda>expected'.
     bindr (normalize_joint_observation cursor after) (\<lambda>after'.
     Inr (TransformEffectTuple effect_id variant settlement expected' after' relations)))"
| "bind_step cursor (RemoveScratch effect_id role expected after) =
     bindr (joint_from_cursor cursor expected) (\<lambda>expected'.
     bindr (normalize_joint_observation cursor after) (\<lambda>after'.
     Inr (RemoveScratch effect_id role expected' after')))"
| "bind_step cursor (PreserveExternal nodes) = Inr (PreserveExternal nodes)"
| "bind_step cursor _ = Inl (cls_err NonSemanticStep)"

text \<open>Extend a list of accepted steps and the cursor they lead to.\<close>

type_synonym walk = "recovery_step list \<times> recovery_snapshot"

definition take_step :: "unicode_tables \<Rightarrow> walk \<Rightarrow> recovery_step \<Rightarrow> walk result" where
  "take_step u = (\<lambda>(steps, cursor) step.
     bindr (apply_step u cursor step) (\<lambda>cursor'. Inr (steps @ [step], cursor')))"

definition bind_and_take :: "unicode_tables \<Rightarrow> walk \<Rightarrow> recovery_step \<Rightarrow> walk result" where
  "bind_and_take u = (\<lambda>(steps, cursor) provisional.
     bindr (bind_step cursor provisional) (\<lambda>step. take_step u (steps, cursor) step))"

definition bind_effect_steps ::
  "unicode_tables \<Rightarrow> recovery_snapshot \<Rightarrow> recovery_step list \<Rightarrow> walk result" where
  "bind_effect_steps u cursor provisional = foldr_r (bind_and_take u) ([], cursor) provisional"

definition settled_journal :: "journal_state \<Rightarrow> journal_state" where
  "settled_journal journal = (if journal \<in> {J_PENDING, J_UNDONE} then journal else J_UNDONE)"

definition begin_undo ::
  "unicode_tables \<Rightarrow> recovery_snapshot \<Rightarrow> pystr \<Rightarrow> journal_state \<Rightarrow> walk result" where
  "begin_undo u cursor effect_id journal =
     (if journal \<in> {J_STARTED, J_DONE}
      then take_step u ([], cursor) (TransitionEffectState effect_id journal J_UNDO_STARTED)
      else Inr ([], cursor))"

definition finish_undo ::
  "unicode_tables \<Rightarrow> walk \<Rightarrow> pystr \<Rightarrow> journal_state \<Rightarrow> walk result" where
  "finish_undo u walk effect_id journal =
     (if journal \<in> {J_STARTED, J_DONE, J_UNDO_STARTED}
      then take_step u walk (TransitionEffectState effect_id J_UNDO_STARTED J_UNDONE)
      else Inr walk)"

definition reverse_effect_steps ::
  "unicode_tables \<Rightarrow> recovery_snapshot \<Rightarrow> nat \<Rightarrow> effect_decision \<Rightarrow> recovery_step list result" where
  "reverse_effect_steps u cursor effect_index d =
     bindr (index_or (snapshot_effects cursor) effect_index) (\<lambda>effect.
     bindr (index_or (journals cursor) effect_index) (\<lambda>row.
     bindr (begin_undo u cursor (effect_id_of effect) (row_state row)) (\<lambda>(begun, current).
     bindr (bind_effect_steps u current (decision_steps d)) (\<lambda>(bound, current).
     bindr (finish_undo u (begun @ bound, current) (effect_id_of effect) (row_state row)) (\<lambda>(steps, current).
     bindr (index_or (journals current) effect_index) (\<lambda>settled.
     guard (row_state settled = settled_journal (row_state row)) (cls_err ReversalNotSettled)
     (Inr steps)))))))"

section \<open>Halt plans\<close>

definition stable_halt_plan :: "recovery_snapshot \<Rightarrow> recovery_plan result" where
  "stable_halt_plan source =
     (case halt_diagnostic source of
        None \<Rightarrow> Inl (journal_err HaltedWithoutDiagnostic)
      | Some d \<Rightarrow> new_halt_plan source d [])"

definition halt_plan ::
  "recovery_snapshot \<Rightarrow> halt_reason \<Rightarrow> pystr option \<Rightarrow> joint_observation option \<Rightarrow>
   joint_observation option \<Rightarrow> recovery_snapshot option \<Rightarrow> recovery_plan result" where
  "halt_plan source reason effect_id expected observed projected =
     (if tx_state source = Tx_HALTED then stable_halt_plan source
      else bindr (diagnostic source reason projected effect_id expected observed) (\<lambda>d.
        new_halt_plan source d
          [TransitionTransactionState (tx_state source) Tx_HALTED None (Some d)]))"

definition terminal_detach_plan :: "recovery_snapshot \<Rightarrow> recovery_plan result" where
  "terminal_detach_plan source = new_action_plan source DETACH_TERMINAL [DetachActive]"

definition halted_decision_plan ::
  "recovery_snapshot \<Rightarrow> effect \<Rightarrow> effect_decision \<Rightarrow> halt_reason \<Rightarrow> recovery_snapshot \<Rightarrow>
   recovery_plan result" where
  "halted_decision_plan source effect d reason cursor =
     halt_plan source reason (Some (effect_id_of effect)) (Some (decision_expected d))
       (Some (decision_observed d)) (Some cursor)"

section \<open>Classification of a snapshot\<close>

fun unobservable_entry :: "observed_entry \<Rightarrow> bool" where
  "unobservable_entry (ObservedUnrecognized _) = True"
| "unobservable_entry ObservedContended = True"
| "unobservable_entry ObservedInaccessible = True"
| "unobservable_entry (ObservedDirectory _ _ unmodeled) = (unmodeled = None)"
| "unobservable_entry _ = False"

definition non_authorizable :: "joint_observation \<Rightarrow> bool" where
  "non_authorizable observed \<longleftrightarrow> (\<exists>entry \<in> set (joint_entries observed). unobservable_entry entry)"

type_synonym loop_state = "recovery_step list \<times> recovery_snapshot \<times> bool"

text \<open>
  The rollback loop over the effects from the last to the first; \<open>rollback_loop u source n\<close>
  has the effects below \<open>n\<close> still to reverse. It returns early (\<open>Inl\<close>) with a halt plan.
\<close>

fun rollback_loop ::
  "unicode_tables \<Rightarrow> recovery_snapshot \<Rightarrow> nat \<Rightarrow> loop_state \<Rightarrow> (recovery_plan + loop_state) result" where
  "rollback_loop u source 0 st = Inr (Inr st)"
| "rollback_loop u source (Suc index) (steps, cursor, ref) =
     bindr (reconstruct_frontiers cursor) (\<lambda>frontiers.
     bindr (classify_effect cursor index frontiers) (\<lambda>d.
     bindr (validate_effect_decision d) (\<lambda>_.
     case halt_of d of
       Some reason \<Rightarrow>
         bindr (index_or (snapshot_effects source) index) (\<lambda>effect.
         bindr (halted_decision_plan source effect d reason cursor) (\<lambda>plan. Inr (Inl plan)))
     | None \<Rightarrow>
         bindr (reverse_effect_steps u cursor index d) (\<lambda>local_steps.
         bindr (apply_steps u cursor local_steps) (\<lambda>cursor'.
         rollback_loop u source index (steps @ local_steps, cursor', ref \<or> refused d))))))"

definition enter_rolling_back :: "unicode_tables \<Rightarrow> recovery_snapshot \<Rightarrow> walk result" where
  "enter_rolling_back u source =
     (if tx_state source = Tx_ROLLING_BACK then Inr ([], source)
      else take_step u ([], source)
             (TransitionTransactionState (tx_state source) Tx_ROLLING_BACK None None))"

definition rollback_result_of :: "bool \<Rightarrow> rollback_result" where
  "rollback_result_of ref = (if ref then Result_EXTERNAL_DRIFT_PRESERVED else Result_RESTORED)"

definition terminal_steps :: "bool \<Rightarrow> recovery_step list" where
  "terminal_steps ref =
     [TransitionTransactionState Tx_ROLLING_BACK Tx_ROLLED_BACK (Some (rollback_result_of ref)) None,
      DetachActive]"

definition rollback_plan :: "unicode_tables \<Rightarrow> recovery_snapshot \<Rightarrow> recovery_plan result" where
  "rollback_plan u source =
     bindr (enter_rolling_back u source) (\<lambda>(steps, cursor).
     bindr (rollback_loop u source (length (snapshot_effects source)) (steps, cursor, False)) (\<lambda>out.
     case out of
       Inl plan \<Rightarrow> Inr plan
     | Inr (steps, cursor, ref) \<Rightarrow>
         bindr (apply_steps u cursor (terminal_steps ref)) (\<lambda>settled.
         guard (tx_state settled = Tx_ROLLED_BACK \<and> \<not> active settled) (cls_err RollbackNotSettled)
         (new_action_plan source (if ref then ROLL_BACK_REFUSED else ROLL_BACK)
            (steps @ terminal_steps ref)))))"

fun observed_state :: "observed_entry \<Rightarrow> path_state result" where
  "observed_state ObservedAbsent = Inr AbsentState"
| "observed_state (ObservedFile state _) = Inr state"
| "observed_state (ObservedSymlink state) = Inr state"
| "observed_state (ObservedDirectory state _ _) = Inr state"
| "observed_state _ = Inl (cls_err EntryOutsideStates)"

text \<open>\<open>all(...)\<close> stops at the first observation that differs.\<close>

fun surface_matches ::
  "(pystr \<rightharpoonup> path_state) \<Rightarrow> persistent_observation list \<Rightarrow> bool result" where
  "surface_matches final_by_path [] = Inr True"
| "surface_matches final_by_path (item # items) =
     bindr (observed_state (po_entry item)) (\<lambda>state.
     bindr (lookup_or KeyError final_by_path (po_path item)) (\<lambda>final.
     if state = final then surface_matches final_by_path items else Inr False))"

definition committed_surface_matches :: "recovery_snapshot \<Rightarrow> bool result" where
  "committed_surface_matches source =
     surface_matches
       (dict_of (map (\<lambda>item. (entry_path item, entry_state item))
          (final_surface (compiled_of (compiled source)))))
       (persistent_observations source)"

text \<open>The cleanup loop over the effects in order, \<open>n\<close> of them left from \<open>index\<close> on.\<close>

fun committed_loop ::
  "unicode_tables \<Rightarrow> recovery_snapshot \<Rightarrow> nat list \<Rightarrow> walk \<Rightarrow> (recovery_plan + walk) result" where
  "committed_loop u source [] walk = Inr (Inr walk)"
| "committed_loop u source (index # indices) (steps, cursor) =
     bindr (classify_committed_cleanup cursor index) (\<lambda>d.
     bindr (validate_effect_decision d) (\<lambda>_.
     case halt_of d of
       Some reason \<Rightarrow>
         bindr (index_or (snapshot_effects source) index) (\<lambda>effect.
         bindr (halted_decision_plan source effect d reason cursor) (\<lambda>plan. Inr (Inl plan)))
     | None \<Rightarrow>
         guard (\<not> refused d) (cls_err CommittedRefused)
         (guard (\<forall>step \<in> set (decision_steps d). step_type_of step = Step_remove)
            (cls_err CommittedNonCleanup)
         (bindr (bind_effect_steps u cursor (decision_steps d)) (\<lambda>(local_steps, cursor').
          committed_loop u source indices (steps @ local_steps, cursor'))))))"

definition committed_plan :: "unicode_tables \<Rightarrow> recovery_snapshot \<Rightarrow> recovery_plan result" where
  "committed_plan u source =
     bindr (committed_surface_matches source) (\<lambda>matches.
     if \<not> matches then halt_plan source COMMITTED_SURFACE_MISMATCH None None None None
     else
       bindr (committed_loop u source [0..<length (snapshot_effects source)] ([], source)) (\<lambda>out.
       case out of
         Inl plan \<Rightarrow> Inr plan
       | Inr (steps, cursor) \<Rightarrow>
           bindr (apply_steps u cursor [DetachActive]) (\<lambda>settled.
           guard (tx_state settled = Tx_COMMITTED \<and> \<not> active settled) (cls_err CommittedNotSettled)
           (new_action_plan source COMMITTED_CLEANUP (steps @ [DetachActive])))))"

text \<open>The first effect whose tuple holds something that cannot be observed, if any.\<close>

fun first_non_authorizable ::
  "recovery_snapshot \<Rightarrow> effect list \<Rightarrow> (effect \<times> joint_observation) option result" where
  "first_non_authorizable s [] = Inr None"
| "first_non_authorizable s (effect # effects) =
     bindr (joint s effect) (\<lambda>observed.
     if non_authorizable observed then Inr (Some (effect, observed))
     else first_non_authorizable s effects)"

definition classify_recovery :: "unicode_tables \<Rightarrow> recovery_snapshot \<Rightarrow> recovery_plan result" where
  "classify_recovery u s =
     bindr (classify_transaction_authority s) (\<lambda>authority.
     case authority_kind authority of
       Authority_NO_RECOVERY \<Rightarrow> Inr (new_no_recovery_plan s)
     | Authority_STABLE_HALT \<Rightarrow> stable_halt_plan s
     | Authority_HALT \<Rightarrow>
         (case authority_reason authority of
            Some reason \<Rightarrow> halt_plan s reason None None None None
          | None \<Rightarrow> Inl AttributeError)
     | Authority_DETACH \<Rightarrow> terminal_detach_plan s
     | Authority_CLASSIFY \<Rightarrow>
         bindr (first_non_authorizable s (snapshot_effects s)) (\<lambda>found.
         case found of
           Some (effect, observed) \<Rightarrow>
             halt_plan s EFFECT_TUPLE_UNATTRIBUTABLE (Some (effect_id_of effect)) None (Some observed) None
         | None \<Rightarrow>
             if tx_state s = Tx_COMMITTED then committed_plan u s else rollback_plan u s))"

section \<open>Authorization of one step\<close>

definition authorization_projection ::
  "joint_observation \<Rightarrow>
   (diagnostic_entry list \<times> parent_occupancy list \<times> diagnostic_identity_relation list) result" where
  "authorization_projection ob =
     bindr (project_entries (Some ob)) (\<lambda>entries.
     bindr (project_identity_relations (py ''authorization'') (Some ob)) (\<lambda>relations.
     Inr (entries, jo_occupancy ob, relations)))"

definition halt_for_observation ::
  "unicode_tables \<Rightarrow> recovery_snapshot \<Rightarrow> joint_observation \<Rightarrow> joint_observation \<Rightarrow> halt_reason \<Rightarrow>
   recovery_plan result" where
  "halt_for_observation u prefix_snapshot expected observed reason =
     bindr (normalize_joint_observation prefix_snapshot observed) (\<lambda>normalized.
     bindr (merge_joint_observation prefix_snapshot normalized) (\<lambda>(persistent, scratch).
     bindr (build_recovery_snapshot u (prefix_snapshot\<lparr>persistent_observations := persistent,
              scratch_observations := scratch\<rparr>)) (\<lambda>conflicting.
     bindr (diagnostic conflicting reason None None (Some expected) (Some observed)) (\<lambda>d.
     new_halt_plan conflicting d
       [TransitionTransactionState (tx_state conflicting) Tx_HALTED None (Some d)]))))"

text \<open>The authorized step, or the halt plan that records why the step may not run.\<close>

definition authorize_recovery_step ::
  "unicode_tables \<Rightarrow> recovery_plan \<Rightarrow> nat \<Rightarrow> joint_observation \<Rightarrow>
   (authorized_step + recovery_plan) result" where
  "authorize_recovery_step u plan step_index observed =
     guard (step_index < length (plan_steps plan)) (red_err StepsOutOfRange)
     (let step = plan_steps plan ! step_index in
      guard (is_mutating step) (cls_err NotMutatingStep)
      (bindr (reduce_recovery_plan_prefix u (bound_snapshot plan) plan step_index) (\<lambda>prefix_snapshot.
       case expected_before step of
         None \<Rightarrow> Inl (cls_err NotMutatingStep)
       | Some expected \<Rightarrow>
           bindr (validate_joint_coverage expected observed) (\<lambda>_.
           if non_authorizable observed then
             bindr (halt_for_observation u prefix_snapshot expected observed PLAN_PRECONDITION_CHANGED)
               (\<lambda>halted. Inr (Inr halted))
           else
             bindr (authorization_projection observed) (\<lambda>observed_projection.
             bindr (authorization_projection expected) (\<lambda>expected_projection.
             if observed_projection = expected_projection
             then bindr (new_authorized_step plan step_index step) (\<lambda>authorized. Inr (Inl authorized))
             else bindr (halt_for_observation u prefix_snapshot expected observed PLAN_PRECONDITION_CHANGED)
                    (\<lambda>halted. Inr (Inr halted))))))))"

definition mutation_denied ::
  "unicode_tables \<Rightarrow> authorized_step \<Rightarrow> joint_observation \<Rightarrow> recovery_plan result" where
  "mutation_denied u authorized observed =
     (case expected_before (authorized_of authorized) of
        None \<Rightarrow> Inl (cls_err NotMutatingStep)
      | Some expected \<Rightarrow>
          andthen (validate_joint_coverage expected observed)
          (bindr (authorization_projection observed) (\<lambda>observed_projection.
           bindr (authorization_projection expected) (\<lambda>expected_projection.
           guard (observed_projection = expected_projection) (cls_err NoLongerAuthorizes)
           (bindr (reduce_recovery_plan_prefix u (bound_snapshot (authorized_plan authorized))
                     (authorized_plan authorized) (authorized_index authorized)) (\<lambda>prefix_snapshot.
            halt_for_observation u prefix_snapshot expected observed MUTATION_DENIED))))))"

end
