(* ===== verification/RecoveryExamples.thy ===== *)
theory RecoveryExamples
  imports ReducerCorrect Classifier
begin

text \<open>
  A small transaction for the witnesses of the recovery properties: delete the symbolic link
  \<open>l\<close>, then create the directory \<open>d\<close>. Names are single characters and no state holds a
  digest, so that the kernel evaluates whole recoveries.
\<close>

definition link :: path_state where "link = SymlinkState [116] 511"
definition path_l :: pystr where "path_l = [108]"
definition path_d :: pystr where "path_d = [100]"
definition id0 :: pystr where "id0 = [48]"
definition id1 :: pystr where "id1 = [49]"

definition small_digest :: pystr where
  "small_digest = [115, 104, 97, 50, 53, 54, 58] @ replicate 64 48"

definition small_spec :: transaction_spec where
  "small_spec = build_spec [116] small_digest
     [(path_l, link), (path_d, AbsentState)] [(path_l, AbsentState), (path_d, dir_a)]
     [DeletePath id0 path_l link, CreateDirectory id1 path_d dir_a] [] None []"

definition small_compiled :: compiled_spec where
  "small_compiled = \<lparr>compiled_of = canonicalize small_spec,
     timelines =
       [PathTimeline path_d [TimelineOccurrence id1 1 Role_target AbsentState dir_a],
        PathTimeline path_l [TimelineOccurrence id0 0 Role_target link AbsentState]]\<rparr>"

lemma small_compiles: "compile_spec plain_tables small_spec = Inr small_compiled"
  by code_simp

definition small_topology :: "topology_parent list" where
  "small_topology =
     [TopologyParent WorkRoot ProjectRoot,
      TopologyParent (PersistentNode path_l) ProjectRoot,
      TopologyParent (PersistentNode path_d) ProjectRoot,
      TopologyParent (ScratchNode id1 Scratch_WORK) WorkRoot,
      TopologyParent (ScratchNode id0 Scratch_TOMBSTONE) ProjectRoot]"

text \<open>
  A snapshot of this transaction, by its transaction state, its two journal states, what is
  at \<open>l\<close>, at \<open>d\<close>, in the tombstone and in the work directory.
\<close>

definition small ::
  "transaction_state \<Rightarrow> journal_state \<Rightarrow> journal_state \<Rightarrow> observed_entry \<Rightarrow> observed_entry \<Rightarrow>
   observed_entry \<Rightarrow> observed_entry \<Rightarrow> recovery_snapshot" where
  "small state j0 j1 live_l live_d tombstone work = \<lparr>
     compiled = small_compiled,
     topology = small_topology,
     tx_state = state,
     commit_decision = (if state = Tx_COMMITTED then Decision_COMMITTED else Decision_UNCOMMITTED),
     rollback_result = None,
     halt_diagnostic = None,
     active = True,
     journals = [EffectJournalState id0 j0, EffectJournalState id1 j1],
     persistent_observations =
       [PersistentObservation path_l live_l, PersistentObservation path_d live_d],
     scratch_observations =
       [ScratchObservation id0 Scratch_TOMBSTONE tombstone None,
        ScratchObservation id1 Scratch_WORK work None]\<rparr>"

text \<open>A crash while the directory was being built, after the deletion.\<close>

abbreviation scaffold :: observed_entry where
  "scaffold \<equiv> ObservedDirectory (DirectoryState 448) 7 (Some False)"

definition crashed :: recovery_snapshot where
  "crashed = small Tx_APPLYING J_DONE J_STARTED ObservedAbsent ObservedAbsent (ObservedSymlink link) scaffold"

lemma crashed_valid: "valid_snapshot plain_tables crashed"
  unfolding valid_snapshot_iff by code_simp

lemma small_compiled_issued:
  "compiled s = small_compiled \<Longrightarrow> valid_snapshot plain_tables s \<Longrightarrow> issued plain_tables s"
  using small_compiles by (auto simp: issued_def)

lemma crashed_issued: "issued plain_tables crashed"
  by (rule small_compiled_issued [OF _ crashed_valid]) (simp add: crashed_def small_def)

text \<open>The plan that recovers it, and the snapshot the plan leads to.\<close>

definition crashed_steps :: "recovery_step list" where
  "crashed_steps =
     [TransitionTransactionState Tx_APPLYING Tx_ROLLING_BACK None None,
      TransitionEffectState id1 J_STARTED J_UNDO_STARTED,
      RemoveScratch id1 Scratch_WORK
        (JointObservation [PersistentObservation path_d ObservedAbsent]
           [ScratchObservation id1 Scratch_WORK scaffold None] [])
        (JointObservation [PersistentObservation path_d ObservedAbsent]
           [ScratchObservation id1 Scratch_WORK ObservedAbsent None] []),
      TransitionEffectState id1 J_UNDO_STARTED J_UNDONE,
      TransitionEffectState id0 J_DONE J_UNDO_STARTED,
      TransformEffectTuple id0 DELETE_PATH RESTORE_PRE
        (JointObservation [PersistentObservation path_l ObservedAbsent]
           [ScratchObservation id0 Scratch_TOMBSTONE (ObservedSymlink link) None] [])
        (JointObservation [PersistentObservation path_l (ObservedSymlink link)]
           [ScratchObservation id0 Scratch_TOMBSTONE ObservedAbsent None] []) [],
      TransitionEffectState id0 J_UNDO_STARTED J_UNDONE,
      TransitionTransactionState Tx_ROLLING_BACK Tx_ROLLED_BACK (Some Result_RESTORED) None,
      DetachActive]"

definition crashed_plan :: recovery_plan where
  "crashed_plan = ActionPlan crashed ROLL_BACK crashed_steps (Some Result_RESTORED)"

definition recovered :: recovery_snapshot where
  "recovered = (small Tx_ROLLED_BACK J_UNDONE J_UNDONE (ObservedSymlink link) ObservedAbsent
     ObservedAbsent ObservedAbsent)\<lparr>rollback_result := Some Result_RESTORED, active := False\<rparr>"

lemma crashed_classifies: "classify_recovery plain_tables crashed = Inr crashed_plan"
  by code_simp

lemma crashed_steps_apply: "apply_steps plain_tables crashed crashed_steps = Inr recovered"
  by code_simp

end
