(* ===== verification/JournalCorrect.thy ===== *)
theory JournalCorrect
  imports RecoveryExamples
begin

text \<open>
  The journal languages as regular expressions, where an open undo makes a vector illegal, and
  the meaning of path frontiers as states of an execution.
\<close>

section \<open>Journal languages\<close>

text \<open>Any number of one letter before a word of a language; at most one letter before it.\<close>

definition many :: "'a \<Rightarrow> 'a list set \<Rightarrow> 'a list set" where
  "many j B = {replicate n j @ w | n w. w \<in> B}"

definition at_most_one :: "'a \<Rightarrow> 'a list set \<Rightarrow> 'a list set" where
  "at_most_one j B = B \<union> (#) j ` B"

lemma many_Nil [simp]: "[] \<in> many j B \<longleftrightarrow> [] \<in> B"
  by (auto simp: many_def)

lemma many_Cons [simp]: "x # w \<in> many j B \<longleftrightarrow> x = j \<and> w \<in> many j B \<or> x # w \<in> B"
proof
  assume "x # w \<in> many j B"
  then obtain n v where "x # w = replicate n j @ v" "v \<in> B" by (auto simp: many_def)
  then show "x = j \<and> w \<in> many j B \<or> x # w \<in> B"
    by (cases n) (auto simp: many_def)
next
  assume "x = j \<and> w \<in> many j B \<or> x # w \<in> B"
  then show "x # w \<in> many j B"
  proof
    assume "x = j \<and> w \<in> many j B"
    then obtain n v where "x # w = replicate (Suc n) j @ v" "v \<in> B" by (auto simp: many_def)
    then show ?thesis unfolding many_def by blast
  next
    assume "x # w \<in> B"
    then have "\<exists>n v. x # w = replicate n j @ v \<and> v \<in> B" by (metis append_Nil replicate_0)
    then show ?thesis by (simp add: many_def)
  qed
qed

lemma at_most_one_simps [simp]:
  "[] \<in> at_most_one j B \<longleftrightarrow> [] \<in> B"
  "x # w \<in> at_most_one j B \<longleftrightarrow> x # w \<in> B \<or> x = j \<and> w \<in> B"
  by (auto simp: at_most_one_def)

definition only :: "'a \<Rightarrow> 'a list set" where
  "only j = many j {[]}"

lemma only_simps [simp]: "[] \<in> only j" "x # w \<in> only j \<longleftrightarrow> x = j \<and> w \<in> only j"
  by (simp_all add: only_def)

definition forward_words :: "journal_state list set" where
  "forward_words = many J_DONE (at_most_one J_STARTED (only J_PENDING))"

definition undone_words :: "journal_state list set" where
  "undone_words = many J_UNDONE (only J_PENDING)"

text \<open>The code's reverse language: an \<open>UNDO_STARTED\<close> may be last or before an \<open>UNDONE\<close>.\<close>

definition reverse_words :: "journal_state list set" where
  "reverse_words = many J_DONE (undone_words \<union>
     (#) J_UNDO_STARTED ` ({[]} \<union> (#) J_UNDONE ` undone_words))"

lemma all_states_iff: "all_states states j \<longleftrightarrow> states \<in> only j"
  by (induction states) (auto simp: all_states_def)

lemma forward_from_pending:
  "phase \<noteq> 0 \<Longrightarrow> forward_from phase states \<longleftrightarrow> states \<in> only J_PENDING"
  by (induction states arbitrary: phase) auto

lemma forward_language_iff: "forward_language states \<longleftrightarrow> states \<in> forward_words"
proof -
  have "forward_from 0 states \<longleftrightarrow> states \<in> forward_words"
    unfolding forward_words_def by (induction states) (auto simp: forward_from_pending)
  then show ?thesis by (simp add: forward_language_def)
qed

lemma reverse_from_3: "reverse_from 3 states \<longleftrightarrow> states \<in> only J_PENDING"
  by (induction states) auto

lemma reverse_from_2: "reverse_from 2 states \<longleftrightarrow> states \<in> undone_words"
  unfolding undone_words_def by (induction states) (auto simp: reverse_from_3)

lemma reverse_from_1: "reverse_from (Suc 0) states \<longleftrightarrow>
    states = [] \<or> (\<exists>w. states = J_UNDONE # w \<and> w \<in> undone_words)"
  by (cases states) (auto simp: reverse_from_2)

lemma reverse_language_iff: "reverse_language states \<longleftrightarrow> states \<in> reverse_words"
proof -
  have "reverse_from 0 states \<longleftrightarrow> states \<in> reverse_words"
  proof (induction states)
    case (Cons x xs)
    then show ?case
      unfolding reverse_words_def
      by (cases x) (auto simp: reverse_from_1 reverse_from_2 reverse_from_3 undone_words_def)
  qed (simp add: reverse_words_def undone_words_def)
  then show ?thesis by (simp add: reverse_language_def)
qed

lemma rolled_back_language_iff: "rolled_back_language states \<longleftrightarrow> states \<in> undone_words"
proof -
  have pending: "rolled_back_from True states \<longleftrightarrow> states \<in> only J_PENDING" for states
    by (induction states) auto
  have "rolled_back_from False states \<longleftrightarrow> states \<in> undone_words"
    unfolding undone_words_def by (induction states) (auto simp: pending)
  then show ?thesis by (simp add: rolled_back_language_def)
qed

section \<open>Undo\<close>

lemma only_iff: "w \<in> only j \<longleftrightarrow> set w \<subseteq> {j}"
  by (induction w) auto

lemma undone_letters: "w \<in> undone_words \<Longrightarrow> set w \<subseteq> {J_UNDONE, J_PENDING}"
  unfolding undone_words_def by (induction w) (auto simp: only_iff)

lemma undone_Cons: "J_UNDONE # w \<in> undone_words \<longleftrightarrow> w \<in> undone_words"
  by (simp add: undone_words_def)

lemma many_prefix:
  "set before \<subseteq> {j} \<Longrightarrow> (\<And>w. j # w \<notin> B) \<Longrightarrow> before @ w \<in> many j B \<longleftrightarrow> w \<in> many j B"
  by (induction before) auto

lemma reverse_after_done:
  "set before \<subseteq> {J_DONE} \<Longrightarrow> before @ w \<in> reverse_words \<longleftrightarrow> w \<in> reverse_words"
  unfolding reverse_words_def by (rule many_prefix) (auto simp: undone_words_def)

lemma reverse_UNDO_STARTED:
  "J_UNDO_STARTED # w \<in> reverse_words \<longleftrightarrow> w = [] \<or> (\<exists>v \<in> undone_words. w = J_UNDONE # v)"
  by (auto simp: reverse_words_def undone_words_def)

lemma undone_reverse: "w \<in> undone_words \<Longrightarrow> w \<in> reverse_words"
  by (cases w) (auto simp: reverse_words_def undone_words_def)

text \<open>In a legal rolling-back vector only \<open>DONE\<close> stands before an effect still to be undone.\<close>

lemma before_unsettled:
  assumes "before @ j # w \<in> forward_words \<union> reverse_words" and "j \<in> {J_STARTED, J_DONE, J_UNDO_STARTED}"
  shows "set before \<subseteq> {J_DONE}"
  using assms
proof (induction before)
  case (Cons b before)
  have *: False if "set (before @ j # w) \<subseteq> {J_UNDONE, J_PENDING}"
    using that Cons.prems(2) by auto
  have "b = J_DONE \<and> before @ j # w \<in> forward_words" if "(b # before) @ j # w \<in> forward_words"
    using that * by (auto simp: forward_words_def only_iff)
  moreover have "b = J_DONE \<and> before @ j # w \<in> reverse_words" if "(b # before) @ j # w \<in> reverse_words"
  proof -
    from that consider "b = J_DONE \<and> before @ j # w \<in> reverse_words"
      | "b # before @ j # w \<in> undone_words" | "before @ j # w = [] \<or> (\<exists>v \<in> undone_words. before @ j # w = J_UNDONE # v)"
      by (auto simp: reverse_words_def)
    then show ?thesis
    proof cases
      case 2
      then have "set (b # before @ j # w) \<subseteq> {J_UNDONE, J_PENDING}" by (rule undone_letters)
      with * show ?thesis by simp
    next
      case 3
      then obtain v where v: "v \<in> undone_words" "before @ j # w = J_UNDONE # v" by auto
      then have "set (before @ j # w) \<subseteq> {J_UNDONE, J_PENDING}"
        using undone_letters [OF v(1)] by simp
      with * show ?thesis by blast
    qed simp
  qed
  ultimately show ?case using Cons by auto
qed simp

text \<open>Where an open undo stands directly before a pending effect.\<close>

definition open_before_pending :: "journal_state list \<Rightarrow> bool" where
  "open_before_pending states \<longleftrightarrow>
     (\<exists>before after. states = before @ J_UNDO_STARTED # J_PENDING # after)"

lemma open_before_pending_done:
  assumes "set before \<subseteq> {J_DONE}" and "set settled \<subseteq> {J_UNDONE, J_PENDING}"
  shows "open_before_pending (before @ J_UNDO_STARTED # settled) \<longleftrightarrow> (\<exists>w. settled = J_PENDING # w)"
    and "\<not> open_before_pending (before @ J_UNDONE # settled)"
proof -
  have unique: "xs @ J_UNDO_STARTED # ys = before @ j # settled \<Longrightarrow> j = J_UNDO_STARTED \<and> xs = before \<and> ys = settled"
    for xs ys and j
    using assms by (auto simp: append_eq_append_conv2 append_eq_Cons_conv Cons_eq_append_conv)
  show "open_before_pending (before @ J_UNDO_STARTED # settled) \<longleftrightarrow> (\<exists>w. settled = J_PENDING # w)"
    unfolding open_before_pending_def by (metis unique)
  show "\<not> open_before_pending (before @ J_UNDONE # settled)"
    unfolding open_before_pending_def using unique by (metis journal_state.distinct)
qed

lemma open_illegal:
  assumes "open_before_pending states"
  shows "states \<notin> forward_words \<union> reverse_words"
proof
  assume legal: "states \<in> forward_words \<union> reverse_words"
  from assms obtain before after where s: "states = before @ J_UNDO_STARTED # J_PENDING # after"
    by (auto simp: open_before_pending_def)
  then have before: "set before \<subseteq> {J_DONE}"
    using before_unsettled [of before J_UNDO_STARTED "J_PENDING # after"] legal by auto
  have "J_UNDO_STARTED \<in> set states" using s by simp
  then have "states \<notin> forward_words"
    by (auto simp: forward_words_def many_def at_most_one_def only_iff)
  moreover have "states \<notin> reverse_words"
    unfolding s by (simp add: reverse_after_done [OF before] reverse_UNDO_STARTED)
  ultimately show False using legal by blast
qed

text \<open>The vectors on the way: the effects before the open one are done, those after it are settled.\<close>

lemma open_legal_iff:
  assumes "set before \<subseteq> {J_DONE}" and "settled \<in> undone_words"
  shows "before @ J_UNDO_STARTED # settled \<in> reverse_words \<longleftrightarrow> \<not> open_before_pending (before @ J_UNDO_STARTED # settled)"
proof -
  have "settled = [] \<or> (\<exists>v \<in> undone_words. settled = J_UNDONE # v) \<longleftrightarrow> (\<nexists>w. settled = J_PENDING # w)"
    using assms(2) by (cases settled) (auto simp: undone_words_def)
  then show ?thesis
    using open_before_pending_done(1) [OF assms(1) undone_letters [OF assms(2)]]
    by (simp add: reverse_after_done [OF assms(1)] reverse_UNDO_STARTED)
qed

text \<open>The words each transaction state allows.\<close>

fun journal_words :: "transaction_state \<Rightarrow> journal_state list set" where
  "journal_words Tx_PREPARED = only J_PENDING"
| "journal_words Tx_APPLYING = forward_words"
| "journal_words Tx_APPLIED = only J_DONE"
| "journal_words Tx_COMMITTED = only J_DONE"
| "journal_words Tx_ROLLING_BACK = forward_words \<union> reverse_words"
| "journal_words Tx_ROLLED_BACK = undone_words"
| "journal_words Tx_HALTED = {}"

lemma legal_language:
  "tx \<noteq> Tx_HALTED \<Longrightarrow> legal_journal_language tx states = Inr (states \<in> journal_words tx)"
  by (cases tx) (auto simp: all_states_iff forward_language_iff reverse_language_iff rolled_back_language_iff)

section \<open>Frontiers\<close>

lemma indexed_snoc: "indexed (xs @ [x]) = indexed xs @ [(length xs, x)]"
  by (simp add: indexed_def)

definition occurrence_events :: "pystr \<Rightarrow> nat \<Rightarrow> effect \<Rightarrow> timeline_occurrence list" where
  "occurrence_events p i e =
     map (\<lambda>occ. TimelineOccurrence (effect_id_of e) i (occ_role occ) (occ_pre occ) (occ_post occ))
       (filter (\<lambda>occ. occ_path occ = p) (occurrences e))"

lemma events_of_Nil [simp]: "events_of p [] = []"
  by (simp add: events_of_def timeline_events_def indexed_def)

lemma events_of_snoc: "events_of p (es @ [e]) = events_of p es @ occurrence_events p (length es) e"
  by (simp add: events_of_def timeline_events_def indexed_snoc occurrence_events_def filter_map comp_def)

lemma occurrence_events_index: "t \<in> set (occurrence_events p i e) \<Longrightarrow> tl_index t = i \<and> tl_effect_id t = effect_id_of e"
  by (auto simp: occurrence_events_def)

lemma events_of_index:
  "t \<in> set (events_of p es) \<Longrightarrow> tl_index t < length es \<and> tl_effect_id t = effect_id_of (es ! tl_index t)"
proof (induction es rule: rev_induct)
  case (snoc e es)
  then show ?case by (auto simp: events_of_snoc nth_append dest!: occurrence_events_index)
qed simp

lemma events_of_take: "filter (\<lambda>t. tl_index t < k) (events_of p es) = events_of p (take k es)"
proof (induction es rule: rev_induct)
  case (snoc e es)
  show ?case
  proof (cases "k \<le> length es")
    case True
    then have "filter (\<lambda>t. tl_index t < k) (occurrence_events p (length es) e) = []"
      by (auto simp: filter_empty_conv dest: occurrence_events_index)
    with True snoc show ?thesis by (simp add: events_of_snoc)
  next
    case False
    then have "filter (\<lambda>t. tl_index t < k) (events_of p (es @ [e])) = events_of p (es @ [e])"
      by (intro filter_True) (auto dest: events_of_index)
    with False show ?thesis by simp
  qed
qed simp

lemma events_at_index:
  assumes "i < length es"
  shows "filter (\<lambda>t. tl_index t = i) (events_of p es) = occurrence_events p i (es ! i)"
proof -
  have "filter (\<lambda>t. tl_index t = i) (events_of p es)
      = filter (\<lambda>t. tl_index t = i) (filter (\<lambda>t. tl_index t < Suc i) (events_of p es))"
    by (simp add: conj_commute) (rule filter_cong, auto)
  also have "\<dots> = filter (\<lambda>t. tl_index t = i) (events_of p (take i es) @ occurrence_events p i (es ! i))"
    using assms by (simp add: events_of_take take_Suc_conv_app_nth events_of_snoc)
  also have "filter (\<lambda>t. tl_index t = i) (events_of p (take i es)) = []"
    using assms by (auto simp: filter_empty_conv dest: events_of_index)
  then have "filter (\<lambda>t. tl_index t = i) (events_of p (take i es) @ occurrence_events p i (es ! i))
      = occurrence_events p i (es ! i)"
    by (auto simp: filter_id_conv dest: occurrence_events_index)
  finally show ?thesis .
qed

lemma events_of_prefix: "\<exists>rest. events_of p es = events_of p (take n es) @ rest"
proof -
  have "\<exists>rest. events_of p (xs @ ys) = events_of p xs @ rest" for xs ys
  proof (induction ys rule: rev_induct)
    case (snoc y ys)
    then show ?case using events_of_snoc [of p "xs @ ys" y] by auto
  qed simp
  from this [of "take n es" "drop n es"] show ?thesis by simp
qed

lemma occurrences_once: "effect_ok e \<Longrightarrow> distinct (map occ_path (occurrences e))"
  by (cases e) auto

lemma occurrence_events_once:
  assumes "effect_ok e"
  shows "length (occurrence_events p i e) \<le> 1"
proof -
  have "distinct (map occ_path xs) \<Longrightarrow> length (filter (\<lambda>occ. occ_path occ = p) xs) \<le> 1" for xs
    by (induction xs) (auto simp: filter_empty_conv image_iff)
  from this [OF occurrences_once [OF assms]] show ?thesis by (simp add: occurrence_events_def)
qed

lemma land_all_append: "land_all fs (xs @ ys) = (case land_all fs xs of None \<Rightarrow> None | Some fs' \<Rightarrow> land_all fs' ys)"
  by (induction xs arbitrary: fs) (auto split: option.split)

lemma chained_end: "chained a xs b \<Longrightarrow> b = (if xs = [] then a else snd (last xs))"
  by (induction xs arbitrary: a) auto

lemma land_all_at:
  assumes "land_all fs occs = Some fs'"
  shows "fs' p = (if history p occs = [] then fs p else Some (snd (last (history p occs))))"
proof (cases "fs p")
  case None
  with assms have "fs' p = None" "history p occs = []"
    unfolding land_all_iff by (auto dest: spec [of _ p])
  with None show ?thesis by simp
next
  case (Some a)
  from assms have "case fs p of None \<Rightarrow> fs' p = None \<and> history p occs = []
      | Some a \<Rightarrow> \<exists>b. fs' p = Some b \<and> chained a (history p occs) b"
    unfolding land_all_iff by blast
  with Some obtain b where "fs' p = Some b" "chained a (history p occs) b" by auto
  with Some chained_end show ?thesis by fastforce
qed

text \<open>The surface after the first \<open>n\<close> effects, path by path.\<close>

definition state_after :: "path_state option \<Rightarrow> nat \<Rightarrow> effect list \<Rightarrow> pystr \<Rightarrow> path_state option" where
  "state_after initial n es p =
     (if events_of p (take n es) = [] then initial else Some (tl_post (last (events_of p (take n es)))))"

lemma land_all_state_after:
  assumes "land_all fs (all_occurrences es) = Some fs'"
  shows "\<exists>surf. land_all fs (all_occurrences (take n es)) = Some surf \<and>
    (\<forall>p. surf p = state_after (fs p) n es p)"
proof -
  have "all_occurrences es = all_occurrences (take n es) @ all_occurrences (drop n es)"
    by (metis all_occurrences_append(1) append_take_drop_id)
  with assms obtain surf where surf: "land_all fs (all_occurrences (take n es)) = Some surf"
    by (auto simp: land_all_append split: option.splits)
  moreover have "surf p = state_after (fs p) n es p" for p
    unfolding land_all_at [OF surf] events_history [symmetric] state_after_def
    by (simp add: last_map)
  ultimately show ?thesis by blast
qed

text \<open>In a chained history an occurrence starts where the earlier ones ended.\<close>

lemma chained_middle: "chained a (xs @ x # ys) b \<Longrightarrow> fst x = (if xs = [] then a else snd (last xs))"
  by (auto simp: chained_append dest!: chained_end chained_hd)

lemma journalled_Inr:
  assumes ids: "map row_effect_id rows = map effect_id_of es" and dist: "distinct (map effect_id_of es)"
  shows "journalled (journal_dict rows) (PathTimeline p (events_of p es))
    = Inr (map (\<lambda>t. (t, row_state (rows ! tl_index t))) (events_of p es))"
proof -
  have "journal_dict rows (tl_effect_id t) = Some (row_state (rows ! tl_index t))"
    if "t \<in> set (events_of p es)" for t
  proof -
    from events_of_index [OF that] have i: "tl_index t < length rows" "tl_effect_id t = row_effect_id (rows ! tl_index t)"
      using ids by (metis length_map, metis length_map nth_map)
    have "distinct (map fst (map (\<lambda>row. (row_effect_id row, row_state row)) rows))"
      using ids dist by (simp add: comp_def)
    with i show ?thesis by (simp add: journal_dict_def dict_of_Some)
  qed
  then show ?thesis
    by (auto simp: journalled_def traverse_id lookup_or_def intro!: traverse_id)
qed

definition unsettled :: "journal_state \<Rightarrow> bool" where
  "unsettled j \<longleftrightarrow> j \<in> {J_DONE, J_STARTED, J_UNDO_STARTED}"

text \<open>How many effects the frontiers take as landed: in a rollback every effect that is not
  yet pending or undone counts, also one whose landing or undo is in flight.\<close>

definition frontier_depth :: "recovery_snapshot \<Rightarrow> nat" where
  "frontier_depth s =
     (if tx_state s = Tx_ROLLING_BACK
      then length (takeWhile unsettled (map row_state (journals s)))
      else length (takeWhile (\<lambda>j. j = J_DONE) (map row_state (journals s))))"

lemma nth_takeWhile_split:
  assumes "\<forall>x \<in> set xs. P x" "\<forall>y \<in> set ys. \<not> P y" "i < length (xs @ ys)"
  shows "P ((xs @ ys) ! i) \<longleftrightarrow> i < length (takeWhile P (xs @ ys))"
proof -
  from assms(1,2) have "takeWhile P (xs @ ys) = xs"
    by (simp add: takeWhile_append) (metis takeWhile_eq_Nil_iff hd_in_set)
  with assms show ?thesis by (auto simp: nth_append)
qed

lemma forward_depth:
  assumes "w \<in> forward_words" and "i < length w"
  shows "w ! i = J_DONE \<longleftrightarrow> i < length (takeWhile (\<lambda>j. j = J_DONE) w)"
    and "w ! i = J_STARTED \<Longrightarrow> i = length (takeWhile (\<lambda>j. j = J_DONE) w)"
    and "w ! i \<noteq> J_UNDO_STARTED"
proof -
  from assms(1) obtain n v where w: "w = replicate n J_DONE @ v" "v \<in> at_most_one J_STARTED (only J_PENDING)"
    by (auto simp: forward_words_def many_def)
  then obtain x where x: "set x \<subseteq> {J_PENDING}" "v = x \<or> v = J_STARTED # x"
    by (auto simp: at_most_one_def only_iff)
  have nth: "x ! m = J_PENDING" if "m < length x" for m
    using x(1) nth_mem [OF that] by blast
  have v: "\<forall>y \<in> set v. y \<noteq> J_DONE \<and> y \<noteq> J_UNDO_STARTED"
    using x by auto
  have v0: "m = 0" if "m < length v" "v ! m = J_STARTED" for m
    using x(2) that nth by (auto simp: nth_Cons' split: if_splits)
  show "w ! i = J_DONE \<longleftrightarrow> i < length (takeWhile (\<lambda>j. j = J_DONE) w)"
    unfolding w(1) by (rule nth_takeWhile_split) (use assms(2) v w(1) in auto)
  have tw: "length (takeWhile (\<lambda>j. j = J_DONE) w) = n"
    using v unfolding w(1) by (cases v) (auto simp: takeWhile_append)
  show "i = length (takeWhile (\<lambda>j. j = J_DONE) w)" if a: "w ! i = J_STARTED"
  proof -
    have "\<not> i < n"
      using a unfolding w(1) by (auto simp: nth_append)
    moreover from this have "v ! (i - n) = J_STARTED" "i - n < length v"
      using a assms(2) unfolding w(1) by (simp_all add: nth_append)
    ultimately show ?thesis using v0 [of "i - n"] unfolding tw by simp
  qed
  have "w ! i \<in> set w" using assms(2) by (rule nth_mem)
  moreover have "J_UNDO_STARTED \<notin> set w" using v unfolding w(1) by auto
  ultimately show "w ! i \<noteq> J_UNDO_STARTED" by metis
qed

lemma unsettled_depth:
  assumes "w \<in> forward_words \<union> reverse_words" and "i < length w"
  shows "unsettled (w ! i) \<longleftrightarrow> i < length (takeWhile unsettled w)"
proof -
  have "\<not> unsettled y" if mem: "y \<in> set (dropWhile unsettled w)" for y
  proof
    assume y: "unsettled y"
    obtain z zs where z: "dropWhile unsettled w = z # zs"
      using mem by (cases "dropWhile unsettled w") auto
    then have "\<not> unsettled z" by (metis hd_dropWhile list.distinct(1) list.sel(1))
    with mem z y have "y \<in> set zs" by auto
    then obtain a b where "zs = a @ y # b" by (meson split_list)
    with z have "(takeWhile unsettled w @ z # a) @ y # b = w"
      by (metis append.assoc append_Cons takeWhile_dropWhile_id)
    with assms(1) y before_unsettled [of "takeWhile unsettled w @ z # a" y b]
    have "z = J_DONE" by (auto simp: unsettled_def)
    with \<open>\<not> unsettled z\<close> show False by (simp add: unsettled_def)
  qed
  moreover have "\<forall>x \<in> set (takeWhile unsettled w). unsettled x"
    by (auto dest: set_takeWhileD)
  ultimately show ?thesis
    using nth_takeWhile_split [of "takeWhile unsettled w" unsettled "dropWhile unsettled w" i,
        unfolded takeWhile_dropWhile_id] assms(2) by blast
qed

text \<open>One path's frontier.\<close>

lemma frontier_of_path:
  assumes s: "issued u s" and evs: "events_of p (snapshot_effects s) \<noteq> []"
    and legal: "map row_state (journals s) \<in> (if tx_state s = Tx_ROLLING_BACK
          then forward_words \<union> reverse_words else forward_words)"
    and chained: "chained a (history p (all_occurrences (snapshot_effects s))) b"
    and ok: "\<forall>e \<in> set (snapshot_effects s). effect_ok e"
  shows "\<exists>f. path_frontier_of s (PathTimeline p (events_of p (snapshot_effects s))) = Inr f \<and>
    frontier_path f = p \<and>
    Some (frontier_expected f) = state_after (Some a) (frontier_depth s) (snapshot_effects s) p"
proof -
  let ?es = "snapshot_effects s" and ?rows = "journals s"
  let ?w = "map row_state ?rows" and ?evs = "events_of p (snapshot_effects s)"
  let ?occs = "map (\<lambda>t. (t, row_state (?rows ! tl_index t))) ?evs"
  have ids: "map row_effect_id ?rows = map effect_id_of ?es" and dist: "distinct (map effect_id_of ?es)"
    using s valid_rows issued_ids by auto
  have len: "length ?rows = length ?es" using ids by (metis length_map)
  note j = journalled_Inr [OF ids dist, of p]
  have order: "\<exists>i. effect_order ?es (tl_effect_id t) = Some i" if "t \<in> set ?evs" for t
    using events_of_index [OF that] by (auto simp: effect_order_iff [OF dist])
  have hd: "tl_pre (hd ?evs) = a"
  proof -
    from chained have "chained a (map tl_ends ?evs) b" by (simp add: events_history)
    with evs show ?thesis by (cases ?evs) auto
  qed
  have initial: "initial_frontier p ?occs = Inr (PathFrontier p Frontier_INITIAL None None None a [a])"
    using evs hd by (cases ?evs) (auto simp: initial_frontier_def)
  show ?thesis
  proof (cases "tx_state s = Tx_ROLLING_BACK")
    case True
    define n where "n = length (takeWhile unsettled ?w)"
    have depth: "frontier_depth s = n" using True by (simp add: frontier_depth_def n_def)
    have un: "unsettled (row_state (?rows ! tl_index t)) \<longleftrightarrow> tl_index t < n" if "t \<in> set ?evs" for t
      using unsettled_depth [of ?w "tl_index t"] legal True events_of_index [OF that] len by (simp add: n_def)
    have "filter (\<lambda>(_, state). state \<in> {J_DONE, J_STARTED, J_UNDO_STARTED}) ?occs
        = map (\<lambda>t. (t, row_state (?rows ! tl_index t))) (filter (\<lambda>t. tl_index t < n) ?evs)"
      unfolding filter_map comp_def by (rule arg_cong [where f = "map _"], rule filter_cong)
        (auto simp: un [symmetric] unsettled_def)
    then have cand: "filter (\<lambda>(_, state). state \<in> {J_DONE, J_STARTED, J_UNDO_STARTED}) ?occs
        = map (\<lambda>t. (t, row_state (?rows ! tl_index t))) (events_of p (take n ?es))"
      by (simp only: events_of_take)
    show ?thesis
    proof (cases "events_of p (take n ?es) = []")
      case True
      then show ?thesis
        using \<open>tx_state s = Tx_ROLLING_BACK\<close> cand initial
        by (simp add: path_frontier_of_def j reverse_frontier_def state_after_def depth)
    next
      case False
      let ?t = "last (events_of p (take n ?es))"
      have t: "?t \<in> set (filter (\<lambda>t. tl_index t < n) ?evs)"
        using False by (metis events_of_take last_in_set)
      then have "unsettled (row_state (?rows ! tl_index ?t))" "?t \<in> set ?evs" using un by auto
      moreover obtain adm where "reverse_admissible ?t (row_state (?rows ! tl_index ?t)) = Inr adm"
        using calculation(1) by (auto simp: unsettled_def)
      moreover obtain i where "effect_order ?es (tl_effect_id ?t) = Some i"
        using order calculation(2) by blast
      ultimately show ?thesis
        using \<open>tx_state s = Tx_ROLLING_BACK\<close> cand False
        by (simp add: path_frontier_of_def j reverse_frontier_def state_after_def depth last_map lookup_or_def)
    qed
  next
    case False
    then have w: "?w \<in> forward_words" using legal by simp
    define k where "k = length (takeWhile (\<lambda>j. j = J_DONE) ?w)"
    have depth: "frontier_depth s = k" using False by (simp add: frontier_depth_def k_def)
    have idx: "tl_index t < length ?w" "?w ! tl_index t = row_state (?rows ! tl_index t)" if "t \<in> set ?evs" for t
      using events_of_index [OF that] len by simp_all
    have landed: "row_state (?rows ! tl_index t) = J_DONE \<longleftrightarrow> tl_index t < k"
      and started: "row_state (?rows ! tl_index t) = J_STARTED \<Longrightarrow> tl_index t = k" if "t \<in> set ?evs" for t
      using forward_depth [OF w idx(1) [OF that]] idx(2) [OF that] by (simp_all add: k_def)
    have completed: "map fst (filter (\<lambda>(_, state). state = J_DONE) ?occs) = events_of p (take k ?es)"
    proof -
      have "map fst (filter (\<lambda>(_, state). state = J_DONE) ?occs) = filter (\<lambda>t. tl_index t < k) ?evs"
        unfolding filter_map comp_def map_map by (simp add: comp_def landed cong: filter_cong)
      then show ?thesis by (simp only: events_of_take)
    qed
    define st where "st = map fst (filter (\<lambda>(_, state). state = J_STARTED) ?occs)"
    have st: "st = filter (\<lambda>t. row_state (?rows ! tl_index t) = J_STARTED) ?evs"
      by (simp add: st_def filter_map comp_def)
    have "length st \<le> 1"
    proof (cases "k < length ?es")
      case True
      have "st = filter (\<lambda>t. row_state (?rows ! tl_index t) = J_STARTED) (filter (\<lambda>t. tl_index t = k) ?evs)"
        unfolding st filter_filter by (rule filter_cong) (auto dest: started)
      also have "\<dots> = filter (\<lambda>t. row_state (?rows ! tl_index t) = J_STARTED) (occurrence_events p k (?es ! k))"
        using True by (simp add: events_at_index)
      also have "length \<dots> \<le> 1"
        using occurrence_events_once [of "?es ! k" p k] ok True length_filter_le order_trans nth_mem by metis
      finally show ?thesis .
    next
      case False
      then have "st = []" using started events_of_index by (fastforce simp: st filter_empty_conv)
      then show ?thesis by simp
    qed
    show ?thesis
    proof (cases st)
      case Nil
      show ?thesis
      proof (cases "events_of p (take k ?es) = []")
        case True
        then show ?thesis
          using False Nil completed initial \<open>length st \<le> 1\<close>
          by (simp add: path_frontier_of_def j forward_frontier_def state_after_def depth st_def Let_def)
      next
        case nonempty: False
        have "last (events_of p (take k ?es)) \<in> set (filter (\<lambda>t. tl_index t < k) ?evs)"
          using nonempty by (metis events_of_take last_in_set)
        then obtain i where "effect_order ?es (tl_effect_id (last (events_of p (take k ?es)))) = Some i"
          using order by auto
        then show ?thesis
          using False Nil completed nonempty \<open>length st \<le> 1\<close>
          by (simp add: path_frontier_of_def j forward_frontier_def state_after_def depth st_def Let_def lookup_or_def)
      qed
    next
      case (Cons t ts)
      then have "t \<in> set st" by simp
      then have t: "t \<in> set ?evs" "row_state (?rows ! tl_index t) = J_STARTED" by (auto simp: st)
      with started have tk: "tl_index t = k" by blast
      have k: "k < length ?es" using events_of_index [OF t(1)] tk by simp
      have "t \<in> set (filter (\<lambda>t. tl_index t = k) ?evs)" using t tk by simp
      then have "t \<in> set (occurrence_events p k (?es ! k))" by (simp add: events_at_index k)
      moreover have "length (occurrence_events p k (?es ! k)) \<le> 1"
        using ok k nth_mem by (intro occurrence_events_once) blast
      ultimately have one: "occurrence_events p k (?es ! k) = [t]"
        by (cases "occurrence_events p k (?es ! k)") auto
      have "events_of p (take (Suc k) ?es) = events_of p (take k ?es) @ [t]"
        using k one by (simp add: take_Suc_conv_app_nth events_of_snoc)
      then have "filter (\<lambda>t. tl_index t < Suc k) ?evs = events_of p (take k ?es) @ [t]"
        by (simp only: events_of_take)
      then obtain rest where split: "?evs = events_of p (take k ?es) @ t # rest"
        using events_of_prefix [of p ?es "Suc k"] by (auto simp: events_of_take)
      have pre: "tl_pre t = (if events_of p (take k ?es) = [] then a else tl_post (last (events_of p (take k ?es))))"
        using chained_middle [of a "map tl_ends (events_of p (take k ?es))" "tl_ends t" "map tl_ends rest" b] chained
        unfolding events_history [symmetric] by (subst (asm) split) (simp add: last_map)
      obtain i where i: "effect_order ?es (tl_effect_id t) = Some i" using order t(1) by blast
      have "forward_frontier p ?occs (effect_order ?es)
          = Inr (PathFrontier p Frontier_FORWARD (Some i) (Some (tl_effect_id t)) (Some J_STARTED)
               (tl_pre t) (unique_states [tl_pre t, tl_post t]))"
        unfolding forward_frontier_def st_def [symmetric] Let_def
        using Cons \<open>length st \<le> 1\<close> i by (simp add: lookup_or_def)
      then show ?thesis
        using False pre by (simp add: path_frontier_of_def j state_after_def depth)
    qed
  qed
qed

section \<open>Authority\<close>

lemma only_forward: "w \<in> only J_PENDING \<Longrightarrow> w \<in> forward_words" "w \<in> only J_DONE \<Longrightarrow> w \<in> forward_words"
  unfolding forward_words_def by (induction w) auto

lemma authority_classify:
  assumes "valid_snapshot u s"
  shows "classify_transaction_authority s = Inr (AuthorityDecision Authority_CLASSIFY None) \<longleftrightarrow>
    active s \<and> tx_state s \<notin> {Tx_HALTED, Tx_ROLLED_BACK} \<and>
    compatible_commit_decision (tx_state s) (commit_decision s) \<and>
    map row_state (journals s) \<in> journal_words (tx_state s)"
  using valid_rows [OF assms]
  by (auto simp: classify_transaction_authority_def require_snapshot_def bindr_Inr_iff legal_language
      split: option.splits)

lemma classify_forward_words:
  assumes "map row_state (journals s) \<in> journal_words (tx_state s)" "tx_state s \<notin> {Tx_HALTED, Tx_ROLLED_BACK}"
  shows "map row_state (journals s) \<in> (if tx_state s = Tx_ROLLING_BACK then forward_words \<union> reverse_words else forward_words)"
  using assms by (cases "tx_state s") (auto dest: only_forward)

lemma authority_total:
  assumes "valid_snapshot u s"
  shows "okay (classify_transaction_authority s)"
proof -
  have "tx_state s = Tx_HALTED \<Longrightarrow> halt_diagnostic s \<noteq> None"
    using assms by (simp add: valid_snapshot_iff validate_terminal_payloads_def guard_Inr_iff)
  then show ?thesis
    using valid_rows [OF assms]
    by (cases "tx_state s = Tx_HALTED")
      (auto simp: okay_def classify_transaction_authority_def require_snapshot_def legal_language split: option.split)
qed

text \<open>The frontiers of a classified snapshot, as states of the execution.\<close>

lemma frontiers_land:
  assumes "issued u s"
    and "classify_transaction_authority s = Inr (AuthorityDecision Authority_CLASSIFY None)"
  shows "\<exists>frontiers surf. reconstruct_frontiers s = Inr frontiers \<and>
    map frontier_path frontiers = map timeline_path (timelines (compiled s)) \<and>
    land_all (map_of (pairs (initial_surface (compiled_of (compiled s)))))
      (all_occurrences (take (frontier_depth s) (snapshot_effects s))) = Some surf \<and>
    (\<forall>f \<in> set frontiers. surf (frontier_path f) = Some (frontier_expected f))"
proof -
  let ?es = "snapshot_effects s" and ?init = "map_of (pairs (initial_surface (compiled_of (compiled s))))"
  from assms(1) obtain spec where spec: "compile_spec u spec = Inr (compiled s)" by (auto simp: issued_def)
  from spec have wf: "well_formed u (compiled_of (compiled s))"
    using well_formed_permuted [OF canonicalize_same] by (simp add: compile_spec_iff)
  from spec have build: "build_timelines ?es = Inr (timelines (compiled s))"
    by (auto simp: compile_spec_iff same_declarations_fields [OF canonicalize_same])
  have land: "land_all ?init (all_occurrences ?es) = Some (map_of (pairs (final_surface (compiled_of (compiled s)))))"
    and ok: "\<forall>e \<in> set ?es. effect_ok e"
    using wf by (auto simp: well_formed_def joins_def)
  from land_all_state_after [OF land, of "frontier_depth s"] obtain surf where
    surf: "land_all ?init (all_occurrences (take (frontier_depth s) ?es)) = Some surf"
      "\<And>p. surf p = state_after (?init p) (frontier_depth s) ?es p" by blast
  have words: "map row_state (journals s) \<in> (if tx_state s = Tx_ROLLING_BACK
      then forward_words \<union> reverse_words else forward_words)"
    using assms authority_classify classify_forward_words by (metis issued_valid)
  have one: "\<exists>f. path_frontier_of s tl = Inr f \<and> frontier_path f = timeline_path tl \<and>
      Some (frontier_expected f) = surf (timeline_path tl)" if "tl \<in> set (timelines (compiled s))" for tl
  proof -
    obtain p items where tl: "tl = PathTimeline p items" by (cases tl)
    with that timelines_of_build(1) [OF build] have items: "items = events_of p ?es" "events_of p ?es \<noteq> []" by auto
    have "case ?init p of None \<Rightarrow> map_of (pairs (final_surface (compiled_of (compiled s)))) p = None \<and> history p (all_occurrences ?es) = []
      | Some a \<Rightarrow> \<exists>b. map_of (pairs (final_surface (compiled_of (compiled s)))) p = Some b \<and> chained a (history p (all_occurrences ?es)) b"
      using land unfolding land_all_iff by blast
    moreover have "history p (all_occurrences ?es) \<noteq> []"
      using items by (metis events_history map_is_Nil_conv)
    ultimately obtain a b where ab: "?init p = Some a" "chained a (history p (all_occurrences ?es)) b"
      by (auto split: option.splits)
    from frontier_of_path [OF assms(1) items(2) words ab(2) ok]
    show ?thesis by (auto simp: tl items(1) surf(2) ab(1))
  qed
  have "\<exists>fs. traverse (path_frontier_of s) tls = Inr fs \<and> map frontier_path fs = map timeline_path tls \<and>
      (\<forall>f \<in> set fs. surf (frontier_path f) = Some (frontier_expected f))"
    if "set tls \<subseteq> set (timelines (compiled s))" for tls
    using that
  proof (induction tls)
    case (Cons tl tls)
    from Cons.prems obtain f where f: "path_frontier_of s tl = Inr f" "frontier_path f = timeline_path tl"
        "Some (frontier_expected f) = surf (timeline_path tl)" using one by auto
    from Cons obtain fs where "traverse (path_frontier_of s) tls = Inr fs" "map frontier_path fs = map timeline_path tls"
        "\<forall>f \<in> set fs. surf (frontier_path f) = Some (frontier_expected f)" by auto
    with f show ?case by (intro exI [of _ "f # fs"]) auto
  qed simp
  from this [of "timelines (compiled s)"] obtain fs where
    "traverse (path_frontier_of s) (timelines (compiled s)) = Inr fs"
    "map frontier_path fs = map timeline_path (timelines (compiled s))"
    "\<forall>f \<in> set fs. surf (frontier_path f) = Some (frontier_expected f)" by blast
  moreover from valid_rows [OF issued_valid [OF assms(1)]]
  have "reconstruct_frontiers s = traverse (path_frontier_of s) (timelines (compiled s))"
    by (simp add: reconstruct_frontiers_def require_snapshot_def)
  ultimately show ?thesis using surf(1) by auto
qed

section \<open>Properties\<close>

text \<open>
  C25: The journal vectors that each transaction state allows are exactly these regular
  languages: all pending when prepared, \<open>DONE* STARTED? PENDING*\<close> while applying, all done
  when applied or committed, \<open>UNDONE* PENDING*\<close> once rolled back, and while rolling back the
  forward vectors together with \<open>DONE*\<close> followed by \<open>UNDONE* PENDING*\<close>, by a final
  \<open>UNDO_STARTED\<close>, or by \<open>UNDO_STARTED UNDONE+ PENDING*\<close>.
\<close>

theorem journal_languages:
  "legal_journal_language tx states =
     (if tx = Tx_HALTED then Inl (journal_err OutsideLanguageMatrix) else Inr (states \<in> journal_words tx))"
  by (simp add: legal_language)

text \<open>
  C22: Path frontiers are states of the execution: for a snapshot that recovery classifies,
  reconstruction succeeds, covers the timelines in order, and the expected state at a path is
  the state of that path after executing the first effects on the initial surface: those done
  when going forward, all that are neither pending nor undone when rolling back.
\<close>

theorem frontiers_execution:
  assumes "issued u s"
    and "classify_transaction_authority s = Inr (AuthorityDecision Authority_CLASSIFY None)"
  shows "\<exists>frontiers surf. reconstruct_frontiers s = Inr frontiers \<and>
    map frontier_path frontiers = map timeline_path (timelines (compiled s)) \<and>
    land_all (map_of (pairs (initial_surface (compiled_of (compiled s)))))
      (all_occurrences (take (frontier_depth s) (snapshot_effects s))) = Some surf \<and>
    (\<forall>f \<in> set frontiers. surf (frontier_path f) = Some (frontier_expected f))"
  using assms by (rule frontiers_land)

theorem frontiers_execution_example:
  "\<exists>frontiers surf. reconstruct_frontiers crashed = Inr frontiers \<and>
    map frontier_path frontiers = map timeline_path (timelines (compiled crashed)) \<and>
    land_all (map_of (pairs (initial_surface (compiled_of (compiled crashed)))))
      (all_occurrences (take (frontier_depth crashed) (snapshot_effects crashed))) = Some surf \<and>
    (\<forall>f \<in> set frontiers. surf (frontier_path f) = Some (frontier_expected f))"
  by (rule frontiers_execution [OF crashed_issued]) code_simp

text \<open>
  C30: A crash between the two undo transitions of an effect that is followed by a pending
  one cannot be recovered. A snapshot that recovery classifies while rolling back, in which
  the last started effect stands before a pending effect, has that effect's first undo
  transition persisted by the plan; the snapshot it leads to is halted with
  \<open>JOURNAL_TOPOLOGY_INVALID\<close>, because \<open>_reverse_language\<close> has no edge from
  \<open>UNDO_STARTED\<close> to \<open>PENDING\<close>.
\<close>

theorem interrupted_undo_halts:
  assumes valid: "valid_snapshot u s" and rolling: "tx_state s = Tx_ROLLING_BACK"
    and classified: "classify_transaction_authority s = Inr (AuthorityDecision Authority_CLASSIFY None)"
    and vector: "map row_state (journals s) = before @ j # J_PENDING # after" and j: "j = J_STARTED \<or> j = J_DONE"
    and undo: "transition_effect u s (row_effect_id (journals s ! length before)) j J_UNDO_STARTED = Inr t"
  shows "classify_transaction_authority t = Inr (AuthorityDecision Authority_HALT (Some JOURNAL_TOPOLOGY_INVALID))"
proof -
  let ?n = "length before"
  from transition_effect_Inr [OF undo] obtain i where
    i: "matching_rows (journals s) (row_effect_id (journals s ! ?n)) = [i]"
    and re: "rebuild u (s\<lparr>journals := (journals s)[i := EffectJournalState (row_effect_id (journals s ! i)) J_UNDO_STARTED]\<rparr>) = Inr t"
    by blast
  have n: "?n < length (journals s)"
    using arg_cong [OF vector, of length] by simp
  then have "?n \<in> set (matching_rows (journals s) (row_effect_id (journals s ! ?n)))"
    by (simp add: matching_rows_iff)
  with i have "i = ?n" by simp
  with rebuild_Inr [OF re] have t: "tx_state t = tx_state s" "commit_decision t = commit_decision s"
      "journals t = (journals s)[?n := EffectJournalState (row_effect_id (journals s ! ?n)) J_UNDO_STARTED]"
      "valid_snapshot u t" by auto
  then have "map row_state (journals t) = (map row_state (journals s))[?n := J_UNDO_STARTED]"
    by (simp add: map_update)
  then have w: "map row_state (journals t) = before @ J_UNDO_STARTED # J_PENDING # after"
    by (simp add: vector)
  have s: "compatible_commit_decision (tx_state s) (commit_decision s)"
      "map row_state (journals s) \<in> forward_words \<union> reverse_words"
    using classified rolling authority_classify [OF valid] by auto
  have "open_before_pending (map row_state (journals t))"
    unfolding w open_before_pending_def by blast
  from open_illegal [OF this] have "map row_state (journals t) \<notin> journal_words Tx_ROLLING_BACK" by simp
  then show ?thesis
    using t valid_rows [OF t(4)] s(1) rolling
    by (simp add: classify_transaction_authority_def require_snapshot_def
        forward_language_iff reverse_language_iff)
qed

text \<open>
  A crash while the deletion was being executed, with the creation still pending, and the
  snapshot after the first step of its rollback.
\<close>

definition interrupted :: "journal_state \<Rightarrow> recovery_snapshot" where
  "interrupted j = small Tx_ROLLING_BACK j J_PENDING (ObservedSymlink link) ObservedAbsent
     ObservedAbsent ObservedAbsent"

lemma interrupted_valid: "valid_snapshot plain_tables (interrupted J_STARTED)"
  unfolding valid_snapshot_iff by code_simp

theorem interrupted_undo_halts_example:
  "classify_transaction_authority (interrupted J_UNDO_STARTED) =
     Inr (AuthorityDecision Authority_HALT (Some JOURNAL_TOPOLOGY_INVALID))"
proof (rule interrupted_undo_halts [OF interrupted_valid])
  show "tx_state (interrupted J_STARTED) = Tx_ROLLING_BACK"
    by (simp add: interrupted_def small_def)
  show "classify_transaction_authority (interrupted J_STARTED) = Inr (AuthorityDecision Authority_CLASSIFY None)"
    by code_simp
  show "map row_state (journals (interrupted J_STARTED)) = [] @ J_STARTED # J_PENDING # []"
    by (simp add: interrupted_def small_def)
  show "transition_effect plain_tables (interrupted J_STARTED)
      (row_effect_id (journals (interrupted J_STARTED) ! length ([] :: journal_state list))) J_STARTED J_UNDO_STARTED
      = Inr (interrupted J_UNDO_STARTED)"
    by code_simp
qed simp

end
