(* ===== verification/DecisionCorrect.thy ===== *)
theory DecisionCorrect
  imports JournalCorrect
begin

text \<open>
  What the classification of one effect promises: the tuple that its steps leave behind, and
  the fate of the entries that no effect of the transaction accounts for.
\<close>

section \<open>The tuple of an effect\<close>

text \<open>The snapshot observes everything the joint observation says.\<close>

definition observes :: "recovery_snapshot \<Rightarrow> joint_observation \<Rightarrow> bool" where
  "observes s ob \<longleftrightarrow>
     (\<forall>item \<in> set (jo_persistent ob). persistent_map s (po_path item) = Some (po_entry item)) \<and>
     (\<forall>item \<in> set (jo_scratch ob). scratch_entry s (so_key item) = Some (so_entry item))"

text \<open>The observation speaks of the paths of the effect, in order, and of its scratch.\<close>

definition tuple_of :: "effect \<Rightarrow> joint_observation \<Rightarrow> bool" where
  "tuple_of e ob \<longleftrightarrow>
     map po_path (jo_persistent ob) = effect_paths e \<and> map so_key (jo_scratch ob) = [scratch_key e]"

lemma effect_paths_eq: "effect_paths e = map occ_path (occurrences e)"
  by (cases e) auto

lemma tuple_of_scratch: "tuple_of e ob \<Longrightarrow> \<exists>x rel. jo_scratch ob =
    [ScratchObservation (effect_id_of e) (required_scratch_role e) x rel]"
  unfolding tuple_of_def by (cases "jo_scratch ob") (auto, metis scratch_observation.collapse)

lemma lookup_list_all2:
  "list_all2 (\<lambda>k y. \<exists>x. d k = Some x \<and> f k x = y) ks ys \<Longrightarrow> (\<And>k x. key (f k x) = k) \<Longrightarrow> map key ys = ks"
  by (induction rule: list_all2_induct) auto

lemma joint_Inr:
  assumes "joint s e = Inr ob"
  shows "tuple_of e ob \<and> observes s ob \<and> (\<exists>item. jo_scratch ob = [item] \<and> scratch_map s (scratch_key e) = Some item)"
proof -
  from assms obtain item where
    p: "list_all2 (\<lambda>path y. \<exists>x. persistent_map s path = Some x \<and> PersistentObservation path x = y)
          (effect_paths e) (jo_persistent ob)"
    and item: "scratch_map s (scratch_key e) = Some item" "jo_scratch ob = [item]"
    by (auto simp: joint_def Let_def result_simps traverse_Inr_iff)
  have "map po_path (jo_persistent ob) = effect_paths e"
    by (rule lookup_list_all2 [OF p]) simp
  moreover have "\<forall>i \<in> set (jo_persistent ob). persistent_map s (po_path i) = Some (po_entry i)"
    using p by (auto simp: list_all2_conv_all_nth in_set_conv_nth) (metis persistent_observation.sel)
  moreover have "so_key item = scratch_key e"
    using item(1) unfolding scratch_map_def scratch_dict_def by (auto dest!: dict_of_in_set)
  ultimately show ?thesis
    using item by (simp add: tuple_of_def observes_def scratch_entry_def)
qed

text \<open>Where the steps of a decision leave the tuple it starts from.\<close>

fun outcome :: "joint_observation \<Rightarrow> recovery_step list \<Rightarrow> joint_observation" where
  "outcome ob [] = ob"
| "outcome ob (TransformEffectTuple _ _ _ _ after _ # steps) = outcome after steps"
| "outcome ob (RemoveScratch _ _ _ after # steps) = outcome after steps"
| "outcome ob (_ # steps) = outcome ob steps"

lemma replace_persistent_Inr: "replace_persistent ob xs = Inr ys \<longleftrightarrow>
    length xs = length (jo_persistent ob) \<and>
    ys = map (\<lambda>(item, entry). PersistentObservation (po_path item) entry) (zip (jo_persistent ob) xs)"
  by (auto simp: replace_persistent_def guard_Inr_iff)

lemma replaced_paths: "length xs = length items \<Longrightarrow>
    map po_path (map (\<lambda>(item, entry). PersistentObservation (po_path item) entry) (zip items xs)) = map po_path items"
  by (induction xs items rule: list_induct2) auto

lemma replaced_entries: "length xs = length items \<Longrightarrow>
    map po_entry (map (\<lambda>(item, entry). PersistentObservation (po_path item) entry) (zip items xs)) = xs"
  by (induction xs items rule: list_induct2) auto

text \<open>The tuple after a transformation, and after the removal of the scratch.\<close>

lemma transform_tuple:
  assumes "transform e ob persistent scratch k rels = Inr (step, after)" and "tuple_of e ob"
  shows "step = TransformEffectTuple (effect_id_of e) (variant_of e) k ob after rels \<and> tuple_of e after \<and>
    map po_entry (jo_persistent after) = persistent \<and>
    jo_scratch after = [ScratchObservation (effect_id_of e) (required_scratch_role e) scratch None]"
  using assms tuple_of_scratch [OF assms(2)]
  by (auto simp: transform_def Let_def bindr_Inr_iff replace_persistent_Inr replace_scratch_def tuple_of_def
      replaced_entries simp del: map_map simp: replaced_paths)

lemma remove_tuple:
  assumes "remove_scratch_step e ob = Inr (step, after)" and "tuple_of e ob"
  shows "step = RemoveScratch (effect_id_of e) (required_scratch_role e) ob after \<and> tuple_of e after \<and>
    jo_persistent after = jo_persistent ob \<and>
    jo_scratch after = [ScratchObservation (effect_id_of e) (required_scratch_role e) ObservedAbsent None]"
  using assms tuple_of_scratch [OF assms(2)]
  by (auto simp: remove_scratch_step_def Let_def bindr_Inr_iff replace_scratch_def tuple_of_def)

section \<open>What a decision settles\<close>

definition scratch_gone :: "joint_observation \<Rightarrow> bool" where
  "scratch_gone ob \<longleftrightarrow> (\<forall>item \<in> set (jo_scratch ob). so_entry item = ObservedAbsent)"

definition states_of :: "joint_observation \<Rightarrow> path_state result list" where
  "states_of ob = map (\<lambda>item. entry_state_of (po_entry item)) (jo_persistent ob)"

definition restored :: "effect \<Rightarrow> joint_observation \<Rightarrow> bool" where
  "restored e ob \<longleftrightarrow> states_of ob = map (\<lambda>occ. Inr (occ_pre occ)) (occurrences e)"

text \<open>
  An entry is foreign to some effects when none of them declares its state, before or after,
  and it is not a work directory under construction.
\<close>

definition foreign :: "effect set \<Rightarrow> observed_entry \<Rightarrow> bool" where
  "foreign es x \<longleftrightarrow> x \<noteq> ObservedAbsent \<and> \<not> is_directory_scaffold x \<and>
     (\<forall>e \<in> es. \<forall>occ \<in> set (occurrences e). entry_state_of x \<noteq> Inr (occ_pre occ) \<and> entry_state_of x \<noteq> Inr (occ_post occ))"

text \<open>The entries of a tuple; a scratch file that is a strict prefix of its effect's content
  was written by the engine and does not count.\<close>

definition tuple_holds :: "joint_observation \<Rightarrow> observed_entry \<Rightarrow> bool" where
  "tuple_holds ob x \<longleftrightarrow> (\<exists>item \<in> set (jo_persistent ob). po_entry item = x) \<or>
     (\<exists>item \<in> set (jo_scratch ob). so_entry item = x \<and> so_relation item \<noteq> Some Build_STRICT_PREFIX)"

text \<open>Each mutating step starts where the one before ended, stays in the tuple and loses no
  foreign entry.\<close>

fun conserving :: "effect \<Rightarrow> joint_observation \<Rightarrow> recovery_step list \<Rightarrow> bool" where
  "conserving e ob [] \<longleftrightarrow> True"
| "conserving e ob (TransformEffectTuple _ _ _ expected after _ # steps) \<longleftrightarrow>
     expected = ob \<and> tuple_of e after \<and> (\<forall>x. foreign {e} x \<and> tuple_holds ob x \<longrightarrow> tuple_holds after x) \<and>
     (\<forall>item \<in> set (jo_scratch after). so_relation item = None) \<and> conserving e after steps"
| "conserving e ob (RemoveScratch _ _ expected after # steps) \<longleftrightarrow>
     expected = ob \<and> tuple_of e after \<and> (\<forall>x. foreign {e} x \<and> tuple_holds ob x \<longrightarrow> tuple_holds after x) \<and>
     (\<forall>item \<in> set (jo_scratch after). so_relation item = None) \<and> conserving e after steps"
| "conserving e ob (_ # steps) \<longleftrightarrow> conserving e ob steps"

definition settles :: "effect \<Rightarrow> joint_observation \<Rightarrow> effect_decision \<Rightarrow> bool" where
  "settles e ob d \<longleftrightarrow> decision_observed d = ob \<and> halt_of d = None \<and> conserving e ob (decision_steps d) \<and>
     scratch_gone (outcome ob (decision_steps d)) \<and>
     (\<not> refused d \<longrightarrow> restored e (outcome ob (decision_steps d)))"

text \<open>The shapes of the tuples.\<close>

lemma single_tuple:
  assumes "tuple_of e ob" and "effect_paths e = [path]"
  obtains live x rel occ where "ob = JointObservation [PersistentObservation path live]
      [ScratchObservation (effect_id_of e) (required_scratch_role e) x rel] occ"
  using assms tuple_of_scratch [OF assms(1)] unfolding tuple_of_def
  by (cases ob) (auto simp: map_eq_Cons_conv, metis persistent_observation.collapse)

lemma single_joint:
  assumes "joint s e = Inr ob" and "effect_paths e = [path]"
  obtains live x rel occ where "tuple_of e ob" "ob = JointObservation [PersistentObservation path live]
      [ScratchObservation (effect_id_of e) (required_scratch_role e) x rel] occ"
  using joint_Inr [OF assms(1)] single_tuple [OF _ assms(2)] by metis

lemma pair_tuple:
  assumes "tuple_of e ob" and "effect_paths e = [path, path']"
  obtains live live' x rel occ where
    "ob = JointObservation [PersistentObservation path live, PersistentObservation path' live']
      [ScratchObservation (effect_id_of e) (required_scratch_role e) x rel] occ"
  using assms tuple_of_scratch [OF assms(1)] unfolding tuple_of_def
  by (cases ob) (auto simp: map_eq_Cons_conv, metis persistent_observation.collapse)

lemma pair_joint:
  assumes "joint s e = Inr ob" and "effect_paths e = [path, path']"
  obtains live live' x rel occ where "tuple_of e ob"
    "ob = JointObservation [PersistentObservation path live, PersistentObservation path' live']
      [ScratchObservation (effect_id_of e) (required_scratch_role e) x rel] occ"
  using joint_Inr [OF assms(1)] pair_tuple [OF _ assms(2)] by metis

lemma classify_entry_Inr:
  assumes "classify_entry x pre post rel = Inr c"
  shows "(c = Class_ABSENT \<longleftrightarrow> x = ObservedAbsent) \<and> (c = Class_PRE \<longrightarrow> entry_state_of x = Inr pre) \<and>
    (c = Class_POST \<longrightarrow> entry_state_of x = Inr post) \<and> (c = Class_PREFIX \<longrightarrow> rel = Some Build_STRICT_PREFIX)"
  using assms by (auto simp: classify_entry_def is_absent_iff result_simps split: if_splits)

text \<open>An entry that recovery may discard: engine made, or declared by the effect.\<close>

definition discardable :: "effect \<Rightarrow> scratch_observation \<Rightarrow> bool" where
  "discardable e item \<longleftrightarrow> \<not> foreign {e} (so_entry item) \<or> so_relation item = Some Build_STRICT_PREFIX"

lemma not_foreign:
  "\<not> foreign es ObservedAbsent"
  "is_directory_scaffold x \<Longrightarrow> \<not> foreign es x"
  "entry_state_of x = Inr st \<Longrightarrow> occ \<in> set (occurrences e) \<Longrightarrow> st = occ_pre occ \<or> st = occ_post occ \<Longrightarrow> \<not> foreign {e} x"
  unfolding foreign_def by auto

lemma decision_sel [simp]:
  "decision_steps (decision kind ob steps ref) = steps"
  "refused (decision kind ob steps ref) = ref"
  "halt_of (decision kind ob steps ref) = None"
  "decision_observed (decision kind ob steps ref) = ob"
  by (simp_all add: decision_def)

lemma settles_nothing:
  assumes "restored e ob" and "scratch_gone ob"
  shows "settles e ob (decision kind ob [] False)"
  using assms by (simp add: settles_def decision_def)

lemma remove_conserves:
  assumes "remove_scratch_step e ob = Inr (step, after)" and "tuple_of e ob"
    and "\<forall>item \<in> set (jo_scratch ob). discardable e item"
  shows "conserving e ob [step] \<and> outcome ob [step] = after \<and> scratch_gone after \<and>
    (restored e ob \<longrightarrow> restored e after)"
proof -
  note r = remove_tuple [OF assms(1,2)]
  have "tuple_holds after x" if x: "foreign {e} x" "tuple_holds ob x" for x
    using x assms(3) r unfolding tuple_holds_def discardable_def by auto
  with r show ?thesis by (simp add: scratch_gone_def restored_def states_of_def)
qed

lemma settles_remove:
  assumes "remove_decision kind e ob = Inr d" and "tuple_of e ob"
    and "\<forall>item \<in> set (jo_scratch ob). discardable e item" and "restored e ob"
  shows "settles e ob d"
proof -
  from assms(1) obtain step after where s: "remove_scratch_step e ob = Inr (step, after)"
    "d = decision kind ob [step] False" by (auto simp: remove_decision_def bindr_Inr_iff)
  with remove_conserves [OF s(1) assms(2,3)] assms(4) show ?thesis
    by (simp add: settles_def decision_def)
qed

text \<open>A refusal that leaves the live path as it is.\<close>

lemma settles_preserve:
  assumes "tuple_of e ob"
    and "scratch_gone ob \<and> d = decision kind ob [PreserveExternal nodes] True \<or>
      (\<forall>item \<in> set (jo_scratch ob). discardable e item) \<and>
      bindr (remove_scratch_step e ob) (\<lambda>(remove, _). Inr (decision kind ob [PreserveExternal nodes, remove] True)) = Inr d"
  shows "settles e ob d"
  using assms(2)
proof
  assume "(\<forall>item \<in> set (jo_scratch ob). discardable e item) \<and>
      bindr (remove_scratch_step e ob) (\<lambda>(remove, _). Inr (decision kind ob [PreserveExternal nodes, remove] True)) = Inr d"
  then obtain step after where s: "remove_scratch_step e ob = Inr (step, after)"
    "d = decision kind ob [PreserveExternal nodes, step] True" "\<forall>item \<in> set (jo_scratch ob). discardable e item"
    by (auto simp: bindr_Inr_iff)
  with remove_conserves [OF s(1) assms(1) s(3)] show ?thesis by (simp add: settles_def decision_def)
qed (simp add: settles_def decision_def)

text \<open>A transformation must bring every foreign entry of the tuple to a live path or keep it
  in the scratch.\<close>

definition accounted :: "effect \<Rightarrow> joint_observation \<Rightarrow> observed_entry list \<Rightarrow> observed_entry \<Rightarrow> bool" where
  "accounted e ob persistent scratch \<longleftrightarrow>
     (\<forall>x. foreign {e} x \<and> tuple_holds ob x \<longrightarrow> x \<in> set persistent \<or> x = scratch)"

lemma transform_conserves:
  assumes "transform e ob persistent scratch k rels = Inr (step, after)" and "tuple_of e ob"
    and "accounted e ob persistent scratch"
  shows "(conserving e ob (step # steps) \<longleftrightarrow> conserving e after steps) \<and> outcome ob (step # steps) = outcome after steps \<and>
    (restored e after \<longleftrightarrow> map entry_state_of persistent = map (\<lambda>occ. Inr (occ_pre occ)) (occurrences e)) \<and>
    (\<forall>item \<in> set (jo_scratch after). so_entry item = scratch)"
proof -
  note t = transform_tuple [OF assms(1,2)]
  have "tuple_holds after x" if "x \<in> set persistent \<or> x = scratch" for x
    using that t unfolding tuple_holds_def by (metis in_set_conv_nth length_map list.set_intros(1) nth_map nth_mem option.distinct(1) scratch_observation.sel(3,4))
  with assms(3) have c: "\<forall>x. foreign {e} x \<and> tuple_holds ob x \<longrightarrow> tuple_holds after x"
    by (auto simp: accounted_def)
  have "states_of after = map entry_state_of persistent"
    using t by (auto simp: states_of_def)
  with t c show ?thesis by (simp add: restored_def)
qed

lemma settles_transform:
  assumes "transform_decision kind e ob persistent scratch k rels = Inr d" and "tuple_of e ob"
    and "accounted e ob persistent scratch" and "\<not> foreign {e} scratch"
    and "map entry_state_of persistent = map (\<lambda>occ. Inr (occ_pre occ)) (occurrences e)"
  shows "settles e ob d"
proof -
  from assms(1) obtain step after remove after' where s: "transform e ob persistent scratch k rels = Inr (step, after)"
    "remove_scratch_step e after = Inr (remove, after')" "d = decision kind ob [step, remove] False"
    by (auto simp: transform_decision_def bindr_Inr_iff)
  note t = transform_conserves [OF s(1) assms(2,3)]
  have "tuple_of e after" using transform_tuple [OF s(1) assms(2)] by simp
  note r = remove_conserves [OF s(2) this]
  from t assms(4) have "\<forall>item \<in> set (jo_scratch after). discardable e item" by (auto simp: discardable_def)
  with r t assms(5) s(3) show ?thesis by (simp add: settles_def decision_def)
qed

text \<open>A transformation that empties the scratch itself.\<close>

lemma settles_transform_only:
  assumes "transform e ob persistent ObservedAbsent k rels = Inr (step, after)" and "tuple_of e ob"
    and "accounted e ob persistent ObservedAbsent"
    and "map entry_state_of persistent = map (\<lambda>occ. Inr (occ_pre occ)) (occurrences e)"
  shows "settles e ob (decision kind ob [step] False)"
  using transform_conserves [OF assms(1-3), of "[]"] assms(4)
  by (simp add: settles_def decision_def scratch_gone_def)

lemma accounted_single: "accounted e (JointObservation [PersistentObservation p live] [ScratchObservation i r x rel] occ) ps sc \<longleftrightarrow>
    (foreign {e} live \<longrightarrow> live \<in> set ps \<or> live = sc) \<and>
    (foreign {e} x \<and> rel \<noteq> Some Build_STRICT_PREFIX \<longrightarrow> x \<in> set ps \<or> x = sc)"
  by (auto simp: accounted_def tuple_holds_def)

lemma accounted_pair: "accounted e (JointObservation [PersistentObservation p live, PersistentObservation q live']
      [ScratchObservation i r x rel] occ) ps sc \<longleftrightarrow>
    (foreign {e} live \<longrightarrow> live \<in> set ps \<or> live = sc) \<and> (foreign {e} live' \<longrightarrow> live' \<in> set ps \<or> live' = sc) \<and>
    (foreign {e} x \<and> rel \<noteq> Some Build_STRICT_PREFIX \<longrightarrow> x \<in> set ps \<or> x = sc)"
  by (auto simp: accounted_def tuple_holds_def)

lemma settled_single:
  "scratch_gone (JointObservation ps [ScratchObservation i r x rel] occ) \<longleftrightarrow> x = ObservedAbsent"
  "occurrences e = [o1] \<Longrightarrow> restored e (JointObservation [PersistentObservation p live] ss occ) \<longleftrightarrow>
     entry_state_of live = Inr (occ_pre o1)"
  "occurrences e = [o1, o2] \<Longrightarrow> restored e (JointObservation [PersistentObservation p live, PersistentObservation q live'] ss occ) \<longleftrightarrow>
     entry_state_of live = Inr (occ_pre o1) \<and> entry_state_of live' = Inr (occ_pre o2)"
  by (simp_all add: scratch_gone_def restored_def states_of_def)

lemmas read_tuple = live_entry_def scratch_item_def index_or_def

section \<open>The decision tables\<close>

text \<open>A table yields a decision when it returns it and it does not halt.\<close>

definition yields :: "effect_decision result \<Rightarrow> effect_decision \<Rightarrow> bool" where
  "yields r d \<longleftrightarrow> r = Inr d \<and> halt_of d = None"

lemma yields_simps:
  "yields (if c then a else b) d \<longleftrightarrow> c \<and> yields a d \<or> \<not> c \<and> yields b d"
  "yields (guard c err r) d \<longleftrightarrow> c \<and> yields r d"
  "yields (Inr (halt_decision ob reason)) d \<longleftrightarrow> False"
  "yields (bindr m f) d \<longleftrightarrow> (\<exists>x. m = Inr x \<and> yields (f x) d)"
  "yields (Inr (decision kind ob steps ref)) d \<longleftrightarrow> d = decision kind ob steps ref"
  by (auto simp: yields_def halt_decision_def decision_def bindr_Inr_iff guard_Inr_iff)

lemma yields_Inr: "yields r d \<Longrightarrow> r = Inr d"
  by (simp add: yields_def)

text \<open>Decisions without a step, and those that keep the live path and drop the scratch.\<close>

definition idle :: "joint_observation \<Rightarrow> effect_decision \<Rightarrow> bool" where
  "idle ob d \<longleftrightarrow> (\<exists>kind. d = decision kind ob [] False)"

definition keeping :: "effect \<Rightarrow> joint_observation \<Rightarrow> effect_decision \<Rightarrow> bool" where
  "keeping e ob d \<longleftrightarrow> (\<exists>kind nodes remove after. remove_scratch_step e ob = Inr (remove, after) \<and>
     d = decision kind ob [PreserveExternal nodes, remove] True)"

lemma idle_iff: "idle ob (decision kind ob' steps ref) \<longleftrightarrow> ob' = ob \<and> steps = [] \<and> \<not> ref"
  by (auto simp: idle_def decision_def)

lemma keeping_iff: "keeping e ob (decision kind ob' [PreserveExternal nodes, remove] ref) \<longleftrightarrow>
    ob' = ob \<and> ref \<and> (\<exists>after. remove_scratch_step e ob = Inr (remove, after))"
  by (auto simp: keeping_def decision_def)

lemma settles_idle: "idle ob d \<Longrightarrow> restored e ob \<Longrightarrow> scratch_gone ob \<Longrightarrow> settles e ob d"
  by (auto simp: idle_def settles_nothing)

lemma settles_keeping:
  "keeping e ob d \<Longrightarrow> tuple_of e ob \<Longrightarrow> \<forall>item \<in> set (jo_scratch ob). discardable e item \<Longrightarrow> settles e ob d"
  by (auto simp: keeping_def intro!: settles_preserve)

text \<open>Each variant: while uncommitted, a decision that does not halt settles the effect.\<close>

lemma classify_delete_settles:
  assumes d: "yields (classify_delete s e pre) d" and e: "e = DeletePath i path pre" and ob: "joint s e = Inr ob"
    and u: "commit_decision s = Decision_UNCOMMITTED"
  shows "settles e ob d"
proof -
  have "effect_paths e = [path]" by (simp add: e)
  from single_joint [OF ob this] obtain live x rel occ where t: "tuple_of e ob" and
    obs: "ob = JointObservation [PersistentObservation path live]
      [ScratchObservation (effect_id_of e) (required_scratch_role e) x rel] occ" .
  from d ob u obtain lc tc where c: "classify_entry live pre AbsentState None = Inr lc"
      "classify_entry x pre AbsentState None = Inr tc"
    and b: "idle ob d \<and> lc = Class_PRE \<and> tc = Class_ABSENT \<or>
      yields (restore_tombstone e ob) d \<and> lc = Class_ABSENT \<and> tc = Class_PRE"
    by (auto simp: classify_delete_def obs read_tuple yields_simps idle_iff)
  note lc = classify_entry_Inr [OF c(1)] and tc = classify_entry_Inr [OF c(2)]
  have o1: "occurrences e = [Occurrence path pre AbsentState Role_target]" by (simp add: e)
  from b show ?thesis
  proof (elim disjE conjE exE)
    assume "idle ob d" "lc = Class_PRE" "tc = Class_ABSENT"
    with lc tc o1 show ?thesis by (auto simp: obs settled_single intro!: settles_idle)
  next
    assume "yields (restore_tombstone e ob) d" "lc = Class_ABSENT" "tc = Class_PRE"
    with lc tc o1 t show ?thesis
      by (auto simp: restore_tombstone_def yields_simps obs read_tuple accounted_single not_foreign
          intro!: settles_transform_only)
  qed
qed

lemma classify_create_file_settles:
  assumes d: "yields (classify_create_file s e path post) d" and e: "e = CreateFileNoClobber i path post"
    and ob: "joint s e = Inr ob" and u: "commit_decision s = Decision_UNCOMMITTED"
  shows "settles e ob d"
proof -
  have "effect_paths e = [path]" by (simp add: e)
  from single_joint [OF ob this] obtain live x rel occ where t: "tuple_of e ob" and
    obs: "ob = JointObservation [PersistentObservation path live]
      [ScratchObservation (effect_id_of e) (required_scratch_role e) x rel] occ" .
  from d ob u obtain lc sc where c: "classify_entry live AbsentState post None = Inr lc"
      "classify_entry x AbsentState post rel = Inr sc"
    and b: "idle ob d \<and> lc = Class_ABSENT \<and> sc = Class_ABSENT \<or>
      (\<exists>kind. yields (remove_decision kind e ob) d) \<and> lc = Class_ABSENT \<and> sc \<in> {Class_PREFIX, Class_POST} \<or>
      yields (remove_live_creation e ob) d \<and> lc = Class_POST \<and> sc = Class_ABSENT \<or>
      yields (refuse_create_live e path ob (sc \<noteq> Class_ABSENT)) d \<and> sc \<in> {Class_ABSENT, Class_PREFIX, Class_POST}"
    by (auto simp: classify_create_file_def obs read_tuple yields_simps idle_iff)
  note lc = classify_entry_Inr [OF c(1)] and sc = classify_entry_Inr [OF c(2)]
  have o1: "occurrences e = [Occurrence path AbsentState post Role_target]" by (simp add: e)
  have disc: "\<forall>item \<in> set (jo_scratch ob). discardable e item" if "sc \<in> {Class_ABSENT, Class_PREFIX, Class_POST}"
    using that sc o1 by (auto simp: obs discardable_def not_foreign)
  from b show ?thesis
  proof (elim disjE conjE exE)
    assume "idle ob d" "lc = Class_ABSENT" "sc = Class_ABSENT"
    with lc sc o1 show ?thesis by (auto simp: obs settled_single intro!: settles_idle)
  next
    fix kind assume "yields (remove_decision kind e ob) d" "lc = Class_ABSENT" "sc \<in> {Class_PREFIX, Class_POST}"
    with lc sc o1 t disc show ?thesis
      by (intro settles_remove [OF yields_Inr t]) (auto simp: obs settled_single)
  next
    assume "yields (remove_live_creation e ob) d" "lc = Class_POST" "sc = Class_ABSENT"
    with lc sc o1 t show ?thesis
      by (auto simp: remove_live_creation_def yields_simps obs read_tuple accounted_single not_foreign
          dest!: yields_Inr intro!: settles_transform)
  next
    assume "yields (refuse_create_live e path ob (sc \<noteq> Class_ABSENT)) d" and "sc \<in> {Class_ABSENT, Class_PREFIX, Class_POST}"
    with disc sc t show ?thesis
      by (auto simp: refuse_create_live_def obs settled_single bindr_Inr_iff yields_simps split: if_splits
          intro!: settles_preserve dest!: yields_Inr)
  qed
qed

definition workable :: "observed_entry \<Rightarrow> entry_class \<Rightarrow> bool" where
  "workable x c \<longleftrightarrow> c = Class_POST \<or> is_directory_scaffold x"

lemma classify_directory_settles:
  assumes d: "yields (classify_directory s e path post) d" and e: "e = CreateDirectory i path post"
    and ob: "joint s e = Inr ob" and u: "commit_decision s = Decision_UNCOMMITTED"
  shows "settles e ob d"
proof -
  have "effect_paths e = [path]" by (simp add: e)
  from single_joint [OF ob this] obtain live x rel occ where t: "tuple_of e ob" and
    obs: "ob = JointObservation [PersistentObservation path live]
      [ScratchObservation (effect_id_of e) (required_scratch_role e) x rel] occ" .
  from d ob u obtain lc wc where c: "classify_entry live AbsentState post None = Inr lc"
      "classify_entry x AbsentState post None = Inr wc"
    and b: "idle ob d \<and> lc = Class_ABSENT \<and> wc = Class_ABSENT \<or>
      yields (remove_decision REMOVE_WORK e ob) d \<and> lc = Class_ABSENT \<and> workable x wc \<or>
      yields (remove_live_directory e ob []) d \<and> lc = Class_POST \<and> wc = Class_ABSENT \<or>
      yields (remove_dual_name e ob) d \<and> lc = Class_POST \<and> workable x wc \<or>
      keeping e ob d \<and> workable x wc"
    by (auto simp: classify_directory_def obs read_tuple yields_simps Let_def idle_iff keeping_iff workable_def)
  note lc = classify_entry_Inr [OF c(1)] and wc = classify_entry_Inr [OF c(2)]
  have o1: "occurrences e = [Occurrence path AbsentState post Role_target]" by (simp add: e)
  have disc: "\<forall>item \<in> set (jo_scratch ob). discardable e item" if "workable x wc"
    using that wc o1 by (auto simp: obs discardable_def not_foreign workable_def)
  from b show ?thesis
  proof (elim disjE conjE exE)
    assume "idle ob d" "lc = Class_ABSENT" "wc = Class_ABSENT"
    with lc wc o1 show ?thesis by (auto simp: obs settled_single intro!: settles_idle)
  next
    assume "yields (remove_live_directory e ob []) d" "lc = Class_POST" "wc = Class_ABSENT"
    with lc wc o1 t show ?thesis
      by (auto simp: remove_live_directory_def yields_simps obs accounted_single not_foreign
          intro!: settles_transform_only)
  next
    assume "yields (remove_decision REMOVE_WORK e ob) d" "lc = Class_ABSENT" "workable x wc"
    with lc o1 t disc show ?thesis
      by (intro settles_remove [OF yields_Inr t]) (auto simp: obs settled_single)
  next
    assume "yields (remove_dual_name e ob) d" "lc = Class_POST" and w: "workable x wc"
    then obtain stale ob' step after where s: "remove_scratch_step e ob = Inr (stale, ob')"
      "transform e ob' [ObservedAbsent] ObservedAbsent REMOVE_ATTRIBUTABLE_CREATION [live_is_work] = Inr (step, after)"
      "d = decision REMOVE_DUAL_NAME_DIRECTORY ob [stale, step] False"
      by (auto simp: remove_dual_name_def remove_live_directory_def yields_simps bindr_Inr_iff)
    note r = remove_tuple [OF s(1) t] and c = remove_conserves [OF s(1) t disc [OF w]]
    from r have t': "tuple_of e ob'" by blast
    have "accounted e ob' [ObservedAbsent] ObservedAbsent"
      using r lc o1 \<open>lc = Class_POST\<close> by (cases ob') (auto simp: obs accounted_single not_foreign)
    from transform_conserves [OF s(2) t' this, of "[]"] c o1 s(3) r
    show ?thesis by (auto simp: settles_def decision_def scratch_gone_def)
  qed (use disc t in \<open>auto intro: settles_keeping\<close>)
qed

lemma classify_move_settles:
  assumes d: "yields (classify_move s e destination pre) d" and e: "e = MoveNoClobber i source destination pre"
    and ob: "joint s e = Inr ob" and u: "commit_decision s = Decision_UNCOMMITTED"
  shows "settles e ob d"
proof -
  have "effect_paths e = [source, destination]" by (simp add: e)
  from pair_joint [OF ob this] obtain src dst x rel occ where t: "tuple_of e ob" and
    obs: "ob = JointObservation [PersistentObservation source src, PersistentObservation destination dst]
      [ScratchObservation (effect_id_of e) (required_scratch_role e) x rel] occ" .
  from d ob u obtain sc dc ac where c: "move_entry_class src pre = Inr sc" "move_entry_class dst pre = Inr dc"
      "move_entry_class x pre = Inr ac"
    and b: "idle ob d \<and> sc = Class_PRE \<and> dc = Class_ABSENT \<and> ac = Class_ABSENT \<or>
      yields (remove_decision REMOVE_ANCHOR e ob) d \<and> sc = Class_PRE \<and> dc = Class_ABSENT \<and> ac = Class_PRE \<or>
      yields (move_restore_source e ob) d \<and> sc = Class_ABSENT \<and> dc = Class_PRE \<and> ac = Class_PRE \<or>
      yields (move_remove_destination e ob) d \<and> sc = Class_PRE \<and> dc = Class_PRE \<and> ac = Class_PRE \<or>
      yields (move_restore_from_anchor e ob) d \<and> sc = Class_ABSENT \<and> dc = Class_ABSENT \<and> ac = Class_PRE \<or>
      keeping e ob d \<and> ac = Class_PRE"
    by (auto simp: classify_move_def obs read_tuple yields_simps Let_def idle_iff keeping_iff)
  note sc = classify_entry_Inr [OF c(1) [unfolded move_entry_class_def]]
    and dc = classify_entry_Inr [OF c(2) [unfolded move_entry_class_def]]
    and ac = classify_entry_Inr [OF c(3) [unfolded move_entry_class_def]]
  have o2: "occurrences e = [Occurrence source pre AbsentState Role_source, Occurrence destination AbsentState pre Role_destination]"
    by (simp add: e)
  have pre: "\<not> foreign {e} y" if "entry_state_of y = Inr pre" for y
    using that o2 by (simp add: foreign_def)
  have disc: "\<forall>item \<in> set (jo_scratch ob). discardable e item" if "ac = Class_PRE"
    using that ac by (auto simp: obs discardable_def pre)
  from b show ?thesis
  proof (elim disjE conjE)
    assume "idle ob d" "sc = Class_PRE" "dc = Class_ABSENT" "ac = Class_ABSENT"
    with sc dc ac o2 show ?thesis by (auto simp: obs settled_single intro!: settles_idle)
  next
    assume "yields (remove_decision REMOVE_ANCHOR e ob) d" "sc = Class_PRE" "dc = Class_ABSENT" "ac = Class_PRE"
    with sc dc o2 t disc show ?thesis
      by (intro settles_remove [OF yields_Inr t]) (auto simp: obs settled_single)
  next
    assume "yields (move_restore_source e ob) d" "sc = Class_ABSENT" "dc = Class_PRE" "ac = Class_PRE"
    with sc dc ac o2 t show ?thesis
      by (auto simp: move_restore_source_def yields_simps obs read_tuple accounted_pair not_foreign pre
          dest!: yields_Inr intro!: settles_transform)
  next
    assume "yields (move_remove_destination e ob) d" "sc = Class_PRE" "dc = Class_PRE" "ac = Class_PRE"
    with sc dc ac o2 t show ?thesis
      by (auto simp: move_remove_destination_def yields_simps obs read_tuple accounted_pair not_foreign pre
          dest!: yields_Inr intro!: settles_transform)
  next
    assume "yields (move_restore_from_anchor e ob) d" "sc = Class_ABSENT" "dc = Class_ABSENT" "ac = Class_PRE"
    with sc dc ac o2 t show ?thesis
      by (auto simp: move_restore_from_anchor_def yields_simps obs read_tuple accounted_pair not_foreign pre
          dest!: yields_Inr intro!: settles_transform)
  qed (use disc t in \<open>auto intro: settles_keeping\<close>)
qed

lemma file_with_state_iff: "file_with_state x pre \<longleftrightarrow> (\<exists>i. x = ObservedFile pre i)"
  by (cases x) auto

lemma noop_replace_settles:
  assumes d: "yields (classify_noop_replace s e pre ob) d" and e: "e = ReplaceFile i path pre pre"
    and ob: "joint s e = Inr ob" and u: "commit_decision s = Decision_UNCOMMITTED"
  shows "settles e ob d"
proof -
  have "effect_paths e = [path]" by (simp add: e)
  from single_joint [OF ob this] obtain live x rel occ where t: "tuple_of e ob" and
    obs: "ob = JointObservation [PersistentObservation path live]
      [ScratchObservation (effect_id_of e) (required_scratch_role e) x rel] occ" .
  from d u have live: "file_with_state live pre"
    and b: "idle ob d \<and> x = ObservedAbsent \<or>
      yields (remove_decision REMOVE_SCRATCH e ob) d \<and> (rel = Some Build_STRICT_PREFIX \<or> file_with_state x pre)"
    by (auto simp: classify_noop_replace_def obs read_tuple yields_simps Let_def idle_iff is_absent_iff)
  have o1: "occurrences e = [Occurrence path pre pre Role_target]" by (simp add: e)
  from live have r: "restored e ob" by (auto simp: file_with_state_iff obs settled_single(2) [OF o1])
  from b show ?thesis
  proof
    assume "idle ob d \<and> x = ObservedAbsent"
    with r show ?thesis by (auto simp: obs settled_single(1) intro!: settles_idle)
  next
    assume "yields (remove_decision REMOVE_SCRATCH e ob) d \<and> (rel = Some Build_STRICT_PREFIX \<or> file_with_state x pre)"
    with r t o1 show ?thesis
      by (intro settles_remove [OF yields_Inr t])
        (auto simp: obs discardable_def foreign_def file_with_state_iff)
  qed
qed

lemma exchange_settles:
  assumes d: "yields (replace_exchange e path ob ref) d" and e: "e = ReplaceFile i path pre post"
    and obs: "ob = JointObservation [PersistentObservation path live]
      [ScratchObservation (effect_id_of e) (required_scratch_role e) x rel] occ" and t: "tuple_of e ob"
    and live: "entry_state_of live = Inr post" and x: "\<not> ref \<Longrightarrow> entry_state_of x = Inr pre"
  shows "settles e ob d"
proof -
  from d obtain step after remove after' where s: "transform e ob [x] live RESTORE_PRE [] = Inr (step, after)"
    "remove_scratch_step e after = Inr (remove, after')"
    and dec: "d = (if ref then decision REFUSED_EXCHANGE_BACK ob [step, PreserveExternal [PersistentNode path], remove] True
      else decision EXCHANGE_BACK ob [step, remove] False)"
    by (auto simp: replace_exchange_def obs read_tuple yields_simps split: if_splits)
  have o1: "occurrences e = [Occurrence path pre post Role_target]" by (simp add: e)
  have "accounted e ob [x] live" by (simp add: obs accounted_single)
  note tr = transform_conserves [OF s(1) t this]
  have "tuple_of e after" using transform_tuple [OF s(1) t] by simp
  moreover have "\<forall>item \<in> set (jo_scratch after). discardable e item"
    using tr live o1 by (auto simp: discardable_def foreign_def)
  ultimately have r: "conserving e after [remove]" "outcome after [remove] = after'" "scratch_gone after'"
    "restored e after \<longrightarrow> restored e after'"
    using remove_conserves [OF s(2)] by auto
  have "restored e after" if "\<not> ref" using tr x [OF that] o1 by simp
  with r tr dec show ?thesis by (cases ref) (auto simp: settles_def)
qed

lemma classify_replace_settles:
  assumes d: "yields (classify_replace s e path pre post) d" and e: "e = ReplaceFile i path pre post"
    and ob: "joint s e = Inr ob" and u: "commit_decision s = Decision_UNCOMMITTED"
  shows "settles e ob d"
proof (cases "pre = post")
  case True
  with d ob e show ?thesis
    by (intro noop_replace_settles [OF _ _ ob u]) (simp_all add: classify_replace_def)
next
  case False
  have "effect_paths e = [path]" by (simp add: e)
  from single_joint [OF ob this] obtain live x rel occ where t: "tuple_of e ob" and
    obs: "ob = JointObservation [PersistentObservation path live]
      [ScratchObservation (effect_id_of e) (required_scratch_role e) x rel] occ" .
  from d ob u False obtain lc sc where c: "classify_entry live pre post None = Inr lc"
      "classify_entry x pre post rel = Inr sc"
    and b: "idle ob d \<and> lc = Class_PRE \<and> sc = Class_ABSENT \<or>
      yields (remove_decision REMOVE_SCRATCH e ob) d \<and> lc = Class_PRE \<and> sc \<in> {Class_PREFIX, Class_POST} \<or>
      yields (replace_exchange e path ob False) d \<and> lc = Class_POST \<and> sc = Class_PRE \<or>
      yields (replace_exchange e path ob True) d \<and> lc = Class_POST"
    by (auto simp: classify_replace_def obs read_tuple yields_simps idle_iff)
  note lc = classify_entry_Inr [OF c(1)] and sc = classify_entry_Inr [OF c(2)]
  have o1: "occurrences e = [Occurrence path pre post Role_target]" by (simp add: e)
  from b show ?thesis
  proof (elim disjE conjE)
    assume "idle ob d" "lc = Class_PRE" "sc = Class_ABSENT"
    with lc sc o1 show ?thesis by (auto simp: obs settled_single intro!: settles_idle)
  next
    assume "yields (remove_decision REMOVE_SCRATCH e ob) d" "lc = Class_PRE" "sc \<in> {Class_PREFIX, Class_POST}"
    with lc sc o1 show ?thesis
      by (intro settles_remove [OF yields_Inr t]) (auto simp: obs settled_single discardable_def foreign_def)
  next
    assume "yields (replace_exchange e path ob False) d" "lc = Class_POST" "sc = Class_PRE"
    with lc sc show ?thesis by (intro exchange_settles [OF _ e obs t]) auto
  next
    assume "yields (replace_exchange e path ob True) d" "lc = Class_POST"
    with lc show ?thesis by (intro exchange_settles [OF _ e obs t]) auto
  qed
qed

lemma classify_variant_settles:
  assumes "yields (classify_variant s e) d" and ob: "joint s e = Inr ob" and u: "commit_decision s = Decision_UNCOMMITTED"
  shows "settles e ob d"
  using assms classify_replace_settles [OF _ _ ob u] classify_create_file_settles [OF _ _ ob u]
    classify_delete_settles [OF _ _ ob u] classify_move_settles [OF _ _ ob u] classify_directory_settles [OF _ _ ob u]
  by (cases e) (auto simp: classify_variant_def)

lemma classify_variant_joint: "yields (classify_variant s e) d \<Longrightarrow> \<exists>ob. joint s e = Inr ob"
  by (cases e) (auto simp: classify_variant_def classify_replace_def classify_create_file_def classify_delete_def
      classify_move_def classify_directory_def yields_simps)

text \<open>The observed states of an effect that has not been started, or is undone already.\<close>

definition at_frontiers :: "path_frontier list \<Rightarrow> joint_observation \<Rightarrow> bool" where
  "at_frontiers frontiers ob \<longleftrightarrow> (\<forall>item \<in> set (jo_persistent ob). \<exists>f \<in> set frontiers.
     frontier_path f = po_path item \<and> entry_state_of (po_entry item) = Inr (frontier_expected f))"

lemma claimed_frontiers:
  "foldr_r claim_frontier m fs = Inr by_path \<Longrightarrow> by_path p = Some f \<Longrightarrow> m p = Some f \<or> f \<in> set fs \<and> frontier_path f = p"
proof (induction fs arbitrary: m)
  case (Cons g fs)
  then obtain m' where "claim_frontier m g = Inr m'" "foldr_r claim_frontier m' fs = Inr by_path"
    by (auto simp: result_simps)
  then have "foldr_r claim_frontier (m(frontier_path g \<mapsto> g)) fs = Inr by_path"
    by (auto simp: claim_frontier_def guard_Inr_iff)
  from Cons.IH [OF this Cons.prems(2)] show ?case by (auto split: if_splits)
qed simp

lemma not_drifted:
  assumes fs: "frontier_map frontiers = Inr by_path" and d: "drifted_nodes ob by_path = Inr []"
  shows "at_frontiers frontiers ob"
proof -
  from d obtain flags where f: "list_all2 (\<lambda>item y. \<exists>f. by_path (po_path item) = Some f \<and>
      (\<exists>st. entry_state_of (po_entry item) = Inr st \<and> (po_path item, st \<noteq> frontier_expected f) = y))
      (jo_persistent ob) flags" and none: "filter snd flags = []"
    by (auto simp: drifted_nodes_def result_simps traverse_Inr_iff)
  have "\<exists>f \<in> set frontiers. frontier_path f = po_path item \<and> entry_state_of (po_entry item) = Inr (frontier_expected f)"
    if item: "item \<in> set (jo_persistent ob)" for item
  proof -
    from item f obtain y f st where y: "y \<in> set flags" "by_path (po_path item) = Some f"
      "entry_state_of (po_entry item) = Inr st" "(po_path item, st \<noteq> frontier_expected f) = y"
      by (auto simp: list_all2_conv_all_nth in_set_conv_nth) metis
    with none have "st = frontier_expected f" by (auto simp: filter_empty_conv)
    with y claimed_frontiers [of Map.empty frontiers by_path "po_path item" f] fs show ?thesis
      by (auto simp: frontier_map_def)
  qed
  then show ?thesis by (simp add: at_frontiers_def)
qed

lemma classify_effect_settles:
  assumes d: "classify_effect s index frontiers = Inr d" and h: "halt_of d = None"
    and u: "commit_decision s = Decision_UNCOMMITTED"
  shows "\<exists>ob j. index < length (snapshot_effects s) \<and> joint s (snapshot_effects s ! index) = Inr ob \<and>
    find_journal (journals s) (effect_id_of (snapshot_effects s ! index)) = Inr j \<and>
    conserving (snapshot_effects s ! index) ob (decision_steps d) \<and>
    scratch_gone (outcome ob (decision_steps d)) \<and>
    (\<not> refused d \<longrightarrow> (if j \<in> {J_PENDING, J_UNDONE} then at_frontiers frontiers (outcome ob (decision_steps d))
      else restored (snapshot_effects s ! index) (outcome ob (decision_steps d))))"
proof -
  let ?e = "snapshot_effects s ! index"
  from d h have "yields (classify_effect s index frontiers) d" by (simp add: yields_def)
  then obtain by_path j where i: "index < length (snapshot_effects s)" "frontier_map frontiers = Inr by_path"
      "find_journal (journals s) (effect_id_of ?e) = Inr j"
    and c: "yields (if j = J_PENDING then classify_pending s ?e by_path else if j = J_UNDONE then
      classify_undone s ?e by_path else classify_variant s ?e) d"
    unfolding classify_effect_def Let_def yields_simps(2,4) by blast
  consider "j \<in> {J_PENDING, J_UNDONE}" | "j \<notin> {J_PENDING, J_UNDONE}" by blast
  then show ?thesis
  proof cases
    case 1
    with c obtain ob where ob: "joint s ?e = Inr ob" "scratch_gone ob"
      and k: "d = decision NO_ACTION ob [] False \<and> drifted_nodes ob by_path = Inr [] \<or>
        (\<exists>nodes. d = decision PRESERVE_EXTERNAL ob [PreserveExternal nodes] True)"
      by (auto simp: classify_pending_def classify_undone_def yields_simps scratch_gone_def is_absent_iff split: if_splits)
    from k not_drifted [OF i(2)] have "conserving ?e ob (decision_steps d) \<and> outcome ob (decision_steps d) = ob \<and>
        (\<not> refused d \<longrightarrow> at_frontiers frontiers ob)"
      by auto
    with i ob 1 show ?thesis by auto
  next
    case 2
    with c have v: "yields (classify_variant s ?e) d" by (auto split: if_splits)
    from classify_variant_joint [OF v] obtain ob where ob: "joint s ?e = Inr ob" by blast
    from classify_variant_settles [OF v ob u] i ob 2 show ?thesis by (auto simp: settles_def)
  qed
qed

end
