(* ===== verification/RollbackCorrect.thy ===== *)
theory RollbackCorrect
  imports DecisionCorrect
begin

text \<open>
  The rollback loop: what the reversal of one effect does to a snapshot, and what the loop
  has done once it has passed every effect.
\<close>

section \<open>Snapshots that agree with a tuple\<close>

text \<open>A build relation may have been dropped since the tuple was read, never gained.\<close>

definition faded :: "scratch_observation \<Rightarrow> scratch_observation \<Rightarrow> bool" where
  "faded x y \<longleftrightarrow> so_key y = so_key x \<and> so_entry y = so_entry x \<and>
     (so_relation y = so_relation x \<or> so_relation y = None)"

definition agrees :: "recovery_snapshot \<Rightarrow> joint_observation \<Rightarrow> bool" where
  "agrees s ob \<longleftrightarrow>
     (\<forall>item \<in> set (jo_persistent ob). persistent_map s (po_path item) = Some (po_entry item)) \<and>
     (\<forall>item \<in> set (jo_scratch ob). \<exists>y. scratch_map s (so_key item) = Some y \<and> faded item y)"

lemma agrees_observes: "agrees s ob \<Longrightarrow> observes s ob"
  by (auto simp: agrees_def observes_def scratch_entry_def faded_def)

lemma joint_agrees: "joint s e = Inr ob \<Longrightarrow> agrees s ob"
  using joint_Inr [of s e ob] by (auto simp: agrees_def observes_def tuple_of_def faded_def)

lemma faded_trans: "faded x y \<Longrightarrow> faded y z \<Longrightarrow> faded x z"
  by (auto simp: faded_def)

lemma normalize_faded:
  assumes "normalize_file_build_relations c rows persistent xs = Inr ys"
  shows "list_all2 faded xs ys"
  using assms unfolding normalize_file_build_relations_def traverse_Inr_iff
  by (rule list_all2_mono) (auto simp: faded_def dest: normalize_relation_Inr)

lemma faded_keys: "list_all2 faded xs ys \<Longrightarrow> map so_key ys = map so_key xs"
  by (induction rule: list_all2_induct) (auto simp: faded_def)

lemma dict_of_rel:
  assumes "list_all2 (\<lambda>x y. f y = f x \<and> R x y) xs ys"
  shows "rel_option R (dict_of (map (\<lambda>x. (f x, x)) xs) k) (dict_of (map (\<lambda>y. (f y, y)) ys) k)"
proof -
  have "list_all2 (\<lambda>x y. f y = f x \<and> R x y) (rev xs) (rev ys)" using assms by simp
  then have "rel_option R (map_of (map (\<lambda>x. (f x, x)) (rev xs)) k) (map_of (map (\<lambda>y. (f y, y)) (rev ys)) k)"
    by (induction rule: list_all2_induct) auto
  then show ?thesis by (simp add: dict_of_def rev_map)
qed

lemma faded_dict:
  assumes "list_all2 faded xs ys"
  shows "rel_option faded (scratch_dict xs k) (scratch_dict ys k)"
  unfolding scratch_dict_def
  by (rule dict_of_rel, rule list_all2_mono [OF assms]) (simp add: faded_def)

text \<open>A step that mutates nothing.\<close>

lemma non_mutating_maps:
  assumes s: "issued u s" and step: "apply_step u s step = Inr t" and m: "\<not> is_mutating step"
  shows "persistent_map t = persistent_map s \<and> rel_option faded (scratch_map s k) (scratch_map t k)"
proof -
  have "persistent_observations t = persistent_observations s \<and>
      (scratch_observations t = scratch_observations s \<or>
       (\<exists>c rows ps. normalize_file_build_relations c rows ps (scratch_observations s) = Inr (scratch_observations t)))"
    using step m
    by (cases step)
      (auto simp: reduce_preserve_external_def reduce_detach_active_def guard_Inr_iff
        dest!: transition_transaction_Inr transition_effect_Inr rebuild_Inr)
  moreover have "list_all2 faded xs xs" for xs by (simp add: list_all2_refl faded_def)
  ultimately have "persistent_observations t = persistent_observations s"
      "list_all2 faded (scratch_observations s) (scratch_observations t)"
    by (auto dest: normalize_faded)
  with faded_dict show ?thesis
    by (simp add: persistent_map_def scratch_map_def)
qed

lemma non_mutating_agrees:
  assumes s: "issued u s" and step: "apply_step u s step = Inr t" and m: "\<not> is_mutating step"
    and a: "agrees s ob"
  shows "agrees t ob"
proof -
  note n = non_mutating_maps [OF s step m]
  have "\<exists>y. scratch_map t (so_key item) = Some y \<and> faded item y" if "item \<in> set (jo_scratch ob)" for item
    using a that n [of "so_key item"] by (force simp: agrees_def option_rel_Some1 intro: faded_trans)
  with a n show ?thesis by (simp add: agrees_def)
qed

section \<open>Bound steps\<close>

lemma joint_keys_distinct:
  assumes "joint_keys ob = Inr keys"
  shows "distinct (map po_path (jo_persistent ob)) \<and> distinct (map so_key (jo_scratch ob))"
proof -
  from assms have "card (set (map po_path (jo_persistent ob))) = length (map po_path (jo_persistent ob))"
      "card (set (map so_key (jo_scratch ob))) = length (map so_key (jo_scratch ob))"
    by (simp_all add: joint_keys_def result_simps)
  then show ?thesis by (metis card_distinct)
qed

lemma updated_persistent_at:
  assumes "distinct (map po_path updates)" and "item \<in> set updates" and "po_path item \<in> po_path ` set items"
  shows "item \<in> set (updated_persistent updates items)"
proof -
  from assms(3) obtain old where old: "old \<in> set items" "po_path old = po_path item" by auto
  have "dict_of (map (\<lambda>u. (po_path u, u)) updates) (po_path item) = Some item"
    using assms(1,2) by (subst dict_of_Some) (auto simp: comp_def)
  with old show ?thesis unfolding updated_persistent_def by (force simp: image_iff)
qed

lemma updated_scratch_at:
  assumes "distinct (map so_key updates)" and "item \<in> set updates" and "so_key item \<in> so_key ` set items"
  shows "item \<in> set (updated_scratch updates items)"
proof -
  from assms(3) obtain old where old: "so_key item = so_key old" "old \<in> set items" by (rule imageE)
  have "scratch_dict updates (so_key item) = Some item"
    using scratch_dict_Some [OF assms(1)] assms(2) by blast
  then have "item = (case scratch_dict updates (so_key old) of None \<Rightarrow> old | Some u \<Rightarrow> u)"
    unfolding old(1) [symmetric] by simp
  from this old(2) show ?thesis unfolding updated_scratch_def set_map by (rule image_eqI)
qed

lemma merge_agrees:
  assumes s: "issued u s" and m: "merge_joint_observation s ob = Inr (persistent, scratch)"
    and n: "normalize_file_build_relations c rows ps scratch = Inr scratch'"
    and item: "item \<in> set (jo_scratch ob)"
  shows "\<exists>y. scratch_dict scratch' (so_key item) = Some y \<and> faded item y"
proof -
  from m obtain keys where k: "joint_keys ob = Inr keys"
    "so_key ` set (jo_scratch ob) \<subseteq> so_key ` set (scratch_observations s)"
    "scratch = updated_scratch (jo_scratch ob) (scratch_observations s)" by (auto simp: merge_Inr)
  have d: "distinct (map so_key scratch)"
    using issued_scratch_keys [OF s] by (simp only: k(3) updated_scratch_keys)
  have "so_key item \<in> so_key ` set (scratch_observations s)"
    using k(2) item by (meson image_eqI subsetD)
  then have "item \<in> set scratch"
    unfolding k(3) using joint_keys_distinct [OF k(1)] item by (intro updated_scratch_at) simp_all
  then have "scratch_dict scratch (so_key item) = Some item" using scratch_dict_Some [OF d] by blast
  with faded_dict [OF normalize_faded [OF n], of "so_key item"] show ?thesis
    by (simp only: option_rel_Some1)
qed

lemma write_agrees:
  assumes s: "issued u s" and w: "write_result u s ob = Inr t"
  shows "agrees t ob"
proof -
  from w obtain persistent scratch scratch' keys where m: "merge_joint_observation s ob = Inr (persistent, scratch)"
    and n: "normalize_file_build_relations (compiled s) (journals s) persistent scratch = Inr scratch'"
    and t: "t = s\<lparr>persistent_observations := persistent, scratch_observations := scratch'\<rparr>"
    and k: "joint_keys ob = Inr keys" "po_path ` set (jo_persistent ob) \<subseteq> po_path ` set (persistent_observations s)"
      "persistent = updated_persistent (jo_persistent ob) (persistent_observations s)"
    by (auto simp: write_result_def bindr_Inr_iff guard_Inr_iff merge_Inr dest!: rebuild_Inr)
  from w have same: "same_transaction s t" by (rule write_result_same)
  have d: "distinct (map po_path (persistent_observations t))"
    using issued_paths [OF s] same by (simp only: same_transaction_def)
  have "persistent_map t (po_path item) = Some (po_entry item)" if item: "item \<in> set (jo_persistent ob)" for item
  proof -
    have "item \<in> set persistent"
      unfolding k(3) using joint_keys_distinct [OF k(1)] k(2) item by (intro updated_persistent_at) auto
    then have "PersistentObservation (po_path item) (po_entry item) \<in> set (persistent_observations t)" by (simp add: t)
    then show ?thesis by (simp only: persistent_map_Some [OF d])
  qed
  moreover have "\<exists>y. scratch_map t (so_key item) = Some y \<and> faded item y" if "item \<in> set (jo_scratch ob)" for item
    using merge_agrees [OF s m n that] by (simp add: scratch_map_def t)
  ultimately show ?thesis unfolding agrees_def by blast
qed

lemma normalize_joint:
  assumes s: "issued u s" and n: "normalize_joint_observation s ob = Inr ob'"
  shows "jo_persistent ob' = jo_persistent ob \<and> list_all2 faded (jo_scratch ob) (jo_scratch ob')"
proof -
  from n obtain persistent scratch scratch' where m: "merge_joint_observation s ob = Inr (persistent, scratch)"
    and r: "normalize_file_build_relations (compiled s) (journals s) persistent scratch = Inr scratch'"
    and d: "dict_lookup_all (scratch_dict scratch') (map so_key (jo_scratch ob)) = Inr (jo_scratch ob')"
    and p: "jo_persistent ob' = jo_persistent ob"
    by (auto simp: normalize_joint_observation_def result_simps)
  from d have "list_all2 (\<lambda>item y. scratch_dict scratch' (so_key item) = Some y) (jo_scratch ob) (jo_scratch ob')"
    by (simp add: dict_lookup_all_def traverse_Inr_iff lookup_or_Inr_iff list.rel_map)
  then have "list_all2 faded (jo_scratch ob) (jo_scratch ob')"
    unfolding list_all2_conv_all_nth by (metis merge_agrees [OF s m r] nth_mem option.inject)
  with p show ?thesis by simp
qed

lemma agrees_faded:
  assumes "agrees t ob'" and "jo_persistent ob' = jo_persistent ob" and "list_all2 faded (jo_scratch ob) (jo_scratch ob')"
  shows "agrees t ob"
proof -
  have "\<exists>y. scratch_map t (so_key item) = Some y \<and> faded item y" if "item \<in> set (jo_scratch ob)" for item
  proof -
    from that assms(3) obtain item' where i: "item' \<in> set (jo_scratch ob')" "faded item item'"
      by (auto simp: list_all2_conv_all_nth in_set_conv_nth) metis
    with assms(1) obtain y where "scratch_map t (so_key item') = Some y" "faded item' y"
      by (auto simp: agrees_def)
    moreover from i(2) have "so_key item' = so_key item" by (simp add: faded_def)
    ultimately show ?thesis using faded_trans [OF i(2)] by metis
  qed
  with assms(1,2) show ?thesis by (simp add: agrees_def)
qed

text \<open>The mutating provisional steps, with the tuple they leave.\<close>

fun provisional_after :: "recovery_step \<Rightarrow> joint_observation option" where
  "provisional_after (TransformEffectTuple _ _ _ _ after _) = Some after"
| "provisional_after (RemoveScratch _ _ _ after) = Some after"
| "provisional_after _ = None"

lemma bound_step_Inr:
  assumes b: "bind_step s p = Inr step" and a: "apply_step u s step = Inr t" and p: "provisional_after p = Some after"
  shows "is_mutating step \<and> (\<exists>after'. normalize_joint_observation s after = Inr after' \<and> write_result u s after' = Inr t)"
  using assms by (cases p) (auto simp: bindr_Inr_iff dest!: transform_Inr remove_Inr)

text \<open>Same durable state: only the observations differ.\<close>

definition same_record :: "recovery_snapshot \<Rightarrow> recovery_snapshot \<Rightarrow> bool" where
  "same_record s t \<longleftrightarrow> journals t = journals s \<and> tx_state t = tx_state s \<and> active t = active s \<and>
     commit_decision t = commit_decision s \<and> compiled t = compiled s \<and>
     rollback_result t = rollback_result s \<and> halt_diagnostic t = halt_diagnostic s"

lemma same_record_trans: "same_record s t \<Longrightarrow> same_record t v \<Longrightarrow> same_record s v"
  by (simp add: same_record_def)

text \<open>Nothing else than the paths and the scratch of the effect has changed.\<close>

definition outside_kept :: "effect \<Rightarrow> recovery_snapshot \<Rightarrow> recovery_snapshot \<Rightarrow> bool" where
  "outside_kept e s t \<longleftrightarrow>
     (\<forall>p. p \<notin> set (effect_paths e) \<longrightarrow> persistent_map t p = persistent_map s p) \<and>
     (\<forall>k. k \<noteq> scratch_key e \<longrightarrow> rel_option faded (scratch_map s k) (scratch_map t k))"

lemma rel_faded_trans: "rel_option faded x y \<Longrightarrow> rel_option faded y z \<Longrightarrow> rel_option faded x z"
  by (cases x; cases y; cases z) (auto intro: faded_trans)

lemma rel_faded_refl [simp]: "rel_option faded x x"
  by (cases x) (simp_all add: faded_def)

lemma outside_kept_trans: "outside_kept e s t \<Longrightarrow> outside_kept e t v \<Longrightarrow> outside_kept e s v"
  unfolding outside_kept_def by (metis rel_faded_trans)

lemma outside_kept_refl [simp]: "outside_kept e s s"
  by (simp add: outside_kept_def)

lemma updated_scratch_other:
  assumes "k \<notin> so_key ` set updates"
  shows "scratch_dict (updated_scratch updates items) k = scratch_dict items k"
proof -
  have "list_all2 (\<lambda>x y. so_key y = so_key x \<and> (so_key x = k \<longrightarrow> y = x)) items (updated_scratch updates items)"
  proof -
    have "so_key y = so_key x \<and> (so_key x = k \<longrightarrow> y = x)"
      if "y = (case scratch_dict updates (so_key x) of None \<Rightarrow> x | Some u \<Rightarrow> u)" for x y
    proof (cases "scratch_dict updates (so_key x)")
      case (Some v)
      then have v: "v \<in> set updates" "so_key v = so_key x"
        unfolding scratch_dict_def by (auto dest!: dict_of_in_set)
      have "so_key x \<in> so_key ` set updates" using imageI [OF v(1), of so_key] unfolding v(2) .
      with assms have "so_key x \<noteq> k" by blast
      with Some that v(2) show ?thesis by simp
    qed (use that in simp)
    then show ?thesis by (simp add: updated_scratch_def list_all2_conv_all_nth)
  qed
  from dict_of_rel [OF this, of k] have rel: "rel_option (\<lambda>x y. so_key x = k \<longrightarrow> y = x) (scratch_dict items k)
      (scratch_dict (updated_scratch updates items) k)"
    by (simp only: scratch_dict_def)
  then show ?thesis
  proof (cases "scratch_dict items k")
    case (Some x)
    then have "so_key x = k" unfolding scratch_dict_def by (auto dest!: dict_of_in_set)
    with Some rel show ?thesis by (auto simp: option_rel_Some1)
  qed simp
qed

lemma bound_step_write:
  assumes s: "issued u s" and b: "bind_step s p = Inr step" and a: "apply_step u s step = Inr t"
    and p: "provisional_after p = Some after"
  shows "agrees t after \<and> same_record s t \<and>
    (\<forall>q. q \<notin> po_path ` set (jo_persistent after) \<longrightarrow> persistent_map t q = persistent_map s q) \<and>
    (\<forall>k. k \<notin> so_key ` set (jo_scratch after) \<longrightarrow> rel_option faded (scratch_map s k) (scratch_map t k))"
proof -
  from bound_step_Inr [OF b a p] obtain after' where n: "normalize_joint_observation s after = Inr after'"
    and w: "write_result u s after' = Inr t" by blast
  note nj = normalize_joint [OF s n]
  have keys: "so_key ` set (jo_scratch after') = so_key ` set (jo_scratch after)"
    using faded_keys [of "jo_scratch after" "jo_scratch after'"] nj by (metis list.set_map)
  have p: "persistent_map t q = persistent_map s q" if "q \<notin> po_path ` set (jo_persistent after)" for q
    using write_persistent [OF s w, of q] nj that by force
  from write_result_Inr [OF w] obtain scratch where "normalize_file_build_relations (compiled s) (journals s)
      (updated_persistent (jo_persistent after') (persistent_observations s))
      (updated_scratch (jo_scratch after') (scratch_observations s)) = Inr scratch"
    and t': "t = s\<lparr>persistent_observations := updated_persistent (jo_persistent after') (persistent_observations s),
        scratch_observations := scratch\<rparr>" by blast
  note f = faded_dict [OF normalize_faded [OF this(1)]]
  have k: "rel_option faded (scratch_map s k) (scratch_map t k)" if "k \<notin> so_key ` set (jo_scratch after)" for k
    using f [of k] updated_scratch_other [of k "jo_scratch after'"] that
    unfolding keys by (simp add: scratch_map_def t')
  show ?thesis
    using agrees_faded [OF write_agrees [OF s w]] nj p k by (simp add: same_record_def t')
qed

lemma bound_step_effect:
  assumes "issued u s" and "bind_step s p = Inr step" and "apply_step u s step = Inr t"
    and "provisional_after p = Some after" and t: "tuple_of e after"
  shows "agrees t after \<and> outside_kept e s t \<and> same_record s t"
proof -
  have "set (map so_key (jo_scratch after)) = {scratch_key e}" using t by (simp only: tuple_of_def list.set)
  then have "so_key ` set (jo_scratch after) = {scratch_key e}" by (simp only: list.set_map)
  moreover have "po_path ` set (jo_persistent after) = set (effect_paths e)"
    using t by (simp add: tuple_of_def flip: list.set_map)
  ultimately show ?thesis
    using bound_step_write [OF assms(1-4)] by (simp add: outside_kept_def)
qed

section \<open>Runs\<close>

text \<open>A run of steps that is accepted to its end, with a property at every snapshot on the way.\<close>

fun run_holds :: "unicode_tables \<Rightarrow> (recovery_snapshot \<Rightarrow> bool) \<Rightarrow> recovery_snapshot \<Rightarrow> recovery_step list \<Rightarrow> bool" where
  "run_holds u P s [] \<longleftrightarrow> P s"
| "run_holds u P s (step # steps) \<longleftrightarrow> P s \<and> (\<exists>t. apply_step u s step = Inr t \<and> run_holds u P t steps)"

lemma apply_steps_simps [simp]:
  "apply_steps u s [] = Inr s"
  "apply_steps u s (step # steps) = bindr (apply_step u s step) (\<lambda>t. apply_steps u t steps)"
  by (simp_all add: apply_steps_def)

lemma apply_steps_append: "apply_steps u s (xs @ ys) = bindr (apply_steps u s xs) (\<lambda>t. apply_steps u t ys)"
  by (simp add: apply_steps_def foldr_r_append)

lemma run_holds_append:
  "apply_steps u s xs = Inr t \<Longrightarrow> run_holds u P s xs \<Longrightarrow> run_holds u P t ys \<Longrightarrow> run_holds u P s (xs @ ys)"
proof (induction xs arbitrary: s)
  case (Cons x xs)
  then show ?case by (auto simp: bindr_Inr_iff)
qed simp

lemma run_holds_prefix:
  "run_holds u P s steps \<Longrightarrow> n \<le> length steps \<Longrightarrow> \<exists>v. apply_steps u s (take n steps) = Inr v \<and> P v"
proof (induction steps arbitrary: s n)
  case (Cons x xs)
  then show ?case by (cases n) (auto simp: bindr_Inr_iff)
qed simp

lemma run_holds_start: "run_holds u P s steps \<Longrightarrow> P s"
  by (cases steps) auto

lemma run_holds_end: "run_holds u P s steps \<Longrightarrow> apply_steps u s steps = Inr t \<Longrightarrow> P t"
  using run_holds_prefix [of u P s steps "length steps"] by auto

lemma run_holds_mono: "run_holds u P s steps \<Longrightarrow> (\<And>v. P v \<Longrightarrow> Q v) \<Longrightarrow> run_holds u Q s steps"
  by (induction u P s steps rule: run_holds.induct) auto

section \<open>Foreign entries\<close>

text \<open>An entry is observed somewhere, other than as a strict prefix under construction.\<close>

definition present :: "recovery_snapshot \<Rightarrow> observed_entry \<Rightarrow> bool" where
  "present s x \<longleftrightarrow> (\<exists>p. persistent_map s p = Some x) \<or>
     (\<exists>k item. scratch_map s k = Some item \<and> so_entry item = x \<and> so_relation item \<noteq> Some Build_STRICT_PREFIX)"

text \<open>The same, with the part of the effect's tuple read from a joint observation.\<close>

definition held :: "effect \<Rightarrow> recovery_snapshot \<Rightarrow> joint_observation \<Rightarrow> observed_entry \<Rightarrow> bool" where
  "held e s ob x \<longleftrightarrow> (\<exists>p. p \<notin> set (effect_paths e) \<and> persistent_map s p = Some x) \<or>
     (\<exists>k item. k \<noteq> scratch_key e \<and> scratch_map s k = Some item \<and> so_entry item = x \<and>
        so_relation item \<noteq> Some Build_STRICT_PREFIX) \<or> tuple_holds ob x"

lemma held_present: "agrees s ob \<Longrightarrow> held e s ob x \<Longrightarrow> present s x"
  unfolding held_def present_def agrees_def tuple_holds_def faded_def by (metis option.distinct(1))

lemma present_held:
  assumes "joint s e = Inr ob" and "present s x"
  shows "held e s ob x"
proof -
  note j = joint_Inr [OF assms(1)]
  have "tuple_holds ob x" if "persistent_map s p = Some x" "p \<in> set (effect_paths e)" for p
  proof -
    from that(2) j have "p \<in> po_path ` set (jo_persistent ob)" by (simp add: tuple_of_def flip: list.set_map)
    with that(1) j show ?thesis by (force simp: tuple_holds_def observes_def)
  qed
  moreover have "tuple_holds ob x" if "scratch_map s (scratch_key e) = Some item" "so_entry item = x"
      "so_relation item \<noteq> Some Build_STRICT_PREFIX" for item
    using j that by (auto simp: tuple_holds_def)
  ultimately show ?thesis using assms(2) unfolding held_def present_def by metis
qed

lemma held_outside:
  assumes "outside_kept e s t" and "held e s ob x" and "tuple_holds ob x \<Longrightarrow> tuple_holds ob' x"
  shows "held e t ob' x"
proof -
  from assms(2) consider p where "p \<notin> set (effect_paths e)" "persistent_map s p = Some x"
    | k item where "k \<noteq> scratch_key e" "scratch_map s k = Some item" "so_entry item = x"
        "so_relation item \<noteq> Some Build_STRICT_PREFIX"
    | "tuple_holds ob x"
    unfolding held_def by blast
  then show ?thesis
  proof cases
    case 1
    with assms(1) have "persistent_map t p = Some x" by (simp add: outside_kept_def)
    with 1(1) show ?thesis unfolding held_def by blast
  next
    case 2
    with assms(1) have "rel_option faded (Some item) (scratch_map t k)" unfolding outside_kept_def by metis
    then obtain y where y: "scratch_map t k = Some y" "faded item y" by (auto simp: option_rel_Some1)
    with 2 have "so_entry y = x" "so_relation y \<noteq> Some Build_STRICT_PREFIX" by (auto simp: faded_def)
    with y(1) 2(1) show ?thesis unfolding held_def by blast
  qed (use assms(3) in \<open>simp add: held_def\<close>)
qed

lemma preserve_external_Inr: "reduce_preserve_external s nodes = Inr t \<Longrightarrow> t = s"
  by (simp add: reduce_preserve_external_def guard_Inr_iff)

text \<open>The steps of a decision, bound one after the other.\<close>

definition reversal :: "unicode_tables \<Rightarrow> effect \<Rightarrow> recovery_snapshot \<Rightarrow> joint_observation \<Rightarrow>
    recovery_step list \<Rightarrow> recovery_snapshot \<Rightarrow> joint_observation \<Rightarrow> bool" where
  "reversal u e s ob steps t ob' \<longleftrightarrow>
     apply_steps u s steps = Inr t \<and> agrees t ob' \<and> outside_kept e s t \<and> tuple_of e ob' \<and>
     (\<forall>x. foreign {e} x \<and> held e s ob x \<longrightarrow> run_holds u (\<lambda>v. present v x) s steps \<and> held e t ob' x)"

lemma reversal_refl: "agrees s ob \<Longrightarrow> tuple_of e ob \<Longrightarrow> reversal u e s ob [] s ob"
  by (auto simp: reversal_def intro: held_present)

lemma reversal_append:
  assumes "reversal u e s ob xs t ob'" and "reversal u e t ob' ys v ob''"
  shows "reversal u e s ob (xs @ ys) v ob''"
  using assms unfolding reversal_def
  by (auto simp: apply_steps_append intro: outside_kept_trans run_holds_append)

lemma reversal_single:
  assumes "apply_step u s step = Inr t" and "agrees s ob" and "agrees t ob'" and "outside_kept e s t" and "tuple_of e ob'"
    and "\<And>x. foreign {e} x \<Longrightarrow> tuple_holds ob x \<Longrightarrow> tuple_holds ob' x"
  shows "reversal u e s ob [step] t ob'"
  using assms by (auto simp: reversal_def bindr_Inr_iff intro: held_present held_outside)

lemma non_mutating_reversal:
  assumes "issued u s" and "apply_step u s step = Inr t" and "\<not> is_mutating step" and "agrees s ob" and "tuple_of e ob"
  shows "reversal u e s ob [step] t ob"
  using assms non_mutating_maps [OF assms(1-3)]
  by (intro reversal_single) (auto simp: outside_kept_def intro: non_mutating_agrees)

lemma bound_reversal:
  assumes "foldr_r (bind_and_take u) (acc, s) ps = Inr (steps, t)"
    and "issued u s" and "agrees s ob" and "tuple_of e ob" and "conserving e ob ps"
  shows "\<exists>new. steps = acc @ new \<and> reversal u e s ob new t (outcome ob ps) \<and> same_record s t"
  using assms
proof (induction ps arbitrary: acc s ob)
  case Nil
  then show ?case by (auto simp: same_record_def intro: reversal_refl)
next
  case (Cons p ps)
  from Cons.prems(1) obtain step v where b: "bind_step s p = Inr step" "apply_step u s step = Inr v"
    and rest: "foldr_r (bind_and_take u) (acc @ [step], v) ps = Inr (steps, t)"
    by (auto simp: bind_and_take_def take_step_def bindr_Inr_iff)
  have v: "issued u v" using issued_step [OF Cons.prems(2) b(2)] .
  obtain ob' where o: "reversal u e s ob [step] v ob'" "same_record s v" "conserving e ob' ps"
    "outcome ob (p # ps) = outcome ob' ps"
  proof (cases "provisional_after p")
    case (Some after)
    with Cons.prems(5) have c: "tuple_of e after" "conserving e after ps"
      "\<And>x. foreign {e} x \<Longrightarrow> tuple_holds ob x \<Longrightarrow> tuple_holds after x"
      by (cases p; force)+
    note be = bound_step_effect [OF Cons.prems(2) b Some c(1)]
    from be c Cons.prems(3) have "reversal u e s ob [step] v after"
      by (intro reversal_single [OF b(2)]) auto
    moreover have "outcome ob (p # ps) = outcome after ps" using Some by (cases p) auto
    ultimately show thesis using that be c(2) by blast
  next
    case None
    with b obtain nodes where p: "p = PreserveExternal nodes" "step = p" by (cases p) auto
    with b(2) have "v = s" by (auto dest: preserve_external_Inr)
    with p b(2) Cons.prems show thesis
      by (intro that [of ob]) (auto simp: same_record_def intro: non_mutating_reversal)
  qed
  from o(1) have "agrees v ob'" "tuple_of e ob'" by (auto simp: reversal_def)
  from Cons.IH [OF rest v this o(3)] obtain new where new: "steps = (acc @ [step]) @ new"
    "reversal u e v ob' new t (outcome ob' ps)" "same_record v t" by auto
  from reversal_append [OF o(1) new(2)] new o show ?case
    by (intro exI [of _ "step # new"]) (auto intro: same_record_trans)
qed

section \<open>The reversal of one effect\<close>

text \<open>Two snapshots that differ in the observations and the journals only.\<close>

definition same_phase :: "recovery_snapshot \<Rightarrow> recovery_snapshot \<Rightarrow> bool" where
  "same_phase s t \<longleftrightarrow> tx_state t = tx_state s \<and> active t = active s \<and> commit_decision t = commit_decision s \<and>
     compiled t = compiled s \<and> rollback_result t = rollback_result s \<and> halt_diagnostic t = halt_diagnostic s"

lemma same_phase_trans: "same_phase s t \<Longrightarrow> same_phase t v \<Longrightarrow> same_phase s v"
  by (simp add: same_phase_def)

lemma same_record_phase: "same_record s t \<Longrightarrow> same_phase s t \<and> journals t = journals s"
  by (simp add: same_record_def same_phase_def)

definition set_row :: "journal_row list \<Rightarrow> nat \<Rightarrow> journal_state \<Rightarrow> journal_row list" where
  "set_row rows i j = rows[i := EffectJournalState (row_effect_id (rows ! i)) j]"

lemma issued_row_at:
  assumes "issued u s" and "index < length (snapshot_effects s)"
  shows "index < length (journals s) \<and> row_effect_id (journals s ! index) = effect_id_of (snapshot_effects s ! index)"
proof -
  note r = valid_rows [OF issued_valid [OF assms(1)]]
  from arg_cong [OF r, of length] assms(2) have "index < length (journals s)" by simp
  moreover from this r assms(2) have "map row_effect_id (journals s) ! index = map effect_id_of (snapshot_effects s) ! index"
    by simp
  ultimately show ?thesis using assms(2) by simp
qed

lemma find_journal_at:
  "i < length rows \<Longrightarrow> distinct (map row_effect_id rows) \<Longrightarrow> find_journal rows (row_effect_id (rows ! i)) = Inr (row_state (rows ! i))"
proof (induction rows arbitrary: i)
  case (Cons r rows)
  then show ?case by (cases i) (auto dest: nth_mem)
qed simp

lemma transition_row:
  assumes s: "issued u s" and i: "index < length (snapshot_effects s)"
    and tr: "transition_effect u s (effect_id_of (snapshot_effects s ! index)) a b = Inr t"
  shows "row_state (journals s ! index) = a \<and> journals t = set_row (journals s) index b \<and> same_phase s t"
proof -
  note r = issued_row_at [OF s i]
  from transition_effect_Inr [OF tr] obtain n where
    n: "matching_rows (journals s) (effect_id_of (snapshot_effects s ! index)) = [n]" "row_state (journals s ! n) = a"
    and re: "rebuild u (s\<lparr>journals := (journals s)[n := EffectJournalState (row_effect_id (journals s ! n)) b]\<rparr>) = Inr t"
    by blast
  have "index \<in> set (matching_rows (journals s) (effect_id_of (snapshot_effects s ! index)))"
    using r by (simp add: matching_rows_iff)
  with n have "n = index" by simp
  with n re rebuild_Inr [OF re] show ?thesis by (auto simp: set_row_def same_phase_def)
qed

lemma begin_undo_reversal:
  assumes s: "issued u s" and i: "index < length (snapshot_effects s)"
    and j: "j = row_state (journals s ! index)" and a: "agrees s ob" "tuple_of e ob"
    and b: "begin_undo u s (effect_id_of (snapshot_effects s ! index)) j = Inr (begun, v)"
  shows "reversal u e s ob begun v ob \<and> issued u v \<and> same_phase s v \<and>
    journals v = (if j \<in> {J_STARTED, J_DONE} then set_row (journals s) index J_UNDO_STARTED else journals s)"
proof (cases "j \<in> {J_STARTED, J_DONE}")
  case True
  with b have x: "apply_step u s (TransitionEffectState (effect_id_of (snapshot_effects s ! index)) j J_UNDO_STARTED) = Inr v"
    "begun = [TransitionEffectState (effect_id_of (snapshot_effects s ! index)) j J_UNDO_STARTED]"
    by (auto simp: begin_undo_def take_step_def bindr_Inr_iff)
  with True transition_row [OF s i, of j J_UNDO_STARTED v] show ?thesis
    using non_mutating_reversal [OF s x(1) _ a] issued_step [OF s x(1)] by simp
next
  case False
  with b s reversal_refl [OF a] show ?thesis by (auto simp: begin_undo_def same_phase_def)
qed

lemma finish_undo_reversal:
  assumes s: "issued u s" and i: "index < length (snapshot_effects s)" and a: "agrees s ob" "tuple_of e ob"
    and b: "finish_undo u (steps, s) (effect_id_of (snapshot_effects s ! index)) j = Inr (steps', t)"
  shows "\<exists>fin. steps' = steps @ fin \<and> reversal u e s ob fin t ob \<and> same_phase s t \<and>
    journals t = (if j \<in> {J_STARTED, J_DONE, J_UNDO_STARTED} then set_row (journals s) index J_UNDONE else journals s)"
proof (cases "j \<in> {J_STARTED, J_DONE, J_UNDO_STARTED}")
  case True
  let ?step = "TransitionEffectState (effect_id_of (snapshot_effects s ! index)) J_UNDO_STARTED J_UNDONE"
  from True b have x: "apply_step u s ?step = Inr t" "steps' = steps @ [?step]"
    by (auto simp: finish_undo_def take_step_def bindr_Inr_iff)
  with True transition_row [OF s i, of J_UNDO_STARTED J_UNDONE t] show ?thesis
    using non_mutating_reversal [OF s x(1) _ a] by (intro exI [of _ "[?step]"]) simp
next
  case False
  with b reversal_refl [OF a] show ?thesis by (auto simp: finish_undo_def same_phase_def)
qed

lemma set_row_simps:
  "i < length rows \<Longrightarrow> set_row (set_row rows i a) i b = set_row rows i b"
  "i < length rows \<Longrightarrow> set_row rows i (row_state (rows ! i)) = rows"
  by (simp_all add: set_row_def list_update_same_conv)

lemma reverse_effect_Inr:
  assumes s: "issued u s" and d: "classify_effect s index frontiers = Inr d" "halt_of d = None"
    and u: "commit_decision s = Decision_UNCOMMITTED"
    and r: "reverse_effect_steps u s index d = Inr steps" and run: "apply_steps u s steps = Inr t"
  shows "\<exists>ob. joint s (snapshot_effects s ! index) = Inr ob \<and> index < length (snapshot_effects s) \<and>
    reversal u (snapshot_effects s ! index) s ob steps t (outcome ob (decision_steps d)) \<and>
    scratch_gone (outcome ob (decision_steps d)) \<and>
    (\<not> refused d \<longrightarrow> (if row_state (journals s ! index) \<in> {J_PENDING, J_UNDONE}
       then at_frontiers frontiers (outcome ob (decision_steps d))
       else restored (snapshot_effects s ! index) (outcome ob (decision_steps d)))) \<and>
    journals t = set_row (journals s) index (settled_journal (row_state (journals s ! index))) \<and> same_phase s t"
proof -
  let ?e = "snapshot_effects s ! index" and ?j = "row_state (journals s ! index)"
  from classify_effect_settles [OF d u] obtain ob j where i: "index < length (snapshot_effects s)"
    and ob: "joint s ?e = Inr ob" and j: "find_journal (journals s) (effect_id_of ?e) = Inr j"
    and c: "conserving ?e ob (decision_steps d)" "scratch_gone (outcome ob (decision_steps d))"
      "\<not> refused d \<longrightarrow> (if j \<in> {J_PENDING, J_UNDONE} then at_frontiers frontiers (outcome ob (decision_steps d))
        else restored ?e (outcome ob (decision_steps d)))" by blast
  note row = issued_row_at [OF s i]
  have jj: "j = ?j" using j find_journal_at [OF _ issued_row_ids [OF s], of index] row by simp
  from r i row obtain begun v bound w fin where
    b: "begin_undo u s (effect_id_of ?e) ?j = Inr (begun, v)"
    and bs: "foldr_r (bind_and_take u) ([], v) (decision_steps d) = Inr (bound, w)"
    and f: "finish_undo u (begun @ bound, w) (effect_id_of ?e) ?j = Inr (steps, fin)"
    by (auto simp: reverse_effect_steps_def bindr_Inr_iff index_or_def guard_Inr_iff bind_effect_steps_def)
  from joint_Inr [OF ob] have t: "tuple_of ?e ob" by blast
  note r1 = begin_undo_reversal [OF s i refl joint_agrees [OF ob] t b]
  then have "issued u v" "agrees v ob" by (auto simp: reversal_def)
  from bound_reversal [OF bs this t c(1)]
  have r2: "reversal u ?e v ob bound w (outcome ob (decision_steps d))" "same_record v w" by auto
  have w: "issued u w" "agrees w (outcome ob (decision_steps d))" "tuple_of ?e (outcome ob (decision_steps d))"
    using r2(1) issued_steps [OF \<open>issued u v\<close>] by (auto simp: reversal_def)
  have wc: "snapshot_effects w = snapshot_effects s" using r1 r2(2) by (simp add: same_record_def same_phase_def)
  from finish_undo_reversal [OF w(1) _ w(2,3), of index "begun @ bound" ?j steps fin] i f wc
  obtain last where r3: "steps = (begun @ bound) @ last"
    "reversal u ?e w (outcome ob (decision_steps d)) last fin (outcome ob (decision_steps d))" "same_phase w fin"
    "journals fin = (if ?j \<in> {J_STARTED, J_DONE, J_UNDO_STARTED} then set_row (journals w) index J_UNDONE else journals w)"
    by auto
  from reversal_append [OF reversal_append [OF conjunct1 [OF r1] r2(1)] r3(2)]
  have rev: "reversal u ?e s ob steps fin (outcome ob (decision_steps d))" unfolding r3(1) .
  then have "fin = t" using run by (simp add: reversal_def)
  moreover have "same_phase s fin"
    using r1 same_record_phase [OF r2(2)] r3(3) by (metis same_phase_trans)
  moreover have "journals fin = set_row (journals s) index (settled_journal ?j)"
    using r1 r2(2) r3(4) row set_row_simps(2) [of index "journals s"]
    by (cases ?j) (auto simp: set_row_simps settled_journal_def same_record_def)
  ultimately show ?thesis using rev ob i c(2,3) jj by blast
qed

section \<open>Settling the journal from the right\<close>

abbreviation rolling_words :: "journal_state list set" where
  "rolling_words \<equiv> forward_words \<union> reverse_words"

abbreviation settled_letters :: "journal_state set" where
  "settled_letters \<equiv> {J_UNDONE, J_PENDING}"

lemma rolling_tail: "x # w \<in> rolling_words \<Longrightarrow> w \<in> rolling_words"
  using only_forward(1) [of w] undone_reverse [of w]
  unfolding forward_words_def reverse_words_def undone_words_def by auto

lemma rolling_settled:
  assumes "w \<in> rolling_words" and "set w \<subseteq> settled_letters"
  shows "w \<in> undone_words"
proof (cases w)
  case (Cons x xs)
  with assms show ?thesis by (auto simp: forward_words_def reverse_words_def undone_words_def)
qed (simp add: undone_words_def)

lemma rolling_suffix: "before @ w \<in> rolling_words \<Longrightarrow> w \<in> rolling_words"
proof (induction before)
  case (Cons x before)
  then have "before @ w \<in> rolling_words" using rolling_tail by (metis append_Cons)
  with Cons.IH show ?case .
qed simp

lemma rolling_settle:
  assumes "before @ j # rest \<in> rolling_words" and "set rest \<subseteq> settled_letters"
  shows "before @ settled_journal j # rest \<in> rolling_words"
proof (cases "j \<in> {J_STARTED, J_DONE, J_UNDO_STARTED}")
  case True
  then have "set before \<subseteq> {J_DONE}" using before_unsettled [of before j rest] assms(1) by auto
  moreover have "rest \<in> undone_words"
    using rolling_settled rolling_suffix [of "before @ [j]" rest] assms by simp
  ultimately show ?thesis
    using True by (auto simp: settled_journal_def reverse_after_done intro!: undone_reverse) (auto simp: undone_Cons)
next
  case False
  then show ?thesis using assms(1) by (cases j) (auto simp: settled_journal_def)
qed

section \<open>The first effect at a path\<close>

lemma first_occurrence:
  assumes land: "land_all init (all_occurrences (before @ e # after)) = Some final"
    and ok: "effect_ok e" and occ: "occ \<in> set (occurrences e)"
    and first: "\<forall>e' \<in> set before. occ_path occ \<notin> set (effect_paths e')"
  shows "init (occ_path occ) = Some (occ_pre occ) \<and>
    (k \<le> length before \<longrightarrow> state_after (init (occ_path occ)) k (before @ e # after) (occ_path occ) = init (occ_path occ))"
proof -
  let ?p = "occ_path occ"
  have none: "history ?p (all_occurrences xs) = []" if "set xs \<subseteq> set before" for xs
    using first that by (force simp: history_Nil_iff effect_paths_eq all_occurrences_def)
  have "occ \<in> set xs \<Longrightarrow> distinct (map occ_path xs) \<Longrightarrow> filter (\<lambda>o'. occ_path o' = ?p) xs = [occ]" for xs
    by (induction xs) (auto simp: filter_empty_conv image_iff)
  from this [OF occ occurrences_once [OF ok]] have "history ?p (occurrences e) = [(occ_pre occ, occ_post occ)]" by (simp add: history_def)
  then have h: "history ?p (all_occurrences (before @ e # after)) = (occ_pre occ, occ_post occ) # history ?p (all_occurrences after)"
    using none [of before] by simp
  from land have "case init ?p of None \<Rightarrow> final ?p = None \<and> history ?p (all_occurrences (before @ e # after)) = []
      | Some a \<Rightarrow> \<exists>b. final ?p = Some b \<and> chained a (history ?p (all_occurrences (before @ e # after))) b"
    unfolding land_all_iff by blast
  then have "init ?p = Some (occ_pre occ)" unfolding h by (auto split: option.splits)
  moreover have "state_after (init ?p) k (before @ e # after) ?p = init ?p" if "k \<le> length before"
  proof -
    have "events_of ?p (take k (before @ e # after)) = []"
      using none [of "take k before"] that events_history [of ?p "take k before"] by (simp add: set_take_subset)
    then show ?thesis by (simp add: state_after_def)
  qed
  ultimately show ?thesis by blast
qed

section \<open>One iteration of the loop\<close>

definition state_at :: "recovery_snapshot \<Rightarrow> pystr \<Rightarrow> path_state option" where
  "state_at s p = (case persistent_map s p of None \<Rightarrow> None
     | Some x \<Rightarrow> (case entry_state_of x of Inl _ \<Rightarrow> None | Inr st \<Rightarrow> Some st))"

definition initial_at :: "recovery_snapshot \<Rightarrow> pystr \<Rightarrow> path_state option" where
  "initial_at s = map_of (pairs (initial_surface (compiled_of (compiled s))))"

definition final_at :: "recovery_snapshot \<Rightarrow> pystr \<Rightarrow> path_state option" where
  "final_at s = map_of (pairs (final_surface (compiled_of (compiled s))))"

definition loop_ready :: "unicode_tables \<Rightarrow> recovery_snapshot \<Rightarrow> bool" where
  "loop_ready u s \<longleftrightarrow> issued u s \<and> tx_state s = Tx_ROLLING_BACK \<and> active s \<and>
     commit_decision s = Decision_UNCOMMITTED \<and> map row_state (journals s) \<in> rolling_words"

lemma issued_well_formed: "issued u s \<Longrightarrow> well_formed u (compiled_of (compiled s))"
  using well_formed_permuted [OF canonicalize_same] by (auto simp: issued_def compile_spec_iff)

lemma issued_land: "issued u s \<Longrightarrow>
    land_all (initial_at s) (all_occurrences (snapshot_effects s)) = Some (final_at s) \<and>
    (\<forall>e \<in> set (snapshot_effects s). effect_ok e)"
  by (auto simp: initial_at_def final_at_def well_formed_def joins_def dest!: issued_well_formed)

lemma ready_classifies:
  "loop_ready u s \<Longrightarrow> classify_transaction_authority s = Inr (AuthorityDecision Authority_CLASSIFY None)"
  by (subst authority_classify) (auto simp: loop_ready_def compatible_commit_decision_def)

lemma depth_before:
  assumes "i < length w" and "w ! i \<in> settled_letters"
  shows "length (takeWhile unsettled w) \<le> i"
proof (rule ccontr)
  assume "\<not> length (takeWhile unsettled w) \<le> i"
  then have "unsettled (w ! i)"
    using set_takeWhileD [of "w ! i" unsettled w] by (metis nth_mem not_le takeWhile_nth)
  with assms(2) show False by (auto simp: unsettled_def)
qed

lemma state_at_agrees:
  "agrees s ob \<Longrightarrow> item \<in> set (jo_persistent ob) \<Longrightarrow> entry_state_of (po_entry item) = Inr st \<Longrightarrow>
   state_at s (po_path item) = Some st"
  by (simp add: agrees_def state_at_def)

lemma restored_states:
  assumes "restored e ob" and "tuple_of e ob" and "occ \<in> set (occurrences e)"
  shows "\<exists>item \<in> set (jo_persistent ob). po_path item = occ_path occ \<and> entry_state_of (po_entry item) = Inr (occ_pre occ)"
proof -
  from assms(1) have st: "map (\<lambda>item. entry_state_of (po_entry item)) (jo_persistent ob) = map (\<lambda>occ. Inr (occ_pre occ)) (occurrences e)"
    by (simp add: restored_def states_of_def)
  from assms(2) have pt: "map po_path (jo_persistent ob) = map occ_path (occurrences e)"
    by (simp add: tuple_of_def effect_paths_eq)
  from assms(3) obtain i where i: "i < length (occurrences e)" "occ = occurrences e ! i" by (auto simp: in_set_conv_nth)
  with arg_cong [OF pt, of length] have l: "i < length (jo_persistent ob)" by simp
  have "po_path (jo_persistent ob ! i) = occ_path occ" using arg_cong [OF pt, of "\<lambda>xs. xs ! i"] i l by simp
  moreover have "entry_state_of (po_entry (jo_persistent ob ! i)) = Inr (occ_pre occ)"
    using arg_cong [OF st, of "\<lambda>xs. xs ! i"] i l by simp
  ultimately show ?thesis using l by (intro bexI [of _ "jo_persistent ob ! i"]) auto
qed

text \<open>An effect that is settled without refusal leaves its first-touched paths in their
  initial state.\<close>

lemma first_restored:
  assumes s: "loop_ready u s" and i: "index < length (snapshot_effects s)"
    and f: "reconstruct_frontiers s = Inr frontiers"
    and a: "agrees t ob" "tuple_of (snapshot_effects s ! index) ob"
    and r: "if row_state (journals s ! index) \<in> {J_PENDING, J_UNDONE} then at_frontiers frontiers ob
      else restored (snapshot_effects s ! index) ob"
    and p: "p \<in> set (effect_paths (snapshot_effects s ! index))"
    and first: "\<forall>e' \<in> set (take index (snapshot_effects s)). p \<notin> set (effect_paths e')"
  shows "state_at t p = initial_at s p"
proof -
  let ?es = "snapshot_effects s" and ?e = "snapshot_effects s ! index"
  have iss: "issued u s" using s by (simp add: loop_ready_def)
  note land = issued_land [OF iss]
  from p obtain occ where occ: "occ \<in> set (occurrences ?e)" "p = occ_path occ" by (auto simp: effect_paths_eq)
  have split: "?es = take index ?es @ ?e # drop (Suc index) ?es" using i by (simp add: id_take_nth_drop)
  with land have l: "land_all (initial_at s) (all_occurrences (take index ?es @ ?e # drop (Suc index) ?es)) = Some (final_at s)"
    by metis
  have ok: "effect_ok ?e" using land i by auto
  note fo = first_occurrence [OF l ok occ(1) first [unfolded occ(2)], folded split occ(2)]
  show ?thesis
  proof (cases "row_state (journals s ! index) \<in> {J_PENDING, J_UNDONE}")
    case False
    with r have "restored ?e ob" by simp
    from restored_states [OF this a(2) occ(1)] state_at_agrees [OF a(1)] fo occ(2) show ?thesis by force
  next
    case True
    with r have at: "at_frontiers frontiers ob" by simp
    from a(2) p have "p \<in> po_path ` set (jo_persistent ob)" by (simp add: tuple_of_def flip: list.set_map)
    then obtain item fr where item: "item \<in> set (jo_persistent ob)" "po_path item = p"
      and fr: "fr \<in> set frontiers" "frontier_path fr = p" "entry_state_of (po_entry item) = Inr (frontier_expected fr)"
      using at by (auto simp: at_frontiers_def)
    from frontiers_land [OF iss ready_classifies [OF s]] f obtain surf where
      surf: "land_all (initial_at s) (all_occurrences (take (frontier_depth s) ?es)) = Some surf"
        "surf p = Some (frontier_expected fr)"
      using fr by (auto simp: initial_at_def)
    from land_all_state_after [OF conjunct1 [OF land], of "frontier_depth s"] surf
    have exp: "state_after (initial_at s p) (frontier_depth s) ?es p = Some (frontier_expected fr)" by auto
    have "frontier_depth s \<le> index"
      using True issued_row_at [OF iss i] s
      by (auto simp: frontier_depth_def loop_ready_def intro!: depth_before)
    then have "frontier_depth s \<le> length (take index ?es)" using i by simp
    with fo exp have "initial_at s p = Some (frontier_expected fr)" by metis
    with state_at_agrees [OF a(1) item(1) fr(3)] item(2) show ?thesis by simp
  qed
qed

lemma keep_ready:
  assumes s: "loop_ready u s" and i: "index < length (journals s)" and ph: "same_phase s t" and iss: "issued u t"
    and right: "\<forall>i < length (journals s). index < i \<longrightarrow> row_state (journals s ! i) \<in> settled_letters"
    and rows: "journals t = set_row (journals s) index (settled_journal (row_state (journals s ! index)))"
  shows "loop_ready u t"
proof -
  let ?w = "map row_state (journals s)"
  have split: "?w = take index ?w @ row_state (journals s ! index) # drop (Suc index) ?w"
    using i id_take_nth_drop [of index ?w] by simp
  have "x \<in> settled_letters" if x: "x \<in> set (drop (Suc index) ?w)" for x
  proof -
    from x obtain k where k: "k < length (drop (Suc index) ?w)" "x = drop (Suc index) ?w ! k"
      unfolding in_set_conv_nth by blast
    then have "Suc index + k < length (journals s)" "x = row_state (journals s ! (Suc index + k))" by auto
    with right show ?thesis by auto
  qed
  then have "take index ?w @ settled_journal (row_state (journals s ! index)) # drop (Suc index) ?w \<in> rolling_words"
    using s split by (intro rolling_settle) (auto simp: loop_ready_def)
  moreover have "map row_state (journals t) = ?w[index := settled_journal (row_state (journals s ! index))]"
    by (simp add: rows set_row_def map_update)
  ultimately have "map row_state (journals t) \<in> rolling_words" using i by (simp add: upd_conv_take_nth_drop)
  with s ph iss show ?thesis by (auto simp: loop_ready_def same_phase_def)
qed

lemma foreign_mono: "foreign es x \<Longrightarrow> e \<in> es \<Longrightarrow> foreign {e} x"
  by (auto simp: foreign_def)

lemma outside_kept_scratch:
  assumes "outside_kept e s t" and "k \<noteq> scratch_key e"
  shows "scratch_entry t k = scratch_entry s k"
proof -
  have "rel_option faded (scratch_map s k) (scratch_map t k)" using assms unfolding outside_kept_def by blast
  then show ?thesis
    unfolding scratch_entry_def by (cases "scratch_map s k"; cases "scratch_map t k") (auto simp: faded_def)
qed

lemma gone_scratch: "agrees t ob \<Longrightarrow> tuple_of e ob \<Longrightarrow> scratch_gone ob \<Longrightarrow> scratch_entry t (scratch_key e) = Some ObservedAbsent"
  using agrees_observes [of t ob] tuple_of_scratch [of e ob] by (auto simp: observes_def scratch_gone_def)

text \<open>What the passage over the first \<open>n\<close> effects has done.\<close>

definition passed :: "unicode_tables \<Rightarrow> effect list \<Rightarrow> recovery_snapshot \<Rightarrow> recovery_step list \<Rightarrow> recovery_snapshot \<Rightarrow> bool" where
  "passed u es s steps t \<longleftrightarrow>
     apply_steps u s steps = Inr t \<and>
     (\<forall>e \<in> set es. scratch_entry t (scratch_key e) = Some ObservedAbsent) \<and>
     (\<forall>k. k \<notin> scratch_key ` set es \<longrightarrow> scratch_entry t k = scratch_entry s k) \<and>
     (\<forall>p. (\<forall>e \<in> set es. p \<notin> set (effect_paths e)) \<longrightarrow> persistent_map t p = persistent_map s p) \<and>
     (\<forall>x. foreign (set es) x \<and> present s x \<longrightarrow> run_holds u (\<lambda>v. present v x) s steps)"

lemma iteration:
  assumes s: "loop_ready u s" and f: "reconstruct_frontiers s = Inr frontiers"
    and d: "classify_effect s index frontiers = Inr d" "halt_of d = None"
    and r: "reverse_effect_steps u s index d = Inr steps" and run: "apply_steps u s steps = Inr t"
    and right: "\<forall>i < length (journals s). index < i \<longrightarrow> row_state (journals s ! i) \<in> settled_letters"
  shows "index < length (snapshot_effects s) \<and> loop_ready u t \<and> same_phase s t \<and>
    journals t = set_row (journals s) index (settled_journal (row_state (journals s ! index))) \<and>
    passed u [snapshot_effects s ! index] s steps t \<and>
    (\<not> refused d \<longrightarrow> (\<forall>p \<in> set (effect_paths (snapshot_effects s ! index)).
       (\<forall>e' \<in> set (take index (snapshot_effects s)). p \<notin> set (effect_paths e')) \<longrightarrow> state_at t p = initial_at s p))"
proof -
  let ?e = "snapshot_effects s ! index"
  have iss: "issued u s" and u: "commit_decision s = Decision_UNCOMMITTED" using s by (simp_all add: loop_ready_def)
  from reverse_effect_Inr [OF iss d u r run] obtain ob where
    j: "joint s ?e = Inr ob" and i: "index < length (snapshot_effects s)"
    and rev: "reversal u ?e s ob steps t (outcome ob (decision_steps d))"
    and gone: "scratch_gone (outcome ob (decision_steps d))"
    and res: "\<not> refused d \<longrightarrow> (if row_state (journals s ! index) \<in> {J_PENDING, J_UNDONE}
       then at_frontiers frontiers (outcome ob (decision_steps d)) else restored ?e (outcome ob (decision_steps d)))"
    and rows: "journals t = set_row (journals s) index (settled_journal (row_state (journals s ! index)))"
    and ph: "same_phase s t" by blast
  from rev have a: "agrees t (outcome ob (decision_steps d))" "tuple_of ?e (outcome ob (decision_steps d))"
    and k: "outside_kept ?e s t" by (auto simp: reversal_def)
  have "loop_ready u t"
    using keep_ready [OF s _ ph issued_steps [OF iss run] right rows] issued_row_at [OF iss i] by blast
  moreover have "passed u [?e] s steps t"
  proof -
    have "run_holds u (\<lambda>v. present v x) s steps" if "foreign {?e} x" "present s x" for x
      using rev present_held [OF j that(2)] that(1) by (auto simp: reversal_def)
    moreover have "scratch_entry t (scratch_key ?e) = Some ObservedAbsent" by (rule gone_scratch [OF a gone])
    moreover have "scratch_entry t k' = scratch_entry s k'" if "k' \<noteq> scratch_key ?e" for k'
      using outside_kept_scratch [OF k that] .
    moreover have "persistent_map t p = persistent_map s p" if "p \<notin> set (effect_paths ?e)" for p
      using k that by (simp add: outside_kept_def)
    ultimately show ?thesis unfolding passed_def using run by simp
  qed
  moreover have "state_at t p = initial_at s p" if "\<not> refused d" "p \<in> set (effect_paths ?e)"
      "\<forall>e' \<in> set (take index (snapshot_effects s)). p \<notin> set (effect_paths e')" for p
    using first_restored [OF s i f a _ that(2,3)] res that(1) by blast
  ultimately show ?thesis using i ph rows by blast
qed

section \<open>The loop\<close>

lemma passed_append:
  assumes "passed u es s xs t" and "passed u es' t ys v"
  shows "passed u (es' @ es) s (xs @ ys) v"
  unfolding passed_def
proof (intro conjI allI impI ballI)
  note a = assms(1) [unfolded passed_def] and b = assms(2) [unfolded passed_def]
  show "apply_steps u s (xs @ ys) = Inr v" using a b by (simp add: apply_steps_append)
  show "scratch_entry v (scratch_key e) = Some ObservedAbsent" if "e \<in> set (es' @ es)" for e
  proof (cases "scratch_key e \<in> scratch_key ` set es'")
    case True
    then obtain e' where "e' \<in> set es'" "scratch_key e = scratch_key e'" by (rule imageE)
    with b show ?thesis by metis
  next
    case False
    then have "e \<notin> set es'" by blast
    with that have "e \<in> set es" by simp
    with a b False show ?thesis by metis
  qed
  show "scratch_entry v k = scratch_entry s k" if "k \<notin> scratch_key ` set (es' @ es)" for k
  proof -
    from that have k: "k \<notin> scratch_key ` set es'" "k \<notin> scratch_key ` set es" unfolding set_append image_Un by blast+
    from b k(1) have "scratch_entry v k = scratch_entry t k" by blast
    also from a k(2) have "\<dots> = scratch_entry s k" by blast
    finally show ?thesis .
  qed
  show "persistent_map v p = persistent_map s p" if "\<forall>e \<in> set (es' @ es). p \<notin> set (effect_paths e)" for p
    using a b that by simp
  show "run_holds u (\<lambda>v. present v x) s (xs @ ys)" if x: "foreign (set (es' @ es)) x \<and> present s x" for x
  proof -
    from x have f: "foreign (set es) x" "foreign (set es') x" by (auto simp: foreign_def)
    with a x have r: "run_holds u (\<lambda>v. present v x) s xs" by blast
    from run_holds_end [OF this] a have "present t x" by blast
    with b f have "run_holds u (\<lambda>v. present v x) t ys" by blast
    with r a show ?thesis by (blast intro: run_holds_append)
  qed
qed

lemma passed_none: "passed u [] s [] s"
  by (simp add: passed_def)

lemma settle_last:
  assumes "index < length w"
  shows "map settled_journal (take index (w[index := settled_journal (w ! index)])) @ drop index (w[index := settled_journal (w ! index)])
    = map settled_journal (take (Suc index) w) @ drop (Suc index) w"
  using assms by (simp add: take_Suc_conv_app_nth drop_update_swap list_update_append upd_conv_take_nth_drop
      flip: Cons_nth_drop_Suc)

lemma rollback_loop_passes:
  assumes "rollback_loop u source n (acc, s, ref) = Inr (Inr (steps, t, ref'))"
    and "loop_ready u s" and "n \<le> length (snapshot_effects s)"
    and "\<forall>i < length (journals s). n \<le> i \<longrightarrow> row_state (journals s ! i) \<in> settled_letters"
  shows "\<exists>new. steps = acc @ new \<and> loop_ready u t \<and> same_phase s t \<and> passed u (take n (snapshot_effects s)) s new t \<and>
    map row_state (journals t) = map settled_journal (take n (map row_state (journals s))) @ drop n (map row_state (journals s)) \<and>
    (\<not> ref' \<longrightarrow> \<not> ref \<and> (\<forall>e \<in> set (take n (snapshot_effects s)). \<forall>p \<in> set (effect_paths e). state_at t p = initial_at s p))"
  using assms
proof (induction n arbitrary: acc s ref)
  case 0
  then show ?case by (auto simp: passed_none same_phase_def)
next
  case (Suc index)
  let ?es = "snapshot_effects s"
  from Suc.prems(1) obtain frontiers d local v where
    f: "reconstruct_frontiers s = Inr frontiers" and d: "classify_effect s index frontiers = Inr d" "halt_of d = None"
    and r: "reverse_effect_steps u s index d = Inr local" "apply_steps u s local = Inr v"
    and rest: "rollback_loop u source index (acc @ local, v, ref \<or> refused d) = Inr (Inr (steps, t, ref'))"
    by (auto simp: bindr_Inr_iff split: option.splits)
  from iteration [OF Suc.prems(2) f d r] Suc.prems(4)
  have it: "index < length ?es" "loop_ready u v" "same_phase s v"
    "journals v = set_row (journals s) index (settled_journal (row_state (journals s ! index)))"
    "passed u [?es ! index] s local v"
    "\<not> refused d \<Longrightarrow> p \<in> set (effect_paths (?es ! index)) \<Longrightarrow>
       \<forall>e' \<in> set (take index ?es). p \<notin> set (effect_paths e') \<Longrightarrow> state_at v p = initial_at s p" for p
    by auto
  have es: "snapshot_effects v = ?es" "initial_at v = initial_at s" using it(3) by (simp_all add: same_phase_def initial_at_def)
  have il: "index < length (journals s)"
    using issued_row_at [OF _ it(1)] Suc.prems(2) by (auto simp: loop_ready_def)
  have w: "map row_state (journals v) = (map row_state (journals s))[index := settled_journal (row_state (journals s ! index))]"
    by (simp add: it(4) set_row_def map_update)
  have "\<forall>i < length (journals v). index \<le> i \<longrightarrow> row_state (journals v ! i) \<in> settled_letters"
  proof (intro allI impI)
    fix i assume i: "i < length (journals v)" "index \<le> i"
    then have "row_state (journals v ! i) = map row_state (journals v) ! i" by simp
    with i il Suc.prems(4) show "row_state (journals v ! i) \<in> settled_letters"
      unfolding w by (cases "i = index") (auto simp: it(4) set_row_def settled_journal_def)
  qed
  from Suc.IH [OF rest it(2) _ this] it(1) es obtain new where n: "steps = (acc @ local) @ new" "loop_ready u t" "same_phase v t"
    "passed u (take index ?es) v new t"
    "map row_state (journals t) = map settled_journal (take index (map row_state (journals v))) @ drop index (map row_state (journals v))"
    "\<not> ref' \<longrightarrow> \<not> (ref \<or> refused d) \<and> (\<forall>e \<in> set (take index ?es). \<forall>p \<in> set (effect_paths e). state_at t p = initial_at s p)"
    by auto
  have take: "take (Suc index) ?es = take index ?es @ [?es ! index]" using it(1) by (simp add: take_Suc_conv_app_nth)
  have "passed u (take (Suc index) ?es) s (local @ new) t"
    unfolding take by (rule passed_append [OF it(5) n(4)])
  moreover have "map row_state (journals t) = map settled_journal (take (Suc index) (map row_state (journals s))) @ drop (Suc index) (map row_state (journals s))"
    unfolding n(5) w using settle_last [of index "map row_state (journals s)"] il by simp
  moreover have "state_at t p = initial_at s p"
    if nr: "\<not> ref'" and e: "e \<in> set (take (Suc index) ?es)" "p \<in> set (effect_paths e)" for e p
  proof (cases "\<exists>e' \<in> set (take index ?es). p \<in> set (effect_paths e')")
    case False
    with e take have "p \<in> set (effect_paths (?es ! index))" by auto
    with it(6) n(6) nr False have "state_at v p = initial_at s p" by blast
    moreover have "persistent_map t p = persistent_map v p" using n(4) False by (auto simp: passed_def)
    ultimately show ?thesis by (simp add: state_at_def)
  qed (use n(6) nr in blast)
  ultimately show ?case
    using n(1-3,6) same_phase_trans [OF it(3) n(3)] by (intro exI [of _ "local @ new"]) auto
qed

end
