(* ===== verification/ClassifierCorrect.thy ===== *)
theory ClassifierCorrect
  imports RollbackCorrect
begin

text \<open>
  Recovery as a whole: what the plan of a classification does to the snapshot it is bound to,
  for rollbacks, committed cleanups, detachments and halts, and the authorization of a step.
\<close>

section \<open>Plans\<close>

lemma new_action_plan_Inr: "new_action_plan s disp steps = Inr plan \<Longrightarrow>
    \<exists>r. plan = ActionPlan s disp steps r \<and> expected_result disp = Some r"
  by (auto simp: new_action_plan_def bindr_Inr_iff lookup_or_Inr_iff)

lemma halt_plan_Inr:
  "halt_plan s reason e ex ob pr = Inr plan \<Longrightarrow> \<exists>d steps. plan = HaltPlan s d steps \<and> halt_plan_valid s d steps"
  by (auto simp: halt_plan_def stable_halt_plan_def new_halt_plan_def bindr_Inr_iff guard_Inr_iff
      split: if_splits option.splits)

lemma loop_halts:
  "rollback_loop u source n st = Inr (Inl plan) \<Longrightarrow> \<exists>d steps. plan = HaltPlan source d steps"
proof (induction u source n st rule: rollback_loop.induct)
  case (2 u source index steps cursor ref)
  from 2(2) obtain frontiers d where x: "reconstruct_frontiers cursor = Inr frontiers"
    "classify_effect cursor index frontiers = Inr d" "validate_effect_decision d = Inr ()"
    by (auto simp: bindr_Inr_iff)
  show ?case
  proof (cases "halt_of d")
    case None
    with x 2(2) obtain local v where y: "reverse_effect_steps u cursor index d = Inr local" "apply_steps u cursor local = Inr v"
      "rollback_loop u source index (steps @ local, v, ref \<or> refused d) = Inr (Inl plan)"
      by (auto simp: bindr_Inr_iff)
    from 2(1) [OF x None y] show ?thesis .
  qed (use x 2(2) in \<open>auto simp: bindr_Inr_iff halted_decision_plan_def dest!: halt_plan_Inr\<close>)
qed simp

text \<open>A step that mutates nothing forgets nothing.\<close>

lemma non_mutating_present:
  assumes "issued u s" and "apply_step u s step = Inr t" and "\<not> is_mutating step" and "present s x"
  shows "present t x"
proof -
  note n = non_mutating_maps [OF assms(1-3)]
  from assms(4) consider p where "persistent_map s p = Some x"
    | k item where "scratch_map s k = Some item" "so_entry item = x" "so_relation item \<noteq> Some Build_STRICT_PREFIX"
    unfolding present_def by blast
  then show ?thesis
  proof cases
    case 1
    with n show ?thesis by (auto simp: present_def)
  next
    case 2
    with n [of k] obtain y where "scratch_map t k = Some y" "faded item y" by (auto simp: option_rel_Some1)
    with 2 show ?thesis unfolding present_def faded_def by (metis option.distinct(1))
  qed
qed

lemma non_mutating_scratch:
  assumes "issued u s" and "apply_step u s step = Inr t" and "\<not> is_mutating step"
  shows "scratch_entry t k = scratch_entry s k"
  using same_keys_maps step_keeps [OF assms(2)] non_mutating_observations [OF assms(2,3)]
  by (metis keeps_issued_def)

section \<open>Rollback plans\<close>

lemma entering:
  assumes s: "issued u s" and c: "classify_transaction_authority s = Inr (AuthorityDecision Authority_CLASSIFY None)"
    and nc: "tx_state s \<noteq> Tx_COMMITTED" and e: "enter_rolling_back u s = Inr (steps, v)"
  shows "loop_ready u v \<and> apply_steps u s steps = Inr v \<and> journals v = journals s \<and> compiled v = compiled s \<and>
    (\<forall>x. present s x \<longrightarrow> run_holds u (\<lambda>v. present v x) s steps)"
proof -
  have auth: "active s" "tx_state s \<notin> {Tx_HALTED, Tx_ROLLED_BACK}" "commit_decision s = Decision_UNCOMMITTED"
    "map row_state (journals s) \<in> journal_words (tx_state s)"
    using c nc authority_classify [OF issued_valid [OF s]]
    by (auto simp: compatible_commit_decision_def split: if_splits)
  then have words: "map row_state (journals s) \<in> rolling_words"
    using classify_forward_words [OF auth(4,2)] by (auto split: if_splits)
  show ?thesis
  proof (cases "tx_state s = Tx_ROLLING_BACK")
    case True
    with e s auth words show ?thesis by (auto simp: enter_rolling_back_def loop_ready_def)
  next
    case False
    let ?step = "TransitionTransactionState (tx_state s) Tx_ROLLING_BACK None None"
    from False e have x: "apply_step u s ?step = Inr v" "steps = [?step]"
      by (auto simp: enter_rolling_back_def take_step_def bindr_Inr_iff)
    from x(1) have v: "tx_state v = Tx_ROLLING_BACK" "active v = active s" "commit_decision v = commit_decision s"
      "journals v = journals s" "compiled v = compiled s"
      by (auto dest!: transition_transaction_Inr rebuild_Inr)
    have "present v x" if "present s x" for x
      by (rule non_mutating_present [OF s x(1) _ that]) simp
    with x v auth words issued_step [OF s x(1)] show ?thesis by (simp add: loop_ready_def)
  qed
qed

lemma rollback_plan_parts:
  assumes p: "rollback_plan u s = Inr (ActionPlan b disp steps r)"
  shows "\<exists>pre v st w ref t. enter_rolling_back u s = Inr (pre, v) \<and>
    rollback_loop u s (length (snapshot_effects s)) (pre, v, False) = Inr (Inr (st, w, ref)) \<and>
    apply_steps u w (terminal_steps ref) = Inr t \<and> tx_state t = Tx_ROLLED_BACK \<and> \<not> active t \<and>
    b = s \<and> disp = (if ref then ROLL_BACK_REFUSED else ROLL_BACK) \<and> steps = st @ terminal_steps ref \<and>
    r = Some (rollback_result_of ref)"
proof -
  from p obtain pre v out where e: "enter_rolling_back u s = Inr (pre, v)"
    and l: "rollback_loop u s (length (snapshot_effects s)) (pre, v, False) = Inr out"
    and o: "(case out of Inl plan \<Rightarrow> Inr plan | Inr (steps, cursor, ref) \<Rightarrow>
         bindr (apply_steps u cursor (terminal_steps ref)) (\<lambda>settled.
         guard (tx_state settled = Tx_ROLLED_BACK \<and> \<not> active settled) (cls_err RollbackNotSettled)
         (new_action_plan s (if ref then ROLL_BACK_REFUSED else ROLL_BACK)
            (steps @ terminal_steps ref)))) = Inr (ActionPlan b disp steps r)"
    by (auto simp: rollback_plan_def bindr_Inr_iff)
  show ?thesis
  proof (cases out)
    case (Inl plan)
    with l o show ?thesis by (auto dest!: loop_halts)
  next
    case (Inr z)
    obtain st w ref where "z = (st, w, ref)" by (cases z)
    with Inr e l o show ?thesis
      by (auto simp: bindr_Inr_iff guard_Inr_iff rollback_result_of_def dest!: new_action_plan_Inr split: if_splits)
  qed
qed

lemma terminal_run:
  assumes w: "issued u w" and a: "apply_steps u w (terminal_steps ref) = Inr t"
  shows "journals t = journals w \<and> rollback_result t = Some (rollback_result_of ref) \<and>
    commit_decision t = commit_decision w \<and> persistent_map t = persistent_map w \<and>
    (\<forall>k. scratch_entry t k = scratch_entry w k) \<and>
    (\<forall>x. present w x \<longrightarrow> run_holds u (\<lambda>v. present v x) w (terminal_steps ref))"
proof -
  let ?t1 = "TransitionTransactionState Tx_ROLLING_BACK Tx_ROLLED_BACK (Some (rollback_result_of ref)) None"
  from a obtain y where y: "apply_step u w ?t1 = Inr y" "apply_step u y DetachActive = Inr t"
    by (auto simp: terminal_steps_def bindr_Inr_iff)
  have yi: "issued u y" using issued_step [OF w y(1)] .
  have "journals t = journals w" "rollback_result t = Some (rollback_result_of ref)" "commit_decision t = commit_decision w"
    "persistent_map t = persistent_map w"
    using y non_mutating_maps [OF w y(1)] non_mutating_maps [OF yi y(2)]
    by (auto simp: reduce_detach_active_def guard_Inr_iff dest!: transition_transaction_Inr rebuild_Inr)
  moreover have "scratch_entry t k = scratch_entry w k" for k
    using non_mutating_scratch [OF w y(1)] non_mutating_scratch [OF yi y(2)] by simp
  moreover have "run_holds u (\<lambda>v. present v x) w (terminal_steps ref)" if "present w x" for x
    using y that non_mutating_present [OF w y(1)] non_mutating_present [OF yi y(2)] by (auto simp: terminal_steps_def)
  ultimately show ?thesis by blast
qed

text \<open>What a rollback plan does to the snapshot it is bound to.\<close>

definition rolled_back :: "unicode_tables \<Rightarrow> recovery_snapshot \<Rightarrow> recovery_step list \<Rightarrow> bool \<Rightarrow> recovery_snapshot \<Rightarrow> bool" where
  "rolled_back u s steps ref t \<longleftrightarrow>
     apply_steps u s steps = Inr t \<and> tx_state t = Tx_ROLLED_BACK \<and> \<not> active t \<and>
     rollback_result t = Some (rollback_result_of ref) \<and> commit_decision t = Decision_UNCOMMITTED \<and>
     map row_state (journals t) = map settled_journal (map row_state (journals s)) \<and>
     map row_state (journals t) \<in> undone_words \<and>
     (\<forall>e \<in> set (snapshot_effects s). scratch_entry t (scratch_key e) = Some ObservedAbsent) \<and>
     (\<not> ref \<longrightarrow> (\<forall>e \<in> set (snapshot_effects s). \<forall>p \<in> set (effect_paths e). state_at t p = initial_at s p)) \<and>
     (\<forall>x. foreign (set (snapshot_effects s)) x \<and> present s x \<longrightarrow> run_holds u (\<lambda>v. present v x) s steps)"

lemma rolled_backD:
  assumes "rolled_back u s steps ref t"
  shows "apply_steps u s steps = Inr t" "tx_state t = Tx_ROLLED_BACK" "\<not> active t"
    "rollback_result t = Some (rollback_result_of ref)" "commit_decision t = Decision_UNCOMMITTED"
    "map row_state (journals t) \<in> undone_words"
    "\<And>e. e \<in> set (snapshot_effects s) \<Longrightarrow> scratch_entry t (scratch_key e) = Some ObservedAbsent"
    "\<And>e p. \<not> ref \<Longrightarrow> e \<in> set (snapshot_effects s) \<Longrightarrow> p \<in> set (effect_paths e) \<Longrightarrow> state_at t p = initial_at s p"
    "\<And>x. foreign (set (snapshot_effects s)) x \<Longrightarrow> present s x \<Longrightarrow> run_holds u (\<lambda>v. present v x) s steps"
  using assms unfolding rolled_back_def by blast+

lemma rollback_plan_Inr:
  assumes s: "issued u s" and c: "classify_transaction_authority s = Inr (AuthorityDecision Authority_CLASSIFY None)"
    and nc: "tx_state s \<noteq> Tx_COMMITTED" and p: "rollback_plan u s = Inr (ActionPlan b disp steps r)"
  shows "\<exists>t ref. b = s \<and> disp = (if ref then ROLL_BACK_REFUSED else ROLL_BACK) \<and>
    r = Some (rollback_result_of ref) \<and> rolled_back u s steps ref t"
proof -
  let ?es = "snapshot_effects s"
  from rollback_plan_parts [OF p] obtain pre v st w ref t where e: "enter_rolling_back u s = Inr (pre, v)"
    and l: "rollback_loop u s (length ?es) (pre, v, False) = Inr (Inr (st, w, ref))"
    and a: "apply_steps u w (terminal_steps ref) = Inr t" "tx_state t = Tx_ROLLED_BACK" "\<not> active t"
    and pl: "b = s" "disp = (if ref then ROLL_BACK_REFUSED else ROLL_BACK)" "steps = st @ terminal_steps ref"
      "r = Some (rollback_result_of ref)" by blast
  note en = entering [OF s c nc e]
  then have es: "snapshot_effects v = ?es" "initial_at v = initial_at s" by (simp_all add: initial_at_def)
  have lj: "length (journals v) = length ?es"
    using en arg_cong [OF valid_rows [OF issued_valid [OF s]], of length] by simp
  from rollback_loop_passes [OF l] en es lj obtain new where n: "st = pre @ new" "loop_ready u w" "same_phase v w"
    "passed u ?es v new w"
    "map row_state (journals w) = map settled_journal (map row_state (journals s))"
    "\<not> ref \<longrightarrow> (\<forall>e \<in> set ?es. \<forall>p \<in> set (effect_paths e). state_at w p = initial_at s p)"
    by auto
  have w: "issued u w" "commit_decision w = Decision_UNCOMMITTED" using n(2) by (simp_all add: loop_ready_def)
  note t = terminal_run [OF w(1) a(1)]
  have words: "map row_state (journals w) \<in> undone_words"
    using n(2,5) by (intro rolling_settled) (auto simp: loop_ready_def settled_journal_def)
  have run: "apply_steps u s st = Inr w" using en n(1,4) by (auto simp: apply_steps_append passed_def)
  have foreign: "run_holds u (\<lambda>v. present v x) s steps" if x: "foreign (set ?es) x" "present s x" for x
  proof -
    have r1: "run_holds u (\<lambda>v. present v x) s pre" using en x(2) by blast
    moreover have "present v x" using run_holds_end [OF r1] en by blast
    ultimately have r2: "run_holds u (\<lambda>v. present v x) s st"
      unfolding n(1) using en n(4) x(1) es by (auto simp: passed_def intro: run_holds_append)
    with run_holds_end [OF r2 run] t show ?thesis unfolding pl(3) by (blast intro: run_holds_append [OF run])
  qed
  have "apply_steps u s steps = Inr t" unfolding pl(3) using run a(1) by (simp add: apply_steps_append)
  moreover have "\<forall>e \<in> set ?es. scratch_entry t (scratch_key e) = Some ObservedAbsent"
    using n(4) t unfolding passed_def by metis
  moreover have "\<not> ref \<longrightarrow> (\<forall>e \<in> set ?es. \<forall>p \<in> set (effect_paths e). state_at t p = initial_at s p)"
    using n(6) t by (simp add: state_at_def)
  ultimately show ?thesis
    unfolding rolled_back_def using pl t a words n(5) w(2) foreign by (intro exI [of _ t] exI [of _ ref]) auto
qed

section \<open>Committed cleanup\<close>

lemma retained_declared: "expected_retained_state e = Inr st \<Longrightarrow> \<exists>occ \<in> set (occurrences e). occ_pre occ = st"
  by (cases e) auto

text \<open>A cleanup decision: nothing to do, or the removal of a scratch that holds the retained state.\<close>

lemma cleanup_decision:
  assumes d: "classify_committed_cleanup s index = Inr d" "halt_of d = None"
  shows "\<exists>item. index < length (snapshot_effects s) \<and> scratch_map s (scratch_key (snapshot_effects s ! index)) = Some item \<and>
    (so_entry item = ObservedAbsent \<and> decision_steps d = [] \<or>
     \<not> foreign {snapshot_effects s ! index} (so_entry item) \<and> (\<exists>remove. decision_steps d = [remove] \<and>
       provisional_after remove = Some (JointObservation []
         [ScratchObservation (effect_id_of (snapshot_effects s ! index)) (required_scratch_role (snapshot_effects s ! index)) ObservedAbsent None] [])))"
proof -
  let ?e = "snapshot_effects s ! index"
  let ?r = "\<lambda>item. if is_absent (so_entry item) then Inr (decision NO_ACTION (JointObservation [] [item] []) [] False)
      else if \<not> retains_scratch ?e then Inr (unattributable (JointObservation [] [item] []))
      else bindr (entry_state_of (so_entry item)) (\<lambda>st. bindr (expected_retained_state ?e) (\<lambda>retained.
        if st \<noteq> retained then Inr (unattributable (JointObservation [] [item] []))
        else remove_decision (case ?e of MoveNoClobber _ _ _ _ \<Rightarrow> REMOVE_ANCHOR | _ \<Rightarrow> REMOVE_SCRATCH) ?e (JointObservation [] [item] [])))"
  from d have "yields (classify_committed_cleanup s index) d" by (simp add: yields_def)
  then have i1: "index < length (snapshot_effects s)"
    and y: "yields (bindr (committed_scratch_joint s ?e) (\<lambda>observed. bindr (scratch_item observed) (\<lambda>item.
      if is_absent (so_entry item) then Inr (decision NO_ACTION observed [] False)
      else if \<not> retains_scratch ?e then Inr (unattributable observed)
      else bindr (entry_state_of (so_entry item)) (\<lambda>st. bindr (expected_retained_state ?e) (\<lambda>retained.
        if st \<noteq> retained then Inr (unattributable observed)
        else remove_decision (case ?e of MoveNoClobber _ _ _ _ \<Rightarrow> REMOVE_ANCHOR | _ \<Rightarrow> REMOVE_SCRATCH) ?e observed))))) d"
    unfolding classify_committed_cleanup_def Let_def yields_simps(2) by blast+
  from y obtain item where i2: "scratch_map s (scratch_key ?e) = Some item"
    by (auto simp: committed_scratch_joint_def yields_simps(4) bindr_Inr_iff lookup_or_Inr_iff)
  note i = i1 i2
  have k: "so_key item = scratch_key ?e"
    using i2 unfolding scratch_map_def scratch_dict_def by (auto dest!: dict_of_in_set)
  from y have b: "yields (?r item) d"
    by (simp only: committed_scratch_joint_def lookup_or_def i2 option.case bindr.simps scratch_item_def
        index_or_def joint_observation.sel) simp
  show ?thesis
  proof (cases "is_absent (so_entry item)")
    case True
    with b i show ?thesis by (simp add: yields_simps is_absent_iff)
  next
    case False
    with b obtain st kind where st: "entry_state_of (so_entry item) = Inr st" "expected_retained_state ?e = Inr st"
      and r: "yields (remove_decision kind ?e (JointObservation [] [item] [])) d"
      by (simp add: yields_simps) blast
    from st retained_declared have "\<not> foreign {?e} (so_entry item)" by (fastforce simp: foreign_def)
    moreover from r k have "\<exists>remove. decision_steps d = [remove] \<and> provisional_after remove = Some (JointObservation []
         [ScratchObservation (effect_id_of ?e) (required_scratch_role ?e) ObservedAbsent None] [])"
      by (auto simp: remove_decision_def remove_scratch_step_def replace_scratch_def yields_simps Let_def)
    ultimately show ?thesis using i by blast
  qed
qed

lemma cleanup_passes:
  assumes s: "issued u s" and d: "classify_committed_cleanup s index = Inr d" "halt_of d = None"
    and b: "bind_effect_steps u s (decision_steps d) = Inr (steps, t)"
  shows "passed u [snapshot_effects s ! index] s steps t \<and> persistent_map t = persistent_map s \<and> same_record s t"
proof -
  let ?e = "snapshot_effects s ! index"
  let ?after = "JointObservation [] [ScratchObservation (effect_id_of ?e) (required_scratch_role ?e) ObservedAbsent None] []"
  from cleanup_decision [OF d] obtain item where item: "scratch_map s (scratch_key ?e) = Some item"
    and c: "so_entry item = ObservedAbsent \<and> decision_steps d = [] \<or>
      \<not> foreign {?e} (so_entry item) \<and> (\<exists>remove. decision_steps d = [remove] \<and> provisional_after remove = Some ?after)"
    by blast
  from c show ?thesis
  proof (elim disjE conjE exE)
    assume "so_entry item = ObservedAbsent" "decision_steps d = []"
    with b item show ?thesis
      by (auto simp: bind_effect_steps_def passed_def scratch_entry_def same_record_def)
  next
    fix remove assume nf: "\<not> foreign {?e} (so_entry item)" and r: "decision_steps d = [remove]" "provisional_after remove = Some ?after"
    from b r obtain step where step: "bind_step s remove = Inr step" "apply_step u s step = Inr t" "steps = [step]"
      by (auto simp: bind_effect_steps_def bind_and_take_def take_step_def bindr_Inr_iff)
    note w = bound_step_write [OF s step(1,2) r(2)]
    then have a: "agrees t ?after" and p: "persistent_map t = persistent_map s" and sr: "same_record s t"
      and k: "\<And>k. k \<noteq> scratch_key ?e \<Longrightarrow> rel_option faded (scratch_map s k) (scratch_map t k)"
      by (auto simp: fun_eq_iff)
    have out: "outside_kept ?e s t" using p k by (simp add: outside_kept_def)
    have "present t x" if x: "foreign {?e} x" "present s x" for x
    proof -
      from x(2) consider q where "persistent_map s q = Some x"
        | k' y where "scratch_map s k' = Some y" "so_entry y = x" "so_relation y \<noteq> Some Build_STRICT_PREFIX"
        unfolding present_def by blast
      then show ?thesis
      proof cases
        case 1
        then show ?thesis using p by (auto simp: present_def)
      next
        case 2
        with nf x(1) item have "k' \<noteq> scratch_key ?e" by (metis option.inject)
        from k [OF this] 2 obtain z where "scratch_map t k' = Some z" "faded y z" by (auto simp: option_rel_Some1)
        with 2 show ?thesis unfolding present_def faded_def by (metis option.distinct(1))
      qed
    qed
    moreover have "scratch_entry t (scratch_key ?e) = Some ObservedAbsent"
      using agrees_observes [OF a] by (simp add: observes_def)
    ultimately have "passed u [?e] s steps t"
      unfolding passed_def step(3) using step(2) outside_kept_scratch [OF out] p by simp
    with p sr show ?thesis by blast
  qed
qed

lemma committed_loop_passes:
  assumes "committed_loop u source indices (acc, s) = Inr (Inr (steps, t))" and "issued u s"
  shows "\<exists>new. steps = acc @ new \<and> issued u t \<and> persistent_map t = persistent_map s \<and> same_record s t \<and>
    passed u (rev (map (\<lambda>i. snapshot_effects s ! i) indices)) s new t"
  using assms
proof (induction indices arbitrary: acc s)
  case Nil
  then show ?case by (auto simp: passed_none same_record_def)
next
  case (Cons index indices)
  from Cons.prems(1) obtain d local v where d: "classify_committed_cleanup s index = Inr d" "halt_of d = None"
    and b: "bind_effect_steps u s (decision_steps d) = Inr (local, v)"
    and rest: "committed_loop u source indices (acc @ local, v) = Inr (Inr (steps, t))"
    by (auto simp: bindr_Inr_iff guard_Inr_iff split: option.splits)
  note p = cleanup_passes [OF Cons.prems(2) d b]
  then have "apply_steps u s local = Inr v" by (simp add: passed_def)
  from issued_steps [OF Cons.prems(2) this] have v: "issued u v" .
  from Cons.IH [OF rest v] obtain new where n: "steps = (acc @ local) @ new" "issued u t" "persistent_map t = persistent_map v"
    "same_record v t" "passed u (rev (map (\<lambda>i. snapshot_effects v ! i) indices)) v new t" by blast
  have "snapshot_effects v = snapshot_effects s" using p by (simp add: same_record_def)
  with passed_append [OF conjunct1 [OF p] n(5)]
  have "passed u (rev (map (\<lambda>i. snapshot_effects s ! i) (index # indices))) s (local @ new) t" by simp
  with n p show ?case by (intro exI [of _ "local @ new"]) (auto intro: same_record_trans)
qed

lemma committed_loop_halts:
  "committed_loop u source indices w = Inr (Inl plan) \<Longrightarrow> \<exists>d steps. plan = HaltPlan source d steps"
proof (induction u source indices w rule: committed_loop.induct)
  case (2 u source index indices steps cursor)
  from 2(2) obtain d where x: "classify_committed_cleanup cursor index = Inr d" "validate_effect_decision d = Inr ()"
    by (auto simp: bindr_Inr_iff)
  show ?case
  proof (cases "halt_of d")
    case None
    with x 2(2) obtain local v where y: "\<not> refused d" "\<forall>step \<in> set (decision_steps d). step_type_of step = Step_remove"
      "bind_effect_steps u cursor (decision_steps d) = Inr (local, v)"
      "committed_loop u source indices (steps @ local, v) = Inr (Inl plan)"
      by (auto simp: bindr_Inr_iff guard_Inr_iff)
    from 2(1) [OF x None y(1,2,3) refl y(4)] show ?thesis .
  qed (use x 2(2) in \<open>auto simp: bindr_Inr_iff halted_decision_plan_def dest!: halt_plan_Inr\<close>)
qed simp

lemma surface_matches_True:
  "surface_matches final items = Inr True \<Longrightarrow> item \<in> set items \<Longrightarrow>
    \<exists>st. observed_state (po_entry item) = Inr st \<and> final (po_path item) = Some st"
  by (induction items) (auto simp: result_simps split: if_splits)

lemma observed_state_eq: "observed_state x = entry_state_of x"
  by (cases x) auto

text \<open>What a committed cleanup does to the snapshot it is bound to.\<close>

definition cleaned_up :: "unicode_tables \<Rightarrow> recovery_snapshot \<Rightarrow> recovery_step list \<Rightarrow> recovery_snapshot \<Rightarrow> bool" where
  "cleaned_up u s steps t \<longleftrightarrow>
     apply_steps u s steps = Inr t \<and> tx_state t = Tx_COMMITTED \<and> \<not> active t \<and>
     commit_decision t = commit_decision s \<and> journals t = journals s \<and> rollback_result t = rollback_result s \<and>
     persistent_map t = persistent_map s \<and>
     (\<forall>p. persistent_map t p \<noteq> None \<longrightarrow> state_at t p = final_at s p \<and> final_at s p \<noteq> None) \<and>
     (\<forall>e \<in> set (snapshot_effects s). scratch_entry t (scratch_key e) = Some ObservedAbsent) \<and>
     (\<forall>x. foreign (set (snapshot_effects s)) x \<and> present s x \<longrightarrow> run_holds u (\<lambda>v. present v x) s steps)"

lemma detach_run:
  assumes w: "issued u w" and a: "apply_steps u w [DetachActive] = Inr t"
  shows "journals t = journals w \<and> rollback_result t = rollback_result w \<and> tx_state t = tx_state w \<and>
    commit_decision t = commit_decision w \<and> persistent_map t = persistent_map w \<and> \<not> active t \<and>
    tx_state w \<in> {Tx_COMMITTED, Tx_ROLLED_BACK} \<and>
    (\<forall>k. scratch_entry t k = scratch_entry w k) \<and>
    (\<forall>x. present w x \<longrightarrow> run_holds u (\<lambda>v. present v x) w [DetachActive])"
proof -
  from a have y: "apply_step u w DetachActive = Inr t" by (simp add: bindr_Inr_iff)
  moreover have "present t x" if "present w x" for x
    by (rule non_mutating_present [OF w y _ that]) simp
  moreover have "scratch_entry t k = scratch_entry w k" for k
    by (rule non_mutating_scratch [OF w y]) simp
  ultimately show ?thesis
    using non_mutating_maps [OF w y]
    by (auto simp: reduce_detach_active_def guard_Inr_iff dest!: rebuild_Inr)
qed

lemma committed_plan_Inr:
  assumes s: "issued u s" and p: "committed_plan u s = Inr (ActionPlan b disp steps r)"
  shows "\<exists>t. b = s \<and> disp = COMMITTED_CLEANUP \<and> r = None \<and> cleaned_up u s steps t"
proof -
  let ?es = "snapshot_effects s"
  from p obtain matches where m: "committed_surface_matches s = Inr matches" by (auto simp: committed_plan_def bindr_Inr_iff)
  with p have m: "committed_surface_matches s = Inr True"
    by (cases matches) (auto simp: committed_plan_def dest!: halt_plan_Inr)
  from p m obtain out where l: "committed_loop u s [0..<length ?es] ([], s) = Inr out"
    and o: "(case out of Inl plan \<Rightarrow> Inr plan | Inr (steps, cursor) \<Rightarrow> bindr (apply_steps u cursor [DetachActive]) (\<lambda>settled.
           guard (tx_state settled = Tx_COMMITTED \<and> \<not> active settled) (cls_err CommittedNotSettled)
           (new_action_plan s COMMITTED_CLEANUP (steps @ [DetachActive])))) = Inr (ActionPlan b disp steps r)"
    by (auto simp: committed_plan_def bindr_Inr_iff simp del: apply_steps_simps)
  from o l obtain st w where out: "out = Inr (st, w)"
    by (cases out) (auto dest!: committed_loop_halts)
  with o obtain t where a: "apply_steps u w [DetachActive] = Inr t" "tx_state t = Tx_COMMITTED" "\<not> active t"
    and pl: "b = s" "disp = COMMITTED_CLEANUP" "steps = st @ [DetachActive]" "r = None"
    by (auto simp: bindr_Inr_iff guard_Inr_iff simp del: apply_steps_simps dest!: new_action_plan_Inr)
  have es: "rev (map (\<lambda>i. ?es ! i) [0..<length ?es]) = rev ?es" by (simp add: map_nth)
  from committed_loop_passes [OF l [unfolded out] s] es have w: "issued u w" "persistent_map w = persistent_map s"
    "same_record s w" "passed u (rev ?es) s st w" by auto
  note d = detach_run [OF w(1) a(1)]
  have run: "apply_steps u s st = Inr w" using w(4) by (simp add: passed_def)
  have "apply_steps u s steps = Inr t" unfolding pl(3) apply_steps_append run using a(1) by simp
  moreover have "run_holds u (\<lambda>v. present v x) s steps" if x: "foreign (set ?es) x" "present s x" for x
  proof -
    from w(4) x have r: "run_holds u (\<lambda>v. present v x) s st" by (simp add: passed_def)
    with run_holds_end [OF r run] d show ?thesis unfolding pl(3) by (blast intro: run_holds_append [OF run])
  qed
  moreover have "state_at t p = final_at s p \<and> final_at s p \<noteq> None" if q: "persistent_map t p \<noteq> None" for p
  proof -
    from q d w(2) obtain x where x: "persistent_map s p = Some x" by auto
    then have i: "PersistentObservation p x \<in> set (persistent_observations s)"
      by (simp add: persistent_map_Some issued_paths [OF s])
    have "distinct (map fst (pairs (final_surface (compiled_of (compiled s)))))"
      using issued_well_formed [OF s] by (auto simp: well_formed_def comp_def)
    with surface_matches_True [OF m [unfolded committed_surface_matches_def] i] obtain st where
      "entry_state_of x = Inr st" "final_at s p = Some st"
      by (auto simp: observed_state_eq final_at_def dict_of_distinct)
    with x d w(2) show ?thesis by (simp add: state_at_def)
  qed
  moreover have "\<forall>e \<in> set ?es. scratch_entry t (scratch_key e) = Some ObservedAbsent"
    using w(4) d by (simp add: passed_def)
  ultimately show ?thesis
    using pl a d w(2,3) unfolding cleaned_up_def by (intro exI [of _ t]) (auto simp: same_record_def)
qed

section \<open>Rebuilding a valid snapshot\<close>

lemma relation_required_error:
  "construction_relation_required err e j ps item = Inr b \<Longrightarrow> construction_relation_required err' e j ps item = Inr b"
  by (auto simp: construction_relation_required_def bindr_Inr_iff lookup_or_Inr_iff split: if_splits effect.splits)

lemma normalize_valid:
  assumes "validate_observations c rows ps xs = Inr ()"
  shows "normalize_file_build_relations c rows ps xs = Inr xs"
proof -
  have "normalize_relation c rows ps item = Inr item" if item: "item \<in> set xs" for item
  proof -
    from assms item have "validate_build_relation c rows ps item = Inr ()"
      by (simp add: validate_observations_def result_simps)
    then obtain e j required where e: "effect_dict c (so_effect_id item) = Some e" "journal_dict rows (so_effect_id item) = Some j"
      and r: "construction_relation_required KeyError e j (persistent_dict ps) item = Inr required"
      and eq: "required = (so_relation item \<noteq> None)"
      by (auto simp: validate_build_relation_def bindr_Inr_iff lookup_or_Inr_iff guard_Inr_iff)
    from relation_required_error [OF r, of "red_err ReplaceLiveMissing"] e eq show ?thesis
      by (cases "so_relation item") (simp_all add: normalize_relation_def lookup_or_def)
  qed
  then show ?thesis
    unfolding normalize_file_build_relations_def using traverse_id [of xs "normalize_relation c rows ps" "\<lambda>x. x"] by simp
qed

lemma rebuild_valid: "valid_snapshot u s \<Longrightarrow> rebuild u s = Inr s"
  using normalize_valid [of "compiled s" "journals s" "persistent_observations s" "scratch_observations s"]
  by (simp add: rebuild_def valid_snapshot_iff) (simp add: valid_snapshot_def valid_snapshot_iff build_recovery_snapshot_def)

section \<open>The plan of a classification\<close>

lemma touched_paths:
  assumes "issued u s"
  shows "persistent_map s p \<noteq> None \<longleftrightarrow> (\<exists>e \<in> set (snapshot_effects s). p \<in> set (effect_paths e))"
proof -
  from assms obtain spec where "compile_spec u spec = Inr (compiled s)" by (auto simp: issued_def)
  then have b: "build_timelines (snapshot_effects s) = Inr (timelines (compiled s))"
    by (auto simp: compile_spec_iff same_declarations_fields [OF canonicalize_same])
  have "persistent_map s p \<noteq> None \<longleftrightarrow> p \<in> po_path ` set (persistent_observations s)"
    unfolding persistent_map_def persistent_dict_def by (simp add: dict_of_None_iff image_image)
  also have "\<dots> \<longleftrightarrow> p \<in> occ_path ` set (all_occurrences (snapshot_effects s))"
    using valid_persistent_paths [OF issued_valid [OF assms]] timelines_of_build(2) [OF b] by simp
  finally show ?thesis by (auto simp: all_occurrences_def effect_paths_eq image_UN)
qed

lemma scratch_keys_effects:
  assumes "issued u s" and "scratch_entry s k \<noteq> None"
  shows "\<exists>e \<in> set (snapshot_effects s). k = scratch_key e"
proof -
  from assms(2) obtain item where "scratch_map s k = Some item" by (auto simp: scratch_entry_def)
  then have i: "item \<in> set (scratch_observations s)" "so_key item = k"
    unfolding scratch_map_Some [OF issued_scratch_keys [OF assms(1)]] by blast+
  have "k \<in> so_key ` set (scratch_observations s)" using imageI [OF i(1), of so_key] unfolding i(2) .
  then have "k \<in> scratch_key ` set (snapshot_effects s)"
    using valid_scratch_keys [OF issued_valid [OF assms(1)]] by (simp only:)
  then obtain e where "k = scratch_key e" "e \<in> set (snapshot_effects s)" by (rule imageE)
  then show ?thesis by (intro bexI)
qed

text \<open>The four sources of an action plan.\<close>

lemma classify_action:
  assumes s: "issued u s" and c: "classify_recovery u s = Inr (ActionPlan b disp steps r)"
  shows "b = s \<and> ((\<exists>t ref. classify_transaction_authority s = Inr (AuthorityDecision Authority_CLASSIFY None) \<and> tx_state s \<noteq> Tx_COMMITTED \<and>
        disp = (if ref then ROLL_BACK_REFUSED else ROLL_BACK) \<and> r = Some (rollback_result_of ref) \<and> rolled_back u s steps ref t) \<or>
     (\<exists>t. classify_transaction_authority s = Inr (AuthorityDecision Authority_CLASSIFY None) \<and> tx_state s = Tx_COMMITTED \<and>
        disp = COMMITTED_CLEANUP \<and> r = None \<and> cleaned_up u s steps t) \<or>
     classify_transaction_authority s = Inr (AuthorityDecision Authority_DETACH None) \<and>
        disp = DETACH_TERMINAL \<and> r = None \<and> steps = [DetachActive])"
proof -
  from c obtain auth where a: "classify_transaction_authority s = Inr auth"
    by (auto simp: classify_recovery_def bindr_Inr_iff)
  have shape: "auth = AuthorityDecision (authority_kind auth) None" if "authority_kind auth \<in> {Authority_CLASSIFY, Authority_DETACH}"
    using a that by (auto simp: classify_transaction_authority_def bindr_Inr_iff guard_Inr_iff split: if_splits option.splits)
  show ?thesis
  proof (cases "authority_kind auth")
    case Authority_CLASSIFY
    with a shape have a': "classify_transaction_authority s = Inr (AuthorityDecision Authority_CLASSIFY None)" by simp
    from c a' have "(if tx_state s = Tx_COMMITTED then committed_plan u s else rollback_plan u s) = Inr (ActionPlan b disp steps r)"
      by (auto simp: classify_recovery_def bindr_Inr_iff split: option.splits dest!: halt_plan_Inr)
    then show ?thesis
      using a' rollback_plan_Inr [OF s a', of b disp steps r] committed_plan_Inr [OF s, of b disp steps r]
      by (cases "tx_state s = Tx_COMMITTED") auto
  next
    case Authority_DETACH
    with a c shape show ?thesis
      by (auto simp: classify_recovery_def terminal_detach_plan_def dest!: new_action_plan_Inr)
  next
    case Authority_HALT
    with a c show ?thesis
      by (auto simp: classify_recovery_def split: option.splits dest!: halt_plan_Inr)
  qed (use a c in \<open>auto simp: classify_recovery_def stable_halt_plan_def new_halt_plan_def new_no_recovery_plan_def
      bindr_Inr_iff guard_Inr_iff split: option.splits\<close>)
qed

lemma detach_applies:
  assumes s: "issued u s" and a: "classify_transaction_authority s = Inr (AuthorityDecision Authority_DETACH None)"
  shows "active s \<and> tx_state s = Tx_ROLLED_BACK \<and> commit_decision s = Decision_UNCOMMITTED \<and>
    map row_state (journals s) \<in> undone_words \<and> (\<exists>t. apply_steps u s [DetachActive] = Inr t)"
proof -
  from a have x: "active s" "tx_state s = Tx_ROLLED_BACK" "commit_decision s = Decision_UNCOMMITTED"
    "map row_state (journals s) \<in> undone_words"
    by (auto simp: classify_transaction_authority_def bindr_Inr_iff guard_Inr_iff compatible_commit_decision_def
        require_snapshot_def rolled_back_language_iff split: if_splits option.splits)
  moreover have "rebuild u (s\<lparr>active := False\<rparr>) = Inr (s\<lparr>active := False\<rparr>)"
    by (rule rebuild_valid) (use issued_valid [OF s] in \<open>auto simp: valid_snapshot_iff validate_terminal_payloads_def guard_Inr_iff split: option.splits\<close>)
  ultimately show ?thesis by (auto simp: reduce_detach_active_def)
qed

lemma action_applies:
  assumes s: "issued u s" and c: "classify_recovery u s = Inr (ActionPlan b disp steps r)"
  shows "b = s \<and> (\<exists>t. apply_steps u s steps = Inr t)"
  using classify_action [OF s c] detach_applies [OF s] by (auto simp: rolled_back_def cleaned_up_def)

lemma action_run:
  assumes s: "issued u s" and c: "classify_recovery u s = Inr (ActionPlan b disp steps r)"
  shows "apply_recovery_plan u s (ActionPlan b disp steps r) = apply_steps u s steps \<and>
    (n \<le> length steps \<longrightarrow> reduce_recovery_plan_prefix u s (ActionPlan b disp steps r) n = apply_steps u s (take n steps))"
  using action_applies [OF s c] by (simp add: apply_recovery_plan_def reduce_recovery_plan_prefix_def)

lemma prefix_applies:
  assumes "apply_steps u s steps = Inr t"
  shows "\<exists>v. apply_steps u s (take n steps) = Inr v"
proof -
  from assms have "foldr_r (apply_step u) s (take n steps @ drop n steps) = Inr t" by (simp add: apply_steps_def)
  from issued_run.prefix_runs [OF this] show ?thesis by (auto simp: apply_steps_def)
qed

lemma steps_keep: "apply_steps u s steps = Inr t \<Longrightarrow> keeps_issued u s t"
  using issued_run.run_keeps by (simp add: apply_steps_def)

text \<open>Where an action plan ends.\<close>

lemma action_end:
  assumes s: "issued u s" and c: "classify_recovery u s = Inr (ActionPlan b disp steps r)"
    and t: "apply_steps u s steps = Inr t"
  shows "\<not> active t \<and> tx_state t = (if tx_state s = Tx_COMMITTED then Tx_COMMITTED else Tx_ROLLED_BACK) \<and>
    compatible_commit_decision (tx_state t) (commit_decision t) \<and>
    map row_state (journals t) \<in> journal_words (tx_state t)"
proof -
  from classify_action [OF s c] show ?thesis
  proof (elim disjE conjE exE)
    fix t' ref assume nc: "tx_state s \<noteq> Tx_COMMITTED" and rb: "rolled_back u s steps ref t'"
    note r = rolled_backD [OF rb]
    from r(1) t have "t' = t" by simp
    with r nc show ?thesis by (simp add: compatible_commit_decision_def)
  next
    fix t' assume "classify_transaction_authority s = Inr (AuthorityDecision Authority_CLASSIFY None)"
      "tx_state s = Tx_COMMITTED" "cleaned_up u s steps t'"
    with t authority_classify [OF issued_valid [OF s]] show ?thesis
      by (simp add: cleaned_up_def compatible_commit_decision_def)
  next
    assume d: "classify_transaction_authority s = Inr (AuthorityDecision Authority_DETACH None)" "steps = [DetachActive]"
    from detach_applies [OF s d(1)] detach_run [OF s t [unfolded d(2)]] show ?thesis
      by (simp add: compatible_commit_decision_def)
  qed
qed

lemma inactive_terminal:
  assumes "valid_snapshot u t" and "\<not> active t" and "tx_state t \<in> {Tx_COMMITTED, Tx_ROLLED_BACK}"
    and "compatible_commit_decision (tx_state t) (commit_decision t)" and "map row_state (journals t) \<in> journal_words (tx_state t)"
  shows "classify_recovery u t = Inr (NoRecoveryPlan t)"
proof -
  have "classify_transaction_authority t = Inr (AuthorityDecision Authority_NO_RECOVERY None)"
    using assms valid_rows [OF assms(1)]
    by (auto simp: classify_transaction_authority_def require_snapshot_def legal_language simp del: legal_journal_language.simps)
  then show ?thesis by (simp add: classify_recovery_def new_no_recovery_plan_def)
qed

lemma action_foreign:
  assumes s: "issued u s" and c: "classify_recovery u s = Inr (ActionPlan b disp steps r)"
    and x: "foreign (set (snapshot_effects s)) x" "present s x"
  shows "run_holds u (\<lambda>v. present v x) s steps"
proof -
  from classify_action [OF s c] show ?thesis
  proof (elim disjE conjE exE)
    fix t ref assume "rolled_back u s steps ref t"
    from rolled_backD(9) [OF this x] show ?thesis .
  next
    fix t assume "cleaned_up u s steps t"
    with x show ?thesis unfolding cleaned_up_def by blast
  next
    assume d: "classify_transaction_authority s = Inr (AuthorityDecision Authority_DETACH None)" "steps = [DetachActive]"
    from detach_applies [OF s d(1)] obtain t where t: "apply_steps u s [DetachActive] = Inr t" by blast
    from detach_run [OF s this] x(2) d(2) show ?thesis by blast
  qed
qed

section \<open>Properties\<close>

text \<open>
  C14: Recovery plans run to their end. For a snapshot the factory issued, an action plan of
  the classifier is bound to that snapshot, every prefix of its steps reduces without an
  error, and the whole plan leads to a snapshot of the same transaction that the factory
  would issue again.
\<close>

theorem recovery_plan_applies:
  assumes "issued u s" and "classify_recovery u s = Inr (ActionPlan b disp steps r)"
  shows "b = s \<and>
    (\<forall>n \<le> length steps. okay (reduce_recovery_plan_prefix u s (ActionPlan b disp steps r) n)) \<and>
    (\<exists>t. apply_recovery_plan u s (ActionPlan b disp steps r) = Inr t \<and> issued u t \<and> same_transaction s t)"
proof -
  from action_applies [OF assms] obtain t where t: "b = s" "apply_steps u s steps = Inr t" by blast
  have "okay (reduce_recovery_plan_prefix u s (ActionPlan b disp steps r) n)" if "n \<le> length steps" for n
    using prefix_applies [OF t(2), of n] action_run [OF assms, of n] that by auto
  moreover have "same_transaction s t" using steps_keep [OF t(2)] by (simp add: keeps_issued_def)
  ultimately show ?thesis using t action_run [OF assms] issued_steps [OF assms(1) t(2)] by auto
qed

theorem recovery_plan_applies_example:
  "okay (reduce_recovery_plan_prefix plain_tables crashed crashed_plan 5) \<and>
   (\<exists>t. apply_recovery_plan plain_tables crashed crashed_plan = Inr t \<and> issued plain_tables t \<and> same_transaction crashed t)"
proof -
  have "5 \<le> length crashed_steps" by code_simp
  then show ?thesis
    using recovery_plan_applies [OF crashed_issued crashed_classifies [unfolded crashed_plan_def]]
    by (simp add: crashed_plan_def)
qed

text \<open>
  C3: Recovery settles the transaction and is then done. After an action plan the transaction
  is no longer active, it is committed if it was committed before and rolled back otherwise,
  and classifying the result again asks for nothing.
\<close>

theorem recovery_converges:
  assumes "issued u s" and "classify_recovery u s = Inr (ActionPlan b disp steps r)"
    and "apply_recovery_plan u s (ActionPlan b disp steps r) = Inr t"
  shows "\<not> active t \<and> tx_state t = (if tx_state s = Tx_COMMITTED then Tx_COMMITTED else Tx_ROLLED_BACK) \<and>
    classify_recovery u t = Inr (NoRecoveryPlan t)"
proof -
  from assms(3) have t: "apply_steps u s steps = Inr t" using action_run [OF assms(1,2)] by simp
  note e = action_end [OF assms(1,2) t]
  then show ?thesis
    using inactive_terminal [OF issued_valid [OF issued_steps [OF assms(1) t]]] by (auto split: if_splits)
qed

lemma crashed_applies: "apply_recovery_plan plain_tables crashed crashed_plan = Inr recovered"
  using crashed_steps_apply action_run [OF crashed_issued crashed_classifies [unfolded crashed_plan_def]]
  by (simp add: crashed_plan_def)

theorem recovery_converges_example:
  "\<not> active recovered \<and> tx_state recovered = (if tx_state crashed = Tx_COMMITTED then Tx_COMMITTED else Tx_ROLLED_BACK) \<and>
   classify_recovery plain_tables recovered = Inr (NoRecoveryPlan recovered)"
  by (rule recovery_converges [OF crashed_issued crashed_classifies [unfolded crashed_plan_def]
      crashed_applies [unfolded crashed_plan_def]])

text \<open>
  C1: A rollback that is not refused restores the project. After the plan every path the
  transaction touches is in the state that the initial surface declares, every scratch of
  every effect is gone, every effect is undone or was never started, and the recorded result
  is \<open>RESTORED\<close>.
\<close>

theorem rollback_restores:
  assumes "issued u s" and "classify_recovery u s = Inr (ActionPlan b ROLL_BACK steps r)"
    and "apply_recovery_plan u s (ActionPlan b ROLL_BACK steps r) = Inr t"
  shows "(\<forall>p. persistent_map t p \<noteq> None \<longrightarrow> state_at t p = initial_at s p) \<and>
    (\<forall>k x. scratch_entry t k = Some x \<longrightarrow> x = ObservedAbsent) \<and>
    map row_state (journals t) \<in> undone_words \<and> rollback_result t = Some Result_RESTORED"
proof -
  from assms(3) have t: "apply_steps u s steps = Inr t" using action_run [OF assms(1,2)] by simp
  from classify_action [OF assms(1,2)] t have rb: "rolled_back u s steps False t"
    by (auto simp: rolled_backD(1) split: if_splits dest: rolled_backD(1))
  note r = rolled_backD [OF rb]
  have it: "issued u t" using issued_steps [OF assms(1) t] .
  have es: "snapshot_effects t = snapshot_effects s"
    using steps_keep [OF t] by (simp add: keeps_issued_def same_transaction_def)
  have "state_at t p = initial_at s p" if "persistent_map t p \<noteq> None" for p
    using touched_paths [OF it, of p] that r(8) es by auto
  moreover have "x = ObservedAbsent" if k: "scratch_entry t k = Some x" for k x
  proof -
    from k have "scratch_entry t k \<noteq> None" by simp
    from scratch_keys_effects [OF it this] obtain e where "e \<in> set (snapshot_effects s)" "k = scratch_key e" using es by auto
    with r(7) k show ?thesis by force
  qed
  ultimately show ?thesis using r(4,6) by (simp add: rollback_result_of_def)
qed

theorem rollback_restores_example:
  "state_at recovered path_l = Some link \<and> initial_at crashed path_l = Some link \<and>
   state_at recovered path_d = initial_at crashed path_d \<and>
   scratch_entry recovered (id1, Scratch_WORK) = Some ObservedAbsent \<and>
   map row_state (journals recovered) \<in> undone_words \<and> rollback_result recovered = Some Result_RESTORED"
proof -
  have "persistent_map recovered path_l \<noteq> None" "persistent_map recovered path_d \<noteq> None"
    "scratch_entry recovered (id1, Scratch_WORK) \<noteq> None" "initial_at crashed path_l = Some link"
    by code_simp+
  then show ?thesis
    using rollback_restores [OF crashed_issued crashed_classifies [unfolded crashed_plan_def]
      crashed_applies [unfolded crashed_plan_def]] by force
qed

text \<open>
  C2: Recovery never loses what it does not know. An entry whose state no effect of the
  transaction declares, which is no directory under construction and not a strict prefix of a
  file being written, is still observed after every prefix of an action plan, wherever the
  plan may have moved it.
\<close>

theorem foreign_entries_survive:
  assumes "issued u s" and "classify_recovery u s = Inr (ActionPlan b disp steps r)"
    and "foreign (set (snapshot_effects s)) x" and "present s x" and "n \<le> length steps"
  shows "\<exists>v. reduce_recovery_plan_prefix u s (ActionPlan b disp steps r) n = Inr v \<and> present v x"
  using run_holds_prefix [OF action_foreign [OF assms(1-4)] assms(5)] action_run [OF assms(1,2), of n] assms(5) by auto

text \<open>A foreign symbolic link stands where the directory was about to be created.\<close>

definition intruder :: observed_entry where
  "intruder = ObservedSymlink (SymlinkState [120] 511)"

definition drifted :: recovery_snapshot where
  "drifted = small Tx_APPLYING J_DONE J_STARTED ObservedAbsent intruder (ObservedSymlink link) scaffold"

definition drifted_steps :: "recovery_step list" where
  "drifted_steps = (case classify_recovery plain_tables drifted of Inr plan \<Rightarrow> plan_steps plan | Inl _ \<Rightarrow> [])"

lemma drifted_issued: "issued plain_tables drifted"
proof (rule small_compiled_issued)
  show "compiled drifted = small_compiled" by (simp add: drifted_def small_def)
  show "valid_snapshot plain_tables drifted" unfolding valid_snapshot_iff by code_simp
qed

lemma drifted_classifies: "classify_recovery plain_tables drifted =
    Inr (ActionPlan drifted ROLL_BACK_REFUSED drifted_steps (Some Result_EXTERNAL_DRIFT_PRESERVED))"
  by code_simp

theorem foreign_entries_survive_example:
  "\<exists>v. reduce_recovery_plan_prefix plain_tables drifted
     (ActionPlan drifted ROLL_BACK_REFUSED drifted_steps (Some Result_EXTERNAL_DRIFT_PRESERVED)) 5 = Inr v \<and> present v intruder"
proof (rule foreign_entries_survive [OF drifted_issued drifted_classifies])
  show "foreign (set (snapshot_effects drifted)) intruder" unfolding foreign_def by code_simp
  have "persistent_map drifted path_d = Some intruder" by code_simp
  then show "present drifted intruder" by (auto simp: present_def)
  show "5 \<le> length drifted_steps" by code_simp
qed

text \<open>
  C16: The cleanup of a committed transaction changes nothing but scratch. After the plan the
  live paths are as they were observed, and in the states of the final surface; every scratch
  is gone; journals and commit decision are untouched.
\<close>

theorem committed_cleanup:
  assumes "issued u s" and "classify_recovery u s = Inr (ActionPlan b COMMITTED_CLEANUP steps r)"
    and "apply_recovery_plan u s (ActionPlan b COMMITTED_CLEANUP steps r) = Inr t"
  shows "persistent_map t = persistent_map s \<and>
    (\<forall>p. persistent_map t p \<noteq> None \<longrightarrow> state_at t p = final_at s p) \<and>
    (\<forall>k x. scratch_entry t k = Some x \<longrightarrow> x = ObservedAbsent) \<and>
    journals t = journals s \<and> commit_decision t = commit_decision s"
proof -
  from assms(3) have t: "apply_steps u s steps = Inr t" using action_run [OF assms(1,2)] by simp
  from classify_action [OF assms(1,2)] t have cl: "cleaned_up u s steps t"
    by (auto simp: cleaned_up_def split: if_splits)
  have it: "issued u t" using issued_steps [OF assms(1) t] .
  have es: "snapshot_effects t = snapshot_effects s"
    using steps_keep [OF t] by (simp add: keeps_issued_def same_transaction_def)
  have "x = ObservedAbsent" if k: "scratch_entry t k = Some x" for k x
  proof -
    from k have "scratch_entry t k \<noteq> None" by simp
    from scratch_keys_effects [OF it this] obtain e where "e \<in> set (snapshot_effects s)" "k = scratch_key e" using es by auto
    with cl k show ?thesis by (force simp: cleaned_up_def)
  qed
  with cl show ?thesis by (simp add: cleaned_up_def)
qed

definition landed :: "observed_entry \<Rightarrow> recovery_snapshot" where
  "landed tombstone = small Tx_COMMITTED J_DONE J_DONE ObservedAbsent (ObservedDirectory dir_a 3 (Some False)) tombstone ObservedAbsent"

definition landed_steps :: "recovery_step list" where
  "landed_steps = (case classify_recovery plain_tables (landed (ObservedSymlink link)) of Inr plan \<Rightarrow> plan_steps plan | Inl _ \<Rightarrow> [])"

lemma landed_issued: "issued plain_tables (landed (ObservedSymlink link))"
proof (rule small_compiled_issued)
  show "compiled (landed (ObservedSymlink link)) = small_compiled" by (simp add: landed_def small_def)
  show "valid_snapshot plain_tables (landed (ObservedSymlink link))" unfolding valid_snapshot_iff by code_simp
qed

theorem committed_cleanup_example:
  "let s = landed (ObservedSymlink link); t = (landed ObservedAbsent)\<lparr>active := False\<rparr> in
   persistent_map t = persistent_map s \<and> state_at t path_d = Some dir_a \<and> final_at s path_d = Some dir_a \<and>
   scratch_entry t (id0, Scratch_TOMBSTONE) = Some ObservedAbsent \<and>
   journals t = journals s \<and> commit_decision t = commit_decision s"
proof -
  let ?s = "landed (ObservedSymlink link)" and ?t = "(landed ObservedAbsent)\<lparr>active := False\<rparr>"
  have c: "classify_recovery plain_tables ?s = Inr (ActionPlan ?s COMMITTED_CLEANUP landed_steps None)"
    by code_simp
  have a: "apply_recovery_plan plain_tables ?s (ActionPlan ?s COMMITTED_CLEANUP landed_steps None) = Inr ?t"
    by code_simp
  have p: "persistent_map ?t path_d \<noteq> None" and k: "scratch_entry ?t (id0, Scratch_TOMBSTONE) = Some ObservedAbsent"
    and f: "final_at ?s path_d = Some dir_a" by code_simp+
  note cleanup = committed_cleanup [OF landed_issued c a]
  note restored = cleanup [THEN conjunct2, THEN conjunct1, rule_format, OF p]
  show ?thesis
    unfolding Let_def
    by (intro conjI cleanup [THEN conjunct1] trans [OF restored f] f k
        cleanup [THEN conjunct2, THEN conjunct2, THEN conjunct2, THEN conjunct1]
        cleanup [THEN conjunct2, THEN conjunct2, THEN conjunct2, THEN conjunct2])
qed

end
