(* ===== verification/RollbackVectors.thy ===== *)
theory RollbackVectors
  imports ClassifierCorrect
begin

text \<open>
  The journals on the way through a rollback: after every step of the plan the effects behind
  a cut are settled, those before it are as they were, and at most the one at the cut has its
  undo open; and which of these vectors the classifier would accept after a crash there.
\<close>

section \<open>Vectors on the way\<close>

text \<open>
  The rollback of the vector \<open>w\<close> passes through \<open>v\<close>: everything from some effect on is
  settled, nothing before it is touched, and that effect itself may be open.
\<close>

definition undoing :: "journal_state list \<Rightarrow> journal_state list \<Rightarrow> bool" where
  "undoing w v \<longleftrightarrow>
     (\<exists>before rest. w = before @ rest \<and> v = before @ map settled_journal rest) \<or>
     (\<exists>before j rest. w = before @ j # rest \<and> j \<notin> settled_letters \<and>
        v = before @ J_UNDO_STARTED # map settled_journal rest)"

lemma undoing_refl: "undoing w w"
  by (simp add: undoing_def) (metis append_Nil2 list.map_disc_iff)

lemma settled_journal_letters: "settled_journal j \<in> settled_letters"
  by (cases j) (auto simp: settled_journal_def)

lemma settled_journal_id: "j \<in> settled_letters \<Longrightarrow> settled_journal j = j"
  by (auto simp: settled_journal_def)

lemma map_settled_id: "set r \<subseteq> settled_letters \<Longrightarrow> map settled_journal r = r"
  by (induction r) (auto simp: settled_journal_id)

lemma map_settled_letters: "set (map settled_journal r) \<subseteq> settled_letters"
  using settled_journal_letters by auto

text \<open>Settling one effect after those behind it, and going on from there.\<close>

lemma undoing_settled:
  assumes "set r \<subseteq> settled_letters" and "undoing (l @ settled_journal j # r) v"
  shows "undoing (l @ j # r) v"
  using assms(2) unfolding undoing_def
proof (elim disjE exE conjE)
  fix before rest assume w: "l @ settled_journal j # r = before @ rest" and v: "v = before @ map settled_journal rest"
  have twice: "settled_journal (settled_journal j) = settled_journal j"
    by (rule settled_journal_id) (rule settled_journal_letters)
  show "(\<exists>before rest. l @ j # r = before @ rest \<and> v = before @ map settled_journal rest) \<or>
     (\<exists>before j' rest. l @ j # r = before @ j' # rest \<and> j' \<notin> settled_letters \<and>
        v = before @ J_UNDO_STARTED # map settled_journal rest)"
  proof (cases "length before \<le> length l")
    case True
    with w obtain us where "l = before @ us" "rest = us @ settled_journal j # r"
      by (auto simp: append_eq_append_conv2)
    then have "l @ j # r = before @ (us @ j # r) \<and> v = before @ map settled_journal (us @ j # r)"
      by (simp add: v twice)
    then show ?thesis by blast
  next
    case False
    with w obtain us where us: "before = l @ settled_journal j # us" "r = us @ rest"
      by (auto simp: append_eq_append_conv2 Cons_eq_append_conv)
    then have "v = l @ map settled_journal (j # r)"
      using assms(1) by (simp add: v map_settled_id)
    then show ?thesis by blast
  qed
next
  fix before j' rest assume w: "l @ settled_journal j # r = before @ j' # rest" and j': "j' \<notin> settled_letters"
    and v: "v = before @ J_UNDO_STARTED # map settled_journal rest"
  have "j' \<notin> set (settled_journal j # r)" using j' assms(1) settled_journal_letters [of j] by auto
  then obtain us where us: "l = before @ j' # us" "rest = us @ settled_journal j # r"
    using w by (auto simp: append_eq_append_conv2 Cons_eq_append_conv append_eq_Cons_conv)
  then have "l @ j # r = before @ j' # (us @ j # r) \<and> v = before @ J_UNDO_STARTED # map settled_journal (us @ j # r)"
    by (simp add: v settled_journal_id [OF settled_journal_letters])
  with j' show "(\<exists>before rest. l @ j # r = before @ rest \<and> v = before @ map settled_journal rest) \<or>
     (\<exists>before j' rest. l @ j # r = before @ j' # rest \<and> j' \<notin> settled_letters \<and>
        v = before @ J_UNDO_STARTED # map settled_journal rest)" by blast
qed

lemma settle_suffix: "before @ rest \<in> rolling_words \<Longrightarrow> before @ map settled_journal rest \<in> rolling_words"
proof (induction rest arbitrary: before)
  case (Cons j rest)
  from Cons.IH [of "before @ [j]"] Cons.prems have "before @ j # map settled_journal rest \<in> rolling_words" by simp
  from rolling_settle [OF this map_settled_letters] show ?case by simp
qed simp

lemma undoing_legal:
  assumes w: "w \<in> rolling_words" and v: "undoing w v"
  shows "v \<in> rolling_words \<longleftrightarrow> \<not> open_before_pending v"
  using v unfolding undoing_def
proof (elim disjE exE conjE)
  fix before rest assume "w = before @ rest" "v = before @ map settled_journal rest"
  with w settle_suffix have "v \<in> rolling_words" by blast
  with open_illegal show ?thesis by blast
next
  fix before j rest assume x: "w = before @ j # rest" "j \<notin> settled_letters"
    "v = before @ J_UNDO_STARTED # map settled_journal rest"
  then have b: "set before \<subseteq> {J_DONE}"
    using before_unsettled [of before j rest] w by (cases j) auto
  have "before @ [j] @ map settled_journal rest \<in> rolling_words"
    using settle_suffix [of "before @ [j]" rest] w x(1) by simp
  then have u: "map settled_journal rest \<in> undone_words"
    using rolling_settled [OF rolling_suffix [of "before @ [j]"] map_settled_letters] by simp
  have "v \<in> reverse_words \<longleftrightarrow> \<not> open_before_pending v"
    unfolding x(3) by (rule open_legal_iff [OF b u])
  with open_illegal [of v] show ?thesis by blast
qed

section \<open>The journals of one reversal\<close>

text \<open>The steps a decision is bound to write no journal.\<close>

lemma bound_run:
  assumes "foldr_r (bind_and_take u) (acc, s) ps = Inr (steps, t)" and "issued u s"
  shows "\<exists>new. steps = acc @ new \<and> apply_steps u s new = Inr t \<and> run_holds u (same_record s) s new"
  using assms
proof (induction ps arbitrary: acc s)
  case Nil
  then show ?case by (auto simp: same_record_def)
next
  case (Cons p ps)
  from Cons.prems(1) obtain step v where b: "bind_step s p = Inr step" "apply_step u s step = Inr v"
    and rest: "foldr_r (bind_and_take u) (acc @ [step], v) ps = Inr (steps, t)"
    by (auto simp: bind_and_take_def take_step_def bindr_Inr_iff)
  from Cons.IH [OF rest issued_step [OF Cons.prems(2) b(2)]] obtain new where
    new: "steps = (acc @ [step]) @ new" "apply_steps u v new = Inr t" "run_holds u (same_record v) v new" by blast
  have "same_record s v"
  proof (cases "provisional_after p")
    case (Some after)
    with bound_step_write [OF Cons.prems(2) b Some] show ?thesis by blast
  next
    case None
    with b obtain nodes where "p = PreserveExternal nodes" "step = p" by (cases p) auto
    with b(2) show ?thesis by (auto simp: same_record_def dest: preserve_external_Inr)
  qed
  with new(3) have "run_holds u (same_record s) v new"
    using run_holds_mono same_record_trans by metis
  then have "run_holds u (same_record s) s (step # new)"
    using b(2) by (auto simp: same_record_def)
  with new(1,2) b(2) show ?case by (intro exI [of _ "step # new"]) simp
qed

text \<open>The journals an effect goes through: untouched, open, settled.\<close>

definition at_effect :: "recovery_snapshot \<Rightarrow> nat \<Rightarrow> recovery_snapshot \<Rightarrow> bool" where
  "at_effect s index v \<longleftrightarrow> same_phase s v \<and>
     (journals v = journals s \<or>
      row_state (journals s ! index) \<notin> settled_letters \<and> journals v = set_row (journals s) index J_UNDO_STARTED \<or>
      journals v = set_row (journals s) index (settled_journal (row_state (journals s ! index))))"

lemma reversal_run:
  assumes s: "issued u s" and r: "reverse_effect_steps u s index d = Inr steps"
  shows "run_holds u (at_effect s index) s steps"
proof -
  from r obtain e row begun v bound w fin where
    e: "index_or (snapshot_effects s) index = Inr e" "index_or (journals s) index = Inr row"
    and b: "begin_undo u s (effect_id_of e) (row_state row) = Inr (begun, v)"
    and bs: "foldr_r (bind_and_take u) ([], v) (decision_steps d) = Inr (bound, w)"
    and f: "finish_undo u (begun @ bound, w) (effect_id_of e) (row_state row) = Inr (steps, fin)"
    by (auto simp: reverse_effect_steps_def bindr_Inr_iff guard_Inr_iff bind_effect_steps_def)
  let ?e = "snapshot_effects s ! index" and ?j = "row_state (journals s ! index)"
  have i: "index < length (snapshot_effects s)" "e = ?e" "row = journals s ! index"
    using e by (auto simp: index_or_def split: if_splits)
  note row = issued_row_at [OF s i(1)]
  have letters: "?j \<notin> {J_STARTED, J_DONE, J_UNDO_STARTED} \<longleftrightarrow> ?j \<in> settled_letters" by (cases ?j) auto
  have s0: "at_effect s index s" by (simp add: at_effect_def same_phase_def)
  have "apply_steps u s begun = Inr v \<and> run_holds u (at_effect s index) s begun \<and> issued u v \<and> same_phase s v \<and>
    journals v = (if ?j \<in> {J_STARTED, J_DONE} then set_row (journals s) index J_UNDO_STARTED else journals s)"
  proof (cases "?j \<in> {J_STARTED, J_DONE}")
    case True
    with b have x: "apply_step u s (TransitionEffectState (effect_id_of ?e) ?j J_UNDO_STARTED) = Inr v"
      "begun = [TransitionEffectState (effect_id_of ?e) ?j J_UNDO_STARTED]"
      unfolding i by (auto simp: begin_undo_def take_step_def bindr_Inr_iff)
    with True transition_row [OF s i(1), of ?j J_UNDO_STARTED v] show ?thesis
      using s0 issued_step [OF s x(1)] by (auto simp: at_effect_def)
  next
    case False
    with b s s0 show ?thesis unfolding i by (auto simp: begin_undo_def same_phase_def)
  qed
  then have v: "apply_steps u s begun = Inr v" "run_holds u (at_effect s index) s begun" "issued u v" "same_phase s v"
    "journals v = (if ?j \<in> {J_STARTED, J_DONE} then set_row (journals s) index J_UNDO_STARTED else journals s)"
    by blast+
  from bound_run [OF bs v(3)] have w: "apply_steps u v bound = Inr w" "run_holds u (same_record v) v bound" by auto
  have rv: "same_record v x \<Longrightarrow> same_phase s x \<and> journals x = journals v" for x
    using v(4) same_record_phase [of v x] same_phase_trans by blast
  then have "same_record v x \<Longrightarrow> at_effect s index x" for x
    using v(5) letters unfolding at_effect_def by auto
  from run_holds_mono [OF w(2) this] have "run_holds u (at_effect s index) v bound" .
  from run_holds_append [OF v(1,2) this] have begun: "run_holds u (at_effect s index) s (begun @ bound)" .
  have run: "apply_steps u s (begun @ bound) = Inr w" using v(1) w(1) by (simp add: apply_steps_append)
  have wi: "issued u w" "same_phase s w" "journals w = journals v"
    using issued_steps [OF v(3) w(1)] rv [OF run_holds_end [OF w(2,1)]] by blast+
  show ?thesis
  proof (cases "?j \<in> settled_letters")
    case True
    with f letters have "steps = begun @ bound" unfolding i by (auto simp: finish_undo_def)
    with begun show ?thesis by simp
  next
    case False
    have es: "snapshot_effects w = snapshot_effects s" using wi(2) by (simp add: same_phase_def)
    let ?step = "TransitionEffectState (effect_id_of ?e) J_UNDO_STARTED J_UNDONE"
    from False f letters have x: "apply_step u w ?step = Inr fin" "steps = (begun @ bound) @ [?step]"
      unfolding i by (auto simp: finish_undo_def take_step_def bindr_Inr_iff)
    have "transition_effect u w (effect_id_of (snapshot_effects w ! index)) J_UNDO_STARTED J_UNDONE = Inr fin"
      using x(1) es by simp
    from transition_row [OF wi(1) _ this] i(1) es
    have "journals fin = set_row (journals w) index J_UNDONE" "same_phase w fin" by auto
    moreover from False have "settled_journal ?j = J_UNDONE" by (auto simp: settled_journal_def)
    ultimately have "at_effect s index fin"
      using wi(2,3) v(5) row same_phase_trans by (auto simp: at_effect_def set_row_simps)
    moreover have "at_effect s index w" using run_holds_end [OF begun run] .
    ultimately have "run_holds u (at_effect s index) w [?step]" using x(1) by simp
    from run_holds_append [OF run begun this] show ?thesis unfolding x(2) .
  qed
qed

section \<open>The journals of a rollback\<close>

abbreviation states_of_journals :: "recovery_snapshot \<Rightarrow> journal_state list" where
  "states_of_journals s \<equiv> map row_state (journals s)"

lemma settled_right:
  assumes "\<forall>i < length rows. index < i \<longrightarrow> row_state (rows ! i) \<in> settled_letters"
  shows "set (drop (Suc index) (map row_state rows)) \<subseteq> settled_letters"
proof
  fix x assume "x \<in> set (drop (Suc index) (map row_state rows))"
  then obtain k where "k < length (drop (Suc index) (map row_state rows))" "x = drop (Suc index) (map row_state rows) ! k"
    unfolding in_set_conv_nth by blast
  then have "Suc index + k < length rows" "x = row_state (rows ! (Suc index + k))" by auto
  with assms show "x \<in> settled_letters" by auto
qed

lemma at_effect_undoing:
  assumes i: "index < length (journals s)" and v: "at_effect s index v"
    and right: "\<forall>i < length (journals s). index < i \<longrightarrow> row_state (journals s ! i) \<in> settled_letters"
  shows "undoing (states_of_journals s) (states_of_journals v)"
proof -
  let ?w = "states_of_journals s" and ?j = "row_state (journals s ! index)"
  have split: "?w = take index ?w @ ?j # drop (Suc index) ?w"
    using i id_take_nth_drop [of index ?w] by simp
  have r: "map settled_journal (drop (Suc index) ?w) = drop (Suc index) ?w"
    by (rule map_settled_id [OF settled_right [OF right]])
  have row: "states_of_journals v = take index ?w @ j # drop (Suc index) ?w"
    if "journals v = set_row (journals s) index j" for j
    using that i by (simp add: set_row_def upd_conv_take_nth_drop take_map drop_map)
  from v show ?thesis
    unfolding at_effect_def
  proof (elim conjE disjE)
    assume "journals v = journals s"
    then show ?thesis by (simp add: undoing_refl)
  next
    assume "?j \<notin> settled_letters" "journals v = set_row (journals s) index J_UNDO_STARTED"
    with split r row show ?thesis unfolding undoing_def by metis
  next
    assume "journals v = set_row (journals s) index (settled_journal ?j)"
    with row r have "states_of_journals v = take index ?w @ map settled_journal (?j # drop (Suc index) ?w)" by simp
    with split show ?thesis unfolding undoing_def by blast
  qed
qed

definition on_the_way :: "recovery_snapshot \<Rightarrow> recovery_snapshot \<Rightarrow> bool" where
  "on_the_way s v \<longleftrightarrow> same_phase s v \<and> undoing (states_of_journals s) (states_of_journals v)"

lemma rollback_loop_run:
  assumes "rollback_loop u source n (acc, s, ref) = Inr (Inr (steps, t, ref'))"
    and "loop_ready u s" and "n \<le> length (snapshot_effects s)"
    and "\<forall>i < length (journals s). n \<le> i \<longrightarrow> row_state (journals s ! i) \<in> settled_letters"
  shows "\<exists>new. steps = acc @ new \<and> apply_steps u s new = Inr t \<and> run_holds u (on_the_way s) s new"
  using assms
proof (induction n arbitrary: acc s ref)
  case 0
  then show ?case by (auto simp: on_the_way_def same_phase_def undoing_refl)
next
  case (Suc index)
  let ?w = "states_of_journals s" and ?j = "row_state (journals s ! index)"
  from Suc.prems(1) obtain frontiers d local v where
    f: "reconstruct_frontiers s = Inr frontiers" and d: "classify_effect s index frontiers = Inr d" "halt_of d = None"
    and r: "reverse_effect_steps u s index d = Inr local" "apply_steps u s local = Inr v"
    and rest: "rollback_loop u source index (acc @ local, v, ref \<or> refused d) = Inr (Inr (steps, t, ref'))"
    by (auto simp: bindr_Inr_iff split: option.splits)
  have right: "\<forall>i < length (journals s). index < i \<longrightarrow> row_state (journals s ! i) \<in> settled_letters"
    using Suc.prems(4) by simp
  from iteration [OF Suc.prems(2) f d r right]
  have it: "index < length (snapshot_effects s)" "loop_ready u v" "same_phase s v"
    "journals v = set_row (journals s) index (settled_journal ?j)" by blast+
  have s: "issued u s" using Suc.prems(2) by (simp add: loop_ready_def)
  have il: "index < length (journals s)" using issued_row_at [OF s it(1)] by blast
  have vi: "row_state (journals v ! i) \<in> settled_letters" if "i < length (journals v)" "index \<le> i" for i
    using that il right by (cases "i = index") (auto simp: it(4) set_row_def settled_journal_def)
  have "index \<le> length (snapshot_effects v)" using it(1,3) by (simp add: same_phase_def)
  from Suc.IH [OF rest it(2) this] vi obtain new where
    new: "steps = (acc @ local) @ new" "apply_steps u v new = Inr t" "run_holds u (on_the_way v) v new" by blast
  have split: "?w = take index ?w @ ?j # drop (Suc index) ?w"
    using il id_take_nth_drop [of index ?w] by simp
  have vw: "states_of_journals v = take index ?w @ settled_journal ?j # drop (Suc index) ?w"
    using il by (simp add: it(4) set_row_def upd_conv_take_nth_drop take_map drop_map)
  have "on_the_way s x" if "on_the_way v x" for x
    using that same_phase_trans [OF it(3)] undoing_settled [OF settled_right [OF right], of "take index ?w" ?j "states_of_journals x"]
    unfolding on_the_way_def vw split [symmetric] by blast
  from run_holds_mono [OF new(3) this] have "run_holds u (on_the_way s) v new" .
  moreover have "on_the_way s x" if "at_effect s index x" for x
    using that at_effect_undoing [OF il that right] by (simp add: on_the_way_def at_effect_def)
  from run_holds_mono [OF reversal_run [OF s r(1)] this] have "run_holds u (on_the_way s) s local" .
  ultimately have "run_holds u (on_the_way s) s (local @ new)" using run_holds_append [OF r(2)] by blast
  with new(1,2) r(2) show ?case by (intro exI [of _ "local @ new"]) (simp add: apply_steps_append)
qed

text \<open>The journals of a snapshot that recovery takes on, through its rollback.\<close>

definition rolling_from :: "recovery_snapshot \<Rightarrow> recovery_snapshot \<Rightarrow> bool" where
  "rolling_from s v \<longleftrightarrow> tx_state v \<noteq> Tx_HALTED \<and> undoing (states_of_journals s) (states_of_journals v) \<and>
     (states_of_journals v \<in> journal_words (tx_state v) \<longleftrightarrow> \<not> open_before_pending (states_of_journals v))"

lemma rolling_from_legal:
  assumes "states_of_journals v \<in> journal_words (tx_state v) \<inter> rolling_words" and "tx_state v \<noteq> Tx_HALTED"
    and "undoing (states_of_journals s) (states_of_journals v)"
  shows "rolling_from s v"
  using assms open_illegal by (auto simp: rolling_from_def)

lemma rollback_run:
  assumes s: "issued u s" and c: "classify_transaction_authority s = Inr (AuthorityDecision Authority_CLASSIFY None)"
    and nc: "tx_state s \<noteq> Tx_COMMITTED" and p: "rollback_plan u s = Inr (ActionPlan b disp steps r)"
  shows "run_holds u (rolling_from s) s steps"
proof -
  let ?es = "snapshot_effects s" and ?w = "states_of_journals s"
  from rollback_plan_parts [OF p] obtain pre v st w ref t where e: "enter_rolling_back u s = Inr (pre, v)"
    and l: "rollback_loop u s (length ?es) (pre, v, False) = Inr (Inr (st, w, ref))"
    and a: "apply_steps u w (terminal_steps ref) = Inr t" and pl: "steps = st @ terminal_steps ref" by blast
  have auth: "tx_state s \<notin> {Tx_HALTED, Tx_ROLLED_BACK}" "?w \<in> journal_words (tx_state s)"
    using c authority_classify [OF issued_valid [OF s]] by blast+
  then have words: "?w \<in> rolling_words"
    using classify_forward_words [OF auth(2,1)] by (auto split: if_splits)
  have start: "rolling_from s s"
    using auth words by (intro rolling_from_legal) (auto simp: undoing_refl)
  note en = entering [OF s c nc e]
  have v: "loop_ready u v" "journals v = journals s" "snapshot_effects v = ?es" using en by simp_all
  have way: "rolling_from s x" if "on_the_way v x" for x
    using that v(1,2) undoing_legal [OF words]
    by (auto simp: on_the_way_def rolling_from_def same_phase_def loop_ready_def)
  have "rolling_from s v" using way [of v] by (simp add: on_the_way_def same_phase_def undoing_refl)
  then have "run_holds u (rolling_from s) s pre"
    using start e by (auto simp: enter_rolling_back_def take_step_def bindr_Inr_iff split: if_splits)
  have len: "length (journals v) = length ?es"
    using v(2) arg_cong [OF valid_rows [OF issued_valid [OF s]], of length] by simp
  from rollback_loop_run [OF l v(1)] v(3) len obtain new where
    new: "st = pre @ new" "apply_steps u v new = Inr w" "run_holds u (on_the_way v) v new" by auto
  from rollback_loop_passes [OF l v(1)] v(3) len have w: "loop_ready u w"
    "states_of_journals w = map settled_journal (states_of_journals v)" by auto
  have st: "run_holds u (rolling_from s) s st" and run: "apply_steps u s st = Inr w"
    unfolding new(1)
    using run_holds_append [OF _ \<open>run_holds u (rolling_from s) s pre\<close> run_holds_mono [OF new(3) way]] en new(2)
    by (simp_all add: apply_steps_append)
  have "states_of_journals w \<in> rolling_words" using w(1) by (simp add: loop_ready_def)
  moreover have "set (states_of_journals w) \<subseteq> settled_letters" unfolding w(2) by (rule map_settled_letters)
  ultimately have "states_of_journals w \<in> undone_words" by (rule rolling_settled)
  then have settled: "rolling_from s x" if "journals x = journals w" "tx_state x = Tx_ROLLED_BACK" for x
    using that w undone_reverse v(2)
    by (intro rolling_from_legal) (auto simp: undoing_def intro: exI [of _ "[]"])
  from a obtain y where y: "apply_step u w (TransitionTransactionState Tx_ROLLING_BACK Tx_ROLLED_BACK (Some (rollback_result_of ref)) None) = Inr y"
    "apply_step u y DetachActive = Inr t" by (auto simp: terminal_steps_def bindr_Inr_iff)
  then have "journals y = journals w" "tx_state y = Tx_ROLLED_BACK" "journals t = journals w" "tx_state t = Tx_ROLLED_BACK"
    by (auto simp: reduce_detach_active_def guard_Inr_iff dest!: transition_transaction_Inr rebuild_Inr)
  with settled y run_holds_end [OF st run] have "run_holds u (rolling_from s) w (terminal_steps ref)"
    by (simp add: terminal_steps_def)
  from run_holds_append [OF run st this] show ?thesis unfolding pl .
qed

section \<open>Properties\<close>

text \<open>
  C26: A rollback undoes its effects from the last to the first, and where a crash leaves it
  stuck is known. After any number of steps of a rollback plan the journal vector splits the
  one the plan started from: the effects before the cut stand as they stood, those behind it
  are settled (undone, or still pending), and at most the effect at the cut has its undo
  open. The vector is legal for the transaction's state, so that recovery can take the
  snapshot on again, exactly when it holds no \<open>UNDO_STARTED\<close> directly before a
  \<open>PENDING\<close>; a transaction without a pending effect is never left at such a point.
\<close>

theorem rollback_vectors:
  assumes "issued u s" and "classify_recovery u s = Inr (ActionPlan b disp steps r)"
    and "disp \<in> {ROLL_BACK, ROLL_BACK_REFUSED}" and "k \<le> length steps"
  shows "\<exists>v. reduce_recovery_plan_prefix u s (ActionPlan b disp steps r) k = Inr v \<and>
    undoing (map row_state (journals s)) (map row_state (journals v)) \<and>
    legal_journal_language (tx_state v) (map row_state (journals v)) =
      Inr (\<not> open_before_pending (map row_state (journals v))) \<and>
    (J_PENDING \<notin> set (map row_state (journals s)) \<longrightarrow> \<not> open_before_pending (map row_state (journals v)))"
proof -
  have "classify_transaction_authority s = Inr (AuthorityDecision Authority_CLASSIFY None)" "tx_state s \<noteq> Tx_COMMITTED"
    using classify_action [OF assms(1,2)] assms(3) by auto
  moreover from this assms(2) have "rollback_plan u s = Inr (ActionPlan b disp steps r)"
    by (auto simp: classify_recovery_def bindr_Inr_iff split: option.splits dest!: halt_plan_Inr)
  ultimately have "run_holds u (rolling_from s) s steps" by (rule rollback_run [OF assms(1)])
  from run_holds_prefix [OF this assms(4)] obtain v where v: "apply_steps u s (take k steps) = Inr v" "rolling_from s v" by blast
  have "J_PENDING \<notin> set x" if "undoing w x" "J_PENDING \<notin> set w" for w x
    using that by (auto simp: undoing_def settled_journal_def split: if_splits)
  moreover have pending: "J_PENDING \<in> set x" if "open_before_pending x" for x
    using that by (auto simp: open_before_pending_def)
  ultimately have "J_PENDING \<notin> set (map row_state (journals s)) \<longrightarrow> \<not> open_before_pending (map row_state (journals v))"
    using v(2) pending unfolding rolling_from_def by blast
  moreover have "reduce_recovery_plan_prefix u s (ActionPlan b disp steps r) k = Inr v"
    using v(1) action_run [OF assms(1,2), of k] assms(4) by simp
  moreover from v(2) have h: "tx_state v \<noteq> Tx_HALTED"
      "(map row_state (journals v) \<in> journal_words (tx_state v)) = (\<not> open_before_pending (map row_state (journals v)))"
    by (simp_all only: rolling_from_def) blast
  note legal_language [OF h(1), of "map row_state (journals v)", unfolded h(2)]
  ultimately show ?thesis using v(2) unfolding rolling_from_def by blast
qed

theorem rollback_vectors_example:
  "\<exists>v. reduce_recovery_plan_prefix plain_tables crashed crashed_plan 4 = Inr v \<and>
    undoing (map row_state (journals crashed)) (map row_state (journals v)) \<and>
    legal_journal_language (tx_state v) (map row_state (journals v)) = Inr True"
proof -
  have k: "4 \<le> length crashed_steps" and no: "J_PENDING \<notin> set (map row_state (journals crashed))" by code_simp+
  from rollback_vectors [OF crashed_issued crashed_classifies [unfolded crashed_plan_def] _ k] obtain v where
    v: "reduce_recovery_plan_prefix plain_tables crashed (ActionPlan crashed ROLL_BACK crashed_steps (Some Result_RESTORED)) 4 = Inr v"
      "undoing (map row_state (journals crashed)) (map row_state (journals v))"
      "legal_journal_language (tx_state v) (map row_state (journals v)) = Inr (\<not> open_before_pending (map row_state (journals v)))"
      "\<not> open_before_pending (map row_state (journals v))"
    using no by blast
  from v(3,4) have "legal_journal_language (tx_state v) (map row_state (journals v)) = Inr True" by metis
  with v(1,2) show ?thesis unfolding crashed_plan_def by blast
qed

end
