(* ===== verification/HaltCorrect.thy ===== *)
theory HaltCorrect
  imports ClassifierCorrect
begin

text \<open>
  Halts: the diagnostic that the classifier projects from its observations is always one that
  the snapshot factory accepts, so the transition that halts a transaction never fails.
\<close>

section \<open>The evidence of a decision\<close>

definition reads :: "joint_observation \<Rightarrow> effect_decision result \<Rightarrow> bool" where
  "reads ob r \<longleftrightarrow> (\<forall>d. r = Inr d \<longrightarrow> decision_expected d = ob \<and> decision_observed d = ob)"

lemma reads_simps:
  "reads ob (if c then a else b) \<longleftrightarrow> (if c then reads ob a else reads ob b)"
  "reads ob (bindr m f) \<longleftrightarrow> (\<forall>x. m = Inr x \<longrightarrow> reads ob (f x))"
  "reads ob (guard c err r) \<longleftrightarrow> (c \<longrightarrow> reads ob r)"
  "reads ob (Inr (decision kind ob' steps ref)) \<longleftrightarrow> ob' = ob"
  "reads ob (Inr (halt_decision ob' reason)) \<longleftrightarrow> ob' = ob"
  "reads ob (Inl err)"
  by (auto simp: reads_def decision_def halt_decision_def bindr_Inr_iff guard_Inr_iff)

lemma reads_operations:
  "reads ob (remove_decision kind e ob)" "reads ob (transform_decision kind e ob ps sc k rels)"
  "reads ob (replace_exchange e path ob ref)" "reads ob (remove_live_creation e ob)"
  "reads ob (refuse_create_live e path ob b)" "reads ob (restore_tombstone e ob)"
  "reads ob (move_restore_source e ob)" "reads ob (move_remove_destination e ob)"
  "reads ob (move_restore_from_anchor e ob)" "reads ob (remove_live_directory e ob rels)"
  "reads ob (remove_dual_name e ob)" "reads ob (classify_noop_replace s e pre ob)"
proof -
  show r: "reads ob (remove_decision kind e ob)" for kind by (auto simp: remove_decision_def reads_simps)
  show t: "reads ob (transform_decision kind e ob ps sc k rels)" for kind ps sc k rels
    by (auto simp: transform_decision_def reads_simps)
  show "reads ob (classify_noop_replace s e pre ob)"
    by (simp add: classify_noop_replace_def reads_simps Let_def r)
qed (auto simp: reads_simps replace_exchange_def remove_live_creation_def refuse_create_live_def restore_tombstone_def
    move_restore_source_def move_remove_destination_def move_restore_from_anchor_def remove_live_directory_def
    remove_dual_name_def transform_decision_def remove_decision_def)

lemma classify_variant_reads: "joint s e = Inr ob \<Longrightarrow> reads ob (classify_variant s e)"
  by (cases e)
    (simp_all add: classify_variant_def classify_replace_def classify_create_file_def classify_delete_def
      classify_move_def classify_directory_def reads_simps reads_operations Let_def split_beta)

lemma classify_effect_reads:
  assumes "classify_effect s index fs = Inr d"
  shows "\<exists>ob. index < length (snapshot_effects s) \<and> joint s (snapshot_effects s ! index) = Inr ob \<and>
    decision_expected d = ob \<and> decision_observed d = ob"
proof -
  let ?e = "snapshot_effects s ! index"
  from assms obtain by_path j where i: "index < length (snapshot_effects s)"
    and c: "(if j = J_PENDING then classify_pending s ?e by_path else if j = J_UNDONE then
      classify_undone s ?e by_path else classify_variant s ?e) = Inr d"
    unfolding classify_effect_def Let_def by (auto simp only: bindr_Inr_iff guard_Inr_iff)
  have "classify_variant s ?e = Inl err" if "joint s ?e = Inl err" for err
    using that by (cases ?e) (simp_all add: classify_variant_def classify_replace_def
      classify_create_file_def classify_delete_def classify_move_def classify_directory_def)
  with c obtain ob where ob: "joint s ?e = Inr ob"
    by (cases "joint s ?e") (auto simp: classify_pending_def classify_undone_def split: if_splits)
  have "reads ob (if j = J_PENDING then classify_pending s ?e by_path else if j = J_UNDONE then
      classify_undone s ?e by_path else classify_variant s ?e)"
    using classify_variant_reads [OF ob] by (simp add: classify_pending_def classify_undone_def reads_simps ob)
  with c i ob show ?thesis by (auto simp: reads_def)
qed

section \<open>The diagnostic is valid\<close>

definition evidence_ok :: "unicode_tables \<Rightarrow> joint_observation option \<Rightarrow> bool" where
  "evidence_ok u observation \<longleftrightarrow> (\<forall>ob \<in> set_option observation.
     (\<forall>item \<in> set (jo_persistent ob). path_ok u (po_path item) \<and> validate_observed_entry (po_entry item) = Inr ()) \<and>
     (\<forall>item \<in> set (jo_scratch ob). validate_observed_entry (so_entry item) = Inr ()))"

lemma card_set_distinct: "card (set xs) = length xs \<longleftrightarrow> distinct xs"
  by (metis card_distinct distinct_card)

lemma sorted_sort_key_map: "sorted (map f (sort_key f xs))"
  by simp

lemma named_entries_Inr:
  assumes "named_entries observation = Inr entries"
  shows "sorted (map fst entries) \<and> distinct (map fst entries) \<and>
    (evidence_ok u observation \<longrightarrow> (\<forall>e \<in> set entries. validate_observed_entry (fst (snd e)) = Inr ()))"
proof (cases observation)
  case None
  with assms show ?thesis by (simp add: named_entries_def)
next
  case (Some ob)
  with assms have e: "entries = sort_key fst
      (map (\<lambda>item. (persistent_slot (po_path item), po_entry item, None)) (jo_persistent ob) @
       map (\<lambda>item. (scratch_slot (so_effect_id item) (so_role item), so_entry item, so_relation item)) (jo_scratch ob))"
    and d: "card (set (map fst entries)) = length (map fst entries)"
    by (auto simp: named_entries_def Let_def guard_Inr_iff)
  from d have "distinct (map fst entries)" unfolding card_set_distinct .
  moreover have "sorted (map fst entries)" unfolding e by (rule sorted_sort_key_map)
  moreover have "\<forall>e \<in> set entries. validate_observed_entry (fst (snd e)) = Inr ()" if "evidence_ok u observation"
    using that unfolding e by (auto simp: evidence_ok_def Some)
  ultimately show ?thesis by blast
qed

lemma entry_fields_valid:
  "validate_observed_entry x = Inr () \<Longrightarrow> entry_fields x = (st, un, i) \<Longrightarrow> validate_diagnostic_state st = Inr ()"
  by (cases x) auto

lemma project_entries_valid:
  assumes p: "project_entries observation = Inr items" and ok: "evidence_ok u observation"
  shows "validate_diagnostic_entries items = Inr ()"
proof -
  from p obtain entries where n: "named_entries observation = Inr entries"
    and i: "items = map (\<lambda>(slot, entry, relation). case entry_fields entry of (state, unmodeled, _) \<Rightarrow>
         DiagnosticEntry slot state unmodeled relation) entries"
    by (auto simp: project_entries_def bindr_Inr_iff)
  note e = named_entries_Inr [OF n, of u]
  have slots: "map de_slot items = map fst entries" unfolding i by (auto split: prod.splits)
  have "validate_diagnostic_state (de_state item) = Inr ()" if "item \<in> set items" for item
  proof -
    from that obtain slot x rel st un ident where "(slot, x, rel) \<in> set entries" "entry_fields x = (st, un, ident)"
      "item = DiagnosticEntry slot st un rel"
      unfolding i by (auto split: prod.splits)
    with e ok entry_fields_valid [of x st un ident] show ?thesis by force
  qed
  moreover have "card (fst ` set entries) = length entries" using e distinct_card [of "map fst entries"] by simp
  ultimately show ?thesis
    using e by (simp add: validate_diagnostic_entries_def result_simps slots sorted_sort_id)
qed

lemma pair_relations_slots:
  "r \<in> set (pair_relations xs) \<Longrightarrow> left_slot r \<in> fst ` set xs \<and> right_slot r \<in> fst ` set xs"
  by (induction xs rule: pair_relations.induct) (auto intro: rev_image_eqI)

lemma pair_relations_distinct:
  "distinct (map fst xs) \<Longrightarrow> distinct (map relation_slots (pair_relations xs))"
proof (induction xs rule: pair_relations.induct)
  case (2 left i rest)
  have "left_slot r \<noteq> left" if "r \<in> set (pair_relations rest)" for r
    using pair_relations_slots [OF that] 2(2) by force
  with 2 show ?case
    by (auto simp: comp_def split_beta distinct_map inj_on_def image_iff)
qed simp

definition keyed_identities :: "pystr \<Rightarrow> named_entry list \<Rightarrow> (pystr \<times> entry_identity) list" where
  "keyed_identities ns entries = concat (map (\<lambda>(slot, entry, _).
     case entry_fields entry of (_, _, Some identity) \<Rightarrow> [(ns @ [colon] @ slot, identity)] | _ \<Rightarrow> []) entries)"

lemma keyed_identities_slots:
  "set (map fst (keyed_identities ns es)) \<subseteq> (\<lambda>slot. ns @ colon # slot) ` fst ` set es \<and>
   (distinct (map fst es) \<longrightarrow> distinct (map fst (keyed_identities ns es)))"
proof (induction es)
  case (Cons e es)
  obtain slot x rel st un ident where e: "e = (slot, x, rel)" "entry_fields x = (st, un, ident)"
    by (cases e) (metis prod.exhaust)
  have c: "keyed_identities ns ((slot, x, rel) # es) = (case ident of None \<Rightarrow> [] | Some i \<Rightarrow> [(ns @ colon # slot, i)]) @ keyed_identities ns es"
    by (simp add: keyed_identities_def e split: option.split)
  have "ns @ colon # slot \<notin> set (map fst (keyed_identities ns es))" if "slot \<notin> fst ` set es"
    using Cons that by blast
  with Cons show ?case by (cases ident) (auto simp: c e(1))
qed (simp add: keyed_identities_def)

lemma project_relations_Inr:
  assumes p: "project_identity_relations ns observation = Inr rels"
  shows "sorted (map relation_slots rels) \<and> distinct (map relation_slots rels) \<and>
    (\<forall>r \<in> set rels. \<exists>rest. left_slot r = ns @ colon # rest)"
proof -
  from p obtain entries where n: "named_entries observation = Inr entries"
    and r: "rels = sort_key relation_slots (pair_relations (keyed_identities ns entries))"
    unfolding keyed_identities_def by (auto simp: project_identity_relations_def bindr_Inr_iff)
  note k = keyed_identities_slots [of ns entries]
  with named_entries_Inr [OF n] have d: "distinct (map relation_slots (pair_relations (keyed_identities ns entries)))"
    by (intro pair_relations_distinct) blast
  then have "distinct (map relation_slots rels)"
    unfolding r by (metis distinct_map distinct_sort set_sort)
  moreover have "sorted (map relation_slots rels)" unfolding r by (rule sorted_sort_key_map)
  moreover have "\<exists>rest. left_slot x = ns @ colon # rest" if "x \<in> set rels" for x
  proof -
    from that have "x \<in> set (pair_relations (keyed_identities ns entries))" by (simp add: r)
    from pair_relations_slots [OF this] have "left_slot x \<in> set (map fst (keyed_identities ns entries))" by auto
    with k show ?thesis by auto
  qed
  ultimately show ?thesis by blast
qed

lemma relations_valid:
  assumes "project_identity_relations (py ''expected'') expected = Inr xs"
    and "project_identity_relations (py ''observed'') observed = Inr ys"
  shows "validate_diagnostic_relations (xs @ ys) = Inr ()"
proof -
  note x = project_relations_Inr [OF assms(1)] and y = project_relations_Inr [OF assms(2)]
  have less: "relation_slots a < relation_slots b" if a: "a \<in> set xs" and b: "b \<in> set ys" for a b
  proof -
    from x a obtain r where "left_slot a = py ''expected'' @ colon # r" by blast
    moreover from y b obtain r' where "left_slot b = py ''observed'' @ colon # r'" by blast
    ultimately have "left_slot a < left_slot b" by simp
    then show ?thesis by simp
  qed
  have "sorted (map relation_slots (xs @ ys))"
    using x y less unfolding map_append sorted_append by (auto intro: less_imp_le)
  moreover have "distinct (map relation_slots (xs @ ys))"
    using x y less unfolding map_append distinct_append by fastforce
  ultimately show ?thesis
    unfolding validate_diagnostic_relations_def card_set_distinct guard_Inr_iff by (simp only: sorted_sort_id simp_thms)
qed

lemma diagnostic_paths_set: "set (diagnostic_paths expected observed) =
    {po_path item | item ob. ob \<in> set_option expected \<union> set_option observed \<and> item \<in> set (jo_persistent ob)}"
  by (cases expected; cases observed) (auto simp: diagnostic_paths_def)

lemma diagnostic_valid:
  assumes d: "diagnostic source reason projected eid expected observed = Inr d"
    and ok: "evidence_ok u expected" "evidence_ok u observed" and nh: "tx_state source \<noteq> Tx_HALTED"
    and pr: "\<forall>p \<in> set_option projected. map row_effect_id (journals p) = map row_effect_id (journals source)"
  shows "validate_halt_diagnostic u (Some d) = Inr () \<and> pre_halt_state d = tx_state source \<and>
    diag_commit_decision d = commit_decision source \<and> diag_journals d = journals source"
proof -
  from d obtain ee oe er orl where x: "project_entries expected = Inr ee" "project_entries observed = Inr oe"
    "project_identity_relations (py ''expected'') expected = Inr er" "project_identity_relations (py ''observed'') observed = Inr orl"
    and dd: "pre_halt_state d = tx_state source" "diag_commit_decision d = commit_decision source" "diag_journals d = journals source"
      "projected_journals d = journals (case projected of None \<Rightarrow> source | Some p \<Rightarrow> p)"
      "diag_paths d = diagnostic_paths expected observed" "diag_expected d = ee" "diag_observed d = oe" "diag_relations d = er @ orl"
    by (auto simp: diagnostic_def Let_def bindr_Inr_iff)
  have "validate_diagnostic_paths u (diag_paths d) = Inr ()"
  proof -
    have "path_ok u p" if "p \<in> set (diagnostic_paths expected observed)" for p
      using that ok unfolding diagnostic_paths_set by (auto simp: evidence_ok_def)
    then have "\<forall>p \<in> set (diagnostic_paths expected observed). require_rel_path u p = Inr p"
      by (simp add: require_rel_path_iff)
    moreover have "sorted (diagnostic_paths expected observed)" "distinct (diagnostic_paths expected observed)"
      by (simp_all add: diagnostic_paths_def)
    ultimately show ?thesis
      by (simp add: validate_diagnostic_paths_def guard_Inr_iff for_each_Inr_iff dd(5) sorted_sort_id distinct_card)
  qed
  moreover have "map row_effect_id (projected_journals d) = map row_effect_id (diag_journals d)"
    using pr by (simp add: dd split: option.splits)
  ultimately show ?thesis
    using relations_valid [OF x(3,4)] project_entries_valid [OF x(1) ok(1)] project_entries_valid [OF x(2) ok(2)] nh
    by (simp add: validate_halt_diagnostic_def dd(1-3,6-8) guard_Inr_iff bindr_Inr_iff)
qed

section \<open>The evidence of the classifier\<close>

lemma effect_paths_fields: "set (effect_path_fields e) = set (effect_paths e)"
  by (cases e) auto

lemma observed_valid:
  assumes s: "issued u s"
  shows "persistent_map s p = Some x \<Longrightarrow> path_ok u p \<and> validate_observed_entry x = Inr ()"
    and "scratch_map s k = Some item \<Longrightarrow> validate_observed_entry (so_entry item) = Inr ()"
proof -
  from issued_valid [OF s] have v: "validate_observations (compiled s) (journals s) (persistent_observations s) (scratch_observations s) = Inr ()"
    by (simp add: valid_snapshot_iff)
  show "path_ok u p \<and> validate_observed_entry x = Inr ()" if p: "persistent_map s p = Some x"
  proof
    from p obtain e where "e \<in> set (snapshot_effects s)" "p \<in> set (effect_paths e)"
      using touched_paths [OF s, of p] by auto
    then have "p \<in> set (declared_paths (compiled_of (compiled s)))"
      using effect_paths_fields by (auto simp: declared_paths_def)
    then show "path_ok u p" using issued_well_formed [OF s] by (auto simp: well_formed_def)
    from p have "PersistentObservation p x \<in> set (persistent_observations s)"
      by (simp add: persistent_map_Some [OF issued_paths [OF s]])
    with v show "validate_observed_entry x = Inr ()" by (force simp: validate_observations_def result_simps)
  qed
  show "validate_observed_entry (so_entry item) = Inr ()" if k: "scratch_map s k = Some item"
  proof -
    from k have "item \<in> set (scratch_observations s)"
      unfolding scratch_map_Some [OF issued_scratch_keys [OF s]] by blast
    with v show ?thesis by (force simp: validate_observations_def result_simps)
  qed
qed

lemma agrees_evidence:
  assumes s: "issued u s" and a: "agrees s ob"
  shows "evidence_ok u (Some ob)"
proof -
  have "validate_observed_entry (so_entry item) = Inr ()" if "item \<in> set (jo_scratch ob)" for item
  proof -
    from a that obtain y where "scratch_map s (so_key item) = Some y" "faded item y" by (auto simp: agrees_def)
    with observed_valid(2) [OF s] show ?thesis by (metis faded_def)
  qed
  with a show ?thesis by (auto simp: evidence_ok_def agrees_def dest: observed_valid(1) [OF s])
qed

text \<open>The snapshots along the loops belong to the transaction of the source.\<close>

lemma issued_same: "issued u s \<Longrightarrow> keeps_issued u s t \<Longrightarrow> issued u t \<and> map row_effect_id (journals t) = map row_effect_id (journals s)"
  using issued_keeps by (auto simp: keeps_issued_def same_transaction_def)

text \<open>A halt plan of the source whose transition applies.\<close>

definition sound_halt :: "unicode_tables \<Rightarrow> recovery_snapshot \<Rightarrow> recovery_plan \<Rightarrow> bool" where
  "sound_halt u s plan \<longleftrightarrow> (\<exists>d. validate_halt_diagnostic u (Some d) = Inr () \<and> pre_halt_state d = tx_state s \<and>
     diag_commit_decision d = commit_decision s \<and> diag_journals d = journals s \<and>
     plan = HaltPlan s d [TransitionTransactionState (tx_state s) Tx_HALTED None (Some d)])"

lemma halt_plan_sound:
  assumes h: "halt_plan s reason eid expected observed projected = Inr plan" and nh: "tx_state s \<noteq> Tx_HALTED"
    and ok: "evidence_ok u expected" "evidence_ok u observed"
    and pr: "\<forall>p \<in> set_option projected. map row_effect_id (journals p) = map row_effect_id (journals s)"
  shows "sound_halt u s plan"
proof -
  from h nh obtain d where d: "diagnostic s reason projected eid expected observed = Inr d"
    and plan: "new_halt_plan s d [TransitionTransactionState (tx_state s) Tx_HALTED None (Some d)] = Inr plan"
    by (auto simp: halt_plan_def bindr_Inr_iff)
  from diagnostic_valid [OF d ok nh pr] plan show ?thesis
    by (auto simp: sound_halt_def new_halt_plan_def guard_Inr_iff)
qed

lemma loop_halt_sound:
  assumes "rollback_loop u source n (acc, s, ref) = Inr (Inl plan)" and "tx_state source \<noteq> Tx_HALTED"
    and "issued u s" and "map row_effect_id (journals s) = map row_effect_id (journals source)"
  shows "sound_halt u source plan"
  using assms
proof (induction n arbitrary: acc s ref)
  case (Suc index)
  from Suc.prems(1) obtain frontiers d where d: "classify_effect s index frontiers = Inr d"
    and rest: "(case halt_of d of
       Some reason \<Rightarrow>
         bindr (index_or (snapshot_effects source) index) (\<lambda>effect.
         bindr (halted_decision_plan source effect d reason s) (\<lambda>plan. Inr (Inl plan)))
     | None \<Rightarrow>
         bindr (reverse_effect_steps u s index d) (\<lambda>local_steps.
         bindr (apply_steps u s local_steps) (\<lambda>s'.
         rollback_loop u source index (acc @ local_steps, s', ref \<or> refused d)))) = Inr (Inl plan)"
    by (auto simp: bindr_Inr_iff)
  show ?case
  proof (cases "halt_of d")
    case None
    with rest obtain local v where l: "apply_steps u s local = Inr v"
      and r: "rollback_loop u source index (acc @ local, v, ref \<or> refused d) = Inr (Inl plan)"
      by (auto simp: bindr_Inr_iff)
    from issued_same [OF Suc.prems(3) steps_keep [OF l]] Suc.IH [OF r] Suc.prems show ?thesis by simp
  next
    case (Some reason)
    from classify_effect_reads [OF d] obtain ob where ob: "joint s (snapshot_effects s ! index) = Inr ob"
      "decision_expected d = ob" "decision_observed d = ob" by blast
    from agrees_evidence [OF Suc.prems(3) joint_agrees [OF ob(1)]] have "evidence_ok u (Some ob)" .
    with rest Some ob Suc.prems show ?thesis
      by (auto simp: bindr_Inr_iff halted_decision_plan_def intro!: halt_plan_sound)
  qed
qed simp

lemma cleanup_reads:
  assumes "classify_committed_cleanup s index = Inr d"
  shows "\<exists>item. scratch_map s (scratch_key (snapshot_effects s ! index)) = Some item \<and>
    decision_expected d = JointObservation [] [item] [] \<and> decision_observed d = JointObservation [] [item] []"
proof -
  let ?e = "snapshot_effects s ! index"
  from assms obtain item where i: "scratch_map s (scratch_key ?e) = Some item"
    by (auto simp: classify_committed_cleanup_def Let_def committed_scratch_joint_def bindr_Inr_iff guard_Inr_iff lookup_or_Inr_iff)
  then have "reads (JointObservation [] [item] []) (classify_committed_cleanup s index)"
    by (simp add: classify_committed_cleanup_def Let_def committed_scratch_joint_def lookup_or_def reads_simps
        reads_operations read_tuple)
  with assms i show ?thesis by (auto simp: reads_def)
qed

lemma committed_halt_sound:
  assumes "committed_loop u source indices (acc, s) = Inr (Inl plan)" and "tx_state source \<noteq> Tx_HALTED"
    and "issued u s" and "map row_effect_id (journals s) = map row_effect_id (journals source)"
  shows "sound_halt u source plan"
  using assms
proof (induction indices arbitrary: acc s)
  case (Cons index indices)
  from Cons.prems(1) obtain d where d: "classify_committed_cleanup s index = Inr d"
    and rest: "(case halt_of d of
       Some reason \<Rightarrow>
         bindr (index_or (snapshot_effects source) index) (\<lambda>effect.
         bindr (halted_decision_plan source effect d reason s) (\<lambda>plan. Inr (Inl plan)))
     | None \<Rightarrow>
         guard (\<not> refused d) (cls_err CommittedRefused)
         (guard (\<forall>step \<in> set (decision_steps d). step_type_of step = Step_remove)
            (cls_err CommittedNonCleanup)
         (bindr (bind_effect_steps u s (decision_steps d)) (\<lambda>(local_steps, s').
          committed_loop u source indices (acc @ local_steps, s'))))) = Inr (Inl plan)"
    by (auto simp: bindr_Inr_iff)
  show ?case
  proof (cases "halt_of d")
    case None
    with rest obtain local v where l: "bind_effect_steps u s (decision_steps d) = Inr (local, v)"
      and r: "committed_loop u source indices (acc @ local, v) = Inr (Inl plan)"
      by (auto simp: bindr_Inr_iff guard_Inr_iff)
    from cleanup_passes [OF Cons.prems(3) d None l] have "apply_steps u s local = Inr v" by (simp add: passed_def)
    from issued_same [OF Cons.prems(3) steps_keep [OF this]] Cons.IH [OF r] Cons.prems show ?thesis by simp
  next
    case (Some reason)
    from cleanup_reads [OF d] obtain item where i: "scratch_map s (scratch_key (snapshot_effects s ! index)) = Some item"
      "decision_expected d = JointObservation [] [item] []" "decision_observed d = JointObservation [] [item] []" by blast
    from observed_valid(2) [OF Cons.prems(3) i(1)] have "evidence_ok u (Some (JointObservation [] [item] []))"
      by (simp add: evidence_ok_def)
    with rest Some i Cons.prems show ?thesis
      by (auto simp: bindr_Inr_iff halted_decision_plan_def intro!: halt_plan_sound)
  qed
qed simp

lemma first_non_authorizable_joint:
  "first_non_authorizable s es = Inr (Some (e, ob)) \<Longrightarrow> joint s e = Inr ob"
  by (induction es) (auto simp: bindr_Inr_iff split: if_splits)

lemma entered_same:
  assumes "issued u s" and "enter_rolling_back u s = Inr (steps, v)"
  shows "issued u v \<and> map row_effect_id (journals v) = map row_effect_id (journals s)"
proof (cases "tx_state s = Tx_ROLLING_BACK")
  case False
  with assms(2) have "apply_step u s (TransitionTransactionState (tx_state s) Tx_ROLLING_BACK None None) = Inr v"
    by (auto simp: enter_rolling_back_def take_step_def bindr_Inr_iff)
  from issued_same [OF assms(1) step_keeps [OF this]] show ?thesis .
qed (use assms in \<open>simp add: enter_rolling_back_def\<close>)

lemma rollback_halt_sound:
  assumes s: "issued u s" and nh: "tx_state s \<noteq> Tx_HALTED" and p: "rollback_plan u s = Inr plan" "disposition plan = HALT"
  shows "sound_halt u s plan"
proof -
  from p(1) obtain pre v out where e: "enter_rolling_back u s = Inr (pre, v)"
    and l: "rollback_loop u s (length (snapshot_effects s)) (pre, v, False) = Inr out"
    and o: "(case out of Inl plan \<Rightarrow> Inr plan | Inr (steps, cursor, ref) \<Rightarrow>
         bindr (apply_steps u cursor (terminal_steps ref)) (\<lambda>settled.
         guard (tx_state settled = Tx_ROLLED_BACK \<and> \<not> active settled) (cls_err RollbackNotSettled)
         (new_action_plan s (if ref then ROLL_BACK_REFUSED else ROLL_BACK)
            (steps @ terminal_steps ref)))) = Inr plan"
    by (auto simp: rollback_plan_def bindr_Inr_iff)
  from o p(2) have "out = Inl plan"
    by (auto simp: bindr_Inr_iff guard_Inr_iff split: sum.splits if_splits dest!: new_action_plan_Inr)
  with l loop_halt_sound [OF _ nh] entered_same [OF s e] show ?thesis by blast
qed

lemma committed_plan_halt_sound:
  assumes s: "issued u s" and nh: "tx_state s \<noteq> Tx_HALTED" and p: "committed_plan u s = Inr plan" "disposition plan = HALT"
  shows "sound_halt u s plan"
proof -
  from p(1) obtain matches where m: "committed_surface_matches s = Inr matches" by (auto simp: committed_plan_def bindr_Inr_iff)
  show ?thesis
  proof (cases matches)
    case False
    with m p(1) have "halt_plan s COMMITTED_SURFACE_MISMATCH None None None None = Inr plan" by (simp add: committed_plan_def)
    from halt_plan_sound [OF this nh, of u] show ?thesis by (simp add: evidence_ok_def)
  next
    case True
    with m p(1) obtain out where l: "committed_loop u s [0..<length (snapshot_effects s)] ([], s) = Inr out"
      and o: "(case out of Inl plan \<Rightarrow> Inr plan | Inr (steps, cursor) \<Rightarrow> bindr (apply_steps u cursor [DetachActive]) (\<lambda>settled.
           guard (tx_state settled = Tx_COMMITTED \<and> \<not> active settled) (cls_err CommittedNotSettled)
           (new_action_plan s COMMITTED_CLEANUP (steps @ [DetachActive])))) = Inr plan"
      by (auto simp: committed_plan_def bindr_Inr_iff simp del: apply_steps_simps)
    from o p(2) have "out = Inl plan"
      by (auto simp: bindr_Inr_iff guard_Inr_iff simp del: apply_steps_simps split: sum.splits dest!: new_action_plan_Inr)
    with l committed_halt_sound [OF _ nh s] show ?thesis by blast
  qed
qed

lemma classify_halt:
  assumes s: "issued u s" and c: "classify_recovery u s = Inr (HaltPlan b d steps)"
  shows "if tx_state s = Tx_HALTED then b = s \<and> steps = [] \<and> halt_diagnostic s = Some d else sound_halt u s (HaltPlan b d steps)"
proof (cases "tx_state s = Tx_HALTED")
  case True
  with authority_total [OF issued_valid [OF s]] obtain reason where
    "classify_transaction_authority s = Inr (AuthorityDecision Authority_STABLE_HALT reason)"
    using valid_rows [OF issued_valid [OF s]]
    by (auto simp: okay_def classify_transaction_authority_def require_snapshot_def compatible_commit_decision_def split: option.splits)
  with c True show ?thesis
    by (auto simp: classify_recovery_def stable_halt_plan_def new_halt_plan_def guard_Inr_iff halt_plan_valid_def split: option.splits)
next
  case nh: False
  from c obtain auth where a: "classify_transaction_authority s = Inr auth"
    by (auto simp: classify_recovery_def bindr_Inr_iff)
  have "sound_halt u s (HaltPlan b d steps)"
  proof (cases "authority_kind auth")
    case Authority_HALT
    with a c obtain reason where "halt_plan s reason None None None None = Inr (HaltPlan b d steps)"
      by (auto simp: classify_recovery_def split: option.splits)
    from halt_plan_sound [OF this nh, of u] show ?thesis by (simp add: evidence_ok_def)
  next
    case Authority_CLASSIFY
    with a c obtain found where f: "first_non_authorizable s (snapshot_effects s) = Inr found"
      and r: "(case found of
           Some (effect, observed) \<Rightarrow>
             halt_plan s EFFECT_TUPLE_UNATTRIBUTABLE (Some (effect_id_of effect)) None (Some observed) None
         | None \<Rightarrow> if tx_state s = Tx_COMMITTED then committed_plan u s else rollback_plan u s) = Inr (HaltPlan b d steps)"
      by (auto simp: classify_recovery_def bindr_Inr_iff)
    show ?thesis
    proof (cases found)
      case None
      with r rollback_halt_sound [OF s nh, of "HaltPlan b d steps"] committed_plan_halt_sound [OF s nh, of "HaltPlan b d steps"]
      show ?thesis by (auto split: if_splits)
    next
      case (Some z)
      then obtain e ob where z: "found = Some (e, ob)" by (cases z) auto
      from agrees_evidence [OF s joint_agrees [OF first_non_authorizable_joint [OF f [unfolded z]]]]
      have "evidence_ok u (Some ob)" .
      with halt_plan_sound [OF _ nh] r z show ?thesis by (auto simp: evidence_ok_def)
    qed
  next
    case Authority_STABLE_HALT
    with a nh show ?thesis
      by (auto simp: classify_transaction_authority_def require_snapshot_def guard_Inr_iff bindr_Inr_iff
          split: if_splits option.splits)
  qed (use a c in \<open>auto simp: classify_recovery_def new_no_recovery_plan_def terminal_detach_plan_def dest!: new_action_plan_Inr\<close>)
  with nh show ?thesis by simp
qed

lemma halt_applies:
  assumes s: "issued u s" and nh: "tx_state s \<noteq> Tx_HALTED" and h: "sound_halt u s (HaltPlan b d steps)"
  shows "b = s \<and> apply_steps u s steps = Inr (s\<lparr>tx_state := Tx_HALTED, rollback_result := None, halt_diagnostic := Some d\<rparr>)"
proof -
  let ?t = "s\<lparr>tx_state := Tx_HALTED, rollback_result := None, halt_diagnostic := Some d\<rparr>"
  from h have d: "validate_halt_diagnostic u (Some d) = Inr ()" "pre_halt_state d = tx_state s"
    "diag_commit_decision d = commit_decision s" "diag_journals d = journals s" "b = s"
    "steps = [TransitionTransactionState (tx_state s) Tx_HALTED None (Some d)]"
    by (auto simp: sound_halt_def)
  have "valid_snapshot u ?t"
    using issued_valid [OF s] d by (simp add: valid_snapshot_iff validate_terminal_payloads_def guard_Inr_iff)
  from rebuild_valid [OF this] nh d show ?thesis
    by (simp add: transition_transaction_def transaction_recovery_edge_def valid_payload_def)
qed

lemma halted_classifies:
  assumes "valid_snapshot u t" and "tx_state t = Tx_HALTED" and "halt_diagnostic t = Some d"
  shows "classify_recovery u t = Inr (HaltPlan t d [])"
proof -
  have "classify_transaction_authority t = Inr (AuthorityDecision Authority_STABLE_HALT (Some (diag_reason d)))"
    using assms valid_rows [OF assms(1)]
    by (simp add: classify_transaction_authority_def require_snapshot_def compatible_commit_decision_def)
  with assms show ?thesis
    by (simp add: classify_recovery_def stable_halt_plan_def new_halt_plan_def halt_plan_valid_def)
qed

section \<open>Properties\<close>

text \<open>
  C15: A halt always lands, keeps all evidence, and is stable. For a snapshot the factory
  issued, the halt plan of the classifier applies; the snapshot it leads to is halted with the
  plan's diagnostic, with the same observations, journals, commit decision and binding; and
  classifying that snapshot gives the same halt, with nothing left to do.
\<close>

theorem halt_plan_lands:
  assumes "issued u s" and "classify_recovery u s = Inr (HaltPlan b d steps)"
  shows "\<exists>t. apply_recovery_plan u s (HaltPlan b d steps) = Inr t \<and> issued u t \<and>
    tx_state t = Tx_HALTED \<and> halt_diagnostic t = Some d \<and>
    persistent_observations t = persistent_observations s \<and> scratch_observations t = scratch_observations s \<and>
    journals t = journals s \<and> commit_decision t = commit_decision s \<and> active t = active s \<and>
    classify_recovery u t = Inr (HaltPlan t d [])"
proof (cases "tx_state s = Tx_HALTED")
  case True
  with classify_halt [OF assms] have "b = s" "steps = []" "halt_diagnostic s = Some d" by auto
  with True assms(1) halted_classifies [OF issued_valid [OF assms(1)] True] show ?thesis
    by (auto simp: apply_recovery_plan_def reduce_recovery_plan_prefix_def)
next
  case False
  with classify_halt [OF assms] have "sound_halt u s (HaltPlan b d steps)" by simp
  note h = halt_applies [OF assms(1) False this]
  let ?t = "s\<lparr>tx_state := Tx_HALTED, rollback_result := None, halt_diagnostic := Some d\<rparr>"
  have it: "issued u ?t" using issued_steps [OF assms(1) conjunct2 [OF h]] .
  from h halted_classifies [OF issued_valid [OF it]] it show ?thesis
    by (intro exI [of _ ?t]) (auto simp: apply_recovery_plan_def reduce_recovery_plan_prefix_def)
qed

text \<open>A foreign entry at the path being deleted cannot be attributed to the transaction.\<close>

definition unattributed :: recovery_snapshot where
  "unattributed = small Tx_APPLYING J_STARTED J_PENDING intruder ObservedAbsent ObservedAbsent ObservedAbsent"

fun halt_parts :: "recovery_plan result \<Rightarrow> halt_diagnostic option" where
  "halt_parts (Inr (HaltPlan _ d _)) = Some d"
| "halt_parts _ = None"

definition unattributed_diagnostic :: halt_diagnostic where
  "unattributed_diagnostic = the (halt_parts (classify_recovery plain_tables unattributed))"

lemma unattributed_issued: "issued plain_tables unattributed"
proof (rule small_compiled_issued)
  show "compiled unattributed = small_compiled" by (simp add: unattributed_def small_def)
  show "valid_snapshot plain_tables unattributed" unfolding valid_snapshot_iff by code_simp
qed

lemma unattributed_classifies: "classify_recovery plain_tables unattributed =
    Inr (HaltPlan unattributed unattributed_diagnostic
      [TransitionTransactionState Tx_APPLYING Tx_HALTED None (Some unattributed_diagnostic)])"
  by code_simp

theorem halt_plan_lands_example:
  "\<exists>t. apply_recovery_plan plain_tables unattributed (HaltPlan unattributed unattributed_diagnostic
      [TransitionTransactionState Tx_APPLYING Tx_HALTED None (Some unattributed_diagnostic)]) = Inr t \<and> issued plain_tables t \<and>
    tx_state t = Tx_HALTED \<and> halt_diagnostic t = Some unattributed_diagnostic \<and>
    persistent_observations t = persistent_observations unattributed \<and> scratch_observations t = scratch_observations unattributed \<and>
    journals t = journals unattributed \<and> commit_decision t = commit_decision unattributed \<and> active t = active unattributed \<and>
    classify_recovery plain_tables t = Inr (HaltPlan t unattributed_diagnostic [])"
  by (rule halt_plan_lands [OF unattributed_issued unattributed_classifies])

end
