(* ===== verification/SharedPaths.thy ===== *)
theory SharedPaths
  imports HaltCorrect
begin

text \<open>
  Recovery where several effects touch one path. Frontiers expect one state per path, the state
  after the last effect in flight, whether or not that effect has landed or its undo has
  landed. The effects behind it, pending or undone, are held against that state; what follows
  for them is proved here for every issued snapshot, and shown on a transaction of two
  effects: delete the symbolic link \<open>l\<close>, then create a directory in its place.
\<close>

section \<open>Passing over settled effects\<close>

text \<open>The path is in the state that its frontier expects.\<close>

definition at_frontier :: "recovery_snapshot \<Rightarrow> pystr \<Rightarrow> bool" where
  "at_frontier s p \<longleftrightarrow>
     state_at s p = state_after (initial_at s p) (frontier_depth s) (snapshot_effects s) p"

lemma frontier_state:
  assumes s: "loop_ready u s" and f: "reconstruct_frontiers s = Inr frontiers" and fr: "fr \<in> set frontiers"
  shows "state_after (initial_at s (frontier_path fr)) (frontier_depth s) (snapshot_effects s) (frontier_path fr)
    = Some (frontier_expected fr)"
proof -
  have iss: "issued u s" using s by (simp add: loop_ready_def)
  from frontiers_land [OF iss ready_classifies [OF s]] f fr obtain surf where
    surf: "land_all (initial_at s) (all_occurrences (take (frontier_depth s) (snapshot_effects s))) = Some surf"
      "surf (frontier_path fr) = Some (frontier_expected fr)"
    by (auto simp: initial_at_def)
  from land_all_state_after [OF conjunct1 [OF issued_land [OF iss]], of "frontier_depth s"] surf show ?thesis by auto
qed

lemma drifted_at:
  assumes fs: "frontier_map frontiers = Inr by_path" and d: "drifted_nodes ob by_path = Inr away"
    and item: "item \<in> set (jo_persistent ob)"
  shows "\<exists>f \<in> set frontiers. frontier_path f = po_path item \<and>
    (entry_state_of (po_entry item) = Inr (frontier_expected f) \<or> PersistentNode (po_path item) \<in> set away)"
proof -
  from d obtain flags where f: "list_all2 (\<lambda>item y. \<exists>f. by_path (po_path item) = Some f \<and>
      (\<exists>st. entry_state_of (po_entry item) = Inr st \<and> (po_path item, st \<noteq> frontier_expected f) = y))
      (jo_persistent ob) flags" and away: "away = map (\<lambda>(path, _). PersistentNode path) (filter snd flags)"
    by (auto simp: drifted_nodes_def result_simps traverse_Inr_iff)
  from item f obtain y f st where y: "y \<in> set flags" "by_path (po_path item) = Some f"
    "entry_state_of (po_entry item) = Inr st" "(po_path item, st \<noteq> frontier_expected f) = y"
    by (auto simp: list_all2_conv_all_nth in_set_conv_nth) metis
  have "f \<in> set frontiers \<and> frontier_path f = po_path item"
    using y(2) claimed_frontiers [of Map.empty frontiers by_path "po_path item" f] fs by (auto simp: frontier_map_def)
  moreover have "PersistentNode (po_path item) \<in> set away" if "st \<noteq> frontier_expected f"
    using that y(1,4) unfolding away by force
  ultimately show ?thesis using y(3) by blast
qed

lemma settled_decision:
  assumes s: "loop_ready u s" and f: "reconstruct_frontiers s = Inr frontiers"
    and d: "classify_effect s index frontiers = Inr d" and j: "row_state (journals s ! index) \<in> settled_letters"
  shows "halt_of d = Some EFFECT_TUPLE_UNATTRIBUTABLE \<or>
    halt_of d = None \<and> \<not> refused d \<and> decision_steps d = [] \<and>
      (\<forall>p \<in> set (effect_paths (snapshot_effects s ! index)). at_frontier s p) \<or>
    halt_of d = None \<and> refused d \<and> row_state (journals s ! index) = J_PENDING \<and>
      (\<exists>nodes. decision_steps d = [PreserveExternal nodes] \<and>
        (\<forall>p \<in> set (effect_paths (snapshot_effects s ! index)). at_frontier s p \<or> PersistentNode p \<in> set nodes))"
proof -
  let ?e = "snapshot_effects s ! index" and ?j = "row_state (journals s ! index)"
  have iss: "issued u s" using s by (simp add: loop_ready_def)
  from d obtain by_path j where i: "index < length (snapshot_effects s)" and m: "frontier_map frontiers = Inr by_path"
    and row: "find_journal (journals s) (effect_id_of ?e) = Inr j"
    and c: "(if j = J_PENDING then classify_pending s ?e by_path else if j = J_UNDONE then
      classify_undone s ?e by_path else classify_variant s ?e) = Inr d"
    by (auto simp: classify_effect_def Let_def bindr_Inr_iff guard_Inr_iff)
  note at = issued_row_at [OF iss i]
  have jj: "j = ?j" using row find_journal_at [OF _ issued_row_ids [OF iss], of index] at by simp
  with c j obtain ob away where ob: "joint s ?e = Inr ob"
    and k: "d = unattributable ob \<or> drifted_nodes ob by_path = Inr away \<and>
      (d = decision NO_ACTION ob [] False \<and> away = [] \<or>
       d = decision PRESERVE_EXTERNAL ob [PreserveExternal away] True \<and> ?j = J_PENDING)"
    by (auto simp: classify_pending_def classify_undone_def bindr_Inr_iff split: if_splits)
  have near: "at_frontier s p \<or> PersistentNode p \<in> set away"
    if dr: "drifted_nodes ob by_path = Inr away" and p: "p \<in> set (effect_paths ?e)" for p
  proof -
    from p joint_Inr [OF ob] have "p \<in> po_path ` set (jo_persistent ob)" by (simp add: tuple_of_def flip: list.set_map)
    then obtain item where item: "item \<in> set (jo_persistent ob)" "po_path item = p" by blast
    from drifted_at [OF m dr item(1)] obtain fr where fr: "fr \<in> set frontiers" "frontier_path fr = p"
      "entry_state_of (po_entry item) = Inr (frontier_expected fr) \<or> PersistentNode p \<in> set away"
      using item(2) by blast
    then show ?thesis
      using frontier_state [OF s f fr(1)] state_at_agrees [OF joint_agrees [OF ob] item(1)] item(2)
      by (auto simp: at_frontier_def)
  qed
  from k show ?thesis
  proof (elim disjE conjE)
    assume "d = unattributable ob"
    then show ?thesis by (simp add: halt_decision_def)
  next
    assume "drifted_nodes ob by_path = Inr away" "d = decision NO_ACTION ob [] False" "away = []"
    with near show ?thesis by (simp add: decision_def)
  next
    assume "drifted_nodes ob by_path = Inr away" "d = decision PRESERVE_EXTERNAL ob [PreserveExternal away] True"
      "?j = J_PENDING"
    with near show ?thesis by (simp add: decision_def)
  qed
qed

text \<open>The halt of a plan that stopped at a tuple it could not attribute.\<close>

definition unattributed_halt :: "recovery_snapshot \<Rightarrow> recovery_plan \<Rightarrow> bool" where
  "unattributed_halt s plan \<longleftrightarrow> (\<exists>d steps. plan = HaltPlan s d steps \<and> diag_reason d = EFFECT_TUPLE_UNATTRIBUTABLE)"

lemma halt_plan_reason:
  assumes "halt_plan s reason e ex ob pr = Inr plan" and "tx_state s \<noteq> Tx_HALTED"
  shows "\<exists>d steps. plan = HaltPlan s d steps \<and> diag_reason d = reason"
  using assms
  by (auto simp: halt_plan_def diagnostic_def new_halt_plan_def bindr_Inr_iff guard_Inr_iff Let_def)

text \<open>A settled effect is passed without touching the snapshot.\<close>

lemma settled_steps:
  assumes s: "issued u s" and j: "row_state (journals s ! index) \<in> settled_letters"
    and d: "decision_steps d = [] \<or> (\<exists>nodes. decision_steps d = [PreserveExternal nodes])"
    and r: "reverse_effect_steps u s index d = Inr local" and a: "apply_steps u s local = Inr v"
  shows "v = s \<and> local = decision_steps d"
proof -
  let ?j = "row_state (journals s ! index)"
  have idle: "?j \<notin> {J_STARTED, J_DONE}" "?j \<notin> {J_STARTED, J_DONE, J_UNDO_STARTED}" using j by auto
  from r obtain e row begun w bound x where row: "index_or (journals s) index = Inr row"
    and b: "begin_undo u s (effect_id_of e) (row_state row) = Inr (begun, w)"
    and bs: "bind_effect_steps u w (decision_steps d) = Inr (bound, x)"
    and f: "\<exists>fin. finish_undo u (begun @ bound, x) (effect_id_of e) (row_state row) = Inr (local, fin)"
    by (auto simp: reverse_effect_steps_def bindr_Inr_iff guard_Inr_iff)
  from row have "row = journals s ! index" by (simp add: index_or_def split: if_splits)
  with b f idle have "begun = []" "w = s" "local = begun @ bound" by (auto simp: begin_undo_def finish_undo_def)
  moreover from d have "bound = decision_steps d"
    using bs by (auto simp: bind_effect_steps_def bind_and_take_def take_step_def bindr_Inr_iff)
  ultimately have l: "local = decision_steps d" by simp
  from d a show ?thesis unfolding l by (auto simp: bindr_Inr_iff dest: preserve_external_Inr)
qed

text \<open>What has drifted from its frontier is preserved, and refuses the rollback.\<close>

definition kept_drift :: "recovery_snapshot \<Rightarrow> recovery_step list \<Rightarrow> bool \<Rightarrow> nat \<Rightarrow> bool" where
  "kept_drift s steps ref i \<longleftrightarrow> (\<forall>p \<in> set (effect_paths (snapshot_effects s ! i)). at_frontier s p \<or>
     ref \<and> row_state (journals s ! i) = J_PENDING \<and>
     (\<exists>nodes. PreserveExternal nodes \<in> set steps \<and> PersistentNode p \<in> set nodes))"

lemma kept_drift_more: "kept_drift s steps ref i \<Longrightarrow> set steps \<subseteq> set steps' \<Longrightarrow> (ref \<longrightarrow> ref') \<Longrightarrow> kept_drift s steps' ref' i"
  unfolding kept_drift_def by blast

lemma settled_pass:
  assumes "rollback_loop u source n (acc, s, ref) = Inr out" and "loop_ready u s" and "tx_state source \<noteq> Tx_HALTED"
    and "m \<le> n" and "\<forall>i. m \<le> i \<and> i < n \<longrightarrow> row_state (journals s ! i) \<in> settled_letters"
  shows "(\<exists>plan. out = Inl plan \<and> unattributed_halt source plan) \<or>
    (\<exists>new ref'. rollback_loop u source m (acc @ new, s, ref') = Inr out \<and> (ref \<longrightarrow> ref') \<and>
      (\<forall>i. m \<le> i \<and> i < n \<longrightarrow> kept_drift s new ref' i))"
  using assms
proof (induction n arbitrary: acc ref)
  case 0
  then show ?case by (intro disjI2 exI [of _ "[]"] exI [of _ ref]) auto
next
  case (Suc index)
  show ?case
  proof (cases "m = Suc index")
    case True
    with Suc.prems show ?thesis by (intro disjI2 exI [of _ "[]"] exI [of _ ref]) auto
  next
    case False
    with Suc.prems(4) have m: "m \<le> index" by simp
    with Suc.prems(5) have j: "row_state (journals s ! index) \<in> settled_letters" by simp
    have iss: "issued u s" using Suc.prems(2) by (simp add: loop_ready_def)
    from Suc.prems(1) obtain frontiers d where f: "reconstruct_frontiers s = Inr frontiers"
      and d: "classify_effect s index frontiers = Inr d"
      and rest: "(case halt_of d of Some reason \<Rightarrow>
          bindr (index_or (snapshot_effects source) index) (\<lambda>effect.
          bindr (halted_decision_plan source effect d reason s) (\<lambda>plan. Inr (Inl plan)))
        | None \<Rightarrow> bindr (reverse_effect_steps u s index d) (\<lambda>local_steps.
          bindr (apply_steps u s local_steps) (\<lambda>cursor'.
          rollback_loop u source index (acc @ local_steps, cursor', ref \<or> refused d)))) = Inr out"
      by (auto simp: bindr_Inr_iff)
    note sd = settled_decision [OF Suc.prems(2) f d j]
    show ?thesis
    proof (cases "halt_of d")
      case (Some reason)
      with sd have "reason = EFFECT_TUPLE_UNATTRIBUTABLE" by auto
      with Some rest show ?thesis
        using halt_plan_reason [OF _ Suc.prems(3)]
        by (auto simp: bindr_Inr_iff halted_decision_plan_def unattributed_halt_def)
    next
      case None
      with rest obtain local v where l: "reverse_effect_steps u s index d = Inr local" "apply_steps u s local = Inr v"
        "rollback_loop u source index (acc @ local, v, ref \<or> refused d) = Inr out"
        by (auto simp: bindr_Inr_iff)
      from None sd have steps: "decision_steps d = [] \<or> (\<exists>nodes. decision_steps d = [PreserveExternal nodes])" by auto
      from settled_steps [OF iss j steps l(1,2)] have v: "v = s" "local = decision_steps d" by blast+
      have here: "kept_drift s local (ref \<or> refused d) index"
        using None sd unfolding v(2) kept_drift_def by auto
      from Suc.prems(5) have "\<forall>i. m \<le> i \<and> i < index \<longrightarrow> row_state (journals s ! i) \<in> settled_letters" by simp
      from Suc.IH [OF l(3) [unfolded v(1)] Suc.prems(2,3) m this] show ?thesis
      proof (elim disjE exE conjE)
        fix new ref' assume n: "rollback_loop u source m ((acc @ local) @ new, s, ref') = Inr out"
          "ref \<or> refused d \<longrightarrow> ref'" "\<forall>i. m \<le> i \<and> i < index \<longrightarrow> kept_drift s new ref' i"
        have "kept_drift s (local @ new) ref' i" if i: "m \<le> i" "i < Suc index" for i
        proof (cases "i = index")
          case True
          show ?thesis unfolding True by (rule kept_drift_more [OF here _ n(2)]) simp
        next
          case False
          with i n(3) have "kept_drift s new ref' i" by simp
          then show ?thesis by (rule kept_drift_more) auto
        qed
        then have "\<forall>i. m \<le> i \<and> i < Suc index \<longrightarrow> kept_drift s (local @ new) ref' i" by blast
        moreover from n(1) have "rollback_loop u source m (acc @ (local @ new), s, ref') = Inr out" by simp
        moreover from n(2) have "ref \<longrightarrow> ref'" by blast
        ultimately show ?thesis by blast
      qed blast
    qed
  qed
qed

section \<open>The rollback of a classified snapshot\<close>

lemma classified_rollback:
  assumes s: "issued u s" and c: "classify_transaction_authority s = Inr (AuthorityDecision Authority_CLASSIFY None)"
    and nc: "tx_state s \<noteq> Tx_COMMITTED" and p: "classify_recovery u s = Inr plan"
  shows "unattributed_halt s plan \<or> rollback_plan u s = Inr plan"
proof -
  have "tx_state s \<noteq> Tx_HALTED" using c authority_classify [OF issued_valid [OF s]] by simp
  with c nc p show ?thesis
    using halt_plan_reason [of s EFFECT_TUPLE_UNATTRIBUTABLE]
    by (auto simp: classify_recovery_def bindr_Inr_iff unattributed_halt_def split: option.splits)
qed

lemma settled_behind:
  assumes "w \<in> rolling_words" and "j \<le> k" and "k < length w" and "w ! j \<in> settled_letters"
  shows "w ! k \<in> settled_letters"
proof -
  have "\<not> unsettled (w ! j)" using assms(4) by (auto simp: unsettled_def)
  then have "\<not> j < length (takeWhile unsettled w)" using unsettled_depth [OF assms(1), of j] assms(2,3) by simp
  then have "\<not> unsettled (w ! k)" using unsettled_depth [OF assms(1,3)] assms(2) by simp
  then show ?thesis by (cases "w ! k") (auto simp: unsettled_def)
qed

text \<open>An effect in flight is the last one the frontiers count.\<close>

lemma depth_in_flight:
  assumes w: "w \<in> rolling_words" and i: "i < length w" and x: "w ! i \<in> {J_STARTED, J_UNDO_STARTED}"
  shows "length (takeWhile unsettled w) = Suc i"
proof -
  have "unsettled (w ! i)" using x by (auto simp: unsettled_def)
  then have "i < length (takeWhile unsettled w)" using unsettled_depth [OF w i] by simp
  moreover have "\<not> Suc i < length (takeWhile unsettled w)"
  proof
    assume k: "Suc i < length (takeWhile unsettled w)"
    then have l: "Suc i < length w" using length_takeWhile_le [of unsettled w] by simp
    from k have "unsettled (w ! Suc i)" using unsettled_depth [OF w l] by simp
    moreover have "take (Suc i) w @ w ! Suc i # drop (Suc (Suc i)) w = w" using l by (simp add: id_take_nth_drop [symmetric])
    ultimately have "set (take (Suc i) w) \<subseteq> {J_DONE}"
      using before_unsettled [of "take (Suc i) w" "w ! Suc i" "drop (Suc (Suc i)) w"] w by (auto simp: unsettled_def)
    moreover have "w ! i \<in> set (take (Suc i) w)" using l by (auto simp: in_set_conv_nth intro: exI [of _ i])
    ultimately show False using x by auto
  qed
  ultimately show ?thesis by simp
qed

lemma state_after_effect:
  assumes "i < length es" and "effect_ok (es ! i)" and occ: "occ \<in> set (occurrences (es ! i))"
  shows "state_after a (Suc i) es (occ_path occ) = Some (occ_post occ)"
proof -
  let ?t = "TimelineOccurrence (effect_id_of (es ! i)) i (occ_role occ) (occ_pre occ) (occ_post occ)"
  have "?t \<in> set (occurrence_events (occ_path occ) i (es ! i))" using occ by (auto simp: occurrence_events_def)
  moreover have "length (occurrence_events (occ_path occ) i (es ! i)) \<le> 1" by (rule occurrence_events_once [OF assms(2)])
  ultimately have "occurrence_events (occ_path occ) i (es ! i) = [?t]"
    by (cases "occurrence_events (occ_path occ) i (es ! i)") auto
  then have "events_of (occ_path occ) (take (Suc i) es) = events_of (occ_path occ) (take i es) @ [?t]"
    using assms(1) by (simp add: take_Suc_conv_app_nth events_of_snoc)
  then show ?thesis by (simp add: state_after_def)
qed

text \<open>
  The settled effects come last. The rollback passes them first, and unless one of them halts
  it, every drift at their paths is that of a pending effect, preserved by a refused plan.
\<close>

lemma settled_drift:
  assumes s: "issued u s" and c: "classify_transaction_authority s = Inr (AuthorityDecision Authority_CLASSIFY None)"
    and nc: "tx_state s \<noteq> Tx_COMMITTED" and p: "classify_recovery u s = Inr plan"
    and j: "j < length (snapshot_effects s)" "row_state (journals s ! j) \<in> settled_letters"
    and q: "q \<in> set (effect_paths (snapshot_effects s ! j))"
    and i: "i < length (snapshot_effects s)" "row_state (journals s ! i) \<in> {J_STARTED, J_UNDO_STARTED}"
    and occ: "occ \<in> set (occurrences (snapshot_effects s ! i))" "occ_path occ = q"
    and drift: "state_at s q \<noteq> Some (occ_post occ)"
  shows "unattributed_halt s plan \<or> row_state (journals s ! j) = J_PENDING \<and>
    ((\<exists>d steps. plan = HaltPlan s d steps) \<or>
     (\<exists>steps nodes. plan = ActionPlan s ROLL_BACK_REFUSED steps (Some Result_EXTERNAL_DRIFT_PRESERVED) \<and>
        PreserveExternal nodes \<in> set steps \<and> PersistentNode q \<in> set nodes))"
proof (cases "unattributed_halt s plan")
  case False
  let ?es = "snapshot_effects s"
  from classified_rollback [OF s c nc p] False have rp: "rollback_plan u s = Inr plan" by blast
  from rp obtain pre v out where e: "enter_rolling_back u s = Inr (pre, v)"
    and l: "rollback_loop u s (length ?es) (pre, v, False) = Inr out"
    and o: "(case out of Inl plan \<Rightarrow> Inr plan | Inr (steps, cursor, ref) \<Rightarrow>
         bindr (apply_steps u cursor (terminal_steps ref)) (\<lambda>settled.
         guard (tx_state settled = Tx_ROLLED_BACK \<and> \<not> active settled) (cls_err RollbackNotSettled)
         (new_action_plan s (if ref then ROLL_BACK_REFUSED else ROLL_BACK)
            (steps @ terminal_steps ref)))) = Inr plan"
    by (auto simp: rollback_plan_def bindr_Inr_iff)
  note en = entering [OF s c nc e]
  have v: "loop_ready u v" "journals v = journals s" "snapshot_effects v = ?es" using en by simp_all
  then have words: "map row_state (journals s) \<in> rolling_words" by (simp add: loop_ready_def)
  have len: "length (journals s) = length ?es"
    using arg_cong [OF valid_rows [OF issued_valid [OF s]], of length] by simp
  have nh: "tx_state s \<noteq> Tx_HALTED" using c authority_classify [OF issued_valid [OF s]] by simp
  have set: "\<forall>k. j \<le> k \<and> k < length ?es \<longrightarrow> row_state (journals v ! k) \<in> settled_letters"
    using settled_behind [OF words, of j] j len v(2) by auto
  have "persistent_map v = persistent_map s"
    using e by (auto simp: enter_rolling_back_def take_step_def bindr_Inr_iff persistent_map_def
      dest!: transition_transaction_Inr rebuild_Inr split: if_splits)
  moreover have "frontier_depth v = Suc i"
    using depth_in_flight [OF words, of i] i len v(1,2) by (simp add: frontier_depth_def loop_ready_def)
  moreover have "effect_ok (?es ! i)" using issued_land [OF s] i(1) by auto
  ultimately have away: "\<not> at_frontier v q"
    using state_after_effect [OF i(1) _ occ(1)] drift occ(2) v(3) by (simp add: at_frontier_def state_at_def)
  from settled_pass [OF l v(1) nh less_imp_le [OF j(1)] set] consider
      plan' where "out = Inl plan'" "unattributed_halt s plan'"
    | new ref where "rollback_loop u s j (pre @ new, v, ref) = Inr out" "kept_drift v new ref j"
    using j(1) by blast
  then show ?thesis
  proof cases
    case 1
    with o False show ?thesis by simp
  next
    case 2
    from 2(2) away q v(2,3) obtain nodes where k: "ref" "row_state (journals s ! j) = J_PENDING"
      "PreserveExternal nodes \<in> set new" "PersistentNode q \<in> set nodes"
      by (auto simp: kept_drift_def)
    show ?thesis
    proof (cases out)
      case (Inl plan')
      with 2(1) o k(2) show ?thesis by (auto dest!: loop_halts)
    next
      case (Inr z)
      obtain steps w ref' where z: "z = (steps, w, ref')" by (cases z)
      have "\<forall>k < length (journals v). j \<le> k \<longrightarrow> row_state (journals v ! k) \<in> settled_letters"
        using set len v(2) by simp
      from rollback_loop_passes [OF 2(1) [unfolded Inr z] v(1) _ this] j(1) v(3) k(1)
      obtain more where "steps = (pre @ new) @ more" "ref'" by auto
      with o Inr z k show ?thesis
        by (auto simp: bindr_Inr_iff guard_Inr_iff dest!: new_action_plan_Inr split: if_splits)
    qed
  qed
qed blast

section \<open>A transaction with two effects at one path\<close>

definition shared_spec :: transaction_spec where
  "shared_spec = build_spec [116] small_digest [(path_l, link)] [(path_l, dir_a)]
     [DeletePath id0 path_l link, CreateDirectory id1 path_l dir_a] [] None []"

definition shared_compiled :: compiled_spec where
  "shared_compiled = \<lparr>compiled_of = canonicalize shared_spec,
     timelines =
       [PathTimeline path_l [TimelineOccurrence id0 0 Role_target link AbsentState,
          TimelineOccurrence id1 1 Role_target AbsentState dir_a]]\<rparr>"

lemma shared_compiles: "compile_spec plain_tables shared_spec = Inr shared_compiled"
  by code_simp

definition shared ::
  "transaction_state \<Rightarrow> journal_state \<Rightarrow> journal_state \<Rightarrow> observed_entry \<Rightarrow> observed_entry \<Rightarrow> recovery_snapshot" where
  "shared state j0 j1 live_l tombstone = \<lparr>
     compiled = shared_compiled,
     topology =
       [TopologyParent WorkRoot ProjectRoot,
        TopologyParent (PersistentNode path_l) ProjectRoot,
        TopologyParent (ScratchNode id1 Scratch_WORK) WorkRoot,
        TopologyParent (ScratchNode id0 Scratch_TOMBSTONE) ProjectRoot],
     tx_state = state,
     commit_decision = Decision_UNCOMMITTED,
     rollback_result = None,
     halt_diagnostic = None,
     active = True,
     journals = [EffectJournalState id0 j0, EffectJournalState id1 j1],
     persistent_observations = [PersistentObservation path_l live_l],
     scratch_observations =
       [ScratchObservation id0 Scratch_TOMBSTONE tombstone None,
        ScratchObservation id1 Scratch_WORK ObservedAbsent None]\<rparr>"

definition not_landed :: recovery_snapshot where
  "not_landed = shared Tx_APPLYING J_STARTED J_PENDING (ObservedSymlink link) ObservedAbsent"

definition half_done :: recovery_snapshot where
  "half_done = shared Tx_APPLYING J_DONE J_STARTED ObservedAbsent (ObservedSymlink link)"

text \<open>The second snapshot after five steps of its recovery.\<close>

definition half_undone :: recovery_snapshot where
  "half_undone = shared Tx_ROLLING_BACK J_UNDO_STARTED J_UNDONE (ObservedSymlink link) ObservedAbsent"

definition plan_of :: "recovery_snapshot \<Rightarrow> recovery_plan" where
  "plan_of s = (case classify_recovery plain_tables s of Inr plan \<Rightarrow> plan | Inl _ \<Rightarrow> NoRecoveryPlan s)"

lemma shared_issued:
  "issued plain_tables not_landed" "issued plain_tables half_done"
proof -
  have "valid_snapshot plain_tables not_landed" unfolding valid_snapshot_iff by code_simp
  then show "issued plain_tables not_landed"
    using shared_compiles by (auto simp: issued_def not_landed_def shared_def)
  have "valid_snapshot plain_tables half_done" unfolding valid_snapshot_iff by code_simp
  then show "issued plain_tables half_done"
    using shared_compiles by (auto simp: issued_def half_done_def shared_def)
qed

lemma plans_shared:
  "okay (classify_recovery plain_tables not_landed)" "okay (classify_recovery plain_tables half_done)"
  by code_simp+

lemma plan_of_okay: "okay (classify_recovery plain_tables s) \<Longrightarrow> classify_recovery plain_tables s = Inr (plan_of s)"
  by (auto simp: okay_def plan_of_def)

lemma not_landed_plan:
  "(disposition (plan_of not_landed), plan_rollback_result (plan_of not_landed),
    PreserveExternal [PersistentNode path_l] \<in> set (plan_steps (plan_of not_landed))) =
   (ROLL_BACK_REFUSED, Some Result_EXTERNAL_DRIFT_PRESERVED, True)"
  by code_simp

lemma half_done_plan:
  "(disposition (plan_of half_done), reduce_recovery_plan_prefix plain_tables half_done (plan_of half_done) 5) =
   (ROLL_BACK, Inr half_undone)"
  by code_simp

lemma half_undone_plan:
  "map_option diag_reason (halt_parts (classify_recovery plain_tables half_undone)) = Some EFFECT_TUPLE_UNATTRIBUTABLE"
  by code_simp

lemma half_undone_issued: "issued plain_tables half_undone"
proof -
  have "valid_snapshot plain_tables half_undone" unfolding valid_snapshot_iff by code_simp
  then show ?thesis
    using shared_compiles by (auto simp: issued_def half_undone_def shared_def)
qed

section \<open>Properties\<close>

text \<open>
  C29: A rollback reports external drift where there is none. When an effect is journalled
  \<open>STARTED\<close> but has not landed at a path that a still pending effect touches too, recovery
  never restores the transaction as it could: it halts, or its plan is a refused rollback that
  preserves the untouched path as external and records \<open>EXTERNAL_DRIFT_PRESERVED\<close>, because
  the frontier of the path expects the state after the effect.
\<close>

theorem unlanded_effect_reads_as_drift:
  assumes "issued u s" and "classify_transaction_authority s = Inr (AuthorityDecision Authority_CLASSIFY None)"
    and "tx_state s \<noteq> Tx_COMMITTED"
    and "i < length (snapshot_effects s)" and "row_state (journals s ! i) = J_STARTED"
    and "j < length (snapshot_effects s)" and "row_state (journals s ! j) = J_PENDING"
    and "occ \<in> set (occurrences (snapshot_effects s ! i))" and "occ_path occ \<in> set (effect_paths (snapshot_effects s ! j))"
    and "state_at s (occ_path occ) \<noteq> Some (occ_post occ)"
    and "classify_recovery u s = Inr plan"
  shows "(\<exists>d steps. plan = HaltPlan s d steps) \<or>
    (\<exists>steps nodes. plan = ActionPlan s ROLL_BACK_REFUSED steps (Some Result_EXTERNAL_DRIFT_PRESERVED) \<and>
       PreserveExternal nodes \<in> set steps \<and> PersistentNode (occ_path occ) \<in> set nodes)"
  using settled_drift [OF assms(1-3,11,6) _ assms(9,4) _ assms(8) refl assms(10)] assms(5,7)
  unfolding unattributed_halt_def by auto

theorem unlanded_effect_reads_as_drift_example:
  "state_at not_landed path_l = initial_at not_landed path_l \<and>
   (\<exists>steps nodes. classify_recovery plain_tables not_landed =
        Inr (ActionPlan not_landed ROLL_BACK_REFUSED steps (Some Result_EXTERNAL_DRIFT_PRESERVED)) \<and>
      PreserveExternal nodes \<in> set steps \<and> PersistentNode path_l \<in> set nodes)"
proof -
  let ?occ = "Occurrence path_l link AbsentState Role_target"
  have at: "classify_transaction_authority not_landed = Inr (AuthorityDecision Authority_CLASSIFY None)"
    "tx_state not_landed \<noteq> Tx_COMMITTED" "0 < length (snapshot_effects not_landed)"
    "row_state (journals not_landed ! 0) = J_STARTED" "1 < length (snapshot_effects not_landed)"
    "row_state (journals not_landed ! 1) = J_PENDING" "?occ \<in> set (occurrences (snapshot_effects not_landed ! 0))"
    "occ_path ?occ \<in> set (effect_paths (snapshot_effects not_landed ! 1))"
    "state_at not_landed (occ_path ?occ) \<noteq> Some (occ_post ?occ)"
    and same: "state_at not_landed path_l = initial_at not_landed path_l"
    and disp: "disposition (plan_of not_landed) = ROLL_BACK_REFUSED"
    by code_simp+
  from unlanded_effect_reads_as_drift [OF shared_issued(1) at plan_of_okay [OF plans_shared(1)]] disp same
  show ?thesis using plan_of_okay [OF plans_shared(1)] by auto
qed

text \<open>
  C28: A crash inside a rollback may make the transaction unrecoverable. When the undo of an
  effect is open in the journal and the path is no longer in the state the effect leaves,
  as it is once the undo has landed, while a later effect at the same path is already undone,
  recovery never yields a plan that acts: whatever it returns is a halt with
  \<open>EFFECT_TUPLE_UNATTRIBUTABLE\<close>. The steps of an accepted rollback lead to such a snapshot,
  as the example shows: its plan from \<open>half_done\<close>, stopped after five steps.
\<close>

theorem interrupted_rollback_unrecoverable:
  assumes "issued u s" and "classify_transaction_authority s = Inr (AuthorityDecision Authority_CLASSIFY None)"
    and "tx_state s = Tx_ROLLING_BACK"
    and "i < length (snapshot_effects s)" and "row_state (journals s ! i) = J_UNDO_STARTED"
    and "j < length (snapshot_effects s)" and "row_state (journals s ! j) = J_UNDONE"
    and "occ \<in> set (occurrences (snapshot_effects s ! i))" and "occ_path occ \<in> set (effect_paths (snapshot_effects s ! j))"
    and "state_at s (occ_path occ) \<noteq> Some (occ_post occ)"
    and "classify_recovery u s = Inr plan"
  shows "\<exists>d steps. plan = HaltPlan s d steps \<and> diag_reason d = EFFECT_TUPLE_UNATTRIBUTABLE"
  using settled_drift [OF assms(1,2) _ assms(11,6) _ assms(9,4) _ assms(8) refl assms(10)] assms(3,5,7)
  unfolding unattributed_halt_def by auto

theorem interrupted_rollback_unrecoverable_example:
  "reduce_recovery_plan_prefix plain_tables half_done (plan_of half_done) 5 = Inr half_undone \<and>
   state_at half_undone path_l = initial_at half_done path_l \<and>
   (\<exists>d steps. classify_recovery plain_tables half_undone = Inr (HaltPlan half_undone d steps) \<and>
      diag_reason d = EFFECT_TUPLE_UNATTRIBUTABLE)"
proof -
  let ?occ = "Occurrence path_l link AbsentState Role_target"
  have at: "classify_transaction_authority half_undone = Inr (AuthorityDecision Authority_CLASSIFY None)"
    "tx_state half_undone = Tx_ROLLING_BACK" "0 < length (snapshot_effects half_undone)"
    "row_state (journals half_undone ! 0) = J_UNDO_STARTED" "1 < length (snapshot_effects half_undone)"
    "row_state (journals half_undone ! 1) = J_UNDONE" "?occ \<in> set (occurrences (snapshot_effects half_undone ! 0))"
    "occ_path ?occ \<in> set (effect_paths (snapshot_effects half_undone ! 1))"
    "state_at half_undone (occ_path ?occ) \<noteq> Some (occ_post ?occ)"
    and restored: "state_at half_undone path_l = initial_at half_done path_l"
    and ok: "okay (classify_recovery plain_tables half_undone)"
    by code_simp+
  from interrupted_rollback_unrecoverable [OF half_undone_issued at plan_of_okay [OF ok]] plan_of_okay [OF ok]
  have "\<exists>d steps. classify_recovery plain_tables half_undone = Inr (HaltPlan half_undone d steps) \<and>
      diag_reason d = EFFECT_TUPLE_UNATTRIBUTABLE" by auto
  with restored half_done_plan show ?thesis by simp
qed

end
