(* ===== verification/StepCorrect.thy ===== *)
theory StepCorrect
  imports RecoveryExamples
begin

text \<open>What one recovery step may do to a snapshot.\<close>

text \<open>
  C21: A step writes one effect at most. An accepted step leads to a snapshot of the same
  transaction that the factory would issue again. A transition, a preservation and the
  detachment leave every observed entry alone; a mutation changes entries at the paths and the
  scratch of the effect it names only, and every changed entry is absent afterwards or was
  observed in that effect's tuple before: nothing is fabricated.
\<close>

theorem step_writes_one_effect:
  assumes "issued u s" and "apply_step u s step = Inr t"
  shows "issued u t \<and> same_transaction s t \<and>
    (case step_effect step of
       None \<Rightarrow> persistent_observations t = persistent_observations s \<and>
         map so_entry (scratch_observations t) = map so_entry (scratch_observations s)
     | Some i \<Rightarrow> \<exists>e \<in> set (snapshot_effects s). effect_id_of e = i \<and>
         (\<forall>p. persistent_map t p \<noteq> persistent_map s p \<longrightarrow>
            p \<in> occ_path ` set (occurrences e) \<and> (\<exists>x. persistent_map t p = Some x \<and> moved s e x)) \<and>
         (\<forall>k. scratch_entry t k \<noteq> scratch_entry s k \<longrightarrow>
            k = scratch_key e \<and> (\<exists>x. scratch_entry t k = Some x \<and> moved s e x)))"
proof (cases "is_mutating step")
  case True
  with mutating_within [OF assms True] issued_step [OF assms] step_keeps [OF assms(2)]
  show ?thesis by (auto simp: keeps_issued_def)
next
  case False
  then have "step_effect step = None" by (cases step) auto
  with non_mutating_observations [OF assms(2) False] issued_step [OF assms] step_keeps [OF assms(2)]
  show ?thesis by (simp add: keeps_issued_def)
qed

definition undoing :: "observed_entry \<Rightarrow> recovery_snapshot" where
  "undoing = small Tx_ROLLING_BACK J_DONE J_UNDO_STARTED ObservedAbsent ObservedAbsent (ObservedSymlink link)"

theorem step_writes_one_effect_example:
  "issued plain_tables (undoing ObservedAbsent) \<and> same_transaction (undoing scaffold) (undoing ObservedAbsent) \<and>
   (\<exists>e \<in> set (snapshot_effects (undoing scaffold)). effect_id_of e = id1 \<and>
      persistent_map (undoing ObservedAbsent) = persistent_map (undoing scaffold) \<and>
      scratch_entry (undoing ObservedAbsent) (scratch_key e) \<noteq> scratch_entry (undoing scaffold) (scratch_key e) \<and>
      scratch_entry (undoing ObservedAbsent) (scratch_key e) = Some ObservedAbsent)"
proof -
  have "valid_snapshot plain_tables (undoing scaffold)" unfolding valid_snapshot_iff by code_simp
  then have s: "issued plain_tables (undoing scaffold)"
    by (rule small_compiled_issued [rotated]) (simp add: undoing_def small_def)
  have "apply_step plain_tables (undoing scaffold) (crashed_steps ! 2) = Inr (undoing ObservedAbsent)" by code_simp
  note step = step_writes_one_effect [OF s this]
  have "step_effect (crashed_steps ! 2) = Some id1" by code_simp
  with step obtain e where e: "e \<in> set (snapshot_effects (undoing scaffold))" "effect_id_of e = id1"
    and own: "\<forall>k. scratch_entry (undoing ObservedAbsent) k \<noteq> scratch_entry (undoing scaffold) k \<longrightarrow> k = scratch_key e"
    by auto
  have changed: "scratch_entry (undoing scaffold) (id1, Scratch_WORK) = Some scaffold"
    "scratch_entry (undoing ObservedAbsent) (id1, Scratch_WORK) = Some ObservedAbsent" by code_simp+
  have key: "(id1, Scratch_WORK) = scratch_key e" by (rule own [rule_format]) (simp only: changed option.inject, simp)
  have "persistent_map (undoing ObservedAbsent) = persistent_map (undoing scaffold)"
    by (simp add: undoing_def small_def persistent_map_def)
  then show ?thesis
    by (intro conjI bexI [OF _ e(1)] conjunct1 [OF step] conjunct1 [OF conjunct2 [OF step]] e(2))
      (simp_all only: key [symmetric] changed option.inject, simp)
qed

end
