(* ===== verification/TopologyCorrect.thy ===== *)
theory TopologyCorrect
  imports Snapshot
begin

text \<open>
  The worklist of the topology validation: it decides that every node has a path of parents
  to the project root, and never meets a node without an entry in its table of degrees.
\<close>

inductive reaches_root :: "(topology_node \<rightharpoonup> topology_node) \<Rightarrow> topology_node \<Rightarrow> bool" for parents where
  root: "reaches_root parents ProjectRoot"
| child: "parents node = Some parent \<Longrightarrow> reaches_root parents parent \<Longrightarrow> reaches_root parents node"

section \<open>The tables of the edges\<close>

text \<open>What the three tables say about the edges read so far.\<close>

definition indexes :: "topology_parent list \<Rightarrow> edge_index \<Rightarrow> bool" where
  "indexes edges = (\<lambda>(parents, succs, nodes).
     distinct (map tp_node edges) \<and> ProjectRoot \<notin> tp_node ` set edges \<and>
     parents = map_of (map (\<lambda>e. (tp_node e, tp_parent e)) edges) \<and>
     (\<forall>p. succs p = map tp_node (filter (\<lambda>e. tp_parent e = p) edges)) \<and>
     distinct nodes \<and> set nodes = tp_node ` set edges \<union> tp_parent ` set edges)"

lemma map_of_snoc: "k \<notin> fst ` set xs \<Longrightarrow> map_of (xs @ [(k, v)]) = (map_of xs)(k \<mapsto> v)"
proof -
  assume "k \<notin> fst ` set xs"
  then have "map_of xs k = None" by (simp add: map_of_eq_None_iff)
  then show ?thesis by (auto simp: fun_eq_iff map_add_def split: option.split)
qed

lemma add_edge_indexes:
  assumes "add_edge ix e = Inr ix'" and "indexes edges ix"
  shows "indexes (edges @ [e]) ix'"
proof -
  obtain parents succs nodes where ix: "ix = (parents, succs, nodes)" by (cases ix)
  from assms(1) have g: "tp_node e \<noteq> ProjectRoot" "parents (tp_node e) = None"
    and ix': "ix' = (parents(tp_node e \<mapsto> tp_parent e),
           succs(tp_parent e := succs (tp_parent e) @ [tp_node e]),
           List.insert (tp_parent e) (List.insert (tp_node e) nodes))"
    by (auto simp: ix add_edge_def guard_Inr_iff)
  from assms(2) have i: "distinct (map tp_node edges)" "ProjectRoot \<notin> tp_node ` set edges"
    "parents = map_of (map (\<lambda>e. (tp_node e, tp_parent e)) edges)"
    "\<forall>p. succs p = map tp_node (filter (\<lambda>e. tp_parent e = p) edges)"
    "distinct nodes" "set nodes = tp_node ` set edges \<union> tp_parent ` set edges"
    by (auto simp: indexes_def ix)
  from g(2) i(3) have "tp_node e \<notin> tp_node ` set edges"
    by (auto simp: map_of_eq_None_iff image_image)
  moreover from this have "map_of (map (\<lambda>e. (tp_node e, tp_parent e)) (edges @ [e])) = parents(tp_node e \<mapsto> tp_parent e)"
    by (simp add: i(3) map_of_snoc image_image del: map_of_append)
  ultimately show ?thesis
    using i g unfolding ix' indexes_def by (auto simp: distinct_insert simp del: map_of_append)
qed

lemma index_edges_indexes:
  assumes "index_edges edges = Inr ix"
  shows "indexes edges ix"
proof -
  have "foldr_r add_edge ix0 es = Inr ix \<Longrightarrow> indexes done_edges ix0 \<Longrightarrow> indexes (done_edges @ es) ix" for ix0 es done_edges
  proof (induction es arbitrary: ix0 done_edges)
    case (Cons e es)
    then obtain ix1 where "add_edge ix0 e = Inr ix1" "foldr_r add_edge ix1 es = Inr ix" by (auto simp: bindr_Inr_iff)
    with add_edge_indexes Cons show ?case by fastforce
  qed simp
  from this [of "(Map.empty, \<lambda>_. [], [])" edges "[]"] assms show ?thesis
    by (simp add: index_edges_def indexes_def)
qed

lemma indexes_parent:
  "indexes edges (parents, succs, nodes) \<Longrightarrow> parents n = Some p \<longleftrightarrow> n \<in> set (succs p)"
  by (auto simp: indexes_def map_of_eq_Some_iff comp_def)

lemma indexes_children_distinct: "indexes edges (parents, succs, nodes) \<Longrightarrow> distinct (succs p)"
  by (auto simp: indexes_def distinct_map_filter)

lemma indexes_closed:
  assumes "indexes edges (parents, succs, nodes)" and "parents n = Some p"
  shows "n \<in> set nodes \<and> p \<in> set nodes \<and> n \<noteq> ProjectRoot"
proof -
  from assms have "(n, p) \<in> (\<lambda>e. (tp_node e, tp_parent e)) ` set edges"
    by (auto simp: indexes_def dest: map_of_SomeD)
  with assms(1) show ?thesis by (force simp: indexes_def)
qed

section \<open>The worklist\<close>

text \<open>Children that still wait for their parent are all pushed.\<close>

lemma relax_children:
  assumes "distinct cs" and "\<forall>c \<in> set cs. map_of indegree c = Some 1"
  shows "\<exists>indegree'. foldr_r relax_child (indegree, worklist) cs = Inr (indegree', rev cs @ worklist) \<and>
    map_of indegree' = (\<lambda>n. if n \<in> set cs then Some 0 else map_of indegree n)"
  using assms
proof (induction cs arbitrary: indegree worklist)
  case (Cons c cs)
  let ?i = "AList.update c 0 indegree"
  have one: "relax_child (indegree, worklist) c = Inr (?i, c # worklist)"
    using Cons.prems(2) by (simp add: relax_child_def lookup_or_def)
  have "\<forall>c' \<in> set cs. map_of ?i c' = Some 1" using Cons.prems by (auto simp: update_conv)
  from Cons.IH [OF _ this] Cons.prems(1) obtain indegree' where
    "foldr_r relax_child (?i, c # worklist) cs = Inr (indegree', rev cs @ c # worklist)"
    "map_of indegree' = (\<lambda>n. if n \<in> set cs then Some 0 else map_of ?i n)" by auto
  with one show ?case by (auto simp: fun_eq_iff update_conv)
qed auto

text \<open>The state of the worklist loop.\<close>

definition visiting :: "edge_index \<Rightarrow> (topology_node \<times> int) list \<Rightarrow> topology_node set \<Rightarrow> topology_node list \<Rightarrow> bool" where
  "visiting = (\<lambda>(parents, succs, nodes) indegree visited worklist.
     (\<forall>n \<in> set nodes. map_of indegree n = Some (case parents n of None \<Rightarrow> 0 | Some p \<Rightarrow> if p \<in> visited then 0 else 1)) \<and>
     (\<forall>n \<in> visited \<union> set worklist. reaches_root parents n) \<and>
     ProjectRoot \<in> visited \<union> set worklist \<and>
     (\<forall>n p. parents n = Some p \<longrightarrow> p \<in> visited \<longrightarrow> n \<in> visited \<union> set worklist))"

lemma topology_visit_reaches:
  assumes ix: "indexes edges (parents, succs, nodes)"
    and "visiting (parents, succs, nodes) indegree visited worklist"
  shows "topology_visit succs indegree visited worklist = Inr {n. reaches_root parents n}"
  using assms
proof (induction succs indegree visited worklist rule: topology_visit.induct)
  case (1 succs indegree visited)
  from 1(2) have v: "\<forall>n \<in> visited. reaches_root parents n" "ProjectRoot \<in> visited"
    "\<forall>n p. parents n = Some p \<longrightarrow> p \<in> visited \<longrightarrow> n \<in> visited" by (auto simp: visiting_def)
  have "n \<in> visited" if "reaches_root parents n" for n
    using that v by induction auto
  with v(1) have "visited = {n. reaches_root parents n}" by blast
  then show ?case by simp
next
  case (2 succs indegree visited node worklist)
  note ix = 2(3)
  show ?case
  proof (cases "node \<in> visited")
    case True
    then have "visiting (parents, succs, nodes) indegree visited worklist"
      using 2(4) by (auto simp: visiting_def)
    with 2(1) [OF True ix] True show ?thesis by simp
  next
    case False
    have "map_of indegree c = Some 1" if "c \<in> set (succs node)" for c
    proof -
      from that ix have p: "parents c = Some node" by (simp add: indexes_parent)
      from indexes_closed [OF ix p] 2(4) p False show ?thesis by (simp add: visiting_def)
    qed
    with relax_children [OF indexes_children_distinct [OF ix]] obtain indegree' where
      relax: "foldr_r relax_child (indegree, worklist) (succs node) = Inr (indegree', rev (succs node) @ worklist)"
      and i': "map_of indegree' = (\<lambda>n. if n \<in> set (succs node) then Some 0 else map_of indegree n)"
      by blast
    have "visiting (parents, succs, nodes) indegree' (insert node visited) (rev (succs node) @ worklist)"
      using 2(4) by (auto simp: visiting_def i' indexes_parent [OF ix, symmetric]
          intro: reaches_root.child split: option.splits)
    from 2(2) [OF False relax refl ix this] relax False show ?thesis by simp
  qed
qed

section \<open>The tree test\<close>

lemma map_of_key_map: "n \<in> set ns \<Longrightarrow> map_of (map (\<lambda>n. (n, f n)) ns) n = Some (f n)"
  by (induction ns) auto

lemma initial_visiting:
  assumes "indexes edges (parents, succs, nodes)"
  shows "visiting (parents, succs, nodes) (map (\<lambda>node. (node, node_indegree parents node)) nodes) {} [ProjectRoot]"
  using assms by (auto simp: visiting_def node_indegree_def map_of_key_map intro: reaches_root.root split: option.splits)

text \<open>
  C27: The tree test is exact. Where the edges have been read, the worklist accepts them exactly
  when every node they name has a path of parents to the project root; otherwise it refuses them
  as no tree. It always returns, and never meets a node without a degree.
\<close>

theorem tree_test_exact:
  assumes "index_edges edges = Inr (parents, succs, nodes)" and "ProjectRoot \<in> set nodes"
  shows "require_tree (parents, succs, nodes) =
    (if \<forall>n \<in> set nodes. reaches_root parents n then Inr () else Inl (snap_err TopologyNotTree))"
proof -
  note ix = index_edges_indexes [OF assms(1)]
  have visit: "topology_visit succs (map (\<lambda>node. (node, node_indegree parents node)) nodes) {} [ProjectRoot]
    = Inr {n. reaches_root parents n}"
    by (rule topology_visit_reaches [OF ix initial_visiting [OF ix]])
  have "{n. reaches_root parents n} \<subseteq> set nodes"
  proof
    fix n
    assume "n \<in> {n. reaches_root parents n}"
    then show "n \<in> set nodes" using assms(2) indexes_closed [OF ix] by (auto elim: reaches_root.cases)
  qed
  with visit show ?thesis by (auto simp: require_tree_def guard_def)
qed

text \<open>A pair of directories that hold each other, beside a work root in its place.\<close>

definition cyclic :: "topology_parent list" where
  "cyclic = [TopologyParent WorkRoot ProjectRoot, TopologyParent (TopologyDirectory 1) (TopologyDirectory 2),
     TopologyParent (TopologyDirectory 2) (TopologyDirectory 1)]"

theorem tree_test_exact_example:
  "\<exists>parents succs nodes. index_edges cyclic = Inr (parents, succs, nodes) \<and> ProjectRoot \<in> set nodes \<and>
    require_tree (parents, succs, nodes) =
      (if \<forall>n \<in> set nodes. reaches_root parents n then Inr () else Inl (snap_err TopologyNotTree)) \<and>
    require_tree (parents, succs, nodes) = Inl (snap_err TopologyNotTree)"
proof -
  obtain parents succs nodes where ix: "index_edges cyclic = Inr (parents, succs, nodes)"
    by (auto simp: index_edges_def cyclic_def add_edge_def guard_def)
  then have "ProjectRoot \<in> set nodes"
    by (auto simp: index_edges_def cyclic_def add_edge_def guard_def)
  moreover have "require_tree (parents, succs, nodes) = Inl (snap_err TopologyNotTree)"
  proof -
    have "bindr (index_edges cyclic) require_tree = Inl (snap_err TopologyNotTree)" by code_simp
    with ix show ?thesis by simp
  qed
  ultimately show ?thesis using ix tree_test_exact [OF ix] by blast
qed

end
