(* ===== verification/Bytes.thy ===== *)
theory Bytes
  imports Faults "HOL-Library.Word"
begin

text \<open>
  Bytes and their two texts: \<open>str.encode\<close> and \<open>bytes.decode\<close> with UTF-8, and
  \<open>base64.b64encode\<close> and \<open>base64.b64decode(..., validate=True)\<close> of the standard library. A
  code point outside 0..0x10FFFF is in no Python string and is refused like a surrogate.
\<close>

type_synonym bytes = "8 word list"

definition to_bytes :: "nat list \<Rightarrow> bytes" where
  "to_bytes = map word_of_nat"

definition of_bytes :: "bytes \<Rightarrow> nat list" where
  "of_bytes = map unat"

lemma of_to_bytes: "\<forall>n \<in> set ns. n < 256 \<Longrightarrow> of_bytes (to_bytes ns) = ns"
  by (induction ns) (auto simp: of_bytes_def to_bytes_def unat_of_nat)

lemma to_of_bytes [simp]: "to_bytes (of_bytes bs) = bs"
  by (induction bs) (auto simp: of_bytes_def to_bytes_def)

lemma of_bytes_inject [simp]: "of_bytes bs = of_bytes cs \<longleftrightarrow> bs = cs"
  by (metis to_of_bytes)

lemma of_bytes_bound: "n \<in> set (of_bytes bs) \<Longrightarrow> n < 256"
  by (auto simp: of_bytes_def intro: order_less_le_trans [OF unsigned_less])

section \<open>Encoders and decoders\<close>

text \<open>
  The interface of an encoder with its decoder: what one writes the other reads. An exact pair
  reads nothing else, so that every value has one representation.
\<close>

locale codec =
  fixes encode :: "'a \<Rightarrow> 'e + 'b" and decode :: "'b \<Rightarrow> 'f + 'a"
  assumes decode_encode: "encode x = Inr y \<Longrightarrow> decode y = Inr x"
begin

lemma encode_inj: "encode x = Inr y \<Longrightarrow> encode x' = Inr y \<Longrightarrow> x = x'"
  by (metis decode_encode sum.inject(2))

end

locale exact_codec = codec +
  assumes encode_decode: "decode y = Inr x \<Longrightarrow> encode x = Inr y"
begin

lemma decode_iff: "decode y = Inr x \<longleftrightarrow> encode x = Inr y"
  by (metis decode_encode encode_decode)

lemma decode_inj: "decode y = Inr x \<Longrightarrow> decode y' = Inr x \<Longrightarrow> y = y'"
  by (metis encode_decode sum.inject(2))

end

section \<open>UTF-8\<close>

definition utf8_char :: "nat \<Rightarrow> nat list result" where
  "utf8_char c =
     (if c < 128 then Inr [c]
      else if c < 2048 then Inr [192 + c div 64, 128 + c mod 64]
      else if 55296 \<le> c \<and> c \<le> 57343 then Inl UnicodeEncodeError
      else if c < 65536 then Inr [224 + c div 4096, 128 + c div 64 mod 64, 128 + c mod 64]
      else if c < 1114112 then
        Inr [240 + c div 262144, 128 + c div 4096 mod 64, 128 + c div 64 mod 64, 128 + c mod 64]
      else Inl UnicodeEncodeError)"

definition utf8_encode :: "nat list \<Rightarrow> bytes result" where
  "utf8_encode s = bindr (traverse utf8_char s) (\<lambda>parts. Inr (to_bytes (concat parts)))"

text \<open>A continuation byte gives six bits.\<close>

definition tail_byte :: "nat \<Rightarrow> bool" where
  "tail_byte b \<longleftrightarrow> 128 \<le> b \<and> b < 192"

text \<open>The first code point and the bytes after it; overlong forms and surrogates are refused.\<close>

definition utf8_first :: "nat \<Rightarrow> nat list \<Rightarrow> (nat \<times> nat list) result" where
  "utf8_first b0 rest =
     (if b0 < 128 then Inr (b0, rest)
      else if 194 \<le> b0 \<and> b0 < 224 then
        (case rest of
           b1 # r \<Rightarrow> guard (tail_byte b1) UnicodeDecodeError (Inr ((b0 - 192) * 64 + (b1 - 128), r))
         | _ \<Rightarrow> Inl UnicodeDecodeError)
      else if 224 \<le> b0 \<and> b0 < 240 then
        (case rest of
           b1 # b2 # r \<Rightarrow>
             (let c = (b0 - 224) * 4096 + (b1 - 128) * 64 + (b2 - 128) in
              guard (tail_byte b1 \<and> tail_byte b2 \<and> 2048 \<le> c \<and> \<not> (55296 \<le> c \<and> c \<le> 57343))
                UnicodeDecodeError (Inr (c, r)))
         | _ \<Rightarrow> Inl UnicodeDecodeError)
      else if 240 \<le> b0 \<and> b0 < 245 then
        (case rest of
           b1 # b2 # b3 # r \<Rightarrow>
             (let c = (b0 - 240) * 262144 + (b1 - 128) * 4096 + (b2 - 128) * 64 + (b3 - 128) in
              guard (tail_byte b1 \<and> tail_byte b2 \<and> tail_byte b3 \<and> 65536 \<le> c \<and> c < 1114112)
                UnicodeDecodeError (Inr (c, r)))
         | _ \<Rightarrow> Inl UnicodeDecodeError)
      else Inl UnicodeDecodeError)"

lemma utf8_first_shorter: "utf8_first b rest = Inr (c, r) \<Longrightarrow> length r \<le> length rest"
  by (auto simp: utf8_first_def Let_def guard_Inr_iff split: if_splits list.splits)

function utf8_read :: "nat list \<Rightarrow> nat list result" where
  "utf8_read [] = Inr []"
| "utf8_read (b # rest) =
     bindr (utf8_first b rest) (\<lambda>(c, r). bindr (utf8_read r) (\<lambda>s. Inr (c # s)))"
  by pat_completeness auto
termination
  by (relation "measure length") (auto dest: utf8_first_shorter simp: less_Suc_eq_le)

definition utf8_decode :: "bytes \<Rightarrow> nat list result" where
  "utf8_decode bs = utf8_read (of_bytes bs)"

lemma six_bits:
  "c div 4096 * 4096 + c div 64 mod 64 * 64 + c mod 64 = (c :: nat)"
  "c div 262144 * 262144 + c div 4096 mod 64 * 4096 + c div 64 mod 64 * 64 + c mod 64 = (c :: nat)"
proof -
  have "c mod 4096 = 64 * (c div 64 mod 64) + c mod 64" using mod_mult2_eq [of c 64 64] by simp
  then show three: "c div 4096 * 4096 + c div 64 mod 64 * 64 + c mod 64 = c"
    using div_mult_mod_eq [of c 4096] by simp
  have "c mod 262144 = 4096 * (c div 4096 mod 64) + c mod 4096" using mod_mult2_eq [of c 4096 64] by simp
  with \<open>c mod 4096 = _\<close> show "c div 262144 * 262144 + c div 4096 mod 64 * 4096 + c div 64 mod 64 * 64 + c mod 64 = c"
    using div_mult_mod_eq [of c 262144] by simp
qed

lemma utf8_char_first: "utf8_char c = Inr bs \<Longrightarrow> \<exists>b tl. bs = b # tl \<and> utf8_first b (tl @ r) = Inr (c, r)"
proof -
  assume a: "utf8_char c = Inr bs"
  consider "c < 128" | "128 \<le> c" "c < 2048" | "2048 \<le> c" "c < 65536" "\<not> (55296 \<le> c \<and> c \<le> 57343)"
    | "65536 \<le> c" "c < 1114112"
  proof -
    have "c < 1114112" "\<not> (55296 \<le> c \<and> c \<le> 57343)" using a by (auto simp: utf8_char_def split: if_splits)
    then show thesis using that by linarith
  qed
  then show ?thesis
  proof cases
    case 2
    then have "c div 64 < 32" "2 \<le> c div 64" by auto
    then have "utf8_first (192 + c div 64) ((128 + c mod 64) # r) = Inr (c, r)"
      by (simp add: utf8_first_def tail_byte_def)
    with 2 a show ?thesis by (auto simp: utf8_char_def)
  next
    case 3
    then have "c div 4096 < 16" by auto
    with 3 six_bits(1) [of c] have "utf8_first (224 + c div 4096) ((128 + c div 64 mod 64) # (128 + c mod 64) # r) = Inr (c, r)"
      by (simp add: utf8_first_def tail_byte_def Let_def guard_def)
    with 3 a show ?thesis by (auto simp: utf8_char_def)
  next
    case 4
    then have "c div 262144 < 5" by auto
    with 4 six_bits(2) [of c] have "utf8_first (240 + c div 262144)
        ((128 + c div 4096 mod 64) # (128 + c div 64 mod 64) # (128 + c mod 64) # r) = Inr (c, r)"
      by (simp add: utf8_first_def tail_byte_def Let_def guard_def)
    with 4 a show ?thesis by (auto simp: utf8_char_def)
  next
    case 1
    with a have "bs = [c]" by (simp add: utf8_char_def)
    with 1 show ?thesis by (simp add: utf8_first_def)
  qed
qed

lemma six_digit: "z < 64 \<Longrightarrow> (q * 64 + z) div 64 = q \<and> (q * 64 + z) mod 64 = (z :: nat)"
  by simp

lemma tail_byteE:
  assumes "tail_byte b"
  obtains x where "b = 128 + x" and "x < 64"
  using assms that [of "b - 128"] by (auto simp: tail_byte_def)

lemma utf8_first_char: "utf8_first b rest = Inr (c, r) \<Longrightarrow> \<exists>tl. utf8_char c = Inr (b # tl) \<and> rest = tl @ r"
proof -
  assume a: "utf8_first b rest = Inr (c, r)"
  consider "b < 128" | "194 \<le> b" "b < 224" | "224 \<le> b" "b < 240" | "240 \<le> b" "b < 245"
  proof -
    have "b < 128 \<or> 194 \<le> b" "b < 245" using a by (auto simp: utf8_first_def split: if_splits)
    then show thesis using that by linarith
  qed
  then show ?thesis
  proof cases
    case 2
    with a obtain b1 where b1: "rest = b1 # r" "tail_byte b1" "c = (b - 192) * 64 + (b1 - 128)"
      by (auto simp: utf8_first_def guard_Inr_iff split: list.splits)
    from b1(2) obtain x where x: "b1 = 128 + x" "x < 64" by (rule tail_byteE)
    from 2 obtain y where y: "b = 192 + y" "2 \<le> y" "y < 32" using that [of "b - 192"] by auto
    have "c = y * 64 + x" using b1 x y by simp
    with x y b1 show ?thesis by (auto simp: utf8_char_def)
  next
    case 3
    with a obtain b1 b2 where b: "rest = b1 # b2 # r" "tail_byte b1" "tail_byte b2"
        "c = (b - 224) * 4096 + (b1 - 128) * 64 + (b2 - 128)" "2048 \<le> c" "\<not> (55296 \<le> c \<and> c \<le> 57343)"
      by (auto simp: utf8_first_def guard_Inr_iff Let_def split: list.splits)
    from b(2) obtain x where x: "b1 = 128 + x" "x < 64" by (rule tail_byteE)
    from b(3) obtain z where z: "b2 = 128 + z" "z < 64" by (rule tail_byteE)
    from 3 obtain y where y: "b = 224 + y" "y < 16" using that [of "b - 224"] by auto
    have c: "c = (y * 64 + x) * 64 + z" using b x y z by simp
    then have "c div 64 = y * 64 + x" "c mod 64 = z" using six_digit [OF z(2), of "y * 64 + x"] by simp_all
    moreover from this have "c div 64 div 64 = y" "c div 64 mod 64 = x" using six_digit [OF x(2)] by auto
    then have "c div 4096 = y" by (simp add: div_mult2_eq [symmetric])
    moreover have "c < 65536" using c x y z by simp
    ultimately show ?thesis using b x y z by (auto simp: utf8_char_def)
  next
    case 4
    with a obtain b1 b2 b3 where b: "rest = b1 # b2 # b3 # r" "tail_byte b1" "tail_byte b2" "tail_byte b3"
        "c = (b - 240) * 262144 + (b1 - 128) * 4096 + (b2 - 128) * 64 + (b3 - 128)" "65536 \<le> c" "c < 1114112"
      by (auto simp: utf8_first_def guard_Inr_iff Let_def split: list.splits)
    from b(2) obtain x where x: "b1 = 128 + x" "x < 64" by (rule tail_byteE)
    from b(3) obtain z where z: "b2 = 128 + z" "z < 64" by (rule tail_byteE)
    from b(4) obtain w where w: "b3 = 128 + w" "w < 64" by (rule tail_byteE)
    from 4 obtain y where y: "b = 240 + y" "y < 5" using that [of "b - 240"] by auto
    have c: "c = ((y * 64 + x) * 64 + z) * 64 + w" using b x y z w by simp
    then have d: "c div 64 = (y * 64 + x) * 64 + z" "c mod 64 = w" using six_digit [OF w(2), of "(y * 64 + x) * 64 + z"] by simp_all
    then have e: "c div 64 div 64 = y * 64 + x" "c div 64 mod 64 = z" using six_digit [OF z(2), of "y * 64 + x"] by simp_all
    then have f: "c div 64 div 64 div 64 = y" "c div 64 div 64 mod 64 = x" using six_digit [OF x(2)] by auto
    have "c div 4096 = c div 64 div 64" "c div 262144 = c div 64 div 64 div 64" by (simp_all add: div_mult2_eq [symmetric])
    then have parts: "c div 262144 = y" "c div 4096 mod 64 = x" "c div 64 mod 64 = z" "c mod 64 = w"
      using d(2) e(2) f by simp_all
    have "utf8_char c = Inr [240 + c div 262144, 128 + c div 4096 mod 64, 128 + c div 64 mod 64, 128 + c mod 64]"
      using b(6,7) by (simp add: utf8_char_def)
    then show ?thesis unfolding parts using b(1) x(1) y(1) z(1) w(1) by simp
  next
    case 1
    with a have "c = b" "r = rest" by (simp_all add: utf8_first_def)
    with 1 show ?thesis by (simp add: utf8_char_def)
  qed
qed

lemma utf8_char_bytes: "utf8_char c = Inr bs \<Longrightarrow> n \<in> set bs \<Longrightarrow> n < 256"
  by (auto simp: utf8_char_def split: if_splits)

lemma utf8_parts_bytes: "traverse utf8_char s = Inr parts \<Longrightarrow> n \<in> set (concat parts) \<Longrightarrow> n < 256"
proof (induction s arbitrary: parts)
  case (Cons c s)
  then obtain bs parts' where "utf8_char c = Inr bs" "traverse utf8_char s = Inr parts'" "parts = bs # parts'"
    by (auto simp: bindr_Inr_iff)
  with Cons show ?case using utf8_char_bytes by fastforce
qed simp

lemma utf8_read_concat: "traverse utf8_char s = Inr parts \<Longrightarrow> utf8_read (concat parts) = Inr s"
proof (induction s arbitrary: parts)
  case (Cons c s)
  then obtain bs parts' where p: "utf8_char c = Inr bs" "traverse utf8_char s = Inr parts'" "parts = bs # parts'"
    by (auto simp: bindr_Inr_iff)
  from utf8_char_first [OF p(1)] obtain b tl where "bs = b # tl" "utf8_first b (tl @ concat parts') = Inr (c, concat parts')"
    by blast
  with Cons.IH [OF p(2)] p(3) show ?case by simp
qed simp

lemma utf8_read_parts: "utf8_read ns = Inr s \<Longrightarrow> \<exists>parts. traverse utf8_char s = Inr parts \<and> ns = concat parts"
proof (induction ns arbitrary: s rule: utf8_read.induct)
  case (2 b rest)
  then obtain c r s' where c: "utf8_first b rest = Inr (c, r)" "utf8_read r = Inr s'" "s = c # s'"
    by (auto simp: bindr_Inr_iff)
  from 2(1) [OF c(1) refl c(2)] obtain parts where "traverse utf8_char s' = Inr parts" "r = concat parts" by blast
  moreover from utf8_first_char [OF c(1)] obtain tl where "utf8_char c = Inr (b # tl)" "rest = tl @ r" by blast
  ultimately show ?case using c(3) by auto
qed simp

lemma utf8_read_fault: "utf8_read ns = Inl e \<Longrightarrow> e = UnicodeDecodeError"
  by (induction ns rule: utf8_read.induct)
    (auto simp: bindr_Inl_iff utf8_first_def guard_Inl_iff Let_def split: if_splits list.splits)

interpretation utf8: exact_codec utf8_encode utf8_decode
proof
  show "utf8_decode bs = Inr s" if "utf8_encode s = Inr bs" for s bs
  proof -
    from that obtain parts where p: "traverse utf8_char s = Inr parts" "bs = to_bytes (concat parts)"
      by (auto simp: utf8_encode_def bindr_Inr_iff)
    from utf8_parts_bytes [OF p(1)] have "\<forall>n \<in> set (concat parts). n < 256" by blast
    with p show ?thesis by (simp add: utf8_decode_def utf8_read_concat of_to_bytes)
  qed
  show "utf8_encode s = Inr bs" if "utf8_decode bs = Inr s" for s bs
    using utf8_read_parts [of "of_bytes bs" s] that
    by (auto simp: utf8_encode_def utf8_decode_def) (metis to_of_bytes)
qed

section \<open>Base64\<close>

abbreviation pad :: nat where "pad \<equiv> 61"

definition b64_char :: "nat \<Rightarrow> nat" where
  "b64_char v =
     (if v < 26 then 65 + v else if v < 52 then 97 + (v - 26)
      else if v < 62 then 48 + (v - 52) else if v = 62 then 43 else 47)"

definition b64_value :: "nat \<Rightarrow> nat result" where
  "b64_value c =
     (if 65 \<le> c \<and> c \<le> 90 then Inr (c - 65)
      else if 97 \<le> c \<and> c \<le> 122 then Inr (c - 97 + 26)
      else if 48 \<le> c \<and> c \<le> 57 then Inr (c - 48 + 52)
      else if c = 43 then Inr 62 else if c = 47 then Inr 63 else Inl ValueError)"

fun b64_groups :: "nat list \<Rightarrow> nat list" where
  "b64_groups [] = []"
| "b64_groups [a] = [b64_char (a div 4), b64_char (a mod 4 * 16), pad, pad]"
| "b64_groups [a, b] =
     [b64_char (a div 4), b64_char (a mod 4 * 16 + b div 16), b64_char (b mod 16 * 4), pad]"
| "b64_groups (a # b # c # rest) =
     b64_char (a div 4) # b64_char (a mod 4 * 16 + b div 16) #
     b64_char (b mod 16 * 4 + c div 64) # b64_char (c mod 64) # b64_groups rest"

definition b64encode :: "bytes \<Rightarrow> nat list" where
  "b64encode bs = b64_groups (of_bytes bs)"

text \<open>
  Strict decoding: padding ends the text, though pad characters after complete groups are
  let through; the bits that padding leaves over are dropped, not tested.
\<close>

fun b64_read :: "bool \<Rightarrow> nat list \<Rightarrow> nat list result" where
  "b64_read first [] = Inr []"
| "b64_read first (a # b # c # d # rest) =
     (if \<not> first \<and> list_all (\<lambda>x. x = pad) (a # b # c # d # rest) then Inr []
      else bindr (b64_value a) (\<lambda>x. bindr (b64_value b) (\<lambda>y.
        if c = pad \<and> d = pad \<and> rest = [] then Inr [x * 4 + y div 16]
        else bindr (b64_value c) (\<lambda>z.
          if d = pad \<and> rest = [] then Inr [x * 4 + y div 16, y mod 16 * 16 + z div 4]
          else bindr (b64_value d) (\<lambda>w. bindr (b64_read False rest) (\<lambda>bs.
            Inr ([x * 4 + y div 16, y mod 16 * 16 + z div 4, z mod 4 * 64 + w] @ bs)))))))"
| "b64_read first s = (if \<not> first \<and> list_all (\<lambda>x. x = pad) s then Inr [] else Inl ValueError)"

definition b64decode :: "nat list \<Rightarrow> bytes result" where
  "b64decode s = bindr (b64_read True s) (\<lambda>ns. Inr (to_bytes ns))"

lemma b64_char_value: "v < 64 \<Longrightarrow> b64_value (b64_char v) = Inr v \<and> b64_char v \<noteq> pad"
  by (auto simp: b64_char_def b64_value_def)

lemma b64_read_groups: "\<forall>n \<in> set ns. n < 256 \<Longrightarrow> b64_read first (b64_groups ns) = Inr ns"
proof (induction ns arbitrary: first rule: b64_groups.induct)
  case (2 a)
  then have "a div 4 < 64" "a mod 4 * 16 < 64" by auto
  then show ?case using b64_char_value by simp
next
  case (3 a b)
  then have "a div 4 < 64" "a mod 4 * 16 + b div 16 < 64" "b mod 16 * 4 < 64" "b div 16 < 16" by auto
  then show ?case using b64_char_value by simp
next
  case (4 a b c rest)
  then have "a div 4 < 64" "a mod 4 * 16 + b div 16 < 64" "b mod 16 * 4 + c div 64 < 64" "c mod 64 < 64"
    "b div 16 < 16" "c div 64 < 4" by auto
  with 4 show ?case using b64_char_value by simp
qed simp

lemma b64decode_encode [simp]: "b64decode (b64encode bs) = Inr bs"
proof -
  have "\<forall>n \<in> set (of_bytes bs). n < 256" using of_bytes_bound by blast
  then show ?thesis by (simp add: b64decode_def b64encode_def b64_read_groups)
qed

end
