(* ===== verification/Json.thy ===== *)
theory Json
  imports Faults
begin

text \<open>
  \<open>json.dumps(obj, separators=(",", ":"), sort_keys=True)\<close>, with \<open>ensure_ascii=False\<close> and without, and
  \<open>json.loads(text, object_pairs_hook=hook)\<close> of the standard library, on the values the
  codecs of the program build: a dictionary is the list of its items in insertion order. A
  float is its literal, since no decoder reads one. The reader follows CPython's scanner: the
  grammar with its \<open>NaN\<close> and \<open>Infinity\<close>, surrogate pairs, the limit on the digits of an integer,
  and the recursion limit as the number of nested arrays and objects, an argument.
\<close>

datatype json =
    JNull
  | JBool bool
  | JInt int
  | JFloat pystr
  | JStr pystr
  | JList "json list"
  | JObj "(pystr \<times> json) list"

section \<open>Writing\<close>

fun decimal :: "nat \<Rightarrow> pystr" where
  "decimal n = (if n < 10 then [48 + n] else decimal (n div 10) @ [48 + n mod 10])"

declare decimal.simps [simp del]

definition MAX_STR_DIGITS :: nat where "MAX_STR_DIGITS = 4300"

definition int_str :: "int \<Rightarrow> pystr result" where
  "int_str i =
     (let digits = decimal (nat \<bar>i\<bar>)
      in guard (length digits \<le> MAX_STR_DIGITS) ValueError
           (Inr (if i < 0 then 45 # digits else digits)))"

definition hex_digit :: "nat \<Rightarrow> nat" where
  "hex_digit n = (if n < 10 then 48 + n else 87 + n)"

definition hex_escape :: "nat \<Rightarrow> pystr" where
  "hex_escape u =
     [92, 117, hex_digit (u div 4096), hex_digit (u div 256 mod 16), hex_digit (u div 16 mod 16), hex_digit (u mod 16)]"

definition escape_char :: "nat \<Rightarrow> pystr" where
  "escape_char c =
     (if c = 34 then [92, 34] else if c = 92 then [92, 92] else if c = 10 then [92, 110]
      else if c = 13 then [92, 114] else if c = 9 then [92, 116] else if c = 12 then [92, 102]
      else if c = 8 then [92, 98] else if c < 32 then hex_escape c else [c])"

definition json_string :: "pystr \<Rightarrow> pystr" where
  "json_string s = 34 # concat (map escape_char s) @ [34]"

text \<open>
  The default \<open>ensure_ascii=True\<close>: what is not printable ASCII is escaped, outside the basic
  plane by two surrogates.
\<close>

definition ascii_char :: "nat \<Rightarrow> pystr" where
  "ascii_char c =
     (if c \<le> 126 then escape_char c else if c < 65536 then hex_escape c
      else hex_escape (55296 + (c - 65536) div 1024) @ hex_escape (56320 + (c - 65536) mod 1024))"

definition ascii_string :: "pystr \<Rightarrow> pystr" where
  "ascii_string s = 34 # concat (map ascii_char s) @ [34]"

function dumps_with :: "(pystr \<Rightarrow> pystr) \<Rightarrow> json \<Rightarrow> pystr result" where
  "dumps_with str JNull = Inr (py ''null'')"
| "dumps_with str (JBool b) = Inr (if b then py ''true'' else py ''false'')"
| "dumps_with str (JInt i) = int_str i"
| "dumps_with str (JFloat literal) = Inr literal"
| "dumps_with str (JStr s) = Inr (str s)"
| "dumps_with str (JList vs) =
     bindr (traverse (dumps_with str) vs) (\<lambda>parts. Inr ([91] @ join_with 44 parts @ [93]))"
| "dumps_with str (JObj items) =
     bindr (traverse (\<lambda>(k, v). bindr (dumps_with str v) (\<lambda>t. Inr (str k @ [58] @ t)))
              (sort_key fst items)) (\<lambda>parts. Inr ([123] @ join_with 44 parts @ [125]))"
  by pat_completeness auto
termination
proof (relation "measure (size \<circ> snd)", goal_cases)
  case (2 str vs v)
  then show ?case by (simp add: size_list_estimation' less_Suc_eq_le)
next
  case (3 str items kv k v)
  then have "(k, v) \<in> set items" by auto
  then have "size v \<le> size_list (size_prod (\<lambda>_. 0) size) items"
    by (auto intro: size_list_estimation')
  then show ?case by simp
qed simp

abbreviation json_dumps :: "json \<Rightarrow> pystr result" where
  "json_dumps \<equiv> dumps_with json_string"

abbreviation json_dumps_ascii :: "json \<Rightarrow> pystr result" where
  "json_dumps_ascii \<equiv> dumps_with ascii_string"

section \<open>Reading\<close>

abbreviation bad_json :: "'a result" where "bad_json \<equiv> Inl JSONDecodeError"

definition is_space :: "nat \<Rightarrow> bool" where
  "is_space c \<longleftrightarrow> c = 32 \<or> c = 9 \<or> c = 10 \<or> c = 13"

definition skip_space :: "pystr \<Rightarrow> pystr" where
  "skip_space = dropWhile is_space"

lemma skip_space_shorter: "length (skip_space s) \<le> length s"
  by (simp add: skip_space_def length_dropWhile_le)

definition hex_value :: "nat \<Rightarrow> nat option" where
  "hex_value c =
     (if 48 \<le> c \<and> c \<le> 57 then Some (c - 48) else if 97 \<le> c \<and> c \<le> 102 then Some (c - 87)
      else if 65 \<le> c \<and> c \<le> 70 then Some (c - 55) else None)"

fun hex4 :: "pystr \<Rightarrow> (nat \<times> pystr) result" where
  "hex4 (a # b # c # d # r) =
     (case (hex_value a, hex_value b, hex_value c, hex_value d) of
        (Some w, Some x, Some y, Some z) \<Rightarrow> Inr (((w * 16 + x) * 16 + y) * 16 + z, r)
      | _ \<Rightarrow> bad_json)"
| "hex4 _ = bad_json"

definition unescape :: "nat \<Rightarrow> nat result" where
  "unescape e =
     (if e = 34 \<or> e = 92 \<or> e = 47 then Inr e else if e = 98 then Inr 8 else if e = 102 then Inr 12
      else if e = 110 then Inr 10 else if e = 114 then Inr 13 else if e = 116 then Inr 9 else bad_json)"

text \<open>A high surrogate takes the escape after it with it if that is a low one.\<close>

definition surrogate_pair :: "nat \<Rightarrow> pystr \<Rightarrow> (nat \<times> pystr) result" where
  "surrogate_pair u s =
     (if 55296 \<le> u \<and> u \<le> 56319 \<and> starts_with [92, 117] s
      then bindr (hex4 (drop 2 s)) (\<lambda>(l, r).
             Inr (if 56320 \<le> l \<and> l \<le> 57343 then (65536 + (u - 55296) * 1024 + (l - 56320), r) else (u, s)))
      else Inr (u, s))"

text \<open>The character that \<open>c\<close> begins, inside a string, and the text after it.\<close>

definition scan_char :: "nat \<Rightarrow> pystr \<Rightarrow> (nat \<times> pystr) result" where
  "scan_char c s =
     (if c = 92 then
        (case s of
           [] \<Rightarrow> bad_json
         | e # r \<Rightarrow>
             if e = 117 then bindr (hex4 r) (\<lambda>(u, r'). surrogate_pair u r')
             else bindr (unescape e) (\<lambda>x. Inr (x, r)))
      else guard (32 \<le> c) JSONDecodeError (Inr (c, s)))"

lemma hex4_shorter: "hex4 s = Inr (u, r) \<Longrightarrow> length r \<le> length s"
  by (induction s rule: hex4.induct) (auto split: option.splits)

lemma scan_char_shorter: "scan_char c s = Inr (x, r) \<Longrightarrow> length r \<le> length s"
  by (auto simp: scan_char_def surrogate_pair_def result_simps split: if_splits list.splits dest: hex4_shorter)
    (auto dest!: hex4_shorter)

function scan_string :: "pystr \<Rightarrow> (pystr \<times> pystr) result" where
  "scan_string [] = bad_json"
| "scan_string (c # s) =
     (if c = 34 then Inr ([], s)
      else bindr (scan_char c s) (\<lambda>(x, r). bindr (scan_string r) (\<lambda>(t, r'). Inr (x # t, r'))))"
  by pat_completeness auto
termination
  by (relation "measure length") (auto dest: scan_char_shorter simp: less_Suc_eq_le)

definition is_digit :: "nat \<Rightarrow> bool" where
  "is_digit c \<longleftrightarrow> 48 \<le> c \<and> c \<le> 57"

definition digits_value :: "pystr \<Rightarrow> nat" where
  "digits_value ds = fold (\<lambda>c n. n * 10 + (c - 48)) ds 0"

text \<open>What follows the integer part: the fraction and the exponent of a float, or nothing.\<close>

definition scan_fraction :: "pystr \<Rightarrow> pystr" where
  "scan_fraction s =
     (case s of
        c # d # r \<Rightarrow> if c = 46 \<and> is_digit d then c # takeWhile is_digit (d # r) else []
      | _ \<Rightarrow> [])"

definition scan_exponent :: "pystr \<Rightarrow> pystr" where
  "scan_exponent s =
     (case s of
        [] \<Rightarrow> []
      | c # r \<Rightarrow>
          (let sign = takeWhile (\<lambda>x. x = 43 \<or> x = 45) (take 1 r);
               digits = takeWhile is_digit (drop (length sign) r)
           in if (c = 101 \<or> c = 69) \<and> digits \<noteq> [] then c # sign @ digits else []))"

definition scan_digits :: "pystr \<Rightarrow> pystr" where
  "scan_digits s =
     (case s of
        [] \<Rightarrow> []
      | c # r \<Rightarrow> if c = 48 then [c] else takeWhile is_digit s)"

definition scan_number :: "pystr \<Rightarrow> (json \<times> pystr) result" where
  "scan_number s =
     (let sign = takeWhile (\<lambda>c. c = 45) (take 1 s);
          digits = scan_digits (drop (length sign) s);
          after = drop (length sign + length digits) s;
          fraction = scan_fraction after;
          exponent = scan_exponent (drop (length fraction) after)
      in guard (digits \<noteq> []) JSONDecodeError
           (if fraction = [] \<and> exponent = [] then
              guard (length digits \<le> MAX_STR_DIGITS) ValueError
                (Inr (JInt (if sign = [] then int (digits_value digits) else - int (digits_value digits)), after))
            else Inr (JFloat (sign @ digits @ fraction @ exponent),
                      drop (length fraction + length exponent) after)))"

text \<open>
  Elements between commas up to \<open>close\<close>. An element takes a character at least, so the test of
  the lengths always holds; it is what makes the recursion end.
\<close>

function comma_items ::
  "nat \<Rightarrow> (pystr \<Rightarrow> ('a \<times> pystr) result) \<Rightarrow> pystr \<Rightarrow> ('a list \<times> pystr) result" where
  "comma_items close p s =
     bindr (p s) (\<lambda>(x, r).
     case skip_space r of
       [] \<Rightarrow> bad_json
     | c # r' \<Rightarrow>
         if c = close then Inr ([x], r')
         else if c = 44 \<and> length (skip_space r') < length s
           then bindr (comma_items close p (skip_space r')) (\<lambda>(xs, q). Inr (x # xs, q))
           else bad_json)"
  by pat_completeness auto
termination
  by (relation "measure (\<lambda>(close, p, s). length s)") auto

declare comma_items.simps [simp del]

text \<open>A member of an object, at its key.\<close>

definition scan_member :: "(pystr \<Rightarrow> (json \<times> pystr) result) \<Rightarrow> pystr \<Rightarrow> ((pystr \<times> json) \<times> pystr) result" where
  "scan_member value s =
     (case s of
        [] \<Rightarrow> bad_json
      | c # r \<Rightarrow>
          guard (c = 34) JSONDecodeError
            (bindr (scan_string r) (\<lambda>(key, r1).
             case skip_space r1 of
               [] \<Rightarrow> bad_json
             | c1 # r2 \<Rightarrow>
                 guard (c1 = 58) JSONDecodeError
                   (bindr (value (skip_space r2)) (\<lambda>(v, r3). Inr ((key, v), r3))))))"

text \<open>The items of an array or object, after its opening bracket.\<close>

definition scan_items ::
  "nat \<Rightarrow> (pystr \<Rightarrow> ('a \<times> pystr) result) \<Rightarrow> pystr \<Rightarrow> ('a list \<times> pystr) result" where
  "scan_items close p s =
     (case skip_space s of
        [] \<Rightarrow> bad_json
      | c # r \<Rightarrow> if c = close then Inr ([], r) else comma_items close p (c # r))"

type_synonym pairs_hook = "(pystr \<times> json) list \<Rightarrow> (pystr \<times> json) list result"

definition scan_once ::
  "pairs_hook \<Rightarrow> (pystr \<Rightarrow> (json \<times> pystr) result) option \<Rightarrow> pystr \<Rightarrow> (json \<times> pystr) result" where
  "scan_once hook nested s =
     (case s of
        [] \<Rightarrow> bad_json
      | c # r \<Rightarrow>
          if c = 34 then bindr (scan_string r) (\<lambda>(t, r'). Inr (JStr t, r'))
          else if c = 123 then
            (case nested of
               None \<Rightarrow> Inl RecursionError
             | Some value \<Rightarrow>
                 bindr (scan_items 125 (scan_member value) r) (\<lambda>(pairs, r').
                 bindr (hook pairs) (\<lambda>items. Inr (JObj items, r'))))
          else if c = 91 then
            (case nested of
               None \<Rightarrow> Inl RecursionError
             | Some value \<Rightarrow> bindr (scan_items 93 value r) (\<lambda>(vs, r'). Inr (JList vs, r')))
          else if starts_with (py ''null'') s then Inr (JNull, drop 4 s)
          else if starts_with (py ''true'') s then Inr (JBool True, drop 4 s)
          else if starts_with (py ''false'') s then Inr (JBool False, drop 5 s)
          else if starts_with (py ''NaN'') s then Inr (JFloat (py ''NaN''), drop 3 s)
          else if starts_with (py ''Infinity'') s then Inr (JFloat (py ''Infinity''), drop 8 s)
          else if starts_with (py ''-Infinity'') s then Inr (JFloat (py ''-Infinity''), drop 9 s)
          else scan_number s)"

primrec scan_value :: "pairs_hook \<Rightarrow> nat \<Rightarrow> pystr \<Rightarrow> (json \<times> pystr) result" where
  "scan_value hook 0 = scan_once hook None"
| "scan_value hook (Suc depth) = scan_once hook (Some (scan_value hook depth))"

definition json_loads :: "pairs_hook \<Rightarrow> nat \<Rightarrow> pystr \<Rightarrow> json result" where
  "json_loads hook depth s =
     guard (\<not> starts_with [65279] s) JSONDecodeError
       (bindr (scan_value hook depth (skip_space s)) (\<lambda>(v, r).
        guard (skip_space r = []) JSONDecodeError (Inr v)))"

text \<open>The hook of every decoder of the program: an object may not repeat a key.\<close>

definition unique_keys :: "error \<Rightarrow> pairs_hook" where
  "unique_keys e items = guard (distinct (map fst items)) e (Inr items)"

end
