(* ===== verification/Canonical.thy ===== *)
theory Canonical
  imports Effects Bytes Json
begin

text \<open>
  The canonical serialization of a specification (\<open>core/canonical.py\<close>): an object with its
  set-like fields sorted, its JSON text with sorted keys, and the UTF-8 bytes of that text; and
  the decoder, which refuses everything but the exact fields with the exact types. Objects of
  the decoder are JSON values, whose keys are strings by construction. The recursion limit of
  the interpreter is the argument \<open>depth\<close>.
\<close>

abbreviation canon_err :: "canonical_fault \<Rightarrow> error" where
  "canon_err f \<equiv> spec_err (CanonicalFault f)"

section \<open>Encoding\<close>

fun state_obj :: "path_state \<Rightarrow> json" where
  "state_obj AbsentState = JObj [(py ''type'', JStr (py ''absent''))]"
| "state_obj (FileState hash mode len) =
     JObj [(py ''type'', JStr (py ''file'')), (py ''content_hash'', JStr hash),
           (py ''mode'', JInt mode), (py ''byte_len'', JInt len)]"
| "state_obj (DirectoryState mode) =
     JObj [(py ''type'', JStr (py ''directory'')), (py ''mode'', JInt mode)]"
| "state_obj (SymlinkState target mode) =
     JObj [(py ''type'', JStr (py ''symlink'')), (py ''target'', JStr target), (py ''mode'', JInt mode)]"

fun effect_obj :: "effect \<Rightarrow> json" where
  "effect_obj (ReplaceFile eid path pre post) =
     JObj [(py ''type'', JStr (py ''ReplaceFile'')), (py ''effect_id'', JStr eid),
           (py ''path'', JStr path), (py ''pre'', state_obj pre), (py ''post'', state_obj post)]"
| "effect_obj (CreateFileNoClobber eid path post) =
     JObj [(py ''type'', JStr (py ''CreateFileNoClobber'')), (py ''effect_id'', JStr eid),
           (py ''path'', JStr path), (py ''post'', state_obj post)]"
| "effect_obj (DeletePath eid path pre) =
     JObj [(py ''type'', JStr (py ''DeletePath'')), (py ''effect_id'', JStr eid),
           (py ''path'', JStr path), (py ''pre'', state_obj pre)]"
| "effect_obj (MoveNoClobber eid source destination source_pre) =
     JObj [(py ''type'', JStr (py ''MoveNoClobber'')), (py ''effect_id'', JStr eid),
           (py ''source'', JStr source), (py ''destination'', JStr destination),
           (py ''source_pre'', state_obj source_pre)]"
| "effect_obj (CreateDirectory eid path post) =
     JObj [(py ''type'', JStr (py ''CreateDirectory'')), (py ''effect_id'', JStr eid),
           (py ''path'', JStr path), (py ''post'', state_obj post)]"

definition surface_obj :: "surface_entry \<Rightarrow> json" where
  "surface_obj entry = JObj [(py ''path'', JStr (entry_path entry)), (py ''state'', state_obj (entry_state entry))]"

definition dependency_obj :: "dependency \<Rightarrow> json" where
  "dependency_obj dep = JObj [(py ''before'', JStr (dep_before dep)), (py ''after'', JStr (dep_after dep))]"

definition canonical_obj :: "transaction_spec \<Rightarrow> json" where
  "canonical_obj spec =
     JObj [(py ''schema_version'', JInt (schema_version spec)),
           (py ''consumer_tag'', JStr (consumer_tag spec)),
           (py ''intent_digest'', JStr (intent_digest spec)),
           (py ''initial_surface'', JList (map surface_obj (sort_key entry_path (initial_surface spec)))),
           (py ''final_surface'', JList (map surface_obj (sort_key entry_path (final_surface spec)))),
           (py ''effects'', JList (map effect_obj (spec_effects spec))),
           (py ''dependencies'',
              JList (map dependency_obj (sort_key (\<lambda>d. (dep_before d, dep_after d)) (dependencies spec)))),
           (py ''fulfills'', (case fulfills spec of None \<Rightarrow> JNull | Some digest \<Rightarrow> JStr digest)),
           (py ''registered_paths'', JList (map JStr (registered_paths spec)))]"

definition canonical_json :: "transaction_spec \<Rightarrow> pystr result" where
  "canonical_json spec = json_dumps (canonical_obj spec)"

definition canonical_bytes :: "transaction_spec \<Rightarrow> bytes result" where
  "canonical_bytes spec = bindr (canonical_json spec) utf8_encode"

section \<open>Decoding\<close>

type_synonym items = "(pystr \<times> json) list"

fun as_dict :: "json \<Rightarrow> items result" where
  "as_dict (JObj items) = Inr items"
| "as_dict _ = Inl (canon_err NotObject)"

fun as_list :: "json \<Rightarrow> json list result" where
  "as_list (JList vs) = Inr vs"
| "as_list _ = Inl (canon_err NotArray)"

fun as_str :: "json \<Rightarrow> pystr result" where
  "as_str (JStr s) = Inr s"
| "as_str _ = Inl (canon_err NotString)"

fun as_int :: "json \<Rightarrow> int result" where
  "as_int (JInt i) = Inr i"
| "as_int _ = Inl (canon_err NotInteger)"

definition require_only :: "items \<Rightarrow> pystr list \<Rightarrow> unit result" where
  "require_only obj allowed =
     andthen (for_each (\<lambda>field. guard (field \<in> fst ` set obj) (canon_err FieldMissing) (Inr ())) allowed)
       (guard (\<forall>field \<in> fst ` set obj. field \<in> set allowed) (canon_err FieldUnexpected) (Inr ()))"

text \<open>\<open>obj[name]\<close>, decoded.\<close>

definition field :: "(json \<Rightarrow> 'a result) \<Rightarrow> items \<Rightarrow> pystr \<Rightarrow> 'a result" where
  "field decode obj name = bindr (lookup_or KeyError (map_of obj) name) decode"

text \<open>The fields of every state and effect variant, in the order of their tables.\<close>

definition STATE_SPEC :: "(pystr \<times> pystr list) list" where
  "STATE_SPEC =
     [(py ''absent'', []),
      (py ''file'', [py ''content_hash'', py ''mode'', py ''byte_len'']),
      (py ''directory'', [py ''mode'']),
      (py ''symlink'', [py ''target'', py ''mode''])]"

definition EFFECT_SPEC :: "(pystr \<times> pystr list) list" where
  "EFFECT_SPEC =
     [(py ''ReplaceFile'', [py ''effect_id'', py ''path'', py ''pre'', py ''post'']),
      (py ''CreateFileNoClobber'', [py ''effect_id'', py ''path'', py ''post'']),
      (py ''DeletePath'', [py ''effect_id'', py ''path'', py ''pre'']),
      (py ''MoveNoClobber'', [py ''effect_id'', py ''source'', py ''destination'', py ''source_pre'']),
      (py ''CreateDirectory'', [py ''effect_id'', py ''path'', py ''post''])]"

definition decode_discriminator :: "items \<Rightarrow> (pystr \<times> pystr list) list \<Rightarrow> (pystr \<times> pystr list) result" where
  "decode_discriminator obj variants =
     guard (py ''type'' \<in> fst ` set obj) (canon_err DiscriminatorMissing)
       (bindr (field as_str obj (py ''type'')) (\<lambda>tag.
        bindr (lookup_or (canon_err DiscriminatorUnknown) (map_of variants) tag) (\<lambda>fields. Inr (tag, fields))))"

definition decode_state :: "json \<Rightarrow> path_state result" where
  "decode_state value =
     bindr (as_dict value) (\<lambda>obj.
     bindr (decode_discriminator obj STATE_SPEC) (\<lambda>(tag, fields).
     andthen (require_only obj (py ''type'' # fields))
       (if tag = py ''absent'' then Inr AbsentState
        else if tag = py ''file'' then
          bindr (field as_str obj (py ''content_hash'')) (\<lambda>hash.
          bindr (field as_int obj (py ''mode'')) (\<lambda>mode.
          bindr (field as_int obj (py ''byte_len'')) (\<lambda>len. Inr (FileState hash mode len))))
        else if tag = py ''directory'' then
          bindr (field as_int obj (py ''mode'')) (\<lambda>mode. Inr (DirectoryState mode))
        else
          bindr (field as_str obj (py ''target'')) (\<lambda>target.
          bindr (field as_int obj (py ''mode'')) (\<lambda>mode. Inr (SymlinkState target mode))))))"

text \<open>A state-valued field with the kinds it may hold.\<close>

definition state_field :: "path_kind set \<Rightarrow> items \<Rightarrow> pystr \<Rightarrow> path_state result" where
  "state_field kinds obj name =
     bindr (field decode_state obj name) (\<lambda>state.
     guard (kind_of state \<in> kinds) (canon_err StateNotPermitted) (Inr state))"

definition decode_effect :: "json \<Rightarrow> effect result" where
  "decode_effect value =
     bindr (as_dict value) (\<lambda>obj.
     bindr (decode_discriminator obj EFFECT_SPEC) (\<lambda>(tag, fields).
     andthen (require_only obj (py ''type'' # fields))
       (bindr (field as_str obj (py ''effect_id'')) (\<lambda>eid.
        if tag = py ''MoveNoClobber'' then
          bindr (field as_str obj (py ''source'')) (\<lambda>source.
          bindr (field as_str obj (py ''destination'')) (\<lambda>destination.
          bindr (state_field {Kind_FILE} obj (py ''source_pre'')) (\<lambda>source_pre.
          Inr (MoveNoClobber eid source destination source_pre))))
        else
          bindr (field as_str obj (py ''path'')) (\<lambda>path.
          if tag = py ''ReplaceFile'' then
            bindr (state_field {Kind_FILE} obj (py ''pre'')) (\<lambda>pre.
            bindr (state_field {Kind_FILE} obj (py ''post'')) (\<lambda>post.
            Inr (ReplaceFile eid path pre post)))
          else if tag = py ''CreateFileNoClobber'' then
            bindr (state_field {Kind_FILE} obj (py ''post'')) (\<lambda>post.
            Inr (CreateFileNoClobber eid path post))
          else if tag = py ''DeletePath'' then
            bindr (state_field {Kind_FILE, Kind_SYMLINK} obj (py ''pre'')) (\<lambda>pre.
            Inr (DeletePath eid path pre))
          else
            bindr (state_field {Kind_DIRECTORY} obj (py ''post'')) (\<lambda>post.
            Inr (CreateDirectory eid path post)))))))"

definition decode_surface_entry :: "json \<Rightarrow> surface_entry result" where
  "decode_surface_entry raw =
     bindr (as_dict raw) (\<lambda>item.
     andthen (require_only item [py ''path'', py ''state''])
       (bindr (field as_str item (py ''path'')) (\<lambda>path.
        bindr (field decode_state item (py ''state'')) (\<lambda>state. Inr (SurfaceEntry path state)))))"

definition decode_dependency :: "json \<Rightarrow> dependency result" where
  "decode_dependency raw =
     bindr (as_dict raw) (\<lambda>item.
     andthen (require_only item [py ''before'', py ''after''])
       (bindr (field as_str item (py ''before'')) (\<lambda>before.
        bindr (field as_str item (py ''after'')) (\<lambda>after. Inr (Dependency before after)))))"

definition decode_list :: "(json \<Rightarrow> 'a result) \<Rightarrow> json \<Rightarrow> 'a list result" where
  "decode_list decode value = bindr (as_list value) (traverse decode)"

fun decode_fulfills :: "json \<Rightarrow> pystr option result" where
  "decode_fulfills JNull = Inr None"
| "decode_fulfills value = bindr (as_str value) (\<lambda>digest. Inr (Some digest))"

definition SPEC_FIELDS :: "pystr list" where
  "SPEC_FIELDS =
     [py ''schema_version'', py ''consumer_tag'', py ''intent_digest'', py ''initial_surface'',
      py ''final_surface'', py ''effects'', py ''dependencies'', py ''fulfills'', py ''registered_paths'']"

definition decode_canonical_obj :: "json \<Rightarrow> transaction_spec result" where
  "decode_canonical_obj obj =
     bindr (as_dict obj) (\<lambda>spec.
     andthen (require_only spec SPEC_FIELDS)
     (bindr (field as_int spec (py ''schema_version'')) (\<lambda>version.
      guard (version = SCHEMA_VERSION) (canon_err SchemaUnsupported)
     (bindr (field (decode_list decode_surface_entry) spec (py ''initial_surface'')) (\<lambda>initial.
      bindr (field (decode_list decode_surface_entry) spec (py ''final_surface'')) (\<lambda>final.
      bindr (field (decode_list decode_dependency) spec (py ''dependencies'')) (\<lambda>deps.
      bindr (field (decode_list decode_effect) spec (py ''effects'')) (\<lambda>effects.
      bindr (field as_str spec (py ''consumer_tag'')) (\<lambda>tag.
      bindr (field as_str spec (py ''intent_digest'')) (\<lambda>digest.
      bindr (field decode_fulfills spec (py ''fulfills'')) (\<lambda>fulfilled.
      bindr (field (decode_list as_str) spec (py ''registered_paths'')) (\<lambda>registered.
      let decoded = \<lparr>schema_version = version, consumer_tag = tag, intent_digest = digest,
            initial_surface = initial, final_surface = final, spec_effects = effects,
            dependencies = deps, fulfills = fulfilled, registered_paths = registered\<rparr>
      in andthen (validate_v2_members decoded) (Inr decoded)))))))))))))"

text \<open>\<open>except SpecValidationError: raise\<close>; any other exception is wrapped.\<close>

fun wrap_spec_error :: "canonical_fault \<Rightarrow> 'a result \<Rightarrow> 'a result" where
  "wrap_spec_error fault (Inr x) = Inr x"
| "wrap_spec_error fault (Inl (SpecValidationError f)) = Inl (SpecValidationError f)"
| "wrap_spec_error fault (Inl _) = Inl (canon_err fault)"

definition from_canonical_obj :: "json \<Rightarrow> transaction_spec result" where
  "from_canonical_obj obj = wrap_spec_error ObjectMalformed (decode_canonical_obj obj)"

definition from_canonical_json :: "nat \<Rightarrow> pystr \<Rightarrow> transaction_spec result" where
  "from_canonical_json depth json =
     bindr (wrap_spec_error JsonMalformed (json_loads (unique_keys (canon_err JsonDuplicateKey)) depth json))
       from_canonical_obj"

definition from_canonical_bytes :: "nat \<Rightarrow> bytes \<Rightarrow> transaction_spec result" where
  "from_canonical_bytes depth data =
     bindr (case utf8_decode data of
              Inl UnicodeDecodeError \<Rightarrow> Inl (canon_err BytesNotUtf8)
            | decoded \<Rightarrow> decoded) (from_canonical_json depth)"

end
