(* ===== verification/JsonCorrect.thy ===== *)
theory JsonCorrect
  imports Json Bytes
begin

text \<open>
  What \<open>json.dumps\<close> writes, \<open>json.loads\<close> reads back: the same value with the items of every
  object sorted by key, and no other value without floats gives the same text.
\<close>

function sorted_json :: "json \<Rightarrow> json" where
  "sorted_json (JList vs) = JList (map sorted_json vs)"
| "sorted_json (JObj items) = JObj (map (\<lambda>(k, v). (k, sorted_json v)) (sort_key fst items))"
| "sorted_json JNull = JNull"
| "sorted_json (JBool b) = JBool b"
| "sorted_json (JInt i) = JInt i"
| "sorted_json (JFloat t) = JFloat t"
| "sorted_json (JStr s) = JStr s"
  by pat_completeness auto
termination
proof (relation "measure size", goal_cases)
  case (2 vs v)
  then show ?case by (simp add: size_list_estimation' less_Suc_eq_le)
next
  case (3 items kv k v)
  then have "(k, v) \<in> set items" by auto
  then have "size v \<le> size_list (size_prod (\<lambda>_. 0) size) items"
    by (auto intro: size_list_estimation')
  then show ?case by simp
qed simp

text \<open>
  Values a dictionary-based encoder builds: no float, no repeated key, and strings that are \<open>good\<close>.
\<close>

inductive plain_in :: "(pystr \<Rightarrow> bool) \<Rightarrow> json \<Rightarrow> bool" for good where
  "plain_in good JNull"
| "plain_in good (JBool b)"
| "plain_in good (JInt i)"
| "good s \<Longrightarrow> plain_in good (JStr s)"
| "\<forall>v \<in> set vs. plain_in good v \<Longrightarrow> plain_in good (JList vs)"
| "\<forall>(k, v) \<in> set items. good k \<and> plain_in good v \<Longrightarrow> distinct (map fst items) \<Longrightarrow> plain_in good (JObj items)"

inductive_simps plain_simps [simp]:
  "plain_in good JNull" "plain_in good (JBool b)" "plain_in good (JInt i)" "plain_in good (JStr s)"
  "plain_in good (JFloat t)" "plain_in good (JList vs)" "plain_in good (JObj items)"

abbreviation plain :: "json \<Rightarrow> bool" where
  "plain \<equiv> plain_in (\<lambda>_. True)"

text \<open>The value has at most \<open>n\<close> arrays and objects within one another.\<close>

inductive nested_in :: "json \<Rightarrow> nat \<Rightarrow> bool" where
  "nested_in JNull n"
| "nested_in (JBool b) n"
| "nested_in (JInt i) n"
| "nested_in (JStr s) n"
| "nested_in (JFloat t) n"
| "\<forall>v \<in> set vs. nested_in v n \<Longrightarrow> nested_in (JList vs) (Suc n)"
| "\<forall>(k, v) \<in> set items. nested_in v n \<Longrightarrow> nested_in (JObj items) (Suc n)"

inductive_simps nested_in_simps [simp]:
  "nested_in JNull n" "nested_in (JBool b) n" "nested_in (JInt i) n" "nested_in (JStr s) n"
  "nested_in (JFloat t) n" "nested_in (JList vs) n" "nested_in (JObj items) n"

section \<open>Strings\<close>

lemma hex_digit_value [simp]: "n < 16 \<Longrightarrow> hex_value (hex_digit n) = Some n"
  by (auto simp: hex_value_def hex_digit_def)

text \<open>What \<open>hex_escape\<close> writes, the reader takes as one character, two if they are surrogates.\<close>

lemma hex4_escape: "u < 65536 \<Longrightarrow> hex4 (drop 2 (hex_escape u) @ s) = Inr (u, s)"
proof -
  assume "u < 65536"
  then have "u div 4096 < 16" by (simp add: less_mult_imp_div_less)
  moreover have "((u div 4096 * 16 + u div 256 mod 16) * 16 + u div 16 mod 16) * 16 + u mod 16 = u"
    using div_mult_mod_eq [of "u div 256" 16] div_mult_mod_eq [of "u div 16" 16] div_mult_mod_eq [of u 16]
    by (simp add: div_mult2_eq [symmetric])
  ultimately show ?thesis by (simp add: hex_escape_def)
qed

definition high_surrogate :: "nat \<Rightarrow> bool" where
  "high_surrogate c \<longleftrightarrow> 55296 \<le> c \<and> c \<le> 56319"

definition low_surrogate :: "nat \<Rightarrow> bool" where
  "low_surrogate c \<longleftrightarrow> 56320 \<le> c \<and> c \<le> 57343"

lemma hex_escape_starts: "hex_escape u = 92 # 117 # drop 2 (hex_escape u)"
  by (simp add: hex_escape_def)

lemma scan_hex_escape:
  assumes "u < 65536" and "surrogate_pair u s = Inr (c, r)"
  shows "scan_string (hex_escape u @ s) = bindr (scan_string r) (\<lambda>(t, r). Inr (c # t, r))"
proof -
  have "scan_char 92 (117 # drop 2 (hex_escape u) @ s) = Inr (c, r)"
    using hex4_escape [OF assms(1), of s] assms(2) by (simp add: scan_char_def)
  then show ?thesis by (subst hex_escape_starts) simp
qed

lemma not_high_alone: "\<not> high_surrogate u \<Longrightarrow> surrogate_pair u s = Inr (u, s)"
  by (auto simp: surrogate_pair_def high_surrogate_def)

lemma scan_escaped:
  "scan_string (escape_char c @ s) = bindr (scan_string s) (\<lambda>(t, r). Inr (c # t, r))"
proof (cases "c = 10 \<or> c = 13 \<or> c = 9 \<or> c = 12 \<or> c = 8 \<or> c = 34 \<or> c = 92")
  case True
  then show ?thesis by (elim disjE) (simp_all add: escape_char_def scan_char_def unescape_def)
next
  case False
  show ?thesis
  proof (cases "c < 32")
    case True
    with False show ?thesis
      by (simp add: escape_char_def scan_hex_escape [of c s c s] not_high_alone high_surrogate_def)
  next
    case no: False
    with False show ?thesis by (auto simp: escape_char_def scan_char_def)
  qed
qed

text \<open>
  The interface of a writer of strings, on the strings it writes faithfully: a quote and then
  a text that the scanner reads as the string.
\<close>

locale string_writer =
  fixes str :: "pystr \<Rightarrow> pystr" and good :: "pystr \<Rightarrow> bool"
  assumes quoted: "\<exists>body. str s = 34 # body"
    and scanned: "good s \<Longrightarrow> scan_string (tl (str s) @ rest) = Inr (s, rest)"

interpretation raw_writer: string_writer json_string "\<lambda>_. True"
proof
  show "scan_string (tl (json_string s) @ rest) = Inr (s, rest)" for s rest
    by (induction s) (simp_all add: json_string_def scan_escaped)
qed (simp add: json_string_def)

text \<open>No high surrogate stands before a low one, which the reader would join.\<close>

fun unpaired :: "pystr \<Rightarrow> bool" where
  "unpaired (c # d # s) \<longleftrightarrow> c < 1114112 \<and> \<not> (high_surrogate c \<and> low_surrogate d) \<and> unpaired (d # s)"
| "unpaired [c] \<longleftrightarrow> c < 1114112"
| "unpaired [] \<longleftrightarrow> True"

lemma ascii_first:
  assumes "\<not> low_surrogate d" and "d < 1114112"
  shows "(\<exists>w r. w < 65536 \<and> \<not> low_surrogate w \<and> ascii_char d = hex_escape w @ r) \<or>
    \<not> starts_with [92, 117] (ascii_char d @ s)"
proof (cases "d < 65536")
  case True
  show ?thesis
  proof (cases "ascii_char d = hex_escape d")
    case True
    with assms \<open>d < 65536\<close> have "d < 65536 \<and> \<not> low_surrogate d \<and> ascii_char d = hex_escape d @ []" by simp
    then show ?thesis by blast
  next
    case False
    with \<open>d < 65536\<close> show ?thesis by (simp add: ascii_char_def escape_char_def starts_with_def split: if_splits)
  qed
next
  case False
  let ?w = "55296 + (d - 65536) div 1024"
  have "(d - 65536) div 1024 < 1024" using assms(2) by (simp add: less_mult_imp_div_less)
  with False have "?w < 65536 \<and> \<not> low_surrogate ?w \<and>
      ascii_char d = hex_escape ?w @ hex_escape (56320 + (d - 65536) mod 1024)"
    by (simp add: low_surrogate_def ascii_char_def)
  then show ?thesis by blast
qed

lemma high_stands_alone:
  assumes "\<not> low_surrogate d" and "d < 1114112"
  shows "surrogate_pair u (ascii_char d @ s) = Inr (u, ascii_char d @ s)"
  using ascii_first [OF assms, of s]
proof
  assume "\<exists>w r. w < 65536 \<and> \<not> low_surrogate w \<and> ascii_char d = hex_escape w @ r"
  then obtain w r where w: "w < 65536" "\<not> low_surrogate w" "ascii_char d = hex_escape w @ r" by blast
  then have "hex4 (drop 2 (ascii_char d @ s)) = Inr (w, r @ s)"
    using hex4_escape [OF w(1), of "r @ s"] by (simp add: hex_escape_def)
  with w(2) show ?thesis by (auto simp: surrogate_pair_def low_surrogate_def)
qed (simp add: surrogate_pair_def)

lemma surrogates_join:
  assumes "65536 \<le> c" and "c < 1114112"
  shows "surrogate_pair (55296 + (c - 65536) div 1024) (hex_escape (56320 + (c - 65536) mod 1024) @ s) = Inr (c, s)"
proof -
  have "(c - 65536) div 1024 < 1024" using assms by (simp add: less_mult_imp_div_less)
  moreover have "hex4 (drop 2 (hex_escape (56320 + (c - 65536) mod 1024)) @ s) = Inr (56320 + (c - 65536) mod 1024, s)"
    by (rule hex4_escape) (simp add: less_trans [OF mod_less_divisor])
  moreover have "65536 + (c - 65536) div 1024 * 1024 + (c - 65536) mod 1024 = c"
    using assms(1) div_mult_mod_eq [of "c - 65536" 1024] by linarith
  ultimately show ?thesis
    by (subst hex_escape_starts) (simp add: surrogate_pair_def starts_with_def)
qed

lemma scan_ascii:
  assumes "c < 1114112" and "high_surrogate c \<Longrightarrow> surrogate_pair c s = Inr (c, s)"
  shows "scan_string (ascii_char c @ s) = bindr (scan_string s) (\<lambda>(t, r). Inr (c # t, r))"
proof -
  consider "c \<le> 126" | "126 < c" "c < 65536" | "65536 \<le> c" by linarith
  then show ?thesis
  proof cases
    case 2
    then have "surrogate_pair c s = Inr (c, s)" using assms(2) not_high_alone by blast
    with 2 show ?thesis using scan_hex_escape [of c s c s] by (simp add: ascii_char_def)
  next
    case 3
    have "(c - 65536) div 1024 < 1024" using assms by (simp add: less_mult_imp_div_less)
    with 3 show ?thesis
      using scan_hex_escape [OF _ surrogates_join [OF 3 assms(1), of s]] by (simp add: ascii_char_def)
  qed (simp add: ascii_char_def scan_escaped)
qed

lemma scan_ascii_string: "unpaired s \<Longrightarrow> scan_string (concat (map ascii_char s) @ 34 # rest) = Inr (s, rest)"
proof (induction s rule: unpaired.induct)
  case (1 c d s)
  let ?r = "concat (map ascii_char (d # s)) @ 34 # rest"
  have "d < 1114112" using 1(2) by (cases s) auto
  then have "high_surrogate c \<Longrightarrow> surrogate_pair c ?r = Inr (c, ?r)"
    using 1(2) high_stands_alone [of d c "concat (map ascii_char s) @ 34 # rest"] by simp
  moreover have "c < 1114112" using 1(2) by simp
  ultimately show ?case using 1 scan_ascii [of c ?r] by simp
next
  case (2 c)
  then show ?case using scan_ascii [of c "34 # rest"] by (simp add: surrogate_pair_def starts_with_def)
qed simp

interpretation ascii_writer: string_writer ascii_string unpaired
  by unfold_locales (simp_all add: ascii_string_def scan_ascii_string)

section \<open>Integers\<close>

lemma decimal_digits: "list_all is_digit (decimal n) \<and> decimal n \<noteq> []"
proof (induction n rule: decimal.induct)
  case (1 n)
  have "is_digit (48 + n mod 10)" using mod_less_divisor [of 10 n] by (simp only: is_digit_def) simp
  moreover have "is_digit (48 + n)" if "n < 10" using that by (simp add: is_digit_def)
  ultimately show ?case using 1 by (subst (1 2) decimal.simps) simp
qed

lemma digits_value_snoc: "digits_value (ds @ [c]) = digits_value ds * 10 + (c - 48)"
  by (simp add: digits_value_def)

lemma decimal_value: "digits_value (decimal n) = n"
proof (induction n rule: decimal.induct)
  case (1 n)
  then show ?case by (subst decimal.simps) (simp add: digits_value_snoc, simp add: digits_value_def)
qed

lemma decimal_leading: "0 < n \<Longrightarrow> hd (decimal n) \<noteq> 48"
proof (induction n rule: decimal.induct)
  case (1 n)
  show ?case
  proof (cases "n < 10")
    case False
    then have "0 < n div 10" by simp
    with 1(1) [OF False this] False decimal_digits [of "n div 10"] show ?thesis
      by (subst decimal.simps) simp
  qed (use 1 in \<open>simp add: decimal.simps\<close>)
qed

text \<open>A text that goes on with a delimiter or not at all.\<close>

definition delimited :: "pystr \<Rightarrow> bool" where
  "delimited rest \<longleftrightarrow> rest = [] \<or> hd rest \<in> {44, 93, 125}"

lemma scan_decimal: "delimited rest \<Longrightarrow> scan_digits (decimal n @ rest) = decimal n"
proof -
  assume "delimited rest"
  then have rest: "takeWhile is_digit rest = []"
    by (cases rest) (auto simp: delimited_def is_digit_def)
  obtain d ds where d: "decimal n = d # ds" using decimal_digits [of n] by (cases "decimal n") auto
  show ?thesis
  proof (cases "n = 0")
    case True
    then show ?thesis by (simp add: decimal.simps scan_digits_def)
  next
    case False
    then have "d \<noteq> 48" using decimal_leading [of n] d by simp
    moreover have "takeWhile is_digit (decimal n @ rest) = decimal n"
      using decimal_digits [of n] rest by (simp add: takeWhile_append2 list_all_iff)
    ultimately show ?thesis using d by (simp add: scan_digits_def)
  qed
qed

lemma scan_int:
  assumes "int_str i = Inr t" and "delimited rest"
  shows "scan_number (t @ rest) = Inr (JInt i, rest)"
proof -
  define n where "n = nat \<bar>i\<bar>"
  obtain d ds where d: "decimal n = d # ds" "is_digit d" using decimal_digits [of n] by (cases "decimal n") auto
  have none: "scan_fraction rest = []" "scan_exponent rest = []"
    using assms(2) by (auto simp: delimited_def scan_fraction_def scan_exponent_def split: list.splits)
  from assms(1) have t: "t = (if i < 0 then 45 # d # ds else d # ds)" "Suc (length ds) \<le> MAX_STR_DIGITS"
    by (auto simp: int_str_def Let_def guard_Inr_iff n_def [symmetric] d)
  have scan: "scan_digits (d # ds @ rest) = d # ds" using scan_decimal [OF assms(2), of n] d by simp
  have val: "digits_value (d # ds) = n" using decimal_value [of n] d by simp
  have "d \<noteq> 45" using d(2) by (simp add: is_digit_def)
  show ?thesis
  proof (cases "i < 0")
    case True
    then have "- int n = i" by (simp add: n_def)
    with True show ?thesis by (simp add: t(1) scan_number_def scan none val t(2))
  next
    case False
    then have "int n = i" by (simp add: n_def)
    with False \<open>d \<noteq> 45\<close> show ?thesis by (simp add: t(1) scan_number_def scan none val t(2))
  qed
qed

section \<open>Items\<close>

lemma no_space: "s = [] \<or> \<not> is_space (hd s) \<Longrightarrow> skip_space s = s"
  by (cases s) (auto simp: skip_space_def)

text \<open>What an element parser must do on the texts that are written for the elements.\<close>

definition reads_items ::
  "nat \<Rightarrow> (pystr \<Rightarrow> ('a \<times> pystr) result) \<Rightarrow> ('b \<Rightarrow> pystr) \<Rightarrow> ('b \<Rightarrow> 'a) \<Rightarrow> 'b list \<Rightarrow> bool" where
  "reads_items close p writes item xs \<longleftrightarrow>
     close \<in> {93, 125} \<and>
     (\<forall>x \<in> set xs. writes x \<noteq> [] \<and> \<not> is_space (hd (writes x)) \<and> hd (writes x) \<noteq> close \<and>
        (\<forall>rest. delimited rest \<longrightarrow> p (writes x @ rest) = Inr (item x, rest)))"

lemma comma_reads:
  "reads_items close p writes item ys \<Longrightarrow> ys \<noteq> [] \<Longrightarrow>
   comma_items close p (join_with 44 (map writes ys) @ close # rest) = Inr (map item ys, rest)"
proof (induction ys)
  case (Cons y ys)
  from Cons.prems(1) have close: "close = 93 \<or> close = 125" by (simp add: reads_items_def)
  from Cons.prems(1) have reads: "p (writes x @ r) = Inr (item x, r)" if "x \<in> set (y # ys)" "delimited r" for x r
    using that by (auto simp: reads_items_def)
  from Cons.prems(1) have starts: "writes x \<noteq> [] \<and> \<not> is_space (hd (writes x)) \<and> hd (writes x) \<noteq> close"
    if "x \<in> set (y # ys)" for x
    using that by (auto simp: reads_items_def)
  have closing: "skip_space (close # s) = close # s" "skip_space (44 # s) = 44 # s" for s
    using close by (auto simp: skip_space_def is_space_def)
  show ?case
  proof (cases ys)
    case Nil
    have "delimited (close # rest)" using close by (auto simp: delimited_def)
    with Cons.prems reads [of y "close # rest"] Nil closing show ?thesis
      by (subst comma_items.simps) simp
  next
    case (Cons z zs)
    let ?r = "join_with 44 (map writes ys) @ close # rest"
    have tail: "skip_space ?r = ?r"
    proof -
      from starts [of z] Cons have "writes z \<noteq> []" "\<not> is_space (hd (writes z))" by auto
      then have "hd ?r = hd (writes z)" using Cons by (cases zs) auto
      with \<open>\<not> is_space (hd (writes z))\<close> show ?thesis by (intro no_space) simp
    qed
    have y: "p (writes y @ 44 # ?r) = Inr (item y, 44 # ?r)"
      using reads [of y "44 # ?r"] Cons.prems by (simp add: delimited_def)
    have "writes y \<noteq> []" using starts [of y] Cons.prems by simp
    then have shorter: "length ?r < length (writes y @ 44 # ?r)" by simp
    have "join_with 44 (map writes (y # ys)) @ close # rest = writes y @ 44 # ?r" using Cons by simp
    moreover have "close \<noteq> 44" using close by auto
    moreover have "reads_items close p writes item ys" using Cons.prems(1) by (simp add: reads_items_def)
    ultimately show ?thesis
      using Cons.IH Cons y tail shorter closing by (subst comma_items.simps) simp
  qed
qed simp

lemma items_read:
  assumes "reads_items close p writes item xs"
  shows "scan_items close p (join_with 44 (map writes xs) @ close # rest) = Inr (map item xs, rest)"
proof (cases xs)
  case Nil
  have "close = 93 \<or> close = 125" using assms by (simp add: reads_items_def)
  with Nil show ?thesis by (auto simp: scan_items_def skip_space_def is_space_def)
next
  case (Cons x ys)
  let ?s = "join_with 44 (map writes xs) @ close # rest"
  from assms Cons have x: "writes x \<noteq> []" "\<not> is_space (hd (writes x))" "hd (writes x) \<noteq> close"
    by (auto simp: reads_items_def)
  then have "hd ?s = hd (writes x)" "?s \<noteq> []" using Cons by (cases ys; simp)+
  moreover from this x have "skip_space ?s = ?s" by (intro no_space) simp
  moreover have "comma_items close p ?s = Inr (map item xs, rest)" using comma_reads [OF assms] Cons by blast
  ultimately show ?thesis using x by (cases ?s) (simp_all add: scan_items_def)
qed

section \<open>Values\<close>

lemma int_str_form: "int_str i = Inr t \<Longrightarrow> \<exists>d ds. is_digit d \<and> t = (if i < 0 then 45 # d # ds else d # ds)"
proof -
  assume a: "int_str i = Inr t"
  obtain d ds where "decimal (nat \<bar>i\<bar>) = d # ds" "is_digit d"
    using decimal_digits [of "nat \<bar>i\<bar>"] by (cases "decimal (nat \<bar>i\<bar>)") auto
  with a show ?thesis by (simp add: int_str_def Let_def guard_Inr_iff) metis
qed

lemma scan_number_first:
  assumes "int_str i = Inr t" and "delimited rest"
  shows "scan_once hook nested (t @ rest) = Inr (JInt i, rest)"
proof -
  obtain d ds where "is_digit d" "t = (if i < 0 then 45 # d # ds else d # ds)"
    using int_str_form [OF assms(1)] by auto
  with scan_int [OF assms] show ?thesis
    by (auto simp: scan_once_def starts_with_def is_digit_def split: if_splits)
qed

lemma traverse_projr: "traverse f xs = Inr ys \<Longrightarrow> ys = map (\<lambda>x. projr (f x)) xs \<and> (\<forall>x \<in> set xs. f x = Inr (projr (f x)))"
  by (induction xs arbitrary: ys) (auto simp: bindr_Inr_iff)

context string_writer
begin

lemma opens: "str s = 34 # tl (str s)"
  using quoted [of s] by auto

lemma starts [simp]: "str s \<noteq> []" "hd (str s) = 34"
  by (subst opens, simp)+

lemma written_start:
  "dumps_with str v = Inr t \<Longrightarrow> plain_in good v \<Longrightarrow> t \<noteq> [] \<and> \<not> is_space (hd t) \<and> hd t \<notin> {93, 125}"
proof (induction v)
  case (JInt i)
  then have "int_str i = Inr t" by simp
  then obtain d ds where "is_digit d" "t = (if i < 0 then 45 # d # ds else d # ds)"
    using int_str_form by blast
  then show ?case by (auto simp: is_digit_def is_space_def)
next
  case (JStr s)
  then have "t = 34 # tl (str s)" using opens [of s] by simp
  then show ?case by (simp add: is_space_def)
qed (auto simp: is_space_def bindr_Inr_iff split: if_splits)

lemma string_reads:
  "good s \<Longrightarrow> scan_once hook nested (str s @ rest) = Inr (JStr s, rest)"
  by (subst opens) (simp add: scan_once_def scanned)

text \<open>The text of a member, and its reader.\<close>

definition member_text :: "pystr \<times> json \<Rightarrow> pystr" where
  "member_text = (\<lambda>(k, v). str k @ [58] @ projr (dumps_with str v))"

lemma member_reads:
  assumes "good k" and "value (t @ rest) = Inr (v, rest)" and "t \<noteq> []" and "\<not> is_space (hd t)"
  shows "scan_member value (str k @ [58] @ t @ rest) = Inr ((k, v), rest)"
proof -
  from assms(3,4) have "skip_space (t @ rest) = t @ rest" by (intro no_space) simp
  moreover have "skip_space (58 # t @ rest) = 58 # t @ rest" by (intro no_space) (simp add: is_space_def)
  ultimately show ?thesis
    by (subst opens) (simp add: scan_member_def scanned [OF assms(1)] assms(2))
qed

lemma list_reads:
  assumes "dumps_with str (JList vs) = Inr t" and "\<forall>v \<in> set vs. plain_in good v"
    and reads: "\<And>v t r. v \<in> set vs \<Longrightarrow> dumps_with str v = Inr t \<Longrightarrow> delimited r \<Longrightarrow> inner (t @ r) = Inr (sorted_json v, r)"
  shows "scan_once hook (Some inner) (t @ rest) = Inr (sorted_json (JList vs), rest)"
proof -
  let ?w = "\<lambda>v. projr (dumps_with str v)"
  from assms(1) obtain parts where p: "traverse (dumps_with str) vs = Inr parts" "t = [91] @ join_with 44 parts @ [93]"
    by (auto simp: bindr_Inr_iff)
  note w = traverse_projr [OF p(1)]
  have "?w v \<noteq> [] \<and> \<not> is_space (hd (?w v)) \<and> hd (?w v) \<noteq> 93" if "v \<in> set vs" for v
    using written_start [of v "?w v"] that w assms(2) by auto
  with reads w have "reads_items 93 inner ?w sorted_json vs" by (auto simp: reads_items_def)
  from items_read [OF this, of rest] w show ?thesis by (simp add: p(2) scan_once_def)
qed

lemma object_reads:
  assumes "dumps_with str (JObj items) = Inr t" and "\<forall>(k, v) \<in> set items. good k \<and> plain_in good v" and "distinct (map fst items)"
    and reads: "\<And>k v t r. (k, v) \<in> set items \<Longrightarrow> dumps_with str v = Inr t \<Longrightarrow> delimited r \<Longrightarrow> inner (t @ r) = Inr (sorted_json v, r)"
  shows "scan_once (unique_keys e) (Some inner) (t @ rest) = Inr (sorted_json (JObj items), rest)"
proof -
  let ?f = "\<lambda>(k, v). bindr (dumps_with str v) (\<lambda>t. Inr (str k @ [58] @ t))"
  let ?g = "\<lambda>(k, v). (k, sorted_json v)" and ?xs = "sort_key fst items"
  from assms(1) obtain parts where p: "traverse ?f ?xs = Inr parts" "t = [123] @ join_with 44 parts @ [125]"
    by (auto simp: bindr_Inr_iff)
  note w = traverse_projr [OF p(1)]
  have m: "?f kv = Inr (member_text kv) \<and> member_text kv \<noteq> [] \<and> hd (member_text kv) = 34 \<and>
      (\<forall>r. delimited r \<longrightarrow> scan_member inner (member_text kv @ r) = Inr (?g kv, r))" if "kv \<in> set items" for kv
  proof -
    obtain k v where kv: "kv = (k, v)" by force
    from w that kv obtain t where t: "dumps_with str v = Inr t" by (force simp: bindr_Inr_iff)
    from assms(2) that kv have "plain_in good v" "good k" by auto
    with written_start [OF t] member_reads [of k inner t _ "sorted_json v"] reads [OF _ t] that t show ?thesis
      by (simp add: kv member_text_def)
  qed
  then have "parts = map member_text ?xs" using w by auto
  moreover from m have "reads_items 125 (scan_member inner) member_text ?g ?xs"
    by (auto simp: reads_items_def is_space_def)
  moreover have "unique_keys e (map ?g ?xs) = Inr (map ?g ?xs)"
  proof -
    have "fst \<circ> ?g = (fst :: pystr \<times> json \<Rightarrow> pystr)" by auto
    moreover have "distinct (map fst ?xs)" using assms(3) by (metis distinct_map distinct_sort inj_on_def set_sort)
    ultimately show ?thesis unfolding unique_keys_def by simp
  qed
  ultimately show ?thesis using items_read [of 125 "scan_member inner" member_text ?g ?xs rest]
    by (simp add: p(2) scan_once_def)
qed

theorem value_reads:
  "dumps_with str v = Inr t \<Longrightarrow> plain_in good v \<Longrightarrow> nested_in v depth \<Longrightarrow> delimited rest \<Longrightarrow>
   scan_value (unique_keys e) depth (t @ rest) = Inr (sorted_json v, rest)"
proof (induction v arbitrary: t depth rest)
  case (JList vs)
  then obtain n where n: "depth = Suc n" by auto
  show ?case unfolding n scan_value.simps
    by (rule list_reads [OF JList.prems(1)]) (use JList n in auto)
next
  case (JObj items)
  then obtain n where n: "depth = Suc n" by auto
  show ?case unfolding n scan_value.simps
  proof (rule object_reads [OF JObj.prems(1)])
    show "\<forall>(k, v) \<in> set items. good k \<and> plain_in good v" "distinct (map fst items)" using JObj.prems by auto
    show "scan_value (unique_keys e) n (t' @ r) = Inr (sorted_json v, r)"
      if "(k, v) \<in> set items" "dumps_with str v = Inr t'" "delimited r" for k v t' r
      using that JObj.prems n by (intro JObj.IH [of "(k, v)"]) auto
  qed
next
  case (JInt i)
  then show ?case by (cases depth) (simp_all add: scan_number_first)
next
  case (JStr s)
  then have "t = str s" "good s" by simp_all
  then show ?case by (cases depth) (simp_all add: string_reads)
next
  case JNull
  then have "t = [110, 117, 108, 108]" by simp
  then show ?case by (cases depth) (simp_all add: scan_once_def starts_with_def)
next
  case (JBool b)
  then have "t = (if b then [116, 114, 117, 101] else [102, 97, 108, 115, 101])" by (cases b) auto
  then show ?case by (cases depth) (simp_all add: scan_once_def starts_with_def)
qed simp

theorem loads_written:
  assumes "dumps_with str v = Inr t" and "plain_in good v" and "nested_in v depth"
  shows "json_loads (unique_keys e) depth t = Inr (sorted_json v)"
proof -
  from written_start [OF assms(1,2)] have "skip_space t = t" by (intro no_space) simp
  moreover have "\<not> starts_with [65279] t"
  proof (cases v)
    case (JStr s)
    then have "t = 34 # tl (str s)" using assms(1) opens [of s] by simp
    then show ?thesis by (simp add: starts_with_def)
  qed (use assms(1,2) in \<open>auto simp: starts_with_def is_digit_def bindr_Inr_iff dest!: int_str_form split: if_splits\<close>)
  ultimately show ?thesis
    using value_reads [OF assms, of "[]"] by (simp add: json_loads_def delimited_def skip_space_def)
qed

end

lemma dumps_start: "json_dumps v = Inr t \<Longrightarrow> plain v \<Longrightarrow> t \<noteq> [] \<and> \<not> is_space (hd t) \<and> hd t \<notin> {93, 125}"
  by (rule raw_writer.written_start)

lemma loads_dumps:
  "json_dumps v = Inr t \<Longrightarrow> plain v \<Longrightarrow> nested_in v depth \<Longrightarrow>
   json_loads (unique_keys e) depth t = Inr (sorted_json v)"
  by (rule raw_writer.loads_written)

section \<open>What can be written\<close>

text \<open>Code points that are in a string and not surrogates; integers within the digit limit.\<close>

definition encodable :: "nat \<Rightarrow> bool" where
  "encodable c \<longleftrightarrow> c < 1114112 \<and> \<not> (55296 \<le> c \<and> c \<le> 57343)"

lemma encodable_ascii [simp]: "c < 128 \<Longrightarrow> encodable c"
  by (simp add: encodable_def)

inductive writable :: "json \<Rightarrow> bool" where
  "writable JNull"
| "writable (JBool b)"
| "\<bar>i\<bar> < 10 ^ 19 \<Longrightarrow> writable (JInt i)"
| "list_all encodable s \<Longrightarrow> writable (JStr s)"
| "\<forall>v \<in> set vs. writable v \<Longrightarrow> writable (JList vs)"
| "\<forall>(k, v) \<in> set items. list_all encodable k \<and> writable v \<Longrightarrow> writable (JObj items)"

inductive_simps writable_simps [simp]:
  "writable JNull" "writable (JBool b)" "writable (JInt i)" "writable (JStr s)" "writable (JFloat t)"
  "writable (JList vs)" "writable (JObj items)"

lemma decimal_length: "n < 10 ^ Suc k \<Longrightarrow> length (decimal n) \<le> Suc k"
proof (induction k arbitrary: n)
  case (Suc k)
  then have "n div 10 < 10 ^ Suc k" by (simp add: less_mult_imp_div_less mult.commute)
  with Suc.IH show ?case by (subst decimal.simps) simp
qed (simp add: decimal.simps)

lemma int_str_writable:
  assumes "\<bar>i\<bar> < 10 ^ 19"
  shows "\<exists>t. int_str i = Inr t \<and> list_all encodable t"
proof -
  have "nat \<bar>i\<bar> < 10 ^ 19" using assms by (simp add: nat_less_iff)
  then have "length (decimal (nat \<bar>i\<bar>)) \<le> 19" using decimal_length [of "nat \<bar>i\<bar>" 18] by simp
  moreover have "list_all encodable (decimal (nat \<bar>i\<bar>))"
    using decimal_digits [of "nat \<bar>i\<bar>"] by (auto simp: list_all_iff is_digit_def encodable_def)
  ultimately show ?thesis by (auto simp: int_str_def MAX_STR_DIGITS_def Let_def)
qed

lemma json_string_encodable: "list_all encodable s \<Longrightarrow> list_all encodable (json_string s)"
proof -
  have "list_all encodable (escape_char c)" if "encodable c" for c
    using that by (auto simp: escape_char_def encodable_def hex_escape_def hex_digit_def)
  then show "list_all encodable s \<Longrightarrow> ?thesis"
    by (induction s) (auto simp: json_string_def encodable_def)
qed

lemma join_encodable: "\<forall>p \<in> set parts. list_all encodable p \<Longrightarrow> list_all encodable (join_with 44 parts)"
  by (induction "44 :: nat" parts rule: join_with.induct) (auto simp: encodable_def)

lemma traverse_total: "\<forall>x \<in> set xs. \<exists>y. f x = Inr y \<and> P y \<Longrightarrow> \<exists>ys. traverse f xs = Inr ys \<and> (\<forall>y \<in> set ys. P y)"
  by (induction xs) (auto simp: bindr_Inr_iff)

lemma dumps_writable: "writable v \<Longrightarrow> \<exists>t. json_dumps v = Inr t \<and> list_all encodable t"
proof (induction v)
  case (JList vs)
  then have "\<exists>ts. traverse json_dumps vs = Inr ts \<and> (\<forall>t \<in> set ts. list_all encodable t)"
    by (intro traverse_total) auto
  then show ?case by (auto dest!: join_encodable)
next
  case (JObj items)
  let ?f = "\<lambda>(k, v). bindr (json_dumps v) (\<lambda>t. Inr (json_string k @ [58] @ t))"
  have "\<exists>t. ?f kv = Inr t \<and> list_all encodable t" if "kv \<in> set items" for kv
  proof -
    obtain k v where kv: "kv = (k, v)" by force
    with JObj that have "list_all encodable k" "\<exists>t. json_dumps v = Inr t \<and> list_all encodable t" by auto
    then show ?thesis using json_string_encodable [of k] by (auto simp: kv)
  qed
  then have "\<exists>ts. traverse ?f (sort_key fst items) = Inr ts \<and> (\<forall>t \<in> set ts. list_all encodable t)"
    by (intro traverse_total) auto
  then show ?case by (auto dest!: join_encodable)
qed (auto simp: int_str_writable json_string_encodable)

lemma nested_in_mono: "nested_in v n \<Longrightarrow> n \<le> m \<Longrightarrow> nested_in v m"
proof (induction arbitrary: m rule: nested_in.induct)
  case (6 vs n)
  then show ?case by (cases m) auto
next
  case (7 items n)
  then show ?case by (cases m) auto
qed auto

section \<open>Sorted objects\<close>

definition sort_items :: "(pystr \<times> json) list \<Rightarrow> (pystr \<times> json) list" where
  "sort_items items = map (\<lambda>(k, v). (k, sorted_json v)) (sort_key fst items)"

lemma sorted_obj: "sorted_json (JObj items) = JObj (sort_items items)"
  by (simp add: sort_items_def)

lemma sort_items_keys [simp]: "fst ` set (sort_items items) = fst ` set items"
  by (auto simp: sort_items_def image_image case_prod_unfold)

lemma sort_items_lookup [simp]:
  assumes "distinct (map fst items)"
  shows "map_of (sort_items items) k = map_option sorted_json (map_of items k)"
proof -
  have "distinct (map fst (sort_key fst items))"
    using assms by (metis distinct_map distinct_sort inj_on_def set_sort)
  then have "map_of (sort_key fst items) k = map_of items k"
    using assms by (intro fun_cong [OF map_of_eqI]) (auto simp: map_of_inject_set)
  moreover have "map_of (map (\<lambda>(k, v). (k, sorted_json v)) xs) k = map_option sorted_json (map_of xs k)" for xs
    by (induction xs) auto
  ultimately show ?thesis by (simp add: sort_items_def)
qed

declare sorted_json.simps(2) [simp del]

lemma lookup_sorted [simp]:
  "distinct (map fst items) \<Longrightarrow>
   lookup_or e (map_of (sort_items items)) name =
     (case map_of items name of None \<Rightarrow> Inl e | Some v \<Rightarrow> Inr (sorted_json v))"
  by (simp add: lookup_or_def split: option.split)

text \<open>A member of an object, by which sorted objects are told apart.\<close>

fun part :: "pystr \<Rightarrow> json \<Rightarrow> json option" where
  "part k (JObj items) = map_of items k"
| "part k _ = None"

lemma part_sorted [simp]:
  "distinct (map fst items) \<Longrightarrow> part k (sorted_json (JObj items)) = map_option sorted_json (map_of items k)"
  by (simp add: sorted_obj)

lemma sorted_lists:
  "map (sorted_json \<circ> f) xs = map (sorted_json \<circ> f) ys \<Longrightarrow>
   (\<And>x y. sorted_json (f x) = sorted_json (f y) \<Longrightarrow> x = y) \<Longrightarrow> xs = ys"
  by (metis (mono_tags, lifting) comp_apply inj_onI map_inj_on)

lemma utf8_total: "list_all encodable t \<Longrightarrow> \<exists>b. utf8_encode t = Inr b"
proof -
  assume "list_all encodable t"
  then have "\<exists>parts. traverse utf8_char t = Inr parts \<and> (\<forall>p \<in> set parts. True)"
    by (intro traverse_total) (auto simp: list_all_iff encodable_def utf8_char_def)
  then show ?thesis by (auto simp: utf8_encode_def)
qed

end
