(* ===== verification/CanonicalCorrect.thy ===== *)
theory CanonicalCorrect
  imports Canonical JsonCorrect CompilerCorrect
begin

text \<open>
  The canonical bytes of a specification: they exist for every compiled one, decode to it, and
  tell specifications apart; what the decoder accepts is well typed.
\<close>

section \<open>Decoding sorted objects\<close>

lemma as_dict_sorted [simp]: "as_dict (sorted_json (JObj items)) = Inr (sort_items items)"
  by (simp add: sorted_obj)

lemma field_sorted [simp]:
  "distinct (map fst items) \<Longrightarrow>
   field decode (sort_items items) name =
     (case map_of items name of None \<Rightarrow> Inl KeyError | Some v \<Rightarrow> decode (sorted_json v))"
  by (simp add: field_def split: option.split)

lemma require_only_sorted [simp]:
  "require_only (sort_items items) allowed =
     (if set allowed \<subseteq> fst ` set items
      then guard (fst ` set items \<subseteq> set allowed) (canon_err FieldUnexpected) (Inr ())
      else Inl (canon_err FieldMissing))"
proof -
  have "for_each (\<lambda>field. guard (field \<in> K) e (Inr ())) fs = (if set fs \<subseteq> K then Inr () else Inl e)" for fs and K :: "pystr set" and e :: error
    by (induction fs) (auto simp: guard_def)
  then show ?thesis by (auto simp: require_only_def subset_eq)
qed

lemma decode_state_obj [simp]: "decode_state (sorted_json (state_obj state)) = Inr state"
  by (cases state) (simp_all add: decode_state_def decode_discriminator_def STATE_SPEC_def lookup_or_def)

lemma decode_effect_obj [simp]:
  "states_allowed effect \<Longrightarrow> decode_effect (sorted_json (effect_obj effect)) = Inr effect"
  by (cases effect)
    (auto simp: decode_effect_def decode_discriminator_def EFFECT_SPEC_def lookup_or_def state_field_def guard_def)

section \<open>Specifications\<close>

lemma sort_dependencies: "sort_key (\<lambda>d. (dep_before d, dep_after d)) ds = sort ds"
proof -
  have "insort_key (\<lambda>d. (dep_before d, dep_after d)) d ds = insort d ds" for d ds
    by (induction ds) (auto simp: less_eq_dependency_def)
  then show ?thesis by (induction ds) simp_all
qed

lemma decode_list_map [simp]:
  "(\<And>x. x \<in> set xs \<Longrightarrow> decode (sorted_json (f x)) = Inr x) \<Longrightarrow>
   decode_list decode (JList (map (sorted_json \<circ> f) xs)) = Inr xs"
  by (simp add: decode_list_def traverse_map traverse_id [where g = id])

lemma decode_surface_obj [simp]: "decode_surface_entry (sorted_json (surface_obj entry)) = Inr entry"
  by (cases entry) (simp add: decode_surface_entry_def surface_obj_def)

lemma decode_dependency_obj [simp]: "decode_dependency (sorted_json (dependency_obj dep)) = Inr dep"
  by (cases dep) (simp add: decode_dependency_def dependency_obj_def)

lemma decode_fulfills_obj [simp]:
  "decode_fulfills (sorted_json (case d of None \<Rightarrow> JNull | Some digest \<Rightarrow> JStr digest)) = Inr d"
  by (cases d) auto

lemma decode_canonical:
  assumes "schema_version spec = SCHEMA_VERSION" and "validate_v2_members (canonicalize spec) = Inr ()"
    and "\<forall>effect \<in> set (spec_effects spec). states_allowed effect"
  shows "from_canonical_obj (sorted_json (canonical_obj spec)) = Inr (canonicalize spec)"
proof -
  have "\<lparr>schema_version = schema_version spec, consumer_tag = consumer_tag spec, intent_digest = intent_digest spec,
      initial_surface = sort_key entry_path (initial_surface spec), final_surface = sort_key entry_path (final_surface spec),
      spec_effects = spec_effects spec, dependencies = sort (dependencies spec), fulfills = fulfills spec,
      registered_paths = registered_paths spec\<rparr> = canonicalize spec"
    by (simp add: canonicalize_def)
  with assms show ?thesis
    unfolding from_canonical_obj_def decode_canonical_obj_def canonical_obj_def
    by (simp add: SPEC_FIELDS_def sort_dependencies)
qed

lemma canonical_plain: "plain (canonical_obj spec)" and canonical_nested: "nested_in (canonical_obj spec) 4"
proof -
  have s: "plain (state_obj st) \<and> nested_in (state_obj st) (Suc n)" for st n by (cases st) auto
  have e: "plain (effect_obj ef) \<and> nested_in (effect_obj ef) (Suc (Suc n))" for ef n by (cases ef) (auto simp: s)
  have "plain (surface_obj x) \<and> nested_in (surface_obj x) (Suc (Suc n))" for x n by (auto simp: surface_obj_def s)
  moreover have "plain (dependency_obj d) \<and> nested_in (dependency_obj d) (Suc n)" for d n by (auto simp: dependency_obj_def)
  ultimately show "plain (canonical_obj spec)" "nested_in (canonical_obj spec) 4"
    by (auto simp: canonical_obj_def e numeral_eq_Suc split: option.split)
qed

text \<open>Decoding the bytes is decoding the object they were written for, with its keys sorted.\<close>

lemma bytes_read:
  assumes "canonical_bytes spec = Inr b" and "4 \<le> depth"
  shows "from_canonical_bytes depth b = from_canonical_obj (sorted_json (canonical_obj spec))"
proof -
  from assms(1) obtain t where t: "json_dumps (canonical_obj spec) = Inr t" "utf8_encode t = Inr b"
    by (auto simp: canonical_bytes_def canonical_json_def bindr_Inr_iff)
  from loads_dumps [OF t(1) canonical_plain nested_in_mono [OF canonical_nested assms(2)]]
  show ?thesis using utf8.decode_encode [OF t(2)]
    by (simp add: from_canonical_bytes_def from_canonical_json_def)
qed

lemma compiled_decodes:
  assumes "compile_spec u spec = Inr c" and "canonical_bytes (compiled_of c) = Inr b" and "4 \<le> depth"
  shows "from_canonical_bytes depth b = Inr (compiled_of c)"
proof -
  from assms(1) have wf: "well_formed u (compiled_of c)" and can: "compiled_of c = canonicalize spec"
    using well_formed_permuted [OF canonicalize_same] by (simp_all add: compile_spec_iff)
  have "canonicalize (compiled_of c) = compiled_of c" by (simp add: can canonicalize_idem)
  moreover have "validate_v2_members (compiled_of c) = Inr ()"
    using wf phase9_iff [of "compiled_of c"] by (auto simp: well_formed_def phase9_registration_def)
  moreover have "schema_version (compiled_of c) = SCHEMA_VERSION"
    using wf by (simp add: well_formed_def SCHEMA_VERSION_def)
  moreover have "states_allowed effect" if "effect \<in> set (spec_effects (compiled_of c))" for effect
    using wf that by (cases effect) (force simp: well_formed_def)+
  ultimately show ?thesis
    using bytes_read [OF assms(2,3)] decode_canonical [of "compiled_of c"] by simp
qed

section \<open>Every compiled specification has bytes\<close>

text \<open>The texts of a specification that the grammar of identifiers and digests leaves open.\<close>

fun target_texts :: "path_state \<Rightarrow> pystr list" where
  "target_texts (SymlinkState target mode) = [target]"
| "target_texts _ = []"

definition free_texts :: "transaction_spec \<Rightarrow> pystr list" where
  "free_texts spec = declared_paths spec @ concat (map target_texts (every_state spec))"

definition python_texts :: "transaction_spec \<Rightarrow> bool" where
  "python_texts spec \<longleftrightarrow> list_all (list_all (\<lambda>c. c < 1114112)) (free_texts spec)"

lemma python_texts_code [code]:
  "python_texts spec = list_all (list_all (\<lambda>c. int c < 1114112)) (free_texts spec)"
  by (simp add: python_texts_def)

lemma encodable_identifier: "is_valid_identifier s \<Longrightarrow> list_all encodable s"
  by (auto simp: is_valid_identifier_def is_identifier_char_def list_all_iff encodable_def)

lemma encodable_hex: "is_hex_digest s \<Longrightarrow> list_all encodable s"
  by (auto simp: is_hex_digest_def is_lower_hex_def list_all_iff encodable_def)

lemma encodable_digest: "is_sha256_digest s \<Longrightarrow> list_all encodable s"
proof -
  assume "is_sha256_digest s"
  then obtain r where "s = py ''sha256:'' @ r" "is_hex_digest r"
    by (auto simp: is_sha256_digest_def starts_with_iff)
  with encodable_hex show ?thesis by simp
qed

lemma state_writable:
  assumes "fingerprint_ok st" and "\<forall>target \<in> set (target_texts st). \<forall>c \<in> set target. c < 1114112"
  shows "writable (state_obj st)"
  using assms
  by (cases st) (auto simp: encodable_def utf8_encodable_def list_all_iff dest!: encodable_digest)

lemma path_writable: "path_ok u p \<Longrightarrow> \<forall>c \<in> set p. c < 1114112 \<Longrightarrow> list_all encodable p"
  by (auto simp: path_ok_def encodable_def utf8_encodable_def list_all_iff)

lemma compiled_writable:
  assumes wf: "well_formed u spec" and texts: "python_texts spec"
  shows "writable (canonical_obj spec)"
proof -
  have path: "list_all encodable p" if "p \<in> set (declared_paths spec)" for p
    using that wf texts by (intro path_writable [of u]) (auto simp: well_formed_def python_texts_def free_texts_def list_all_iff)
  have state: "writable (state_obj st)" if "st \<in> set (every_state spec)" for st
    using that wf texts by (intro state_writable) (auto simp: well_formed_def python_texts_def free_texts_def list_all_iff)
  have ident: "list_all encodable (effect_id_of ef)" if "ef \<in> set (spec_effects spec)" for ef
    using that wf by (intro encodable_identifier) (cases ef; auto simp: well_formed_def)
  have surface: "writable (surface_obj x)" if "x \<in> set (initial_surface spec @ final_surface spec)" for x
    using that path [of "entry_path x"] state [of "entry_state x"]
    by (auto simp: surface_obj_def declared_paths_def every_state_def)
  have effect: "writable (effect_obj ef)" if "ef \<in> set (spec_effects spec)" for ef
  proof -
    have "set (effect_path_fields ef) \<subseteq> set (declared_paths spec)" "set (effect_states ef) \<subseteq> set (every_state spec)"
      using that by (auto simp: declared_paths_def every_state_def)
    with path state have "\<forall>p \<in> set (effect_path_fields ef). list_all encodable p"
      "\<forall>st \<in> set (effect_states ef). writable (state_obj st)" by blast+
    with ident [OF that] show ?thesis by (cases ef) auto
  qed
  have dependency: "writable (dependency_obj d)" if d: "d \<in> set (dependencies spec)" for d
  proof -
    from wf d obtain ef ef' where "ef \<in> set (spec_effects spec)" "effect_id_of ef = dep_before d"
      "ef' \<in> set (spec_effects spec)" "effect_id_of ef' = dep_after d"
      by (auto simp: well_formed_def ordered_in_def) (metis nth_mem order.strict_trans)
    with ident have "list_all encodable (dep_before d)" "list_all encodable (dep_after d)" by metis+
    then show ?thesis by (simp add: dependency_obj_def)
  qed
  have registered: "list_all encodable p" if "p \<in> set (registered_paths spec)" for p
    using that wf path by (auto simp: well_formed_def declared_paths_def)
  have "list_all encodable (consumer_tag spec)" "list_all encodable (intent_digest spec)"
    "\<bar>schema_version spec\<bar> < 10 ^ 19" "\<forall>d. fulfills spec = Some d \<longrightarrow> list_all encodable d"
    using wf encodable_identifier encodable_digest encodable_hex by (auto simp: well_formed_def)
  with surface effect dependency registered show ?thesis
    by (auto simp: canonical_obj_def split: option.split)
qed

section \<open>Different specifications have different bytes\<close>

lemma state_obj_inj: "sorted_json (state_obj st) = sorted_json (state_obj st') \<Longrightarrow> st = st'"
  by (metis decode_state_obj sum.inject(2))

lemma effect_obj_inj:
  assumes "sorted_json (effect_obj ef) = sorted_json (effect_obj ef')"
  shows "ef = ef'"
proof -
  have parts: "part k (sorted_json (effect_obj ef)) = part k (sorted_json (effect_obj ef'))" for k
    by (simp add: assms)
  note part = parts [of "py ''type''"] parts [of "py ''effect_id''"] parts [of "py ''path''"]
    parts [of "py ''source''"] parts [of "py ''destination''"] parts [of "py ''source_pre''"]
    parts [of "py ''pre''"] parts [of "py ''post''"]
  show ?thesis
    using part(1) by (cases ef; cases ef') (use part(2-8) in \<open>simp_all, auto dest: state_obj_inj\<close>)
qed

lemma canonical_obj_inj:
  assumes "sorted_json (canonical_obj spec) = sorted_json (canonical_obj spec')"
  shows "canonicalize spec = canonicalize spec'"
proof -
  have parts: "part k (sorted_json (canonical_obj spec)) = part k (sorted_json (canonical_obj spec'))" for k
    by (simp add: assms)
  have surface: "x = y" if "sorted_json (surface_obj x) = sorted_json (surface_obj y)" for x y
    using that by (metis decode_surface_obj sum.inject(2))
  have dependency: "x = y" if "sorted_json (dependency_obj x) = sorted_json (dependency_obj y)" for x y
    using that by (metis decode_dependency_obj sum.inject(2))
  have "schema_version spec = schema_version spec'" using parts [of "py ''schema_version''"] by (simp add: canonical_obj_def)
  moreover have "consumer_tag spec = consumer_tag spec'" using parts [of "py ''consumer_tag''"] by (simp add: canonical_obj_def)
  moreover have "intent_digest spec = intent_digest spec'" using parts [of "py ''intent_digest''"] by (simp add: canonical_obj_def)
  moreover have "sort_key entry_path (initial_surface spec) = sort_key entry_path (initial_surface spec')"
    using parts [of "py ''initial_surface''"] by (intro sorted_lists [OF _ surface]) (simp_all add: canonical_obj_def)
  moreover have "sort_key entry_path (final_surface spec) = sort_key entry_path (final_surface spec')"
    using parts [of "py ''final_surface''"] by (intro sorted_lists [OF _ surface]) (simp_all add: canonical_obj_def)
  moreover have "spec_effects spec = spec_effects spec'"
    using parts [of "py ''effects''"] by (intro sorted_lists [OF _ effect_obj_inj]) (simp_all add: canonical_obj_def)
  moreover have "sort (dependencies spec) = sort (dependencies spec')"
    using parts [of "py ''dependencies''"] by (intro sorted_lists [OF _ dependency]) (simp_all add: canonical_obj_def sort_dependencies)
  moreover have "fulfills spec = fulfills spec'"
    using parts [of "py ''fulfills''"] by (simp add: canonical_obj_def split: option.splits)
  moreover have "registered_paths spec = registered_paths spec'"
    using parts [of "py ''registered_paths''"] by (intro sorted_lists [where f = JStr]) (simp_all add: canonical_obj_def)
  ultimately show ?thesis by (simp add: canonicalize_def)
qed

lemma canonical_obj_canonicalize: "canonical_obj (canonicalize spec) = canonical_obj spec"
  by (simp add: canonical_obj_def canonicalize_def sort_key_sorted sort_dependencies)

section \<open>What the decoder accepts\<close>

lemma wrap_Inl: "wrap_spec_error g r = Inl e \<Longrightarrow> \<exists>fault. e = SpecValidationError fault"
  by (induction g r rule: wrap_spec_error.induct) auto

lemma wrap_Inr: "wrap_spec_error g r = Inr x \<longleftrightarrow> r = Inr x"
  by (induction g r rule: wrap_spec_error.induct) auto

lemma traverse_all: "traverse f xs = Inr ys \<Longrightarrow> (\<And>x y. f x = Inr y \<Longrightarrow> P y) \<Longrightarrow> list_all P ys"
  by (induction xs arbitrary: ys) (auto simp: bindr_Inr_iff)

lemma state_field_kind: "state_field kinds obj k = Inr st \<Longrightarrow> kind_of st \<in> kinds"
  by (auto simp: state_field_def bindr_Inr_iff guard_Inr_iff)

lemma if_Inr_cases: "(if c then m else n) = Inr y \<Longrightarrow> (m = Inr y \<Longrightarrow> Q) \<Longrightarrow> (n = Inr y \<Longrightarrow> Q) \<Longrightarrow> Q"
  by (cases c) auto

lemma bindr_Inr_cases: "bindr m f = Inr y \<Longrightarrow> (\<And>x. m = Inr x \<Longrightarrow> f x = Inr y \<Longrightarrow> Q) \<Longrightarrow> Q"
  by (cases m) auto

lemma decode_effect_allowed: "decode_effect v = Inr ef \<Longrightarrow> states_allowed ef"
  unfolding decode_effect_def split_beta
  by (elim if_Inr_cases bindr_Inr_cases; drule sum.inject(2) [THEN iffD1]; hypsubst;
      (drule state_field_kind)+; simp)

lemma field_effects: "field (decode_list decode_effect) obj k = Inr effects \<Longrightarrow> list_all states_allowed effects"
  by (auto simp: field_def decode_list_def bindr_Inr_iff intro: traverse_all decode_effect_allowed)

lemma decoded_valid:
  "decode_canonical_obj v = Inr spec \<Longrightarrow> schema_version spec = SCHEMA_VERSION \<and>
     validate_v2_members spec = Inr () \<and> list_all states_allowed (spec_effects spec)"
  unfolding decode_canonical_obj_def
  by (auto simp: bindr_Inr_iff guard_Inr_iff Let_def dest: field_effects)

section \<open>Properties\<close>

text \<open>
  C11: Every compiled specification has canonical bytes, and they decode to it. The bytes are
  those of the specification that was submitted, whatever the order of its set-like fields.
  The paths and link targets have to be Python strings: no code point beyond 0x10FFFF.
\<close>

theorem compiled_round_trip:
  assumes "compile_spec u spec = Inr c" and "python_texts spec" and "4 \<le> depth"
  shows "\<exists>b. canonical_bytes spec = Inr b \<and> canonical_bytes (compiled_of c) = Inr b \<and>
    from_canonical_bytes depth b = Inr (compiled_of c)"
proof -
  from assms(1) have wf: "well_formed u spec" and can: "compiled_of c = canonicalize spec"
    by (simp_all add: compile_spec_iff)
  from dumps_writable [OF compiled_writable [OF wf assms(2)]] obtain t where
    t: "json_dumps (canonical_obj spec) = Inr t" "list_all encodable t" by blast
  from utf8_total [OF t(2)] t(1) obtain b where "canonical_bytes spec = Inr b"
    by (auto simp: canonical_bytes_def canonical_json_def)
  moreover from this have "canonical_bytes (compiled_of c) = Inr b"
    by (simp add: can canonical_bytes_def canonical_json_def canonical_obj_canonicalize)
  ultimately show ?thesis using compiled_decodes [OF assms(1) _ assms(3)] by blast
qed

text \<open>
  C18: Canonical bytes identify a specification: two specifications have the same bytes if and
  only if they differ in the order of surfaces and dependencies at most.
\<close>

theorem canonical_bytes_identify:
  assumes "canonical_bytes spec = Inr b" and "canonical_bytes spec' = Inr b'"
  shows "b = b' \<longleftrightarrow> canonicalize spec = canonicalize spec'"
proof
  assume "canonicalize spec = canonicalize spec'"
  then have "canonical_obj spec = canonical_obj spec'" by (metis canonical_obj_canonicalize)
  with assms show "b = b'" by (simp add: canonical_bytes_def canonical_json_def)
next
  assume "b = b'"
  with assms obtain t where t: "json_dumps (canonical_obj spec) = Inr t" "json_dumps (canonical_obj spec') = Inr t"
    by (auto simp: canonical_bytes_def canonical_json_def bindr_Inr_iff dest: utf8.encode_inj)
  from loads_dumps [OF t(1) canonical_plain canonical_nested] loads_dumps [OF t(2) canonical_plain canonical_nested]
  show "canonicalize spec = canonicalize spec'" by (intro canonical_obj_inj) simp
qed

text \<open>
  C36: The decoder either refuses its bytes with a \<open>SpecValidationError\<close>, whatever they are, or
  returns a specification of the supported schema version, whose members are valid and whose
  effects hold states of the permitted kinds only.
\<close>

theorem decoder_sound:
  "case from_canonical_bytes depth data of
     Inl e \<Rightarrow> \<exists>fault. e = SpecValidationError fault
   | Inr spec \<Rightarrow> schema_version spec = SCHEMA_VERSION \<and> validate_v2_members spec = Inr () \<and>
       list_all states_allowed (spec_effects spec)"
proof -
  show ?thesis
  proof (cases "from_canonical_bytes depth data")
    case (Inl e)
    then consider "utf8_decode data = Inl e" "e \<noteq> UnicodeDecodeError" | "e = canon_err BytesNotUtf8"
      | (wrapped) g and r :: "json result" where "wrap_spec_error g r = Inl e"
      | (object) g and r :: "transaction_spec result" where "wrap_spec_error g r = Inl e"
      by (auto simp: from_canonical_bytes_def from_canonical_json_def from_canonical_obj_def bindr_Inl_iff
          split: sum.splits error.splits)
    then have "\<exists>fault. e = SpecValidationError fault"
    proof cases
      case 1
      then show ?thesis using utf8_read_fault by (auto simp: utf8_decode_def)
    qed (auto dest: wrap_Inl)
    with Inl show ?thesis by simp
  next
    case (Inr spec)
    then have "\<exists>v. decode_canonical_obj v = Inr spec"
      by (auto simp: from_canonical_bytes_def from_canonical_json_def from_canonical_obj_def bindr_Inr_iff wrap_Inr)
    with Inr decoded_valid show ?thesis by auto
  qed
qed

text \<open>The specification of the compiler's example.\<close>

lemma example_texts: "python_texts example_spec"
  by code_simp

lemma example_has_bytes: "\<exists>b. canonical_bytes example_spec = Inr b"
proof -
  have "well_formed plain_tables example_spec" using example_compiles by (simp add: compile_spec_iff)
  from dumps_writable [OF compiled_writable [OF this example_texts]] utf8_total show ?thesis
    by (fastforce simp: canonical_bytes_def canonical_json_def)
qed

theorem compiled_round_trip_example:
  "\<exists>b. canonical_bytes example_spec = Inr b \<and> canonical_bytes (compiled_of example_compiled) = Inr b \<and>
    from_canonical_bytes 1000 b = Inr (compiled_of example_compiled)"
  by (rule compiled_round_trip [OF example_compiles example_texts]) simp

lemma example_bytes: "\<exists>b b'. canonical_bytes example_spec = Inr b \<and> canonical_bytes absent_creation_spec = Inr b'"
proof -
  have "writable (canonical_obj absent_creation_spec)"
    by (simp add: absent_creation_spec_def build_spec_def canonical_obj_def canonical_surface_def surface_obj_def
        digest_of_def list_all_iff SCHEMA_VERSION_def)
  then have "\<exists>b. canonical_bytes absent_creation_spec = Inr b"
    using dumps_writable utf8_total by (fastforce simp: canonical_bytes_def canonical_json_def)
  then show ?thesis using example_has_bytes by blast
qed

theorem canonical_bytes_identify_example:
  "\<exists>b b'. canonical_bytes example_spec = Inr b \<and> canonical_bytes absent_creation_spec = Inr b' \<and>
     b \<noteq> b'"
proof -
  have "effects_of \<noteq> effects_of'" if "effects_of = spec_effects (canonicalize example_spec)"
    "effects_of' = spec_effects (canonicalize absent_creation_spec)" for effects_of effects_of'
    using that by (simp add: canonicalize_def example_spec_def absent_creation_spec_def build_spec_def example_effects_def)
  then have "canonicalize example_spec \<noteq> canonicalize absent_creation_spec" by metis
  with example_bytes canonical_bytes_identify show ?thesis by metis
qed

end
