(* ===== verification/Assembly.thy ===== *)
theory Assembly
  imports Bytes Json
begin

text \<open>
  Evidence of an approval-assembly halt (\<open>core/assembly.py\<close>): findings with the exact facts
  of their kind, ordered by path and kind, and their canonical JSON payload. The reader parses a
  payload, rebuilds the halt through the validating constructors and accepts it only if writing
  it gives the payload back.
\<close>

section \<open>Findings and halts\<close>

datatype assembly_halt_reason = APPROVAL_EVIDENCE_MISMATCH

datatype assembly_operator_action = RESTORE_APPROVED_TOPOLOGY

datatype assembly_finding_kind =
    NODE_MISSING | WRONG_ENTRY_KIND | MOUNT_BOUNDARY | ACCESS_DENIED
  | IDENTITY_CHANGED | CONSTRAINTS_CHANGED | MOUNT_CHANGED | WORK_ROOT_CHANGED

text \<open>The values of the enumerations.\<close>

fun reason_value :: "assembly_halt_reason \<Rightarrow> pystr" where
  "reason_value APPROVAL_EVIDENCE_MISMATCH = py ''approval-evidence-mismatch''"

fun action_value :: "assembly_operator_action \<Rightarrow> pystr" where
  "action_value RESTORE_APPROVED_TOPOLOGY = py ''restore-approved-topology''"

definition FINDING_KINDS :: "(pystr \<times> assembly_finding_kind) list" where
  "FINDING_KINDS =
     [(py ''node-missing'', NODE_MISSING), (py ''wrong-entry-kind'', WRONG_ENTRY_KIND),
      (py ''mount-boundary'', MOUNT_BOUNDARY), (py ''access-denied'', ACCESS_DENIED),
      (py ''identity-changed'', IDENTITY_CHANGED), (py ''constraints-changed'', CONSTRAINTS_CHANGED),
      (py ''mount-changed'', MOUNT_CHANGED), (py ''work-root-changed'', WORK_ROOT_CHANGED)]"

fun kind_value :: "assembly_finding_kind \<Rightarrow> pystr" where
  "kind_value NODE_MISSING = py ''node-missing''"
| "kind_value WRONG_ENTRY_KIND = py ''wrong-entry-kind''"
| "kind_value MOUNT_BOUNDARY = py ''mount-boundary''"
| "kind_value ACCESS_DENIED = py ''access-denied''"
| "kind_value IDENTITY_CHANGED = py ''identity-changed''"
| "kind_value CONSTRAINTS_CHANGED = py ''constraints-changed''"
| "kind_value MOUNT_CHANGED = py ''mount-changed''"
| "kind_value WORK_ROOT_CHANGED = py ''work-root-changed''"

fun FACT_KEYS :: "assembly_finding_kind \<Rightarrow> pystr list" where
  "FACT_KEYS NODE_MISSING = []"
| "FACT_KEYS WRONG_ENTRY_KIND = [py ''observed_kind'']"
| "FACT_KEYS MOUNT_BOUNDARY = []"
| "FACT_KEYS ACCESS_DENIED = []"
| "FACT_KEYS IDENTITY_CHANGED = [py ''st_dev'', py ''st_ino'']"
| "FACT_KEYS CONSTRAINTS_CHANGED = [py ''lookup_proof'', py ''name_max'']"
| "FACT_KEYS MOUNT_CHANGED = [py ''mount_id'']"
| "FACT_KEYS WORK_ROOT_CHANGED = [py ''work_base'']"

fun FINDING_ORDER :: "assembly_finding_kind \<Rightarrow> nat" where
  "FINDING_ORDER NODE_MISSING = 0"
| "FINDING_ORDER WRONG_ENTRY_KIND = 1"
| "FINDING_ORDER MOUNT_BOUNDARY = 2"
| "FINDING_ORDER ACCESS_DENIED = 3"
| "FINDING_ORDER IDENTITY_CHANGED = 4"
| "FINDING_ORDER CONSTRAINTS_CHANGED = 5"
| "FINDING_ORDER MOUNT_CHANGED = 6"
| "FINDING_ORDER WORK_ROOT_CHANGED = 7"

definition DECIMAL_FACTS :: "pystr set" where
  "DECIMAL_FACTS = {py ''st_dev'', py ''st_ino'', py ''mount_id'', py ''name_max''}"

definition LOOKUP_PROOFS :: "pystr set" where
  "LOOKUP_PROOFS = {py ''exact_bytes'', py ''unreproducible_casefold''}"

definition is_decimal :: "pystr \<Rightarrow> bool" where
  "is_decimal s \<longleftrightarrow>
     s = py ''0'' \<or> (s \<noteq> [] \<and> 49 \<le> hd s \<and> hd s \<le> 57 \<and> list_all is_digit s)"

datatype assembly_finding =
  AssemblyFinding (af_path: pystr) (af_kind: assembly_finding_kind) (af_observed: "(pystr \<times> pystr) list")

datatype assembly_halt =
  AssemblyHalt (ah_txid: pystr) (ah_reason: assembly_halt_reason) (ah_expected: pystr)
    (ah_findings: "assembly_finding list") (ah_action: assembly_operator_action)

text \<open>\<open>__post_init__\<close> of a finding and of a halt.\<close>

definition validate_fact :: "pystr \<times> pystr \<Rightarrow> unit result" where
  "validate_fact = (\<lambda>(key, v).
     if key \<in> DECIMAL_FACTS then guard (is_decimal v) (asm_err FindingDecimal) (Inr ())
     else if key = py ''observed_kind'' then
       guard (v \<in> {py ''file'', py ''symlink'', py ''other''}) (asm_err FindingObservedKind) (Inr ())
     else if key = py ''lookup_proof'' then
       guard (v \<in> LOOKUP_PROOFS) (asm_err FindingLookupProof) (Inr ())
     else if key = py ''work_base'' then
       guard (v \<in> {py ''present'', py ''absent''}) (asm_err FindingWorkBase) (Inr ())
     else Inr ())"

definition validate_finding :: "assembly_finding \<Rightarrow> unit result" where
  "validate_finding finding =
     guard (map fst (af_observed finding) = FACT_KEYS (af_kind finding)) (asm_err FindingKeys)
       (for_each validate_fact (af_observed finding))"

definition finding_key :: "assembly_finding \<Rightarrow> pystr \<times> nat" where
  "finding_key finding = (af_path finding, FINDING_ORDER (af_kind finding))"

definition sole_kinds :: "assembly_finding_kind set" where
  "sole_kinds = {NODE_MISSING, WRONG_ENTRY_KIND, MOUNT_BOUNDARY, ACCESS_DENIED}"

text \<open>The loop over neighbours, \<open>zip(findings, findings[1:])\<close>.\<close>

fun require_sole :: "assembly_finding list \<Rightarrow> unit result" where
  "require_sole (left # right # findings) =
     guard (\<not> (af_path left = af_path right \<and> af_kind left \<in> sole_kinds)) (asm_err FindingNotSole)
       (require_sole (right # findings))"
| "require_sole _ = Inr ()"

definition validate_halt :: "assembly_halt \<Rightarrow> unit result" where
  "validate_halt halt =
     guard (ah_findings halt \<noteq> []) (asm_err FindingsEmpty)
     (guard (sort_key finding_key (ah_findings halt) = ah_findings halt) (asm_err FindingsOrder)
     (require_sole (ah_findings halt)))"

section \<open>Writing\<close>

definition finding_obj :: "assembly_finding \<Rightarrow> json" where
  "finding_obj finding =
     JObj [(py ''path'', JStr (af_path finding)),
           (py ''kind'', JStr (kind_value (af_kind finding))),
           (py ''observed'', JList (map (\<lambda>(key, v). JList [JStr key, JStr v]) (af_observed finding)))]"

definition halt_obj :: "assembly_halt \<Rightarrow> json" where
  "halt_obj halt =
     JObj [(py ''txid'', JStr (ah_txid halt)),
           (py ''reason'', JStr (reason_value (ah_reason halt))),
           (py ''expected'', JStr (ah_expected halt)),
           (py ''findings'', JList (map finding_obj (ah_findings halt))),
           (py ''operator_action'', JStr (action_value (ah_action halt)))]"

definition encode_assembly_halt :: "assembly_halt \<Rightarrow> pystr result" where
  "encode_assembly_halt halt = andthen (validate_halt halt) (json_dumps (halt_obj halt))"

section \<open>Reading\<close>

fun asm_object :: "json \<Rightarrow> (pystr \<times> json) list result" where
  "asm_object (JObj items) = Inr items"
| "asm_object _ = Inl (asm_err HaltNotObject)"

fun asm_string :: "json \<Rightarrow> pystr result" where
  "asm_string (JStr s) = Inr s"
| "asm_string _ = Inl (asm_err HaltNotString)"

fun asm_array :: "json \<Rightarrow> json list result" where
  "asm_array (JList vs) = Inr vs"
| "asm_array _ = Inl (asm_err HaltNotArray)"

definition asm_only :: "(pystr \<times> json) list \<Rightarrow> pystr list \<Rightarrow> unit result" where
  "asm_only obj fields = guard (fst ` set obj = set fields) (asm_err HaltFields) (Inr ())"

definition asm_field :: "(json \<Rightarrow> 'a result) \<Rightarrow> (pystr \<times> json) list \<Rightarrow> pystr \<Rightarrow> 'a result" where
  "asm_field decode obj name = bindr (lookup_or KeyError (map_of obj) name) decode"

text \<open>\<open>kind(_string(value))\<close>: the member of an enumeration with this value.\<close>

definition asm_enum :: "(pystr \<times> 'a) list \<Rightarrow> json \<Rightarrow> 'a result" where
  "asm_enum members v = bindr (asm_string v) (lookup_or (asm_err HaltEnum) (map_of members))"

fun decode_fact :: "json \<Rightarrow> (pystr \<times> pystr) result" where
  "decode_fact (JList [k, v]) = bindr (asm_string k) (\<lambda>key. bindr (asm_string v) (\<lambda>fact. Inr (key, fact)))"
| "decode_fact _ = Inl (asm_err HaltNotPair)"

definition decode_finding :: "json \<Rightarrow> assembly_finding result" where
  "decode_finding raw =
     bindr (asm_object raw) (\<lambda>obj.
     andthen (asm_only obj [py ''path'', py ''kind'', py ''observed''])
     (bindr (asm_field asm_array obj (py ''observed'')) (\<lambda>facts.
      bindr (traverse decode_fact facts) (\<lambda>observed.
      bindr (asm_field asm_string obj (py ''path'')) (\<lambda>path.
      bindr (asm_field (asm_enum FINDING_KINDS) obj (py ''kind'')) (\<lambda>kind.
      andthen (validate_finding (AssemblyFinding path kind observed))
        (Inr (AssemblyFinding path kind observed))))))))"

text \<open>What \<open>json.loads\<close> may raise here; a \<open>RecursionError\<close> is not among what is caught.\<close>

fun wrap_halt_error :: "'a result \<Rightarrow> 'a result" where
  "wrap_halt_error (Inl (ProtocolError f)) = Inl (ProtocolError f)"
| "wrap_halt_error (Inl RecursionError) = Inl RecursionError"
| "wrap_halt_error (Inl _) = Inl (asm_err HaltNotJson)"
| "wrap_halt_error (Inr x) = Inr x"

definition decode_halt_obj :: "json \<Rightarrow> assembly_halt result" where
  "decode_halt_obj raw =
     bindr (asm_object raw) (\<lambda>obj.
     andthen (asm_only obj [py ''txid'', py ''reason'', py ''expected'', py ''findings'', py ''operator_action''])
     (bindr (asm_field asm_array obj (py ''findings'')) (\<lambda>raws.
      bindr (traverse decode_finding raws) (\<lambda>findings.
      bindr (asm_field asm_string obj (py ''txid'')) (\<lambda>txid.
      bindr (asm_field (asm_enum [(reason_value APPROVAL_EVIDENCE_MISMATCH, APPROVAL_EVIDENCE_MISMATCH)])
               obj (py ''reason'')) (\<lambda>reason.
      bindr (asm_field asm_string obj (py ''expected'')) (\<lambda>expected.
      bindr (asm_field (asm_enum [(action_value RESTORE_APPROVED_TOPOLOGY, RESTORE_APPROVED_TOPOLOGY)])
               obj (py ''operator_action'')) (\<lambda>action.
      andthen (validate_halt (AssemblyHalt txid reason expected findings action))
        (Inr (AssemblyHalt txid reason expected findings action))))))))))"

definition decode_assembly_halt :: "nat \<Rightarrow> pystr \<Rightarrow> assembly_halt result" where
  "decode_assembly_halt depth payload =
     bindr (wrap_halt_error (json_loads (unique_keys (asm_err HaltDuplicateKey)) depth payload)) (\<lambda>raw.
     bindr (decode_halt_obj raw) (\<lambda>halt.
     bindr (encode_assembly_halt halt) (\<lambda>canonical.
     guard (canonical = payload) (asm_err HaltNotCanonical) (Inr halt))))"

end
