(* ===== verification/AssemblyCorrect.thy ===== *)
theory AssemblyCorrect
  imports Assembly JsonCorrect
begin

text \<open>The payload of an assembly halt is exact: every halt has one, and it has no other.\<close>

lemma asm_object_sorted [simp]: "asm_object (sorted_json (JObj items)) = Inr (sort_items items)"
  by (simp add: sorted_obj)

lemma asm_only_sorted [simp]:
  "asm_only (sort_items items) fields = guard (fst ` set items = set fields) (asm_err HaltFields) (Inr ())"
  by (simp add: asm_only_def)

lemma asm_field_sorted [simp]:
  "distinct (map fst items) \<Longrightarrow>
   asm_field decode (sort_items items) name =
     (case map_of items name of None \<Rightarrow> Inl KeyError | Some v \<Rightarrow> decode (sorted_json v))"
  by (simp add: asm_field_def split: option.split)

lemma kind_members: "lookup_or e (map_of FINDING_KINDS) (kind_value kind) = Inr kind"
  by (cases kind) (simp_all add: FINDING_KINDS_def lookup_or_def)

lemma decode_finding_obj:
  "validate_finding finding = Inr () \<Longrightarrow> decode_finding (sorted_json (finding_obj finding)) = Inr finding"
  by (cases finding)
    (auto simp: finding_obj_def decode_finding_def asm_enum_def kind_members traverse_map case_prod_unfold comp_def
      traverse_id [where g = id])

lemma decode_halt_obj_written:
  assumes "validate_halt halt = Inr ()" and "list_all (\<lambda>f. validate_finding f = Inr ()) (ah_findings halt)"
  shows "decode_halt_obj (sorted_json (halt_obj halt)) = Inr halt"
proof -
  have "traverse decode_finding (map (sorted_json \<circ> finding_obj) (ah_findings halt)) = Inr (ah_findings halt)"
    using assms(2) by (simp add: traverse_map list_all_iff decode_finding_obj traverse_id [where g = id])
  moreover have "reason_value (ah_reason halt) = reason_value APPROVAL_EVIDENCE_MISMATCH"
    "action_value (ah_action halt) = action_value RESTORE_APPROVED_TOPOLOGY"
    by (cases "ah_reason halt"; simp) (cases "ah_action halt"; simp)
  ultimately show ?thesis
    using assms(1) by (cases halt; cases "ah_reason halt"; cases "ah_action halt")
      (simp add: decode_halt_obj_def halt_obj_def asm_enum_def lookup_or_def)
qed

lemma halt_plain: "plain (halt_obj halt)" and halt_nested: "nested_in (halt_obj halt) 5"
proof -
  have "plain (finding_obj f) \<and> nested_in (finding_obj f) 3" for f
    by (auto simp: finding_obj_def numeral_eq_Suc)
  then show "plain (halt_obj halt)" "nested_in (halt_obj halt) 5"
    by (auto simp: halt_obj_def numeral_eq_Suc)
qed

section \<open>The payload is exact\<close>

text \<open>Writing a halt whose findings have passed their constructor.\<close>

definition write_halt :: "assembly_halt \<Rightarrow> pystr result" where
  "write_halt halt = andthen (for_each validate_finding (ah_findings halt)) (encode_assembly_halt halt)"

lemma write_halt_Inr:
  "write_halt halt = Inr payload \<longleftrightarrow>
   list_all (\<lambda>f. validate_finding f = Inr ()) (ah_findings halt) \<and> validate_halt halt = Inr () \<and>
   json_dumps (halt_obj halt) = Inr payload"
  by (auto simp: write_halt_def encode_assembly_halt_def result_simps list_all_iff)

lemma wrap_halt_Inr: "wrap_halt_error r = Inr x \<longleftrightarrow> r = Inr x"
  by (induction r rule: wrap_halt_error.induct) auto

lemma decoded_findings: "decode_finding raw = Inr f \<Longrightarrow> validate_finding f = Inr ()"
  by (auto simp: decode_finding_def bindr_Inr_iff)

lemma decoded_halt:
  "decode_halt_obj raw = Inr halt \<Longrightarrow> list_all (\<lambda>f. validate_finding f = Inr ()) (ah_findings halt)"
proof -
  have "traverse decode_finding raws = Inr fs \<Longrightarrow> list_all (\<lambda>f. validate_finding f = Inr ()) fs" for raws fs
    by (induction raws arbitrary: fs) (auto simp: bindr_Inr_iff dest: decoded_findings)
  then show "decode_halt_obj raw = Inr halt \<Longrightarrow> ?thesis"
    by (auto simp: decode_halt_obj_def bindr_Inr_iff)
qed

lemma read_written:
  assumes "write_halt halt = Inr payload" and "5 \<le> depth"
  shows "decode_assembly_halt depth payload = Inr halt"
proof -
  from assms(1) have w: "list_all (\<lambda>f. validate_finding f = Inr ()) (ah_findings halt)" "validate_halt halt = Inr ()"
    "json_dumps (halt_obj halt) = Inr payload" by (simp_all add: write_halt_Inr)
  from loads_dumps [OF w(3) halt_plain nested_in_mono [OF halt_nested assms(2)]]
  show ?thesis
    using decode_halt_obj_written [OF w(2,1)] w(2,3)
    by (simp add: decode_assembly_halt_def encode_assembly_halt_def)
qed

lemma written_read:
  assumes "decode_assembly_halt depth payload = Inr halt"
  shows "write_halt halt = Inr payload"
  using assms decoded_halt
  by (auto simp: decode_assembly_halt_def write_halt_Inr wrap_halt_Inr encode_assembly_halt_def
      bindr_Inr_iff guard_Inr_iff)

interpretation halts: exact_codec write_halt "decode_assembly_halt (depth + 5)" for depth
  by unfold_locales (auto intro: read_written written_read)

section \<open>What the order of the findings says\<close>

text \<open>Neighbours on one path, the left of a kind that stands alone.\<close>

definition clash :: "assembly_finding \<Rightarrow> assembly_finding \<Rightarrow> bool" where
  "clash l r \<longleftrightarrow> af_path l = af_path r \<and> af_kind l \<in> sole_kinds"

lemma require_sole_iff: "require_sole fs = Inr () \<longleftrightarrow> (\<forall>i. Suc i < length fs \<longrightarrow> \<not> clash (fs ! i) (fs ! Suc i))"
proof -
  have "require_sole fs = Inr () \<longleftrightarrow> successively (\<lambda>l r. \<not> clash l r) fs"
    by (induction fs rule: require_sole.induct) (auto simp: guard_Inr_iff clash_def)
  then show ?thesis by (simp add: successively_conv_nth)
qed

lemma sorted_by_key: "sort_key f xs = xs \<longleftrightarrow> sorted (map f xs)"
  by (metis sort_key_id_if_sorted sorted_sort_key)

lemma sole_order: "kind \<in> sole_kinds \<longleftrightarrow> FINDING_ORDER kind \<le> 3"
  by (cases kind) (auto simp: sole_kinds_def)

lemma neighbours_suffice:
  assumes s: "sorted (map finding_key fs)"
  shows "(\<forall>i. Suc i < length fs \<longrightarrow> \<not> clash (fs ! i) (fs ! Suc i))
    \<longleftrightarrow> (\<forall>i < length fs. \<forall>j < length fs. af_kind (fs ! i) \<in> sole_kinds \<and> af_path (fs ! j) = af_path (fs ! i) \<longrightarrow> i = j)"
    (is "?adjacent \<longleftrightarrow> ?sole")
proof
  assume sole: ?sole
  show ?adjacent
  proof (intro allI impI notI)
    fix i
    assume "Suc i < length fs" and "clash (fs ! i) (fs ! Suc i)"
    with sole have "i = Suc i" by (metis Suc_lessD clash_def)
    then show False by simp
  qed
next
  assume adj: ?adjacent
  have key: "finding_key (fs ! i) \<le> finding_key (fs ! j)" if "i \<le> j" "j < length fs" for i j
    using sorted_nth_mono [OF s that(1)] that by simp
  have apart: False if ij: "i < j" "j < length fs" and p: "af_path (fs ! i) = af_path (fs ! j)"
      and k: "af_kind (fs ! i) \<in> sole_kinds" for i j
  proof -
    have "af_path (fs ! i) \<le> af_path (fs ! Suc i)" "af_path (fs ! Suc i) \<le> af_path (fs ! j)"
      using key [of i "Suc i"] key [of "Suc i" j] ij by (auto simp: finding_key_def)
    with p have "af_path (fs ! i) = af_path (fs ! Suc i)" by auto
    with adj ij k show False by (auto simp: clash_def)
  qed
  show ?sole
  proof (intro allI impI)
    fix i j
    assume i: "i < length fs" and j: "j < length fs"
      and a: "af_kind (fs ! i) \<in> sole_kinds \<and> af_path (fs ! j) = af_path (fs ! i)"
    show "i = j"
    proof (rule linorder_cases [of i j])
      assume "j < i"
      with key [of j i] i a have "af_kind (fs ! j) \<in> sole_kinds" by (auto simp: finding_key_def sole_order)
      with apart [OF \<open>j < i\<close> i] a show ?thesis by simp
    next
      assume "i < j"
      with apart [OF _ j, of i] a show ?thesis by simp
    qed simp
  qed
qed

lemma deep_loads: "json_loads hook depth (replicate (Suc depth) 91) = Inl RecursionError"
proof -
  have brackets: "skip_space (replicate n 91) = replicate n 91" for n
    by (cases n) (simp_all add: skip_space_def is_space_def)
  have "scan_value hook d (replicate (Suc d) 91) = Inl RecursionError" for d
  proof (induction d)
    case 0
    then show ?case by (simp add: scan_once_def)
  next
    case (Suc d)
    have "scan_items 93 (scan_value hook d) (replicate (Suc d) 91) = Inl RecursionError"
      using Suc brackets [of "Suc d"] by (simp add: scan_items_def comma_items.simps)
    then show ?case by (simp add: scan_once_def)
  qed
  then show ?thesis using brackets [of "Suc depth"] by (simp add: json_loads_def starts_with_def)
qed

section \<open>Properties\<close>

text \<open>
  C20: Payloads of assembly halts are exact. A payload decodes to a halt if and only if it is
  the text that is written for that halt, and every finding of the halt has the facts of its
  kind: no halt has two payloads and no payload is read loosely.
\<close>

theorem halt_payload_exact:
  assumes "5 \<le> depth"
  shows "decode_assembly_halt depth payload = Inr halt \<longleftrightarrow>
    for_each validate_finding (ah_findings halt) = Inr () \<and> encode_assembly_halt halt = Inr payload"
proof -
  obtain n where "depth = n + 5" using assms by (metis add.commute le_Suc_ex)
  then show ?thesis using halts.decode_iff [of n payload halt] by (auto simp: write_halt_def bindr_Inr_iff)
qed

text \<open>
  The order of the findings isolates the findings that explain a node alone. A halt passes
  its constructor if and only if it has findings, they are sorted by path and kind, and a
  finding that a node is missing, of the wrong kind, a mount boundary or out of reach is the
  only finding of its path; comparing neighbours is enough.
\<close>

theorem halt_findings_isolated:
  "validate_halt halt = Inr () \<longleftrightarrow>
   (let fs = ah_findings halt in
    fs \<noteq> [] \<and> sorted (map finding_key fs) \<and>
    (\<forall>i < length fs. \<forall>j < length fs. af_kind (fs ! i) \<in> sole_kinds \<and> af_path (fs ! j) = af_path (fs ! i) \<longrightarrow> i = j))"
  unfolding validate_halt_def guard_Inr_iff Let_def require_sole_iff sorted_by_key
  by (rule conj_cong [OF refl], rule conj_cong [OF refl], rule neighbours_suffice)

text \<open>
  C37: A payload of too many nested arrays escapes the decoder as a \<open>RecursionError\<close>, which its
  callers do not expect: they catch \<open>ProtocolError\<close> only.
\<close>

theorem deep_payload_escapes:
  "decode_assembly_halt depth (replicate (Suc depth) 91) = Inl RecursionError"
  by (simp only: decode_assembly_halt_def deep_loads wrap_halt_error.simps bindr.simps)

text \<open>A missing node beside one whose identity and mount have changed.\<close>

definition sample_halt :: assembly_halt where
  "sample_halt = AssemblyHalt [116] APPROVAL_EVIDENCE_MISMATCH [101]
     [AssemblyFinding [97] NODE_MISSING [],
      AssemblyFinding [98] IDENTITY_CHANGED [(py ''st_dev'', [55]), (py ''st_ino'', [49, 48])],
      AssemblyFinding [98] MOUNT_CHANGED [(py ''mount_id'', [48])]] RESTORE_APPROVED_TOPOLOGY"

theorem halt_payload_exact_example:
  "\<exists>payload. decode_assembly_halt 1000 payload = Inr sample_halt \<and> encode_assembly_halt sample_halt = Inr payload"
proof -
  have "for_each validate_finding (ah_findings sample_halt) = Inr ()" by code_simp
  moreover obtain payload where "encode_assembly_halt sample_halt = Inr payload"
  proof -
    have "okay (encode_assembly_halt sample_halt)" by code_simp
    then show thesis using that by (auto simp: okay_def)
  qed
  ultimately show ?thesis using halt_payload_exact [of 1000] by auto
qed

theorem halt_findings_isolated_example:
  "validate_halt sample_halt = Inr () \<and> ah_findings sample_halt \<noteq> [] \<and>
   \<not> clash (ah_findings sample_halt ! 0) (ah_findings sample_halt ! 1)"
proof -
  have "validate_halt sample_halt = Inr ()" by code_simp
  with halt_findings_isolated [of sample_halt] show ?thesis
    by (auto simp: Let_def clash_def sample_halt_def sole_kinds_def)
qed

end
