(* ===== verification/Sha256.thy ===== *)
theory Sha256
  imports Bytes
begin

text \<open>
  \<open>hashlib.sha256(data).hexdigest()\<close>, the SHA-256 of FIPS 180-4 on words of 32 bits: the padded
  message in blocks of sixteen words, the message schedule and the sixty-four rounds.
\<close>

unbundle bit_operations_syntax

type_synonym w32 = "32 word"

definition round_constants :: "w32 list" where
  "round_constants =
     [0x428A2F98, 0x71374491, 0xB5C0FBCF, 0xE9B5DBA5, 0x3956C25B, 0x59F111F1, 0x923F82A4, 0xAB1C5ED5,
      0xD807AA98, 0x12835B01, 0x243185BE, 0x550C7DC3, 0x72BE5D74, 0x80DEB1FE, 0x9BDC06A7, 0xC19BF174,
      0xE49B69C1, 0xEFBE4786, 0x0FC19DC6, 0x240CA1CC, 0x2DE92C6F, 0x4A7484AA, 0x5CB0A9DC, 0x76F988DA,
      0x983E5152, 0xA831C66D, 0xB00327C8, 0xBF597FC7, 0xC6E00BF3, 0xD5A79147, 0x06CA6351, 0x14292967,
      0x27B70A85, 0x2E1B2138, 0x4D2C6DFC, 0x53380D13, 0x650A7354, 0x766A0ABB, 0x81C2C92E, 0x92722C85,
      0xA2BFE8A1, 0xA81A664B, 0xC24B8B70, 0xC76C51A3, 0xD192E819, 0xD6990624, 0xF40E3585, 0x106AA070,
      0x19A4C116, 0x1E376C08, 0x2748774C, 0x34B0BCB5, 0x391C0CB3, 0x4ED8AA4A, 0x5B9CCA4F, 0x682E6FF3,
      0x748F82EE, 0x78A5636F, 0x84C87814, 0x8CC70208, 0x90BEFFFA, 0xA4506CEB, 0xBEF9A3F7, 0xC67178F2]"

definition initial_hash :: "w32 list" where
  "initial_hash =
     [0x6A09E667, 0xBB67AE85, 0x3C6EF372, 0xA54FF53A, 0x510E527F, 0x9B05688C, 0x1F83D9AB, 0x5BE0CD19]"

definition big_sigma0 :: "w32 \<Rightarrow> w32" where
  "big_sigma0 x = word_rotr 2 x XOR word_rotr 13 x XOR word_rotr 22 x"

definition big_sigma1 :: "w32 \<Rightarrow> w32" where
  "big_sigma1 x = word_rotr 6 x XOR word_rotr 11 x XOR word_rotr 25 x"

definition small_sigma0 :: "w32 \<Rightarrow> w32" where
  "small_sigma0 x = word_rotr 7 x XOR word_rotr 18 x XOR drop_bit 3 x"

definition small_sigma1 :: "w32 \<Rightarrow> w32" where
  "small_sigma1 x = word_rotr 17 x XOR word_rotr 19 x XOR drop_bit 10 x"

definition sha_choice :: "w32 \<Rightarrow> w32 \<Rightarrow> w32 \<Rightarrow> w32" where
  "sha_choice x y z = (x AND y) XOR (NOT x AND z)"

definition sha_majority :: "w32 \<Rightarrow> w32 \<Rightarrow> w32 \<Rightarrow> w32" where
  "sha_majority x y z = (x AND y) XOR (x AND z) XOR (y AND z)"

text \<open>The schedule slides over the last sixteen words: each round gives out the oldest.\<close>

fun schedule_next :: "w32 list \<Rightarrow> w32 list" where
  "schedule_next window =
     tl window @ [small_sigma1 (window ! 14) + window ! 9 + small_sigma0 (window ! 1) + window ! 0]"

fun sha_round :: "w32 list \<Rightarrow> w32 \<Rightarrow> w32 \<Rightarrow> w32 list" where
  "sha_round [a, b, c, d, e, f, g, h] k w =
     (let t1 = h + big_sigma1 e + sha_choice e f g + k + w;
          t2 = big_sigma0 a + sha_majority a b c
      in [t1 + t2, a, b, c, d + t1, e, f, g])"
| "sha_round state k w = state"

fun sha_rounds :: "w32 list \<Rightarrow> w32 list \<Rightarrow> w32 list \<Rightarrow> w32 list" where
  "sha_rounds [] window state = state"
| "sha_rounds (k # ks) window state = sha_rounds ks (schedule_next window) (sha_round state k (hd window))"

definition sha_block :: "w32 list \<Rightarrow> w32 list \<Rightarrow> w32 list" where
  "sha_block hash block = map2 (+) hash (sha_rounds round_constants block hash)"

text \<open>Big-endian words, and the padding to a whole number of blocks.\<close>

fun words_of :: "bytes \<Rightarrow> w32 list" where
  "words_of (a # b # c # d # rest) =
     word_of_int (((uint a * 256 + uint b) * 256 + uint c) * 256 + uint d) # words_of rest"
| "words_of _ = []"

definition big_endian :: "nat \<Rightarrow> nat \<Rightarrow> bytes" where
  "big_endian n v = map (\<lambda>i. word_of_nat (v div 256 ^ (n - 1 - i))) [0..<n]"

definition sha_pad :: "bytes \<Rightarrow> bytes" where
  "sha_pad data =
     (let n = length data in
      data @ 128 # replicate ((119 - n mod 64) mod 64) 0 @ big_endian 8 (8 * n))"

function blocks_of :: "w32 list \<Rightarrow> w32 list list" where
  "blocks_of ws = (if ws = [] then [] else take 16 ws # blocks_of (drop 16 ws))"
  by pat_completeness auto
termination
  by (relation "measure length") auto

declare blocks_of.simps [simp del]

definition sha256_words :: "bytes \<Rightarrow> w32 list" where
  "sha256_words data = foldl sha_block initial_hash (blocks_of (words_of (sha_pad data)))"

text \<open>Eight lower-case hexadecimal digits of a word.\<close>

definition hex_nibble :: "w32 \<Rightarrow> nat" where
  "hex_nibble w = (let v = unat w in if v < 10 then 48 + v else 87 + v)"

definition hex_word :: "w32 \<Rightarrow> pystr" where
  "hex_word w = map (\<lambda>i. hex_nibble (drop_bit (28 - 4 * i) w AND 15)) [0..<8]"

definition sha256_hex :: "bytes \<Rightarrow> pystr" where
  "sha256_hex data = concat (map hex_word (sha256_words data))"

end
