(* ===== verification/ChainModel.thy ===== *)
theory ChainModel
  imports Compiler Sha256 Json
begin

text \<open>
  Chain entries and their path-state evidence (\<open>chain/model.py\<close>): the validated text forms of
  digests, modes, lengths and targets, path states as lists of facts, and the four classes of
  entry with their canonical JSON envelope. The source raises \<open>ProtocolError\<close> for an entry of
  the engine and \<open>ChainStateInvalid\<close> for one read from disk; the class is the argument \<open>err\<close>.
\<close>

type_synonym raise_fault = "chain_fault \<Rightarrow> error"

definition chain_protocol :: raise_fault where
  "chain_protocol f = ProtocolError (ChainFault f)"

section \<open>Text forms\<close>

definition chain_digest :: "raise_fault \<Rightarrow> pystr \<Rightarrow> pystr result" where
  "chain_digest err v = guard (is_hex_digest v) (err (ChainValue ValueDigest)) (Inr v)"

definition chain_identifier :: "raise_fault \<Rightarrow> pystr \<Rightarrow> pystr result" where
  "chain_identifier err v = guard (is_valid_identifier v) (err (ChainValue ValueIdentifier)) (Inr v)"

definition chain_path :: "unicode_tables \<Rightarrow> raise_fault \<Rightarrow> pystr \<Rightarrow> pystr result" where
  "chain_path u err v =
     (case require_rel_path u v of
        Inl (SpecValidationError _) \<Rightarrow> Inl (err (ChainValue ValuePath))
      | r \<Rightarrow> r)"

definition MAX_DECIMAL_DIGITS :: nat where "MAX_DECIMAL_DIGITS = 19"
definition MAX_MODE_DIGITS :: nat where "MAX_MODE_DIGITS = 6"

text \<open>\<open>int(digits, base)\<close> on digits alone.\<close>

definition number_value :: "nat \<Rightarrow> pystr \<Rightarrow> int" where
  "number_value base ds = fold (\<lambda>c n. n * int base + int (c - 48)) ds 0"

definition chain_mode :: "raise_fault \<Rightarrow> pystr \<Rightarrow> int result" where
  "chain_mode err v =
     guard (length v \<le> MAX_MODE_DIGITS) (err (ChainValue ModeLength))
     (let digits = (if starts_with (py ''0o'') v then drop 2 v else [])
      in guard (digits = py ''0'' \<or>
                (digits \<noteq> [] \<and> 49 \<le> hd digits \<and> hd digits \<le> 55 \<and>
                 list_all (\<lambda>c. 48 \<le> c \<and> c \<le> 55) digits)) (err (ChainValue ModeForm))
         (guard (number_value 8 digits \<le> MAX_MODE) (err (ChainValue ModeBeyond))
           (Inr (number_value 8 digits))))"

definition chain_decimal :: "raise_fault \<Rightarrow> pystr \<Rightarrow> int result" where
  "chain_decimal err v =
     guard (length v \<le> MAX_DECIMAL_DIGITS) (err (ChainValue DecimalLength))
     (guard (v = py ''0'' \<or> (v \<noteq> [] \<and> 49 \<le> hd v \<and> hd v \<le> 57 \<and> list_all is_digit v))
        (err (ChainValue DecimalForm))
     (guard (number_value 10 v \<le> MAX_SQLITE_INTEGER) (err (ChainValue DecimalBeyond))
        (Inr (number_value 10 v))))"

definition chain_target :: "raise_fault \<Rightarrow> pystr \<Rightarrow> pystr result" where
  "chain_target err v =
     guard (v \<noteq> []) (err (ChainValue ValueTargetEmpty))
     (guard (0 \<notin> set v) (err (ChainValue ValueTargetNul))
     (guard (utf8_encodable v) (err (ChainValue ValueTargetNotUtf8)) (Inr v)))"

section \<open>Path states as facts\<close>

type_synonym path_state_json = "(pystr \<times> pystr) list"

definition EMPTY_HASH :: pystr where
  "EMPTY_HASH = py ''e3b0c44298fc1c149afbf4c8996fb92427ae41e4649b934ca495991b7852b855''"

text \<open>\<open>values[key]\<close> of a fact list whose keys have been checked.\<close>

definition fact :: "path_state_json \<Rightarrow> pystr \<Rightarrow> pystr result" where
  "fact data key = lookup_or KeyError (dict_of data) key"

definition read_state :: "raise_fault \<Rightarrow> path_state_json \<Rightarrow> path_state result" where
  "read_state err data =
     guard (data \<noteq> [] \<and> fst (hd data) = py ''kind'') (err (ChainValue StateKindFirst))
     (bindr (fact data (py ''kind'')) (\<lambda>kind.
      let keys = map fst data in
      if kind = py ''absent'' then
        guard (keys = [py ''kind'']) (err (ChainValue StateFacts)) (Inr AbsentState)
      else if kind = py ''file'' then
        guard (keys = [py ''kind'', py ''content_hash'', py ''mode'', py ''byte_len'']) (err (ChainValue StateFacts))
        (bindr (bindr (fact data (py ''content_hash'')) (chain_digest err)) (\<lambda>hash.
         bindr (bindr (fact data (py ''mode'')) (chain_mode err)) (\<lambda>mode.
         bindr (bindr (fact data (py ''byte_len'')) (chain_decimal err)) (\<lambda>len.
         guard ((hash = EMPTY_HASH) = (len = 0)) (err (ChainValue StateEmptyHash))
           (Inr (FileState (py ''sha256:'' @ hash) mode len))))))
      else if kind = py ''symlink'' then
        guard (keys = [py ''kind'', py ''target'', py ''mode'']) (err (ChainValue StateFacts))
        (bindr (bindr (fact data (py ''target'')) (chain_target err)) (\<lambda>target.
         bindr (bindr (fact data (py ''mode'')) (chain_mode err)) (\<lambda>mode.
         Inr (SymlinkState target mode))))
      else if kind = py ''directory'' then
        guard (keys = [py ''kind'', py ''mode'']) (err (ChainValue StateFacts))
        (bindr (bindr (fact data (py ''mode'')) (chain_mode err)) (\<lambda>mode. Inr (DirectoryState mode)))
      else Inl (err (ChainValue StateKindUnknown))))"

definition state_from_json :: "path_state_json \<Rightarrow> path_state result" where
  "state_from_json = read_state ChainStateInvalid"

fun octal :: "nat \<Rightarrow> pystr" where
  "octal n = (if n < 8 then [48 + n] else octal (n div 8) @ [48 + n mod 8])"

declare octal.simps [simp del]

text \<open>\<open>oct(mode)\<close> and \<open>str(byte_len)\<close> of non-negative integers.\<close>

definition oct_text :: "int \<Rightarrow> pystr" where
  "oct_text mode = py ''0o'' @ octal (nat mode)"

definition require_state_mode :: "int \<Rightarrow> unit result" where
  "require_state_mode mode =
     guard (0 \<le> mode \<and> mode \<le> MAX_MODE) (chain_protocol (ChainValue StateMode)) (Inr ())"

fun write_state :: "path_state \<Rightarrow> path_state_json result" where
  "write_state AbsentState = Inr [(py ''kind'', py ''absent'')]"
| "write_state (FileState hash mode len) =
     guard (is_sha256_digest hash) (chain_protocol (ChainValue StateContentHash))
     (andthen (require_state_mode mode)
     (guard (0 \<le> len \<and> len \<le> MAX_SQLITE_INTEGER) (chain_protocol (ChainValue StateByteLen))
        (Inr [(py ''kind'', py ''file''), (py ''content_hash'', drop 7 hash),
              (py ''mode'', oct_text mode), (py ''byte_len'', decimal (nat len))])))"
| "write_state (SymlinkState target mode) =
     andthen (require_state_mode mode)
     (bindr (chain_target chain_protocol target) (\<lambda>_.
        Inr [(py ''kind'', py ''symlink''), (py ''target'', target), (py ''mode'', oct_text mode)]))"
| "write_state (DirectoryState mode) =
     andthen (require_state_mode mode)
        (Inr [(py ''kind'', py ''directory''), (py ''mode'', oct_text mode)])"

text \<open>The absent state returns at once; the others are read back before they are returned.\<close>

definition state_to_json :: "path_state \<Rightarrow> path_state_json result" where
  "state_to_json state =
     bindr (write_state state) (\<lambda>facts.
     if state = AbsentState then Inr facts
     else bindr (read_state chain_protocol facts) (\<lambda>_. Inr facts))"

section \<open>Surfaces\<close>

type_synonym surface_json = "(pystr \<times> path_state_json) list"

definition read_surface :: "unicode_tables \<Rightarrow> raise_fault \<Rightarrow> surface_json \<Rightarrow> surface_json result" where
  "read_surface u err entries =
     bindr (traverse (\<lambda>(path, state).
              bindr (chain_path u err path) (\<lambda>p.
              bindr (read_state err state) (\<lambda>_. Inr (p, state)))) entries) (\<lambda>checked.
     let paths = map fst checked in
     guard (paths = sort paths) (err (ChainEntry SurfaceUnsorted))
     (guard (length paths = card (set paths)) (err (ChainEntry SurfaceRepeated))
       (Inr checked)))"

definition surface_json_obj :: "unicode_tables \<Rightarrow> raise_fault \<Rightarrow> surface_json \<Rightarrow> json result" where
  "surface_json_obj u err entries =
     bindr (read_surface u err entries) (\<lambda>checked.
     Inr (JList (map (\<lambda>(path, state).
            JList [JStr path, JList (map (\<lambda>(key, v). JList [JStr key, JStr v]) state)]) checked)))"

fun chain_string :: "raise_fault \<Rightarrow> json \<Rightarrow> pystr result" where
  "chain_string err (JStr s) = Inr s"
| "chain_string err _ = Inl (err (ChainValue ValueNotString))"

fun chain_array :: "raise_fault \<Rightarrow> json \<Rightarrow> json list result" where
  "chain_array err (JList vs) = Inr vs"
| "chain_array err _ = Inl (err (ChainEntry SurfaceNotArray))"

fun chain_pair :: "raise_fault \<Rightarrow> json \<Rightarrow> (json \<times> json) result" where
  "chain_pair err (JList [a, b]) = Inr (a, b)"
| "chain_pair err _ = Inl (err (ChainEntry SurfaceNotPair))"

definition read_fact_obj :: "raise_fault \<Rightarrow> json \<Rightarrow> (pystr \<times> pystr) result" where
  "read_fact_obj err pair =
     bindr (chain_pair err pair) (\<lambda>(k, v).
     bindr (chain_string err k) (\<lambda>key. bindr (chain_string err v) (\<lambda>value. Inr (key, value))))"

definition read_surface_item :: "raise_fault \<Rightarrow> json \<Rightarrow> (pystr \<times> path_state_json) result" where
  "read_surface_item err item =
     bindr (chain_pair err item) (\<lambda>(raw_path, raw_state).
     bindr (chain_array err raw_state) (\<lambda>raw_pairs.
     bindr (traverse (read_fact_obj err) raw_pairs) (\<lambda>pairs.
     bindr (chain_string err raw_path) (\<lambda>path. Inr (path, pairs)))))"

definition surface_from_obj :: "unicode_tables \<Rightarrow> raise_fault \<Rightarrow> json \<Rightarrow> surface_json result" where
  "surface_from_obj u err v =
     bindr (chain_array err v) (\<lambda>items.
     bindr (traverse (read_surface_item err) items) (read_surface u err))"

section \<open>Entries\<close>

datatype chain_outcome = Chain_COMMITTED | Chain_ROLLED_BACK

datatype chain_entry =
    GenesisEntry bytes surface_json
  | RegisteredEntry (registered_txid: pystr) pystr pystr surface_json surface_json
      (registered_fulfills: "pystr option")
  | SettledEntry pystr pystr chain_outcome
  | IntentEntry bytes

fun outcome_value :: "chain_outcome \<Rightarrow> pystr" where
  "outcome_value Chain_COMMITTED = py ''committed''"
| "outcome_value Chain_ROLLED_BACK = py ''rolled-back''"

definition CHAIN_OUTCOMES :: "(pystr \<times> chain_outcome) list" where
  "CHAIN_OUTCOMES = [(py ''committed'', Chain_COMMITTED), (py ''rolled-back'', Chain_ROLLED_BACK)]"

definition payload_obj :: "bytes \<Rightarrow> json" where
  "payload_obj data = JStr (b64encode data)"

definition payload_from_obj :: "raise_fault \<Rightarrow> json \<Rightarrow> bytes result" where
  "payload_from_obj err v =
     bindr (chain_string err v) (\<lambda>text.
     case b64decode text of
       Inl _ \<Rightarrow> Inl (err (ChainEntry PayloadBase64))
     | Inr decoded \<Rightarrow> guard (b64encode decoded = text) (err (ChainEntry PayloadNotCanonical)) (Inr decoded))"

definition optional_digest :: "pystr option \<Rightarrow> json" where
  "optional_digest digest = (case digest of None \<Rightarrow> JNull | Some d \<Rightarrow> JStr d)"

text \<open>A digest that must be there; one that may be absent.\<close>

definition require_previous :: "raise_fault \<Rightarrow> pystr option \<Rightarrow> pystr result" where
  "require_previous err previous =
     (case previous of None \<Rightarrow> Inl (err (ChainValue ValueNotString)) | Some d \<Rightarrow> chain_digest err d)"

definition check_optional :: "raise_fault \<Rightarrow> pystr option \<Rightarrow> pystr option result" where
  "check_optional err digest =
     (case digest of None \<Rightarrow> Inr None | Some d \<Rightarrow> bindr (chain_digest err d) (\<lambda>d. Inr (Some d)))"

fun entry_obj :: "unicode_tables \<Rightarrow> raise_fault \<Rightarrow> pystr option \<Rightarrow> chain_entry \<Rightarrow> json result" where
  "entry_obj u err previous (GenesisEntry payload baseline) =
     guard (previous = None) (err (ChainEntry GenesisPrevious))
     (bindr (surface_json_obj u err baseline) (\<lambda>surface.
      Inr (JObj [(py ''class'', JStr (py ''genesis'')), (py ''previous'', JNull),
                 (py ''payload'', payload_obj payload), (py ''baseline'', surface)])))"
| "entry_obj u err previous (RegisteredEntry txid intent tag initial final fulfilled) =
     bindr (require_previous err previous) (\<lambda>prev.
     guard (is_sha256_digest intent) (err (ChainEntry RegisteredIntentDigest))
     (bindr (check_optional err fulfilled) (\<lambda>fulfilled.
      bindr (chain_identifier err txid) (\<lambda>txid.
      bindr (chain_identifier err tag) (\<lambda>tag.
      bindr (surface_json_obj u err initial) (\<lambda>initial_obj.
      bindr (surface_json_obj u err final) (\<lambda>final_obj.
      Inr (JObj [(py ''class'', JStr (py ''registered'')), (py ''previous'', JStr prev),
                 (py ''txid'', JStr txid), (py ''intent_digest'', JStr intent),
                 (py ''consumer_tag'', JStr tag), (py ''initial'', initial_obj),
                 (py ''final'', final_obj), (py ''fulfills'', optional_digest fulfilled)]))))))))"
| "entry_obj u err previous (SettledEntry txid registration outcome) =
     bindr (require_previous err previous) (\<lambda>prev.
     bindr (chain_identifier err txid) (\<lambda>txid.
     bindr (chain_digest err registration) (\<lambda>registration.
     Inr (JObj [(py ''class'', JStr (py ''settled'')), (py ''previous'', JStr prev),
                (py ''txid'', JStr txid), (py ''registration'', JStr registration),
                (py ''outcome'', JStr (outcome_value outcome))]))))"
| "entry_obj u err previous (IntentEntry payload) =
     bindr (require_previous err previous) (\<lambda>prev.
     Inr (JObj [(py ''class'', JStr (py ''intent'')), (py ''previous'', JStr prev),
                (py ''payload'', payload_obj payload)]))"

definition chain_bytes :: "json \<Rightarrow> bytes result" where
  "chain_bytes obj = bindr (json_dumps obj) utf8_encode"

definition encode_entry :: "unicode_tables \<Rightarrow> pystr option \<Rightarrow> chain_entry \<Rightarrow> bytes result" where
  "encode_entry u previous entry = bindr (entry_obj u chain_protocol previous entry) chain_bytes"

section \<open>Reading an envelope\<close>

definition chain_only :: "(pystr \<times> json) list \<Rightarrow> pystr list \<Rightarrow> unit result" where
  "chain_only obj names =
     guard (fst ` set obj = set names) (ChainStateInvalid (ChainEntry EnvelopeFields)) (Inr ())"

definition chain_field :: "(json \<Rightarrow> 'a result) \<Rightarrow> (pystr \<times> json) list \<Rightarrow> pystr \<Rightarrow> 'a result" where
  "chain_field decode obj name = bindr (lookup_or KeyError (map_of obj) name) decode"

abbreviation invalid_string :: "json \<Rightarrow> pystr result" where
  "invalid_string \<equiv> chain_string ChainStateInvalid"

text \<open>\<open>_previous\<close>, and the optional digest of \<open>fulfills\<close>.\<close>

fun read_previous :: "json \<Rightarrow> pystr option result" where
  "read_previous JNull = Inr None"
| "read_previous v = bindr (bindr (invalid_string v) (chain_digest ChainStateInvalid)) (\<lambda>d. Inr (Some d))"

definition read_outcome :: "json \<Rightarrow> chain_outcome result" where
  "read_outcome v =
     bindr (invalid_string v)
       (lookup_or (ChainStateInvalid (ChainEntry SettledOutcome)) (map_of CHAIN_OUTCOMES))"

definition read_genesis :: "unicode_tables \<Rightarrow> (pystr \<times> json) list \<Rightarrow> (pystr option \<times> chain_entry) result" where
  "read_genesis u obj =
     andthen (chain_only obj [py ''class'', py ''previous'', py ''payload'', py ''baseline''])
     (bindr (chain_field read_previous obj (py ''previous'')) (\<lambda>previous.
      bindr (chain_field (payload_from_obj ChainStateInvalid) obj (py ''payload'')) (\<lambda>payload.
      bindr (chain_field (surface_from_obj u ChainStateInvalid) obj (py ''baseline'')) (\<lambda>baseline.
      Inr (previous, GenesisEntry payload baseline)))))"

definition read_registered :: "unicode_tables \<Rightarrow> (pystr \<times> json) list \<Rightarrow> (pystr option \<times> chain_entry) result" where
  "read_registered u obj =
     andthen (chain_only obj [py ''class'', py ''previous'', py ''txid'', py ''intent_digest'',
                py ''consumer_tag'', py ''initial'', py ''final'', py ''fulfills''])
     (bindr (chain_field read_previous obj (py ''previous'')) (\<lambda>previous.
      bindr (chain_field read_previous obj (py ''fulfills'')) (\<lambda>fulfilled.
      bindr (chain_field invalid_string obj (py ''txid'')) (\<lambda>txid.
      bindr (chain_field invalid_string obj (py ''intent_digest'')) (\<lambda>intent.
      bindr (chain_field invalid_string obj (py ''consumer_tag'')) (\<lambda>tag.
      bindr (chain_field (surface_from_obj u ChainStateInvalid) obj (py ''initial'')) (\<lambda>initial.
      bindr (chain_field (surface_from_obj u ChainStateInvalid) obj (py ''final'')) (\<lambda>final.
      Inr (previous, RegisteredEntry txid intent tag initial final fulfilled)))))))))"

definition read_settled :: "(pystr \<times> json) list \<Rightarrow> (pystr option \<times> chain_entry) result" where
  "read_settled obj =
     andthen (chain_only obj [py ''class'', py ''previous'', py ''txid'', py ''registration'', py ''outcome''])
     (bindr (chain_field read_previous obj (py ''previous'')) (\<lambda>previous.
      bindr (chain_field read_outcome obj (py ''outcome'')) (\<lambda>outcome.
      bindr (chain_field invalid_string obj (py ''txid'')) (\<lambda>txid.
      bindr (chain_field invalid_string obj (py ''registration'')) (\<lambda>registration.
      Inr (previous, SettledEntry txid registration outcome))))))"

definition read_intent :: "(pystr \<times> json) list \<Rightarrow> (pystr option \<times> chain_entry) result" where
  "read_intent obj =
     andthen (chain_only obj [py ''class'', py ''previous'', py ''payload''])
     (bindr (chain_field read_previous obj (py ''previous'')) (\<lambda>previous.
      bindr (chain_field (payload_from_obj ChainStateInvalid) obj (py ''payload'')) (\<lambda>payload.
      Inr (previous, IntentEntry payload))))"

text \<open>\<open>obj.get("class")\<close> is \<open>None\<close>, no string, where the key is missing.\<close>

definition decode_entry_obj :: "unicode_tables \<Rightarrow> (pystr \<times> json) list \<Rightarrow> (pystr option \<times> chain_entry) result" where
  "decode_entry_obj u obj =
     bindr (case map_of obj (py ''class'') of
              None \<Rightarrow> Inl (ChainStateInvalid (ChainValue ValueNotString))
            | Some v \<Rightarrow> invalid_string v) (\<lambda>entry_class.
     bindr (if entry_class = py ''genesis'' then read_genesis u obj
            else if entry_class = py ''registered'' then read_registered u obj
            else if entry_class = py ''settled'' then read_settled obj
            else if entry_class = py ''intent'' then read_intent obj
            else Inl (ChainStateInvalid (ChainEntry EntryClassUnknown))) (\<lambda>(previous, entry).
     bindr (entry_obj u ChainStateInvalid previous entry) (\<lambda>_. Inr (previous, entry))))"

text \<open>Every failure of the UTF-8 and JSON readers is an envelope that is not JSON.\<close>

fun wrap_envelope_error :: "'a result \<Rightarrow> 'a result" where
  "wrap_envelope_error (Inl (ChainStateInvalid f)) = Inl (ChainStateInvalid f)"
| "wrap_envelope_error (Inl _) = Inl (ChainStateInvalid (ChainEntry EnvelopeNotJson))"
| "wrap_envelope_error (Inr x) = Inr x"

fun envelope_object :: "json \<Rightarrow> (pystr \<times> json) list result" where
  "envelope_object (JObj items) = Inr items"
| "envelope_object _ = Inl (ChainStateInvalid (ChainEntry EnvelopeNotObject))"

fun wrap_canonical_error :: "'a result \<Rightarrow> 'a result" where
  "wrap_canonical_error (Inl UnicodeEncodeError) = Inl (ChainStateInvalid (ChainEntry EnvelopeNotUtf8))"
| "wrap_canonical_error r = r"

definition decode_entry :: "unicode_tables \<Rightarrow> nat \<Rightarrow> bytes \<Rightarrow> (pystr option \<times> chain_entry) result" where
  "decode_entry u depth data =
     bindr (wrap_envelope_error (bindr (utf8_decode data)
              (json_loads (unique_keys (ChainStateInvalid (ChainEntry EnvelopeDuplicateKey))) depth))) (\<lambda>raw.
     bindr (envelope_object raw) (\<lambda>obj.
     bindr (decode_entry_obj u obj) (\<lambda>(previous, entry).
     bindr (wrap_canonical_error
              (bindr (entry_obj u ChainStateInvalid previous entry) chain_bytes)) (\<lambda>canonical.
     guard (canonical = data) (ChainStateInvalid (ChainEntry EnvelopeNotCanonical)) (Inr (previous, entry))))))"

text \<open>The content name of an envelope.\<close>

definition entry_digest :: "bytes \<Rightarrow> pystr" where
  "entry_digest = sha256_hex"

end
