(* ===== verification/ChainInspect.thy ===== *)
theory ChainInspect
  imports ChainModel
begin

text \<open>
  The validation core of a chain (\<open>chain/inspect.py\<close>): the scan of the directory, the linkage
  of the scanned rows, the rules of the entry classes and the registrations left pending. The
  directory is the argument of the scan: the provenance of its descriptor, the listed names if it
  can be listed and, for each, the bytes of a readable regular leaf. The wording of a defect is left out.
\<close>

definition STAGING_LEAF :: pystr where "STAGING_LEAF = py ''.#~stage''"

datatype defect_kind =
    FOREIGN_LEAF | NAME_BYTES_MISMATCH | UNDECODABLE_ENTRY | GENESIS_COUNT | MISSING_PREDECESSOR
  | SIBLING_BRANCH | CYCLE | ORPHAN_HISTORY | SETTLEMENT_WITHOUT_REGISTRATION
  | SETTLEMENT_TXID_MISMATCH | DUPLICATE_SETTLEMENT | DUPLICATE_REGISTRATION
  | FULFILLS_UNRESOLVED | DUPLICATE_FULFILLMENT

datatype chain_defect = ChainDefect defect_kind (subject: "pystr option")

type_synonym chain_entries = "(pystr \<times> chain_entry) list"

datatype chain_inspection =
    WellFormedChain (genesis_digest: pystr) (chain_entries: chain_entries) (chain_tip: pystr)
      (pending: "(pystr \<times> pystr) list")
  | MalformedChain chain_defect
  | AbsentChain

type_synonym chain_row = "pystr \<times> pystr option \<times> chain_entry \<times> bytes"

record chain_scan =
  found :: "chain_row list"
  staged :: "bytes option"

abbreviation row_digest :: "chain_row \<Rightarrow> pystr" where "row_digest r \<equiv> fst r"
abbreviation row_previous :: "chain_row \<Rightarrow> pystr option" where "row_previous r \<equiv> fst (snd r)"
abbreviation row_entry :: "chain_row \<Rightarrow> chain_entry" where "row_entry r \<equiv> fst (snd (snd r))"

text \<open>A pass ends early with an exception or by returning a defect.\<close>

datatype chain_stop = Raises error | Reports chain_defect

definition report :: "defect_kind \<Rightarrow> pystr option \<Rightarrow> chain_stop" where
  "report kind name = Reports (ChainDefect kind name)"

section \<open>Pass 1: the directory\<close>

definition foreign_leaf :: "pystr \<Rightarrow> chain_stop" where
  "foreign_leaf name = report FOREIGN_LEAF (Some name)"

text \<open>The bytes of a leaf that must be readable.\<close>

definition read_or_foreign :: "(pystr \<Rightarrow> bytes option) \<Rightarrow> pystr \<Rightarrow> chain_stop + bytes" where
  "read_or_foreign leaf name = lookup_or (foreign_leaf name) leaf name"

definition scan_name ::
  "unicode_tables \<Rightarrow> nat \<Rightarrow> (pystr \<Rightarrow> bytes option) \<Rightarrow> chain_scan \<Rightarrow> pystr \<Rightarrow> chain_stop + chain_scan" where
  "scan_name u depth leaf scan name =
     (if name = STAGING_LEAF then
        bindr (read_or_foreign leaf name) (\<lambda>data. Inr (scan\<lparr>staged := Some data\<rparr>))
      else
        guard (is_hex_digest name) (foreign_leaf name)
        (bindr (read_or_foreign leaf name) (\<lambda>envelope.
         guard (entry_digest envelope = name) (report NAME_BYTES_MISMATCH (Some name))
         (case decode_entry u depth envelope of
            Inl (ChainStateInvalid _) \<Rightarrow> Inl (report UNDECODABLE_ENTRY (Some name))
          | Inl e \<Rightarrow> Inl (Raises e)
          | Inr (previous, entry) \<Rightarrow> Inr (scan\<lparr>found := found scan @ [(name, previous, entry, envelope)]\<rparr>)))))"

definition scan_leaves ::
  "unicode_tables \<Rightarrow> nat \<Rightarrow> (pystr \<Rightarrow> bytes option) \<Rightarrow> pystr list \<Rightarrow> chain_stop + chain_scan" where
  "scan_leaves u depth leaf listing =
     foldr_r (scan_name u depth leaf) \<lparr>found = [], staged = None\<rparr> (sort listing)"

text \<open>
  The descriptor of the chain directory: what the audited backend has registered for it, the names
  that listing it gives, or none where listing it fails, and its leaves: the bytes of a regular leaf,
  or nothing where it is none, or where opening or reading it fails (\<open>read_leaf\<close> catches these
  errors). Closing the descriptor of a leaf is taken to succeed.
\<close>

datatype root_kind = Root_PROJECT | Root_METADATA | Root_METADATA_PARENT

datatype provenance = Provenance root_kind pystr

record directory_handle =
  handle_provenance :: "provenance option"
  handle_listing :: "pystr list option"
  handle_leaf :: "pystr \<Rightarrow> bytes option"

definition provenance_of :: "directory_handle \<Rightarrow> provenance result" where
  "provenance_of h =
     (case handle_provenance h of
        None \<Rightarrow> Inl (ProtocolError (ChainFault (ChainFile ProvenanceUnregistered)))
      | Some p \<Rightarrow> Inr p)"

definition scan_chain_directory ::
  "unicode_tables \<Rightarrow> nat \<Rightarrow> directory_handle \<Rightarrow> chain_stop + chain_scan" where
  "scan_chain_directory u depth h =
     (case provenance_of h of
        Inl e \<Rightarrow> Inl (Raises e)
      | Inr p \<Rightarrow>
          guard (p = Provenance Root_PROJECT CHAIN_LEAF)
            (Raises (ProtocolError (ChainFault (ChainFile ProvenanceNotChain))))
          (case handle_listing h of
             None \<Rightarrow> Inl (Raises (ChainStateInvalid (ChainFile DirectoryUnlistable)))
           | Some listing \<Rightarrow> scan_leaves u depth (handle_leaf h) listing))"

section \<open>Pass 2: linkage\<close>

definition by_digest :: "chain_row list \<Rightarrow> pystr \<rightharpoonup> chain_entry" where
  "by_digest rows = dict_of (map (\<lambda>r. (row_digest r, row_entry r)) rows)"

definition genesis_digests :: "chain_row list \<Rightarrow> pystr list" where
  "genesis_digests rows = map row_digest (filter (\<lambda>r. row_previous r = None) rows)"

definition predecessors :: "chain_row list \<Rightarrow> pystr list" where
  "predecessors rows = concat (map (\<lambda>r. case row_previous r of None \<Rightarrow> [] | Some p \<Rightarrow> [p]) rows)"

text \<open>\<open>successors[previous]\<close>, empty where the dictionary has no such key.\<close>

definition successors :: "chain_row list \<Rightarrow> pystr \<Rightarrow> pystr list" where
  "successors rows previous = map row_digest (filter (\<lambda>r. row_previous r = Some previous) rows)"

definition require_predecessor :: "chain_row list \<Rightarrow> chain_row \<Rightarrow> chain_stop + unit" where
  "require_predecessor rows r =
     (case row_previous r of
        None \<Rightarrow> Inr ()
      | Some p \<Rightarrow> guard (by_digest rows p \<noteq> None) (report MISSING_PREDECESSOR (Some (row_digest r))) (Inr ()))"

definition require_one_successor :: "chain_row list \<Rightarrow> pystr \<Rightarrow> chain_stop + unit" where
  "require_one_successor rows p = guard (length (successors rows p) \<le> 1) (report SIBLING_BRANCH (Some p)) (Inr ())"

text \<open>The walk from the genesis; a successor is the digest of a row and is visited once.\<close>

function walk :: "chain_row list \<Rightarrow> pystr \<Rightarrow> pystr list \<Rightarrow> chain_entries \<Rightarrow> chain_stop + (pystr list \<times> chain_entries \<times> pystr)" where
  "walk rows current visited ordered =
     guard (current \<notin> set visited) (report CYCLE (Some current))
     (bindr (lookup_or (Raises KeyError) (by_digest rows) current) (\<lambda>entry.
      case successors rows current of
        [] \<Rightarrow> Inr (current # visited, ordered @ [(current, entry)], current)
      | following # _ \<Rightarrow> walk rows following (current # visited) (ordered @ [(current, entry)])))"
  by pat_completeness auto
termination
proof (relation "measure (\<lambda>(rows, current, visited, _). card (insert current (row_digest ` set rows) - set visited))", simp, clarsimp)
  fix rows :: "chain_row list" and current following :: pystr and visited more :: "pystr list"
  assume new: "current \<notin> set visited" and s: "successors rows current = following # more"
  have "following \<in> set (successors rows current)" by (simp add: s)
  then have "following \<in> row_digest ` set rows" by (auto simp: successors_def)
  then have "insert following (row_digest ` set rows) - insert current (set visited)
      \<subset> insert current (row_digest ` set rows) - set visited"
    using new by auto
  then show "card (insert following (row_digest ` set rows) - insert current (set visited))
      < card (insert current (row_digest ` set rows) - set visited)"
    by (intro psubset_card_mono) auto
qed

declare walk.simps [simp del]

definition linearize :: "chain_row list \<Rightarrow> chain_stop + (chain_entries \<times> pystr)" where
  "linearize rows =
     (let genesis = genesis_digests rows; ascending = sort_key row_digest rows in
      guard (length genesis = 1) (report GENESIS_COUNT None)
      (andthen (for_each (require_predecessor rows) ascending)
      (andthen (for_each (require_one_successor ascending) (sort (remdups (predecessors ascending))))
      (bindr (walk ascending (hd genesis) [] []) (\<lambda>(visited, ordered, tip).
       (case sort (filter (\<lambda>d. d \<notin> set visited) (map row_digest rows)) of
          [] \<Rightarrow> Inr (ordered, tip)
        | lowest # _ \<Rightarrow> Inl (report ORPHAN_HISTORY (Some lowest))))))))"

section \<open>Pass 3: the classes\<close>

datatype referent_fault = Referent_missing | Referent_non_ancestor | Referent_non_intent

fun is_intent :: "chain_entry \<Rightarrow> bool" where
  "is_intent (IntentEntry _) = True"
| "is_intent _ = False"

definition fulfills_fault :: "chain_entries \<Rightarrow> nat \<Rightarrow> pystr \<Rightarrow> referent_fault option" where
  "fulfills_fault entries index fulfilled =
     (case filter (\<lambda>(position, digest, entry). digest = fulfilled) (indexed entries) of
        [] \<Rightarrow> Some Referent_missing
      | (position, digest, entry) # _ \<Rightarrow>
          if index \<le> position then Some Referent_non_ancestor
          else if \<not> is_intent entry then Some Referent_non_intent
          else None)"

text \<open>The intent that a committed settlement fulfills, given the registration that it names.\<close>

fun fulfilled_by :: "chain_entry option \<Rightarrow> chain_outcome \<Rightarrow> pystr option" where
  "fulfilled_by (Some (RegisteredEntry _ _ _ _ _ fulfilled)) Chain_COMMITTED = fulfilled"
| "fulfilled_by _ _ = None"

definition committed_fulfillments :: "chain_entries \<Rightarrow> pystr list" where
  "committed_fulfillments entries =
     List.map_filter (\<lambda>(_, entry). case entry of
         SettledEntry _ registration outcome \<Rightarrow> fulfilled_by (dict_of entries registration) outcome
       | _ \<Rightarrow> None) entries"

record class_state =
  registered_txids :: "pystr list"
  settled_txids :: "pystr list"
  fulfilled_intents :: "pystr list"

definition index_of :: "chain_entries \<Rightarrow> pystr \<rightharpoonup> nat" where
  "index_of entries = dict_of (map (\<lambda>(index, digest, _). (digest, index)) (indexed entries))"

text \<open>The registration that a settlement at an index names: an earlier entry of that class.\<close>

definition named_registration :: "chain_entries \<Rightarrow> nat \<Rightarrow> pystr \<Rightarrow> chain_entry option" where
  "named_registration entries index registration =
     (case index_of entries registration of
        None \<Rightarrow> None
      | Some position \<Rightarrow>
          if index \<le> position then None
          else (case snd (entries ! position) of
                  RegisteredEntry txid intent tag initial final fulfilled \<Rightarrow>
                    Some (RegisteredEntry txid intent tag initial final fulfilled)
                | _ \<Rightarrow> None))"

fun class_step :: "chain_entries \<Rightarrow> class_state \<Rightarrow> nat \<times> pystr \<times> chain_entry \<Rightarrow> chain_stop + class_state" where
  "class_step entries s (index, digest, RegisteredEntry txid intent tag initial final fulfilled) =
     guard (txid \<notin> set (registered_txids s)) (report DUPLICATE_REGISTRATION (Some digest))
     (guard (case fulfilled of None \<Rightarrow> True | Some f \<Rightarrow> fulfills_fault entries index f = None)
        (report FULFILLS_UNRESOLVED (Some digest))
     (Inr (s\<lparr>registered_txids := txid # registered_txids s\<rparr>)))"
| "class_step entries s (index, digest, SettledEntry txid registration outcome) =
     (case named_registration entries index registration of
        None \<Rightarrow> Inl (report SETTLEMENT_WITHOUT_REGISTRATION (Some digest))
      | Some named \<Rightarrow>
          guard (registered_txid named = txid) (report SETTLEMENT_TXID_MISMATCH (Some digest))
          (guard (txid \<notin> set (settled_txids s)) (report DUPLICATE_SETTLEMENT (Some digest))
          (let s = s\<lparr>settled_txids := txid # settled_txids s\<rparr> in
           case fulfilled_by (Some named) outcome of
             None \<Rightarrow> Inr s
           | Some f \<Rightarrow>
               guard (f \<notin> set (fulfilled_intents s)) (report DUPLICATE_FULFILLMENT (Some digest))
               (Inr (s\<lparr>fulfilled_intents := f # fulfilled_intents s\<rparr>)))))"
| "class_step entries s (index, digest, GenesisEntry payload baseline) = Inr s"
| "class_step entries s (index, digest, IntentEntry payload) = Inr s"

definition no_classes :: class_state where
  "no_classes = \<lparr>registered_txids = [], settled_txids = [], fulfilled_intents = []\<rparr>"

definition inspect_entry_classes :: "chain_entries \<Rightarrow> chain_stop + unit" where
  "inspect_entry_classes entries =
     bindr (foldr_r (class_step entries) no_classes (indexed entries)) (\<lambda>_. Inr ())"

definition settled_in :: "chain_entries \<Rightarrow> pystr list" where
  "settled_in entries =
     List.map_filter (\<lambda>(_, entry). case entry of SettledEntry txid _ _ \<Rightarrow> Some txid | _ \<Rightarrow> None) entries"

definition pending_of :: "chain_entries \<Rightarrow> (pystr \<times> pystr) list" where
  "pending_of entries =
     List.map_filter (\<lambda>(digest, entry).
       case entry of
         RegisteredEntry txid _ _ _ _ _ \<Rightarrow>
           if txid \<notin> set (settled_in entries) then Some (txid, digest) else None
       | _ \<Rightarrow> None) entries"

section \<open>The inspection\<close>

definition inspect_found :: "chain_row list \<Rightarrow> chain_stop + chain_inspection" where
  "inspect_found rows =
     bindr (linearize rows) (\<lambda>(entries, tip).
     andthen (inspect_entry_classes entries)
       (case entries of
          [] \<Rightarrow> Inl (Raises IndexError)
        | (genesis, _) # _ \<Rightarrow> Inr (WellFormedChain genesis entries tip (pending_of entries))))"

definition inspect_scan :: "chain_scan \<Rightarrow> chain_inspection result" where
  "inspect_scan scan =
     (if found scan = [] then Inr AbsentChain
      else case inspect_found (found scan) of
             Inl (Raises e) \<Rightarrow> Inl e
           | Inl (Reports defect) \<Rightarrow> Inr (MalformedChain defect)
           | Inr chain \<Rightarrow> Inr chain)"

text \<open>The raising disposition: a malformed chain is an exception.\<close>

definition validate_scan :: "chain_scan \<Rightarrow> chain_inspection result" where
  "validate_scan scan =
     bindr (inspect_scan scan) (\<lambda>chain.
     case chain of
       MalformedChain defect \<Rightarrow> Inl (ChainStateInvalid (ChainEntry ChainMalformed))
     | _ \<Rightarrow> Inr chain)"

text \<open>The registration that a detached chain has only staged.\<close>

definition staged_pending :: "unicode_tables \<Rightarrow> nat \<Rightarrow> chain_scan \<Rightarrow> chain_inspection \<Rightarrow> chain_inspection result" where
  "staged_pending u depth scan chain =
     (case staged scan of
        None \<Rightarrow> Inr chain
      | Some envelope \<Rightarrow>
          (case decode_entry u depth envelope of
             Inl (ChainStateInvalid _) \<Rightarrow> Inr chain
           | Inl e \<Rightarrow> Inl e
           | Inr (previous, entry) \<Rightarrow>
               (case chain of
                  WellFormedChain genesis entries tip pend \<Rightarrow>
                    (case entry of
                       RegisteredEntry txid _ _ _ _ _ \<Rightarrow>
                         if previous \<noteq> Some tip \<or> entry_digest envelope \<in> fst ` set entries then Inr chain
                         else Inr (WellFormedChain genesis entries tip (pend @ [(txid, entry_digest envelope)]))
                     | _ \<Rightarrow> Inr chain)
                | _ \<Rightarrow> Inl AttributeError)))"

end
