(* ===== verification/ChainFiles.thy ===== *)
theory ChainFiles
  imports ChainInspect
begin

text \<open>
  Reading and extending the chain directory (\<open>chain/read.py\<close>, \<open>chain/append.py\<close>). The directory is
  a list of leaves, the bytes of a regular file or no readable file; the calls of the audited
  backend that change it are steps that also record every directory that is ever seen, so that a
  crash after any call is one of the recorded directories. Flushes leave what is seen unchanged.
\<close>

type_synonym chain_dir = "(pystr \<times> bytes option) list"

definition read_leaf :: "chain_dir \<Rightarrow> pystr \<Rightarrow> bytes option" where
  "read_leaf dir name = (case map_of dir name of Some leaf \<Rightarrow> leaf | None \<Rightarrow> None)"

definition chain_err :: "chain_file_fault \<Rightarrow> error" where
  "chain_err f = ChainStateInvalid (ChainFile f)"

definition chain_misuse :: "chain_file_fault \<Rightarrow> error" where
  "chain_misuse f = ProtocolError (ChainFault (ChainFile f))"

section \<open>Reading\<close>

datatype survivor_disposition = Survivor_FINISH | Survivor_REMOVE

datatype survivor_action = SurvivorAction pystr survivor_disposition "bytes option"

record validated_chain =
  history_entries :: chain_entries
  history_tip :: "pystr option"
  survivors :: "survivor_action list"

definition read_regular :: "chain_dir \<Rightarrow> pystr \<Rightarrow> bytes result" where
  "read_regular dir name = lookup_or (chain_err ForeignLeafFound) (read_leaf dir) name"

text \<open>\<open>except ChainStateInvalid\<close> around the decoder.\<close>

definition decode_or :: "error \<Rightarrow> unicode_tables \<Rightarrow> nat \<Rightarrow> bytes \<Rightarrow> (pystr option \<times> chain_entry) result" where
  "decode_or e u depth data =
     (case decode_entry u depth data of Inl (ChainStateInvalid _) \<Rightarrow> Inl e | r \<Rightarrow> r)"

definition plan_envelope ::
  "unicode_tables \<Rightarrow> nat \<Rightarrow> (bytes \<times> pystr option) list \<Rightarrow> bytes \<Rightarrow> (bytes \<times> pystr option) list result" where
  "plan_envelope u depth checked envelope =
     bindr (decode_or (chain_misuse PlannedNotCanonical) u depth envelope) (\<lambda>(previous, _).
     guard (envelope \<notin> fst ` set checked) (chain_misuse PlannedDuplicate) (Inr (checked @ [(envelope, previous)])))"

definition planned_entries :: "unicode_tables \<Rightarrow> nat \<Rightarrow> bytes list \<Rightarrow> (bytes \<times> pystr option) list result" where
  "planned_entries u depth planned = foldr_r (plan_envelope u depth) [] planned"

text \<open>The open descriptor of a chain directory that can be listed.\<close>

definition chain_handle :: "chain_dir \<Rightarrow> directory_handle" where
  "chain_handle dir =
     \<lparr>handle_provenance = Some (Provenance Root_PROJECT CHAIN_LEAF), handle_listing = Some (map fst dir),
      handle_leaf = read_leaf dir\<rparr>"

text \<open>The raising disposition of the scan, flattened to entries and a tip.\<close>

definition scan_dir :: "unicode_tables \<Rightarrow> nat \<Rightarrow> chain_dir \<Rightarrow> chain_scan result" where
  "scan_dir u depth dir =
     (case scan_chain_directory u depth (chain_handle dir) of
        Inl (Raises e) \<Rightarrow> Inl e
      | Inl (Reports _) \<Rightarrow> Inl (ChainStateInvalid (ChainEntry ChainMalformed))
      | Inr scan \<Rightarrow> Inr scan)"

fun flatten_chain :: "chain_inspection \<Rightarrow> chain_entries \<times> pystr option" where
  "flatten_chain (WellFormedChain _ entries tip _) = (entries, Some tip)"
| "flatten_chain _ = ([], None)"

definition durable_envelopes :: "chain_scan \<Rightarrow> pystr \<rightharpoonup> bytes" where
  "durable_envelopes scan = dict_of (map (\<lambda>r. (row_digest r, snd (snd (snd r)))) (found scan))"

definition survivors_of :: "chain_scan \<Rightarrow> bytes list \<Rightarrow> survivor_action list" where
  "survivors_of scan planned =
     (case staged scan of
        None \<Rightarrow> []
      | Some data \<Rightarrow>
          if data \<in> set planned \<and> durable_envelopes scan (entry_digest data) \<noteq> Some data
          then [SurvivorAction STAGING_LEAF Survivor_FINISH (Some data)]
          else [SurvivorAction STAGING_LEAF Survivor_REMOVE None])"

definition validate_chain :: "unicode_tables \<Rightarrow> nat \<Rightarrow> chain_dir \<Rightarrow> bytes list \<Rightarrow> validated_chain result" where
  "validate_chain u depth dir planned =
     bindr (planned_entries u depth planned) (\<lambda>checked.
     bindr (scan_dir u depth dir) (\<lambda>scan.
     bindr (validate_scan scan) (\<lambda>chain.
     let (entries, tip) = flatten_chain chain in
     andthen (for_each (\<lambda>(envelope, previous).
         guard (durable_envelopes scan (entry_digest envelope) = Some envelope \<or> previous = tip)
           (chain_misuse PlannedUnlinked) (Inr ())) checked)
     (Inr \<lparr>history_entries = entries, history_tip = tip, survivors = survivors_of scan planned\<rparr>))))"

section \<open>Steps on the directory\<close>

record disk =
  now :: chain_dir
  seen :: "chain_dir list"

type_synonym 'a disk_step = "disk \<Rightarrow> 'a result \<times> disk"

definition returns :: "'a \<Rightarrow> 'a disk_step" where
  "returns x s = (Inr x, s)"

definition andthen_disk :: "'a disk_step \<Rightarrow> ('a \<Rightarrow> 'b disk_step) \<Rightarrow> 'b disk_step" where
  "andthen_disk m f s = (case m s of (Inl e, s') \<Rightarrow> (Inl e, s') | (Inr x, s') \<Rightarrow> f x s')"

text \<open>A computation that reads the directory; one that fails or checks.\<close>

definition reading :: "(chain_dir \<Rightarrow> 'a result) \<Rightarrow> 'a disk_step" where
  "reading f s = (f (now s), s)"

definition require_disk :: "bool \<Rightarrow> error \<Rightarrow> unit disk_step" where
  "require_disk c e s = (guard c e (Inr ()), s)"

definition changing :: "(chain_dir \<Rightarrow> chain_dir result) \<Rightarrow> unit disk_step" where
  "changing f s =
     (case f (now s) of
        Inl e \<Rightarrow> (Inl e, s)
      | Inr dir \<Rightarrow> (Inr (), \<lparr>now = dir, seen = seen s @ [dir]\<rparr>))"

definition drop_leaf :: "pystr \<Rightarrow> chain_dir \<Rightarrow> chain_dir" where
  "drop_leaf name dir = filter (\<lambda>leaf. fst leaf \<noteq> name) dir"

definition put_leaf :: "pystr \<Rightarrow> bytes option \<Rightarrow> chain_dir \<Rightarrow> chain_dir" where
  "put_leaf name leaf dir = (name, leaf) # drop_leaf name dir"

definition create_exclusive :: "pystr \<Rightarrow> unit disk_step" where
  "create_exclusive name =
     changing (\<lambda>dir. guard (name \<notin> fst ` set dir) FileExistsError (Inr (put_leaf name (Some []) dir)))"

text \<open>Writing at the end of the file that has been created.\<close>

definition write_file :: "pystr \<Rightarrow> bytes \<Rightarrow> unit disk_step" where
  "write_file name data =
     changing (\<lambda>dir. bindr (lookup_or FileNotFoundError (read_leaf dir) name) (\<lambda>old.
       Inr (put_leaf name (Some (old @ data)) dir)))"

definition transfer_noclobber :: "pystr \<Rightarrow> pystr \<Rightarrow> unit disk_step" where
  "transfer_noclobber source target =
     changing (\<lambda>dir. bindr (lookup_or FileNotFoundError (map_of dir) source) (\<lambda>leaf.
       guard (target \<notin> fst ` set dir) FileExistsError (Inr (put_leaf target leaf (drop_leaf source dir)))))"

definition unlink_child :: "pystr \<Rightarrow> unit disk_step" where
  "unlink_child name =
     changing (\<lambda>dir. guard (name \<in> fst ` set dir) FileNotFoundError (Inr (drop_leaf name dir)))"

text \<open>\<open>except OSError\<close> with one errno.\<close>

definition catching :: "error \<Rightarrow> 'a disk_step \<Rightarrow> 'a disk_step \<Rightarrow> 'a disk_step" where
  "catching e m handler s =
     (case m s of (Inl e', s') \<Rightarrow> (if e' = e then handler s' else (Inl e', s')) | r \<Rightarrow> r)"

section \<open>Applying a survivor\<close>

definition action_fields :: "unicode_tables \<Rightarrow> nat \<Rightarrow> survivor_action \<Rightarrow> pystr option \<Rightarrow> unit result" where
  "action_fields u depth action tip =
     (case action of SurvivorAction name disposition envelope \<Rightarrow>
        guard (name = STAGING_LEAF) (chain_misuse SurvivorName)
        (case disposition of
           Survivor_REMOVE \<Rightarrow> guard (envelope = None) (chain_misuse SurvivorRemoveEnvelope) (Inr ())
         | Survivor_FINISH \<Rightarrow>
             (case envelope of
                None \<Rightarrow> Inl (chain_misuse SurvivorNoEnvelope)
              | Some data \<Rightarrow>
                  bindr (decode_or (chain_misuse SurvivorNotCanonical) u depth data) (\<lambda>(previous, _).
                  guard (previous = tip) (chain_misuse SurvivorUnlinked) (Inr ())))))"

fun require_named :: "unicode_tables \<Rightarrow> pystr option \<Rightarrow> chain_entries \<Rightarrow> pystr option result" where
  "require_named u previous [] = Inr previous"
| "require_named u previous ((digest, entry) # entries) =
     bindr (encode_entry u previous entry) (\<lambda>envelope.
     guard (entry_digest envelope = digest) (chain_misuse ValidatedDigest)
       (require_named u (Some digest) entries))"

definition validated_fields :: "unicode_tables \<Rightarrow> nat \<Rightarrow> validated_chain \<Rightarrow> unit result" where
  "validated_fields u depth chain =
     bindr (require_named u None (history_entries chain)) (\<lambda>previous.
     guard (history_tip chain = previous) (chain_misuse ValidatedTip)
     (guard (length (survivors chain) \<le> 1) (chain_misuse SurvivorsMany)
       (for_each (\<lambda>action. action_fields u depth action (history_tip chain)) (survivors chain))))"

definition same_history :: "validated_chain \<Rightarrow> validated_chain \<Rightarrow> bool" where
  "same_history l r \<longleftrightarrow> history_entries l = history_entries r \<and> history_tip l = history_tip r"

definition unlink_stage :: "unit disk_step" where
  "unlink_stage = catching FileNotFoundError (unlink_child STAGING_LEAF) (returns ())"

definition require_bytes :: "pystr \<Rightarrow> bytes \<Rightarrow> chain_file_fault \<Rightarrow> unit disk_step" where
  "require_bytes name envelope fault =
     andthen_disk (reading (\<lambda>dir. read_regular dir name)) (\<lambda>data. require_disk (data = envelope) (chain_err fault))"

definition finish_survivor :: "bytes \<Rightarrow> pystr \<Rightarrow> unit disk_step" where
  "finish_survivor envelope digest =
     andthen_disk (require_bytes STAGING_LEAF envelope StagingChanged) (\<lambda>_.
     catching FileExistsError (transfer_noclobber STAGING_LEAF digest)
       (andthen_disk (require_bytes digest envelope DestinationForeign) (\<lambda>_.
        andthen_disk (require_bytes STAGING_LEAF envelope StagingChanged) (\<lambda>_. unlink_stage))))"

definition validating :: "unicode_tables \<Rightarrow> nat \<Rightarrow> validated_chain disk_step" where
  "validating u depth = reading (\<lambda>dir. validate_chain u depth dir [])"

definition remove_survivor :: "unicode_tables \<Rightarrow> nat \<Rightarrow> validated_chain \<Rightarrow> validated_chain disk_step" where
  "remove_survivor u depth validated =
     andthen_disk (validating u depth) (\<lambda>current.
     andthen_disk (require_disk (same_history current validated) (chain_err ChainChanged)) (\<lambda>_.
     if survivors current = [] then returns current
     else andthen_disk unlink_stage (\<lambda>_. validating u depth)))"

definition complete_survivor :: "unicode_tables \<Rightarrow> nat \<Rightarrow> validated_chain \<Rightarrow> bytes \<Rightarrow> validated_chain disk_step" where
  "complete_survivor u depth validated envelope =
     andthen_disk (reading (\<lambda>_. decode_entry u depth envelope)) (\<lambda>(previous, entry).
     andthen_disk (require_disk (previous = history_tip validated) (chain_misuse SurvivorUnlinked)) (\<lambda>_.
     let digest = entry_digest envelope; expected = history_entries validated @ [(digest, entry)] in
     andthen_disk (validating u depth) (\<lambda>current.
     andthen_disk
       (if same_history current validated then
          andthen_disk (require_disk (survivors current \<noteq> []) (chain_err StagingChanged)) (\<lambda>_.
          finish_survivor envelope digest)
        else if history_entries current = expected \<and> history_tip current = Some digest then
          (if survivors current \<noteq> [] then
             andthen_disk (require_bytes STAGING_LEAF envelope StagingChanged) (\<lambda>_. unlink_stage)
           else returns ())
        else require_disk False (chain_err ChainChanged)) (\<lambda>_.
     andthen_disk (validating u depth) (\<lambda>fresh.
     andthen_disk (require_disk (history_entries fresh = expected \<and> history_tip fresh = Some digest \<and> survivors fresh = [])
       (chain_err CompletionFailed)) (\<lambda>_. returns fresh))))))"

definition apply_survivors :: "unicode_tables \<Rightarrow> nat \<Rightarrow> validated_chain \<Rightarrow> validated_chain disk_step" where
  "apply_survivors u depth validated =
     andthen_disk (reading (\<lambda>_. validated_fields u depth validated)) (\<lambda>_.
     case survivors validated of
       [] \<Rightarrow>
         andthen_disk (validating u depth) (\<lambda>fresh.
         andthen_disk (require_disk (fresh = validated) (chain_err ChainChanged)) (\<lambda>_. returns fresh))
     | SurvivorAction _ Survivor_REMOVE _ # _ \<Rightarrow> remove_survivor u depth validated
     | SurvivorAction _ Survivor_FINISH None # _ \<Rightarrow> reading (\<lambda>_. Inl (chain_misuse SurvivorNoEnvelope))
     | SurvivorAction _ Survivor_FINISH (Some envelope) # _ \<Rightarrow> complete_survivor u depth validated envelope)"

section \<open>Appending\<close>

text \<open>The backend accepts some of the bytes it is given, at least one and at most all of them.\<close>

function write_all :: "(bytes \<Rightarrow> nat) \<Rightarrow> pystr \<Rightarrow> bytes \<Rightarrow> unit disk_step" where
  "write_all accepts name data =
     (if data = [] then returns ()
      else if 0 < accepts data \<and> accepts data \<le> length data then
        andthen_disk (write_file name (take (accepts data) data)) (\<lambda>_.
          write_all accepts name (drop (accepts data) data))
      else require_disk False (chain_misuse WriteStep))"
  by pat_completeness auto
termination
  by (relation "measure (\<lambda>(_, _, data). length data)") auto

declare write_all.simps [simp del]

definition prove_eexist ::
  "unicode_tables \<Rightarrow> nat \<Rightarrow> bytes \<Rightarrow> pystr \<Rightarrow> pystr option \<times> chain_entry \<Rightarrow> unit disk_step" where
  "prove_eexist u depth envelope digest expected =
     andthen_disk (reading (\<lambda>dir. read_regular dir digest)) (\<lambda>destination.
     andthen_disk (require_disk (destination = envelope) (chain_err DestinationForeign)) (\<lambda>_.
     andthen_disk (reading (\<lambda>_. decode_entry u depth destination)) (\<lambda>decoded.
     andthen_disk (require_disk (decoded = expected) (chain_err DestinationForeign)) (\<lambda>_.
     andthen_disk (require_bytes STAGING_LEAF envelope StagingChanged) (\<lambda>_. unlink_stage)))))"

definition append_entry ::
  "unicode_tables \<Rightarrow> nat \<Rightarrow> (bytes \<Rightarrow> nat) \<Rightarrow> validated_chain \<Rightarrow> chain_entry \<Rightarrow> pystr disk_step" where
  "append_entry u depth accepts validated entry =
     andthen_disk (reading (\<lambda>_. validated_fields u depth validated)) (\<lambda>_.
     andthen_disk (require_disk (survivors validated = []) (chain_misuse SurvivorsUnapplied)) (\<lambda>_.
     andthen_disk (reading (\<lambda>_. encode_entry u (history_tip validated) entry)) (\<lambda>envelope.
     let digest = entry_digest envelope in
     andthen_disk (validating u depth) (\<lambda>current.
     andthen_disk (require_disk (current = validated) (chain_err ChainChanged)) (\<lambda>_.
     andthen_disk (catching FileExistsError (create_exclusive STAGING_LEAF)
       (require_disk False (chain_err StagingAppeared))) (\<lambda>_.
     andthen_disk (write_all accepts STAGING_LEAF envelope) (\<lambda>_.
     andthen_disk (catching FileExistsError (transfer_noclobber STAGING_LEAF digest)
       (prove_eexist u depth envelope digest (history_tip validated, entry))) (\<lambda>_.
     returns digest))))))))"

end
