(* ===== verification/ChainModelCorrect.thy ===== *)
theory ChainModelCorrect
  imports ChainModel CanonicalCorrect
begin

text \<open>
  What the chain writes is what it reads: the facts of a path state and the envelope of an entry
  are exact, and the states that the chain can write are the fingerprints that the compiler accepts.
\<close>

section \<open>Numerals\<close>

text \<open>
  The interface of a numeral writer in a base up to ten, as \<open>oct\<close> and \<open>str\<close> have it. The client
  reads back what it writes and finds no other numeral without a leading zero.
\<close>

locale numeral_text =
  fixes base :: nat and put :: "nat \<Rightarrow> pystr"
  assumes base: "2 \<le> base" "base \<le> 10"
    and write_small: "n < base \<Longrightarrow> put n = [48 + n]"
    and write_large: "base \<le> n \<Longrightarrow> put n = put (n div base) @ [48 + n mod base]"
begin

definition numeral :: "pystr \<Rightarrow> bool" where
  "numeral ds \<longleftrightarrow> ds = [48] \<or> (ds \<noteq> [] \<and> hd ds \<noteq> 48 \<and> list_all (\<lambda>c. 48 \<le> c \<and> c < 48 + base) ds)"

lemma smaller: "0 < n \<Longrightarrow> n div base < n"
  using base by simp

lemma write_value: "number_value base (put n) = int n"
proof (induction n rule: less_induct)
  case (less n)
  show ?case
  proof (cases "n < base")
    case True
    then show ?thesis by (simp add: write_small number_value_def)
  next
    case False
    then have "0 < n" using base by auto
    with False less smaller show ?thesis by (simp add: write_large number_value_def flip: of_nat_mult of_nat_add)
  qed
qed

lemma write_numeral: "numeral (put n) \<and> (0 < n \<longrightarrow> hd (put n) \<noteq> 48)"
proof (induction n rule: less_induct)
  case (less n)
  show ?case
  proof (cases "n < base")
    case True
    then show ?thesis by (auto simp: write_small numeral_def)
  next
    case False
    then have "0 < n" "0 < n div base" "n mod base < base" using base by (auto simp: div_greater_zero_iff)
    with less [of "n div base"] smaller [of n]
    have d: "numeral (put (n div base))" "hd (put (n div base)) \<noteq> 48" by blast+
    then have "put (n div base) \<noteq> []" "list_all (\<lambda>c. 48 \<le> c \<and> c < 48 + base) (put (n div base))"
      by (auto simp: numeral_def)
    moreover have "put n = put (n div base) @ [48 + n mod base]" using False by (simp only: write_large not_less)
    ultimately show ?thesis using d(2) \<open>n mod base < base\<close> by (simp add: numeral_def)
  qed
qed

lemma value_snoc: "number_value base (ds @ [c]) = number_value base ds * int base + int (c - 48)"
  by (simp add: number_value_def)

lemma digits_nonneg: "0 \<le> number_value base ds"
  by (induction ds rule: rev_induct) (simp_all add: value_snoc, simp add: number_value_def)

lemma leading_positive: "ds \<noteq> [] \<Longrightarrow> 48 < hd ds \<Longrightarrow> 0 < number_value base ds"
proof (induction ds rule: rev_induct)
  case (snoc c ds)
  then show ?case using base digits_nonneg [of ds]
    by (cases "ds = []") (auto simp: value_snoc number_value_def intro: add_pos_nonneg)
qed simp

lemma rewrite: "numeral ds \<Longrightarrow> put (nat (number_value base ds)) = ds"
proof (induction ds rule: rev_induct)
  case (snoc c ds)
  show ?case
  proof (cases "ds = []")
    case True
    with snoc.prems base show ?thesis by (auto simp: numeral_def number_value_def write_small)
  next
    case False
    with snoc.prems have ds: "numeral ds" "48 < hd ds" "48 \<le> c" "c < 48 + base"
      by (cases ds; auto simp: numeral_def)+
    define n where "n = nat (number_value base ds)"
    have n: "number_value base ds = int n" "0 < n" using leading_positive [OF False ds(2)] by (auto simp: n_def)
    have "nat (number_value base (ds @ [c])) = n * base + (c - 48)"
      by (simp add: value_snoc n nat_int_add flip: of_nat_mult)
    moreover have "c - 48 < base" using ds by linarith
    then have "(n * base + (c - 48)) div base = n" "(n * base + (c - 48)) mod base = c - 48"
      by (simp_all only: div_mult_self3 mod_mult_self3 div_less mod_less)
    moreover have "base \<le> n * base + (c - 48)" using n(2) by (simp add: trans_le_add1)
    ultimately show ?thesis using snoc.IH [OF ds(1)] ds(3) by (simp add: write_large n_def)
  qed
qed (simp add: numeral_def)

lemma write_short: "n < base ^ Suc k \<Longrightarrow> length (put n) \<le> Suc k"
proof (induction k arbitrary: n)
  case (Suc k)
  show ?case
  proof (cases "n < base")
    case False
    with Suc.prems Suc.IH [of "n div base"] base show ?thesis
      by (simp add: write_large less_mult_imp_div_less mult.commute)
  qed (simp add: write_small)
qed (simp add: write_small)

lemma write_inj: "put m = put n \<longleftrightarrow> m = n"
  by (metis of_nat_eq_iff write_value)

lemma numeral_iff: "numeral ds \<longleftrightarrow> (\<exists>n. ds = put n)"
  by (metis rewrite write_numeral)

end

interpretation octals: numeral_text 8 octal
  by unfold_locales (auto simp: octal.simps)

interpretation decimals: numeral_text 10 decimal
  by unfold_locales (auto simp: decimal.simps)

section \<open>Text forms\<close>

lemma octal_digits:
  "digits = py ''0'' \<or> digits \<noteq> [] \<and> 49 \<le> hd digits \<and> hd digits \<le> 55 \<and> list_all (\<lambda>c. 48 \<le> c \<and> c \<le> 55) digits
   \<longleftrightarrow> octals.numeral digits"
  by (cases digits) (auto simp: octals.numeral_def list_all_iff)

lemma decimal_form:
  "v = py ''0'' \<or> v \<noteq> [] \<and> 49 \<le> hd v \<and> hd v \<le> 57 \<and> list_all is_digit v \<longleftrightarrow> decimals.numeral v"
  by (cases v) (auto simp: decimals.numeral_def list_all_iff is_digit_def)

lemma chain_mode_iff: "chain_mode err v = Inr m \<longleftrightarrow> 0 \<le> m \<and> m < 2 ^ 12 \<and> v = oct_text m"
proof
  assume a: "chain_mode err v = Inr m"
  define digits where "digits = (if starts_with (py ''0o'') v then drop 2 v else [])"
  from a have d: "octals.numeral digits" "number_value 8 digits = m" "m \<le> MAX_MODE"
    unfolding chain_mode_def Let_def guard_Inr_iff digits_def [symmetric] octal_digits by auto
  then have "digits \<noteq> []" by (auto simp: octals.numeral_def)
  then have "v = py ''0o'' @ digits" by (auto simp: digits_def starts_with_iff split: if_splits)
  with d octals.rewrite [OF d(1)] octals.digits_nonneg [of digits] show "0 \<le> m \<and> m < 2 ^ 12 \<and> v = oct_text m"
    by (auto simp: oct_text_def MAX_MODE_def)
next
  assume a: "0 \<le> m \<and> m < 2 ^ 12 \<and> v = oct_text m"
  then have "length (octal (nat m)) \<le> Suc 3" by (intro octals.write_short) (simp add: nat_less_iff)
  with a show "chain_mode err v = Inr m"
    unfolding chain_mode_def octal_digits Let_def
    using octals.write_numeral [of "nat m"] octals.write_value [of "nat m"]
    by (simp add: oct_text_def MAX_MODE_def MAX_MODE_DIGITS_def starts_with_def guard_def)
qed

lemma chain_decimal_iff: "chain_decimal err v = Inr i \<longleftrightarrow> 0 \<le> i \<and> i < 2 ^ 63 \<and> v = decimal (nat i)"
proof
  assume "chain_decimal err v = Inr i"
  then have d: "decimals.numeral v" "number_value 10 v = i" "i \<le> MAX_SQLITE_INTEGER"
    unfolding chain_decimal_def guard_Inr_iff decimal_form by auto
  with decimals.rewrite [OF d(1)] decimals.digits_nonneg [of v] show "0 \<le> i \<and> i < 2 ^ 63 \<and> v = decimal (nat i)"
    by (auto simp: MAX_SQLITE_INTEGER_def)
next
  assume a: "0 \<le> i \<and> i < 2 ^ 63 \<and> v = decimal (nat i)"
  then have "length (decimal (nat i)) \<le> Suc 18" by (intro decimals.write_short) (simp add: nat_less_iff)
  with a show "chain_decimal err v = Inr i"
    unfolding chain_decimal_def decimal_form
    using decimals.write_numeral [of "nat i"] decimals.write_value [of "nat i"]
    by (simp add: MAX_SQLITE_INTEGER_def MAX_DECIMAL_DIGITS_def guard_def)
qed

lemma chain_target_iff:
  "chain_target err v = Inr t \<longleftrightarrow> t = v \<and> v \<noteq> [] \<and> 0 \<notin> set v \<and> utf8_encodable v"
  by (auto simp: chain_target_def guard_Inr_iff)

lemma chain_digest_iff: "chain_digest err v = Inr d \<longleftrightarrow> d = v \<and> is_hex_digest v"
  by (auto simp: chain_digest_def guard_Inr_iff)

lemma chain_identifier_iff: "chain_identifier err v = Inr d \<longleftrightarrow> d = v \<and> is_valid_identifier v"
  by (auto simp: chain_identifier_def guard_Inr_iff)

lemmas text_forms = chain_mode_iff chain_decimal_iff chain_target_iff chain_digest_iff chain_identifier_iff

section \<open>Path states\<close>

lemma content_hash_form: "is_sha256_digest hash \<longleftrightarrow> (\<exists>d. hash = py ''sha256:'' @ d \<and> is_hex_digest d)"
  by (auto simp: is_sha256_digest_def starts_with_iff)

lemma empty_content_hash: "EMPTY_CONTENT_HASH = py ''sha256:'' @ EMPTY_HASH"
  by (simp add: EMPTY_CONTENT_HASH_def EMPTY_HASH_def)

lemma drop_empty: "drop 7 EMPTY_CONTENT_HASH = EMPTY_HASH"
  by (simp add: empty_content_hash)

lemma require_state_mode_iff: "require_state_mode m = Inr u \<longleftrightarrow> 0 \<le> m \<and> m < 2 ^ 12"
  by (auto simp: require_state_mode_def guard_Inr_iff MAX_MODE_def)

definition exact_facts :: "path_state_json \<Rightarrow> path_state \<Rightarrow> bool" where
  "exact_facts facts st \<longleftrightarrow> fingerprint_ok st \<and> write_state st = Inr facts"

lemma facts_looked_up:
  "fact [(k, v)] k = Inr v"
  "k \<noteq> l \<Longrightarrow> fact (ps @ [(l, w)]) k = fact ps k"
  by (simp_all add: fact_def dict_of_def lookup_or_def)

lemma fact_distinct: "distinct (map fst facts) \<Longrightarrow> fact facts k = lookup_or KeyError (map_of facts) k"
  by (simp add: fact_def dict_of_distinct)

abbreviation (input) file_facts :: "pystr \<Rightarrow> pystr \<Rightarrow> pystr \<Rightarrow> path_state_json" where
  "file_facts hash mode len \<equiv>
     [(py ''kind'', py ''file''), (py ''content_hash'', hash), (py ''mode'', mode), (py ''byte_len'', len)]"

abbreviation (input) link_facts :: "pystr \<Rightarrow> pystr \<Rightarrow> path_state_json" where
  "link_facts target mode \<equiv> [(py ''kind'', py ''symlink''), (py ''target'', target), (py ''mode'', mode)]"

abbreviation (input) directory_facts :: "pystr \<Rightarrow> path_state_json" where
  "directory_facts mode \<equiv> [(py ''kind'', py ''directory''), (py ''mode'', mode)]"

lemma read_forms:
  "read_state err [(py ''kind'', py ''absent'')] = Inr AbsentState"
  "read_state err (file_facts h m l) =
     bindr (chain_digest err h) (\<lambda>hash. bindr (chain_mode err m) (\<lambda>mode. bindr (chain_decimal err l) (\<lambda>len.
       guard ((hash = EMPTY_HASH) = (len = 0)) (err (ChainValue StateEmptyHash))
         (Inr (FileState (py ''sha256:'' @ hash) mode len)))))"
  "read_state err (link_facts t m) =
     bindr (chain_target err t) (\<lambda>target. bindr (chain_mode err m) (\<lambda>mode. Inr (SymlinkState target mode)))"
  "read_state err (directory_facts m) = bindr (chain_mode err m) (\<lambda>mode. Inr (DirectoryState mode))"
  by (simp_all add: read_state_def fact_def dict_of_def lookup_or_def)

lemma chosen:
  "(if a then guard p e x else if b then guard q e y else if c then guard r e z else if d then guard s e w
    else Inl e') = Inr st \<Longrightarrow> a \<and> p \<or> b \<and> q \<or> c \<and> r \<or> d \<and> s"
  by (auto simp: guard_Inr_iff split: if_splits)

lemma read_state_form:
  assumes "read_state err facts = Inr st"
  shows "facts = [(py ''kind'', py ''absent'')] \<or> (\<exists>h m l. facts = file_facts h m l) \<or>
    (\<exists>t m. facts = link_facts t m) \<or> (\<exists>m. facts = directory_facts m)"
proof -
  have pairs: "map fst facts = k # ks \<Longrightarrow> \<exists>v rest. facts = (k, v) # rest \<and> map fst rest = ks" for k ks and facts :: path_state_json
    by (cases facts) auto
  from assms obtain kind where kind: "fact facts (py ''kind'') = Inr kind"
    and "kind = py ''absent'' \<and> map fst facts = [py ''kind''] \<or>
      kind = py ''file'' \<and> map fst facts = [py ''kind'', py ''content_hash'', py ''mode'', py ''byte_len''] \<or>
      kind = py ''symlink'' \<and> map fst facts = [py ''kind'', py ''target'', py ''mode''] \<or>
      kind = py ''directory'' \<and> map fst facts = [py ''kind'', py ''mode'']"
    unfolding read_state_def guard_Inr_iff bindr_Inr_iff [where m = "fact facts (py ''kind'')"] Let_def
    using chosen by fast
  then consider
      "kind = py ''absent''" "map fst facts = [py ''kind'']"
    | "kind = py ''file''" "map fst facts = [py ''kind'', py ''content_hash'', py ''mode'', py ''byte_len'']"
    | "kind = py ''symlink''" "map fst facts = [py ''kind'', py ''target'', py ''mode'']"
    | "kind = py ''directory''" "map fst facts = [py ''kind'', py ''mode'']"
    by argo
  then show ?thesis
  proof cases
    case 1
    then obtain v where "facts = [(py ''kind'', v)]" by (auto dest!: pairs)
    with 1 kind show ?thesis by (simp add: facts_looked_up)
  next
    case 2
    then obtain v h m l where f: "facts = [(py ''kind'', v), (py ''content_hash'', h), (py ''mode'', m), (py ''byte_len'', l)]"
      by (auto dest!: pairs)
    with 2 kind have "v = py ''file''" by (simp add: fact_def dict_of_def lookup_or_def)
    with f show ?thesis by blast
  next
    case 3
    then obtain v t m where f: "facts = [(py ''kind'', v), (py ''target'', t), (py ''mode'', m)]"
      by (auto dest!: pairs)
    with 3 kind have "v = py ''symlink''" by (simp add: fact_def dict_of_def lookup_or_def)
    with f show ?thesis by blast
  next
    case 4
    then obtain v m where f: "facts = [(py ''kind'', v), (py ''mode'', m)]"
      by (auto dest!: pairs)
    with 4 kind have "v = py ''directory''" by (simp add: fact_def dict_of_def lookup_or_def)
    with f show ?thesis by blast
  qed
qed

lemma read_forms_iff:
  "read_state err [(py ''kind'', py ''absent'')] = Inr st \<longleftrightarrow> st = AbsentState"
  "read_state err (file_facts h m l) = Inr st \<longleftrightarrow>
     (\<exists>mode len. st = FileState (py ''sha256:'' @ h) mode len \<and> is_hex_digest h \<and> m = oct_text mode \<and>
        0 \<le> mode \<and> mode < 2 ^ 12 \<and> l = decimal (nat len) \<and> 0 \<le> len \<and> len < 2 ^ 63 \<and> (h = EMPTY_HASH \<longleftrightarrow> len = 0))"
  "read_state err (link_facts t m) = Inr st \<longleftrightarrow>
     (\<exists>mode. st = SymlinkState t mode \<and> t \<noteq> [] \<and> 0 \<notin> set t \<and> utf8_encodable t \<and> m = oct_text mode \<and>
        0 \<le> mode \<and> mode < 2 ^ 12)"
  "read_state err (directory_facts m) = Inr st \<longleftrightarrow>
     (\<exists>mode. st = DirectoryState mode \<and> m = oct_text mode \<and> 0 \<le> mode \<and> mode < 2 ^ 12)"
  unfolding read_forms bindr_Inr_iff guard_Inr_iff text_forms by auto

lemma hash_tail: "is_sha256_digest hash \<longleftrightarrow> hash = py ''sha256:'' @ drop 7 hash \<and> is_hex_digest (drop 7 hash)"
  by (auto simp: content_hash_form)

lemma hash_empty: "is_sha256_digest hash \<Longrightarrow> hash = EMPTY_CONTENT_HASH \<longleftrightarrow> drop 7 hash = EMPTY_HASH"
  by (auto simp: content_hash_form empty_content_hash)

lemma exact_forms:
  "exact_facts facts AbsentState \<longleftrightarrow> facts = [(py ''kind'', py ''absent'')]"
  "exact_facts facts (FileState hash mode len) \<longleftrightarrow>
     (is_sha256_digest hash \<and> facts = file_facts (drop 7 hash) (oct_text mode) (decimal (nat len)) \<and>
        0 \<le> mode \<and> mode < 2 ^ 12 \<and> 0 \<le> len \<and> len < 2 ^ 63 \<and> (drop 7 hash = EMPTY_HASH \<longleftrightarrow> len = 0))"
  "exact_facts facts (SymlinkState t mode) \<longleftrightarrow>
     facts = link_facts t (oct_text mode) \<and> t \<noteq> [] \<and> 0 \<notin> set t \<and> utf8_encodable t \<and> 0 \<le> mode \<and> mode < 2 ^ 12"
  "exact_facts facts (DirectoryState mode) \<longleftrightarrow> facts = directory_facts (oct_text mode) \<and> 0 \<le> mode \<and> mode < 2 ^ 12"
  unfolding exact_facts_def write_state.simps sum.inject fingerprint_ok.simps guard_Inr_iff bindr_Inr_iff
    require_state_mode_iff chain_target_iff MAX_SQLITE_INTEGER_def
  by (auto simp: hash_empty drop_empty)

lemma read_state_iff: "read_state err facts = Inr st \<longleftrightarrow> exact_facts facts st"
proof
  assume r: "read_state err facts = Inr st"
  with read_state_form [OF r] show "exact_facts facts st"
    by (auto simp only: read_forms_iff exact_forms) (auto simp: hash_tail)
next
  assume "exact_facts facts st"
  then show "read_state err facts = Inr st"
    by (cases st) (auto simp only: read_forms_iff exact_forms hash_tail)
qed

lemma write_state_inj: "write_state st = Inr facts \<Longrightarrow> write_state st' = Inr facts \<Longrightarrow> st = st'"
  by (cases st; cases st')
    (auto simp: bindr_Inr_iff guard_Inr_iff require_state_mode_iff oct_text_def octals.write_inj decimals.write_inj
      content_hash_form)

lemma state_to_json_iff: "state_to_json st = Inr facts \<longleftrightarrow> exact_facts facts st"
proof (cases "st = AbsentState")
  case False
  then show ?thesis by (auto simp: state_to_json_def bindr_Inr_iff read_state_iff exact_facts_def dest: write_state_inj)
qed (auto simp: state_to_json_def exact_facts_def)

interpretation facts: exact_codec state_to_json "read_state err" for err
  by unfold_locales (simp_all add: state_to_json_iff read_state_iff)

section \<open>Surfaces\<close>

lemma chain_path_iff: "chain_path u err p = Inr q \<longleftrightarrow> q = p \<and> path_ok u p"
  using require_rel_path_iff [of u p q]
  by (auto simp: chain_path_def split: sum.splits error.splits)

text \<open>A surface that the chain accepts: paths in order, each once, with the facts of a state.\<close>

definition surface_ok :: "unicode_tables \<Rightarrow> surface_json \<Rightarrow> bool" where
  "surface_ok u entries \<longleftrightarrow>
     (\<forall>(path, facts) \<in> set entries. path_ok u path \<and> (\<exists>st. exact_facts facts st)) \<and>
     sorted_wrt (<) (map fst entries)"

lemma increasing_iff: "(ps :: pystr list) = sort ps \<and> length ps = card (set ps) \<longleftrightarrow> sorted_wrt (<) ps"
  using sort_eq_iff_sorted [of ps] by (auto simp: strict_sorted_iff distinct_card dest: card_distinct [OF sym])

lemma read_surface_iff: "read_surface u err entries = Inr checked \<longleftrightarrow> checked = entries \<and> surface_ok u entries"
proof -
  define item where "item = (\<lambda>(path, state). bindr (chain_path u err path) (\<lambda>p.
    bindr (read_state err state) (\<lambda>_. Inr (p, state))))"
  have one: "item x = Inr y \<longleftrightarrow> y = x \<and> path_ok u (fst x) \<and> (\<exists>st. exact_facts (snd x) st)" for x y
    by (cases x) (auto simp: item_def bindr_Inr_iff chain_path_iff read_state_iff)
  have "traverse item xs = Inr ys \<longleftrightarrow> ys = xs \<and> (\<forall>x \<in> set xs. item x = Inr x)" for xs ys
    by (induction xs arbitrary: ys) (auto simp: bindr_Inr_iff one)
  with one have "traverse item entries = Inr ys \<longleftrightarrow>
    ys = entries \<and> (\<forall>(p, s) \<in> set entries. path_ok u p \<and> (\<exists>st. exact_facts s st))" for ys
    by fastforce
  then show ?thesis
    using increasing_iff [of "map fst entries"]
    by (auto simp: read_surface_def item_def [symmetric] bindr_Inr_iff guard_Inr_iff surface_ok_def Let_def)
qed

definition surface_items :: "surface_json \<Rightarrow> json" where
  "surface_items entries =
     JList (map (\<lambda>(path, state).
       JList [JStr path, JList (map (\<lambda>(key, v). JList [JStr key, JStr v]) state)]) entries)"

lemma surface_json_obj_iff: "surface_json_obj u err entries = Inr obj \<longleftrightarrow> surface_ok u entries \<and> obj = surface_items entries"
  by (auto simp: surface_json_obj_def bindr_Inr_iff read_surface_iff surface_items_def)

lemma read_written_surface: "surface_ok u entries \<Longrightarrow> surface_from_obj u err (sorted_json (surface_items entries)) = Inr entries"
proof -
  have facts: "traverse (read_fact_obj err) (map (sorted_json \<circ> (\<lambda>(k, v). JList [JStr k, JStr v])) pairs) = Inr pairs" for pairs
    by (induction pairs) (auto simp: read_fact_obj_def)
  have "traverse (read_surface_item err) (map (sorted_json \<circ> (\<lambda>(path, state).
      JList [JStr path, JList (map (\<lambda>(k, v). JList [JStr k, JStr v]) state)])) entries) = Inr entries"
    by (induction entries) (auto simp: read_surface_item_def facts)
  then show "surface_ok u entries \<Longrightarrow> ?thesis"
    by (simp add: surface_from_obj_def surface_items_def read_surface_iff)
qed

lemma surface_items_shape: "plain (surface_items entries)" "nested_in (surface_items entries) 4"
  by (auto simp: surface_items_def numeral_eq_Suc)

section \<open>Entries\<close>

definition optional_ok :: "pystr option \<Rightarrow> bool" where
  "optional_ok d \<longleftrightarrow> (\<forall>v \<in> set_option d. is_hex_digest v)"

definition linked :: "pystr option \<Rightarrow> bool" where
  "linked previous \<longleftrightarrow> (\<exists>d. previous = Some d \<and> is_hex_digest d)"

text \<open>A well-formed entry, and the object that is written for it.\<close>

fun entry_ok :: "unicode_tables \<Rightarrow> pystr option \<Rightarrow> chain_entry \<Rightarrow> bool" where
  "entry_ok u previous (GenesisEntry payload baseline) \<longleftrightarrow> previous = None \<and> surface_ok u baseline"
| "entry_ok u previous (RegisteredEntry txid intent tag initial final fulfilled) \<longleftrightarrow>
     linked previous \<and> is_valid_identifier txid \<and> is_sha256_digest intent \<and> is_valid_identifier tag \<and>
     surface_ok u initial \<and> surface_ok u final \<and> optional_ok fulfilled"
| "entry_ok u previous (SettledEntry txid registration outcome) \<longleftrightarrow>
     linked previous \<and> is_valid_identifier txid \<and> is_hex_digest registration"
| "entry_ok u previous (IntentEntry payload) \<longleftrightarrow> linked previous"

fun entry_items :: "pystr option \<Rightarrow> chain_entry \<Rightarrow> (pystr \<times> json) list" where
  "entry_items previous (GenesisEntry payload baseline) =
     [(py ''class'', JStr (py ''genesis'')), (py ''previous'', JNull),
      (py ''payload'', payload_obj payload), (py ''baseline'', surface_items baseline)]"
| "entry_items previous (RegisteredEntry txid intent tag initial final fulfilled) =
     [(py ''class'', JStr (py ''registered'')), (py ''previous'', optional_digest previous),
      (py ''txid'', JStr txid), (py ''intent_digest'', JStr intent),
      (py ''consumer_tag'', JStr tag), (py ''initial'', surface_items initial),
      (py ''final'', surface_items final), (py ''fulfills'', optional_digest fulfilled)]"
| "entry_items previous (SettledEntry txid registration outcome) =
     [(py ''class'', JStr (py ''settled'')), (py ''previous'', optional_digest previous),
      (py ''txid'', JStr txid), (py ''registration'', JStr registration),
      (py ''outcome'', JStr (outcome_value outcome))]"
| "entry_items previous (IntentEntry payload) =
     [(py ''class'', JStr (py ''intent'')), (py ''previous'', optional_digest previous),
      (py ''payload'', payload_obj payload)]"

lemma require_previous_iff: "require_previous err previous = Inr d \<longleftrightarrow> previous = Some d \<and> is_hex_digest d"
  by (auto simp: require_previous_def chain_digest_iff split: option.splits)

lemma check_optional_iff: "check_optional err d = Inr e \<longleftrightarrow> e = d \<and> optional_ok d"
  by (auto simp: check_optional_def optional_ok_def chain_digest_iff bindr_Inr_iff split: option.splits)

lemma entry_obj_iff: "entry_obj u err previous entry = Inr obj \<longleftrightarrow> entry_ok u previous entry \<and> obj = JObj (entry_items previous entry)"
  by (cases entry)
    (auto simp: bindr_Inr_iff guard_Inr_iff surface_json_obj_iff require_previous_iff check_optional_iff
      text_forms linked_def optional_digest_def)

lemma entry_shape: "plain (JObj (entry_items previous entry))" "nested_in (JObj (entry_items previous entry)) 5"
proof -
  have [simp]: "plain (optional_digest d)" "nested_in (optional_digest d) 4" "plain (payload_obj b)" "nested_in (payload_obj b) 4" for d b
    by (auto simp: optional_digest_def payload_obj_def split: option.split)
  have "nested_in (JObj (entry_items previous entry)) (Suc 4)"
    by (cases entry) (auto simp: surface_items_shape)
  then show "nested_in (JObj (entry_items previous entry)) 5" by (simp only: eval_nat_numeral)
  show "plain (JObj (entry_items previous entry))"
    by (cases entry) (auto simp: surface_items_shape)
qed

section \<open>Reading what was written\<close>

lemma chain_only_sorted [simp]:
  "chain_only (sort_items items) names =
     guard (fst ` set items = set names) (ChainStateInvalid (ChainEntry EnvelopeFields)) (Inr ())"
  by (simp add: chain_only_def)

lemma chain_field_sorted [simp]:
  "distinct (map fst items) \<Longrightarrow>
   chain_field decode (sort_items items) name =
     (case map_of items name of None \<Rightarrow> Inl KeyError | Some v \<Rightarrow> decode (sorted_json v))"
  by (simp add: chain_field_def split: option.split)

lemma read_optional: "optional_ok d \<Longrightarrow> read_previous (sorted_json (optional_digest d)) = Inr d"
  by (cases d) (auto simp: optional_digest_def optional_ok_def chain_digest_def)

lemma linked_optional: "linked previous \<Longrightarrow> optional_ok previous"
  by (auto simp: linked_def optional_ok_def)

lemma read_payload: "payload_from_obj err (sorted_json (payload_obj payload)) = Inr payload"
  by (simp add: payload_from_obj_def payload_obj_def)

lemma read_outcome_value: "read_outcome (JStr (outcome_value outcome)) = Inr outcome"
  by (cases outcome) (simp_all add: read_outcome_def CHAIN_OUTCOMES_def lookup_or_def)

lemma entry_obj_written: "entry_ok u previous entry \<Longrightarrow> entry_obj u err previous entry = Inr (JObj (entry_items previous entry))"
  by (simp only: entry_obj_iff)

lemma entry_obj_passes: "entry_ok u previous entry \<Longrightarrow> bindr (entry_obj u err previous entry) (\<lambda>_. r) = r"
  by (simp only: entry_obj_written bindr.simps)

lemma read_entry_obj:
  assumes "entry_ok u previous entry"
  shows "decode_entry_obj u (sort_items (entry_items previous entry)) = Inr (previous, entry)"
  using assms
  by (cases entry)
    (simp_all add: decode_entry_obj_def read_genesis_def read_registered_def read_settled_def read_intent_def
      entry_obj_passes read_written_surface read_optional linked_optional read_payload read_outcome_value
      del: entry_obj.simps)

lemma entry_obj_distinct: "distinct (map fst (entry_items previous entry))"
  using entry_shape(1) [of previous entry] by simp

lemma wrap_envelope_Inr: "wrap_envelope_error r = Inr x \<longleftrightarrow> r = Inr x"
  by (induction r rule: wrap_envelope_error.induct) auto

lemma wrap_canonical_Inr: "wrap_canonical_error r = Inr x \<longleftrightarrow> r = Inr x"
  by (induction r rule: wrap_canonical_error.induct) auto

lemma encode_entry_iff:
  "encode_entry u previous entry = Inr data \<longleftrightarrow>
   entry_ok u previous entry \<and> (\<exists>t. json_dumps (JObj (entry_items previous entry)) = Inr t \<and> utf8_encode t = Inr data)"
  by (auto simp: encode_entry_def entry_obj_iff chain_bytes_def bindr_Inr_iff)

lemma decode_encoded:
  assumes "encode_entry u previous entry = Inr data" and "5 \<le> depth"
  shows "decode_entry u depth data = Inr (previous, entry)"
proof -
  from assms(1) obtain t where t: "entry_ok u previous entry"
      "json_dumps (JObj (entry_items previous entry)) = Inr t" "utf8_encode t = Inr data"
    by (auto simp: encode_entry_iff)
  from utf8.decode_encode [OF t(3)] loads_dumps [OF t(2) entry_shape(1) nested_in_mono [OF entry_shape(2) assms(2)]]
  show ?thesis
    using t read_entry_obj [OF t(1)]
    by (simp add: decode_entry_def sorted_obj entry_obj_written chain_bytes_def del: sorted_json.simps dumps_with.simps)
qed

lemma encode_decoded:
  assumes "decode_entry u depth data = Inr (previous, entry)"
  shows "encode_entry u previous entry = Inr data"
  using assms
  by (auto simp: decode_entry_def encode_entry_def wrap_envelope_Inr wrap_canonical_Inr entry_obj_iff
      bindr_Inr_iff guard_Inr_iff)

interpretation entries: exact_codec "\<lambda>(previous, entry). encode_entry u previous entry"
    "decode_entry u (depth + 5)" for u depth
  by unfold_locales (auto intro: decode_encoded encode_decoded)

section \<open>Properties\<close>

text \<open>
  C32: The facts of a path state are exact. A list of facts reads as a state if and only if it is
  what is written for that state, and the states that can be written are exactly the
  fingerprints that the compiler accepts.
\<close>

theorem state_facts_exact:
  "(state_from_json data = Inr st \<longleftrightarrow> state_to_json st = Inr data) \<and>
   (okay (state_to_json st) \<longleftrightarrow> require_fingerprint st = Inr ())"
proof -
  have "\<exists>data. write_state st = Inr data" if "fingerprint_ok st"
    using that by (cases st) (auto simp: require_state_mode_iff bindr_Inr_iff guard_Inr_iff MAX_SQLITE_INTEGER_def chain_target_iff)
  then show ?thesis
    by (auto simp: state_from_json_def facts.decode_iff okay_def state_to_json_iff exact_facts_def require_fingerprint_iff)
qed

text \<open>
  C33: Numbers in the chain have one text each and are bounded before they are converted: a text
  is accepted as a length exactly if it is the decimal numeral of an integer of 0..2^63 - 1, and
  as a mode exactly if it is the octal numeral of an integer of 0..0o7777.
\<close>

theorem chain_numbers_bounded:
  "(chain_decimal err v = Inr i \<longleftrightarrow> 0 \<le> i \<and> i \<le> 9223372036854775807 \<and> v = decimal (nat i)) \<and>
   (chain_mode err v = Inr m \<longleftrightarrow> 0 \<le> m \<and> m \<le> 4095 \<and> v = oct_text m)"
  by (auto simp: chain_decimal_iff chain_mode_iff)

text \<open>
  C13: The envelope of an entry is exact. Bytes decode to an entry with its predecessor if and
  only if they are the bytes that are encoded for them, so that an entry has one digest and two
  entries never share one file.
\<close>

theorem entry_envelope_exact:
  assumes "5 \<le> depth"
  shows "decode_entry u depth data = Inr (previous, entry) \<longleftrightarrow> encode_entry u previous entry = Inr data"
proof -
  obtain n where "depth = n + 5" using assms by (metis add.commute le_Suc_ex)
  then show ?thesis using entries.decode_iff [of u n data "(previous, entry)"] by simp
qed

text \<open>The first entry of a chain over a directory and a link in it.\<close>

definition sample_entry :: chain_entry where
  "sample_entry = GenesisEntry [1, 0]
     [(py ''a'', [(py ''kind'', py ''directory''), (py ''mode'', py ''0o755'')]),
      (py ''a/b'', [(py ''kind'', py ''symlink''), (py ''target'', py ''../c''), (py ''mode'', py ''0o777'')])]"

theorem entry_envelope_exact_example:
  "\<exists>data. encode_entry plain_tables None sample_entry = Inr data \<and>
     decode_entry plain_tables 1000 data = Inr (None, sample_entry)"
proof -
  have "okay (encode_entry plain_tables None sample_entry)" by code_simp
  then obtain data where "encode_entry plain_tables None sample_entry = Inr data"
    by (auto simp: okay_def)
  with entry_envelope_exact [of 1000] show ?thesis by auto
qed

end
