(* ===== verification/ChainErrors.thy ===== *)
theory ChainErrors
  imports ChainModelCorrect
begin

text \<open>
  Reading a chain fails closed: whatever the bytes, the exception of \<open>decode_entry\<close> is a
  \<open>ChainStateInvalid\<close>, the only one that its callers catch.
\<close>

text \<open>Every exception of the computation is a \<open>ChainStateInvalid\<close>.\<close>

definition only_invalid :: "'a result \<Rightarrow> bool" where
  "only_invalid r \<longleftrightarrow> (case r of Inl e \<Rightarrow> \<exists>f. e = ChainStateInvalid f | Inr _ \<Rightarrow> True)"

lemma only_invalid_simps [simp]:
  "only_invalid (Inr x)" "only_invalid (Inl (ChainStateInvalid f))"
  "only_invalid (guard c (ChainStateInvalid f) k) \<longleftrightarrow> (c \<longrightarrow> only_invalid k)"
  by (auto simp: only_invalid_def guard_def)

lemma only_invalid_bind: "only_invalid m \<Longrightarrow> (\<And>x. m = Inr x \<Longrightarrow> only_invalid (f x)) \<Longrightarrow> only_invalid (bindr m f)"
  by (cases m) (auto simp: only_invalid_def)

lemma only_invalid_traverse: "(\<And>x. only_invalid (f x)) \<Longrightarrow> only_invalid (traverse f xs)"
  by (induction xs) (auto intro!: only_invalid_bind)

lemma only_invalid_text_forms [simp]:
  "only_invalid (chain_digest ChainStateInvalid v)" "only_invalid (chain_identifier ChainStateInvalid v)"
  "only_invalid (chain_mode ChainStateInvalid v)" "only_invalid (chain_decimal ChainStateInvalid v)"
  "only_invalid (chain_target ChainStateInvalid v)" "only_invalid (chain_string ChainStateInvalid j)"
  "only_invalid (chain_array ChainStateInvalid j)" "only_invalid (chain_pair ChainStateInvalid j)"
proof -
  show "only_invalid (chain_pair ChainStateInvalid j)" by (cases "(ChainStateInvalid, j)" rule: chain_pair.cases) simp_all
qed (cases j; simp add: chain_digest_def chain_identifier_def chain_mode_def chain_decimal_def chain_target_def Let_def)+

lemma only_invalid_path [simp]: "only_invalid (chain_path u ChainStateInvalid p)"
proof -
  have "\<exists>f. e = SpecValidationError f" if "for_each (require_component u) cs = Inl e" for cs e
    using that by (induction cs) (auto simp: require_component_def bindr_Inl_iff guard_Inl_iff)
  then have "\<exists>f. e = SpecValidationError f" if "require_rel_path u p = Inl e" for e
    using that by (auto simp: require_rel_path_def bindr_Inl_iff guard_Inl_iff)
  then show ?thesis
    by (cases "require_rel_path u p") (force simp: chain_path_def)+
qed

lemma only_invalid_fact: "k \<in> fst ` set data \<Longrightarrow> only_invalid (fact data k)"
  by (auto simp: fact_def lookup_or_def dict_of_None_iff split: option.split)


lemma only_invalid_state [simp]: "only_invalid (read_state ChainStateInvalid data)"
proof -
  have "only_invalid (read_state ChainStateInvalid data)" if "data \<noteq> [] \<and> fst (hd data) = py ''kind''"
  proof -
    from that have "py ''kind'' \<in> fst ` set data" by (cases data) auto
    then show ?thesis
      unfolding read_state_def Let_def
      by (auto intro!: only_invalid_bind only_invalid_fact simp del: list.map simp flip: set_map)
  qed
  then show ?thesis by (cases "data \<noteq> [] \<and> fst (hd data) = py ''kind''") (auto simp: read_state_def)
qed

section \<open>Surfaces and entries\<close>

lemma only_invalid_surface [simp]: "only_invalid (read_surface u ChainStateInvalid entries)"
  unfolding read_surface_def Let_def
  by (auto intro!: only_invalid_bind only_invalid_traverse)

lemma only_invalid_surface_obj [simp]:
  "only_invalid (surface_json_obj u ChainStateInvalid entries)"
  "only_invalid (surface_from_obj u ChainStateInvalid v)"
proof -
  have "only_invalid (read_fact_obj ChainStateInvalid pair)" for pair
    unfolding read_fact_obj_def by (auto intro!: only_invalid_bind)
  then have "only_invalid (read_surface_item ChainStateInvalid item)" for item
    unfolding read_surface_item_def by (auto intro!: only_invalid_bind only_invalid_traverse)
  then show "only_invalid (surface_from_obj u ChainStateInvalid v)"
    unfolding surface_from_obj_def by (auto intro!: only_invalid_bind only_invalid_traverse)
qed (auto simp: surface_json_obj_def intro!: only_invalid_bind)

lemma only_invalid_previous [simp]:
  "only_invalid (require_previous ChainStateInvalid d)" "only_invalid (check_optional ChainStateInvalid d)"
  by (auto simp: require_previous_def check_optional_def intro!: only_invalid_bind split: option.split)

lemma only_invalid_entry_obj [simp]: "only_invalid (entry_obj u ChainStateInvalid previous entry)"
  by (cases entry) (auto intro!: only_invalid_bind)

lemma only_invalid_readers [simp]:
  "only_invalid (payload_from_obj ChainStateInvalid v)" "only_invalid (read_previous v)" "only_invalid (read_outcome v)"
proof -
  show "only_invalid (payload_from_obj ChainStateInvalid v)"
    unfolding payload_from_obj_def by (auto intro!: only_invalid_bind split: sum.split)
  show "only_invalid (read_previous v)"
    by (cases v) (auto intro!: only_invalid_bind)
  show "only_invalid (read_outcome v)"
    unfolding read_outcome_def by (auto simp: lookup_or_def intro!: only_invalid_bind split: option.split)
qed

lemma chain_only_Inr: "chain_only obj names = Inr x \<longleftrightarrow> fst ` set obj = set names"
  by (auto simp: chain_only_def guard_Inr_iff)

lemma only_invalid_only [simp]: "only_invalid (chain_only obj names)"
  by (simp add: chain_only_def)

lemma only_invalid_field:
  "name \<in> fst ` set obj \<Longrightarrow> (\<And>v. only_invalid (decode v)) \<Longrightarrow>
   only_invalid (chain_field decode obj name)"
  by (auto simp: chain_field_def lookup_or_def map_of_eq_None_iff intro!: only_invalid_bind split: option.split)

lemma only_invalid_classes [simp]:
  "only_invalid (read_genesis u obj)" "only_invalid (read_registered u obj)"
  "only_invalid (read_settled obj)" "only_invalid (read_intent obj)"
  unfolding read_genesis_def read_registered_def read_settled_def read_intent_def
  by (intro only_invalid_bind only_invalid_field only_invalid_simps only_invalid_only only_invalid_readers
      only_invalid_surface_obj only_invalid_text_forms; simp add: chain_only_Inr)+

lemma only_invalid_decode_obj: "only_invalid (decode_entry_obj u obj)"
  unfolding decode_entry_obj_def
  by (auto intro!: only_invalid_bind split: option.split)

section \<open>The canonical bytes\<close>

lemma dumps_okay:
  "okay (json_dumps (JStr s))" "okay (json_dumps JNull)"
  "okay (json_dumps (JList vs)) \<longleftrightarrow> (\<forall>v \<in> set vs. okay (json_dumps v))"
  "okay (json_dumps (JObj items)) \<longleftrightarrow> (\<forall>(k, v) \<in> set items. okay (json_dumps v))"
proof -
  have bind: "okay (bindr m (\<lambda>x. Inr (f x))) \<longleftrightarrow> okay m" for m :: "'a result" and f :: "'a \<Rightarrow> 'b"
    by (cases m) auto
  show "okay (json_dumps (JList vs)) \<longleftrightarrow> (\<forall>v \<in> set vs. okay (json_dumps v))"
    by (simp add: bind traverse_okay_iff)
  show "okay (json_dumps (JObj items)) \<longleftrightarrow> (\<forall>(k, v) \<in> set items. okay (json_dumps v))"
    by (auto simp: bind traverse_okay_iff)
qed simp_all

lemma dumps_entry: "okay (json_dumps (JObj (entry_items previous entry)))"
proof -
  have [simp]: "okay (json_dumps (optional_digest d))" "okay (json_dumps (payload_obj b))"
      "okay (json_dumps (surface_items entries))" for d b entries
    by (auto simp: optional_digest_def payload_obj_def surface_items_def dumps_okay
        simp del: dumps_with.simps(6) split: option.split)
  show ?thesis
    by (cases entry) (simp_all add: dumps_okay del: dumps_with.simps)
qed

lemma utf8_encode_fault: "utf8_encode s = Inl e \<Longrightarrow> e = UnicodeEncodeError"
proof -
  have "traverse utf8_char s = Inl e \<Longrightarrow> e = UnicodeEncodeError" for s
    by (induction s) (auto simp: bindr_Inl_iff utf8_char_def split: if_splits)
  then show "utf8_encode s = Inl e \<Longrightarrow> ?thesis"
    by (auto simp: utf8_encode_def bindr_Inl_iff)
qed

lemma only_invalid_canonical:
  "only_invalid (wrap_canonical_error (bindr (entry_obj u ChainStateInvalid previous entry) chain_bytes))"
proof (cases "entry_obj u ChainStateInvalid previous entry")
  case (Inl e)
  with only_invalid_entry_obj [of u previous entry] show ?thesis by (auto simp: only_invalid_def)
next
  case (Inr obj)
  then have "obj = JObj (entry_items previous entry)" by (simp only: entry_obj_iff)
  with dumps_entry obtain t where "json_dumps obj = Inr t" by (auto simp: okay_def)
  with Inr show ?thesis
    by (cases "utf8_encode t") (auto simp: chain_bytes_def dest: utf8_encode_fault)
qed

lemma only_invalid_envelope: "only_invalid (wrap_envelope_error r)" "only_invalid (envelope_object v)"
  by (induction r rule: wrap_envelope_error.induct; simp) (cases v; simp)

lemma decode_only_invalid: "only_invalid (decode_entry u depth data)"
  unfolding decode_entry_def
  by (auto intro!: only_invalid_bind only_invalid_envelope only_invalid_decode_obj only_invalid_canonical)

section \<open>Properties\<close>

text \<open>
  C34: Decoding fails closed. For all bytes, whether they are UTF-8, JSON, an object, an entry of
  the closed vocabulary, canonical or nested too deeply, \<open>decode_entry\<close> returns an entry or raises
  \<open>ChainStateInvalid\<close>, and no other exception.
\<close>

theorem chain_decode_fails_closed:
  "case decode_entry u depth data of Inl e \<Rightarrow> \<exists>f. e = ChainStateInvalid f | Inr _ \<Rightarrow> True"
  using decode_only_invalid [of u depth data] by (simp only: only_invalid_def)

end
