(* ===== verification/ChainInspectCorrect.thy ===== *)
theory ChainInspectCorrect
  imports ChainInspect ChainErrors "HOL-Library.Multiset"
begin

text \<open>
  What an inspected chain is: the scanned rows in one order, each linked from the one before, and
  the rules of the entry classes on that order.
\<close>

section \<open>Linked rows\<close>

text \<open>Rows that follow one another from a digest, and a whole chain from its genesis.\<close>

fun follows :: "pystr \<Rightarrow> chain_row list \<Rightarrow> bool" where
  "follows d [] \<longleftrightarrow> True"
| "follows d (r # rs) \<longleftrightarrow> row_previous r = Some d \<and> follows (row_digest r) rs"

fun chain_order :: "chain_row list \<Rightarrow> bool" where
  "chain_order [] \<longleftrightarrow> False"
| "chain_order (g # rs) \<longleftrightarrow> row_previous g = None \<and> follows (row_digest g) rs"

definition entries_of :: "chain_row list \<Rightarrow> chain_entries" where
  "entries_of = map (\<lambda>r. (row_digest r, row_entry r))"

lemma entries_of_simps [simp]: "entries_of [] = []" "entries_of (r # rs) = (row_digest r, row_entry r) # entries_of rs"
  "map fst (entries_of rs) = map row_digest rs" "length (entries_of rs) = length rs"
  by (simp_all add: entries_of_def)

lemma same_row: "distinct (map row_digest rows) \<Longrightarrow> r \<in> set rows \<Longrightarrow> r' \<in> set rows \<Longrightarrow> row_digest r = row_digest r' \<Longrightarrow> r = r'"
  by (auto simp: distinct_map dest: inj_onD)

lemma by_digest_row: "distinct (map row_digest rows) \<Longrightarrow> r \<in> set rows \<Longrightarrow> by_digest rows (row_digest r) = Some (row_entry r)"
  by (auto simp: by_digest_def dict_of_Some comp_def intro!: image_eqI)

lemma by_digest_None: "by_digest rows d = None \<longleftrightarrow> d \<notin> row_digest ` set rows"
  by (auto simp: by_digest_def dict_of_None_iff image_image)

lemma successor_row: "following # later = successors rows d \<Longrightarrow> \<exists>r \<in> set rows. row_previous r = Some d \<and> row_digest r = following"
  by (auto simp: successors_def dest!: sym [where t = "following # later"] simp: map_eq_Cons_conv filter_eq_Cons_iff)

lemma successors_Nil: "successors rows d = [] \<longleftrightarrow> (\<forall>r \<in> set rows. row_previous r \<noteq> Some d)"
  by (auto simp: successors_def filter_empty_conv)

lemma one_of:
  assumes "distinct xs" and "\<And>x y. x \<in> set xs \<Longrightarrow> y \<in> set xs \<Longrightarrow> P x \<Longrightarrow> P y \<Longrightarrow> x = y"
  shows "length (filter P xs) \<le> 1"
proof (cases "filter P xs")
  case (Cons a ys)
  have "y = a" if "y \<in> set ys" for y
  proof -
    have "y \<in> set (filter P xs)" "a \<in> set (filter P xs)" using that Cons by simp_all
    then show ?thesis using assms(2) by simp
  qed
  moreover have "a \<notin> set ys" using assms(1) Cons by (metis distinct.simps(2) distinct_filter)
  ultimately have "ys = []" by (cases ys) auto
  with Cons show ?thesis by simp
qed simp

section \<open>The walk\<close>

lemma walk_path:
  assumes "distinct (map row_digest rows)" and "walk rows d visited ordered = Inr (vs, out, tip)"
    and "r \<in> set rows" and "row_digest r = d"
  shows "\<exists>rs. set rs \<subseteq> set rows \<and> follows d rs \<and> out = ordered @ entries_of (r # rs) \<and>
    vs = rev (map row_digest (r # rs)) @ visited \<and> tip = row_digest (last (r # rs)) \<and>
    distinct (map row_digest (r # rs)) \<and> set visited \<inter> row_digest ` set (r # rs) = {}"
  using assms
proof (induction rows d visited ordered arbitrary: r rule: walk.induct)
  case (1 rows d visited ordered)
  from "1.prems"(2) have new: "d \<notin> set visited"
    by (subst (asm) walk.simps) (simp add: guard_Inr_iff)
  have entry: "by_digest rows d = Some (row_entry r)" using "1.prems" by_digest_row by metis
  show ?case
  proof (cases "successors rows d")
    case Nil
    with "1.prems" new entry show ?thesis
      by (intro exI [of _ "[]"]) (auto simp: walk.simps [of rows d] lookup_or_def)
  next
    case (Cons following later)
    then obtain r' where r': "r' \<in> set rows" "row_previous r' = Some d" "row_digest r' = following"
      using successor_row by metis
    have "walk rows following (d # visited) (ordered @ [(d, row_entry r)]) = Inr (vs, out, tip)"
      using "1.prems"(2) new entry Cons by (subst (asm) walk.simps) (simp add: lookup_or_def)
    from "1.IH" [OF new _ Cons "1.prems"(1) this r'(1,3)] entry
    obtain rs where rs: "set rs \<subseteq> set rows" "follows following rs" "out = (ordered @ [(d, row_entry r)]) @ entries_of (r' # rs)"
        "vs = rev (map row_digest (r' # rs)) @ d # visited" "tip = row_digest (last (r' # rs))"
        "distinct (map row_digest (r' # rs))" "set (d # visited) \<inter> row_digest ` set (r' # rs) = {}"
      by (auto simp: lookup_or_def)
    with r' "1.prems"(3,4) new show ?thesis
      by (intro exI [of _ "r' # rs"]) auto
  qed
qed

lemma walk_along:
  assumes "distinct (map row_digest rows)" and "\<And>p. length (successors rows p) \<le> 1"
    and "set (r # rs) \<subseteq> set rows" and "follows (row_digest r) rs"
    and "distinct (map row_digest (r # rs))" and "set visited \<inter> row_digest ` set (r # rs) = {}"
    and "successors rows (row_digest (last (r # rs))) = []"
  shows "walk rows (row_digest r) visited ordered =
    Inr (rev (map row_digest (r # rs)) @ visited, ordered @ entries_of (r # rs), row_digest (last (r # rs)))"
  using assms(3-)
proof (induction rs arbitrary: r visited ordered)
  case Nil
  with assms(1) show ?case by (simp add: walk.simps [of rows] lookup_or_def by_digest_row)
next
  case (Cons r' rs)
  have "row_digest r' \<in> set (successors rows (row_digest r))"
    using Cons.prems by (auto simp: successors_def)
  with assms(2) [of "row_digest r"] have "successors rows (row_digest r) = [row_digest r']"
    by (cases "successors rows (row_digest r)") auto
  moreover have "by_digest rows (row_digest r) = Some (row_entry r)"
    using Cons.prems assms(1) by (simp add: by_digest_row)
  moreover have "walk rows (row_digest r') (row_digest r # visited) (ordered @ [(row_digest r, row_entry r)]) =
      Inr (rev (map row_digest (r' # rs)) @ row_digest r # visited,
        (ordered @ [(row_digest r, row_entry r)]) @ entries_of (r' # rs), row_digest (last (r' # rs)))"
    by (rule Cons.IH) (use Cons.prems in auto)
  ultimately show ?case using Cons.prems(4) by (simp add: walk.simps [of rows "row_digest r"] lookup_or_def)
qed

section \<open>Chains in order\<close>

lemma follows_previous: "follows d rs \<Longrightarrow> r \<in> set rs \<Longrightarrow> \<exists>p. row_previous r = Some p \<and> p \<in> insert d (row_digest ` set rs)"
  by (induction d rs rule: follows.induct) auto

lemma follows_unique:
  "follows d rs \<Longrightarrow> distinct (d # map row_digest rs) \<Longrightarrow> r \<in> set rs \<Longrightarrow> r' \<in> set rs \<Longrightarrow>
   row_previous r = row_previous r' \<Longrightarrow> r = r'"
proof (induction d rs rule: follows.induct)
  case (2 d s rs)
  have d: "d \<notin> insert (row_digest s) (row_digest ` set rs)" using 2(3) by simp
  have "row_previous q \<noteq> Some d" if "q \<in> set rs" for q
    using follows_previous [of "row_digest s" rs q] 2(2) that d by (metis follows.simps(2) option.inject)
  with 2 show ?case by (metis distinct.simps(2) follows.simps(2) list.simps(9) set_ConsD)
qed simp

lemma follows_last:
  "follows d rs \<Longrightarrow> distinct (d # map row_digest rs) \<Longrightarrow> r \<in> set rs \<Longrightarrow> row_previous r \<noteq> Some (last (d # map row_digest rs))"
proof (induction d rs rule: follows.induct)
  case (2 d s rs)
  show ?case
  proof (cases "r = s")
    case True
    have "last (row_digest s # map row_digest rs) \<in> set (row_digest s # map row_digest rs)" by (rule last_in_set) simp
    then have "last (row_digest s # map row_digest rs) \<noteq> d" using 2(3) by (metis distinct.simps(2) list.simps(9))
    with True 2(2) show ?thesis by simp
  next
    case False
    with 2 show ?thesis by simp
  qed
qed simp

section \<open>Linearization\<close>

lemma distinct_mset: "distinct xs \<Longrightarrow> distinct ys \<Longrightarrow> set xs = set ys \<Longrightarrow> mset xs = mset ys"
  by (metis set_eq_iff_mset_eq_distinct)

lemma no_sibling:
  assumes "distinct rows" and "chain_order rs" and "set rs = set rows" and "distinct (map row_digest rs)"
  shows "length (successors rows p) \<le> 1"
proof -
  obtain g qs where g: "rs = g # qs" "row_previous g = None" "follows (row_digest g) qs"
    using assms(2) by (cases rs) auto
  have "r = r'" if r: "r \<in> set rows" "r' \<in> set rows" "row_previous r = Some p" "row_previous r' = Some p" for r r'
  proof -
    have "r \<noteq> g" "r' \<noteq> g" "set rows = insert g (set qs)" using r g(1,2) assms(3) by force+
    with r have "r \<in> set qs" "r' \<in> set qs" by blast+
    then show ?thesis using follows_unique [OF g(3)] assms(4) g(1) r by (metis list.simps(9))
  qed
  then show ?thesis using one_of [OF assms(1)] by (simp add: successors_def)
qed

lemma none_left: "(case xs of [] \<Rightarrow> Inr a | x # _ \<Rightarrow> Inl (f x)) = Inr b \<longleftrightarrow> xs = [] \<and> a = b"
  by (cases xs) auto

lemma linearize_sound:
  assumes d: "distinct (map row_digest rows)" and l: "linearize rows = Inr (entries, tip)"
  shows "\<exists>rs. mset rs = mset rows \<and> chain_order rs \<and> entries = entries_of rs \<and> tip = row_digest (last rs)"
proof -
  define asc where "asc = sort_key row_digest rows"
  have asc: "set asc = set rows" by (simp add: asc_def)
  have "mset (map row_digest asc) = mset (map row_digest rows)" by (simp add: asc_def)
  with d have da: "distinct (map row_digest asc)" by (metis mset_eq_imp_distinct_iff)
  from l have "length (genesis_digests rows) = 1"
    and "\<exists>vs. walk asc (hd (genesis_digests rows)) [] [] = Inr (vs, entries, tip) \<and>
      sort (filter (\<lambda>d. d \<notin> set vs) (map row_digest rows)) = []"
    by (auto simp: linearize_def Let_def asc_def [symmetric] guard_Inr_iff bindr_Inr_iff none_left)
  then obtain g vs where genesis: "genesis_digests rows = [g]"
    and w: "walk asc g [] [] = Inr (vs, entries, tip)"
    and all: "set (filter (\<lambda>d. d \<notin> set vs) (map row_digest rows)) = {}"
    by (auto simp: length_Suc_conv simp del: set_filter) (metis set_empty set_sort)
  have "g \<in> set (genesis_digests rows)" using genesis by simp
  then obtain r where r: "r \<in> set rows" "row_previous r = None" "row_digest r = g"
    by (auto simp: genesis_digests_def)
  have "r \<in> set asc" using r asc by simp
  from walk_path [OF da w this r(3)] asc obtain rs where rs: "set rs \<subseteq> set rows" "follows g rs" "entries = entries_of (r # rs)"
      "vs = rev (map row_digest (r # rs))" "tip = row_digest (last (r # rs))" "distinct (map row_digest (r # rs))"
    by (simp only: append_Nil append_Nil2) blast
  have "set rows \<subseteq> set (r # rs)"
  proof
    fix x assume x: "x \<in> set rows"
    with all rs(4) have "row_digest x \<in> row_digest ` set (r # rs)" by auto
    then obtain y where y: "y \<in> set (r # rs)" "row_digest x = row_digest y" by blast
    then have "y \<in> set rows" using rs(1) r(1) by auto
    with same_row [OF d x _ y(2)] y(1) show "x \<in> set (r # rs)" by simp
  qed
  with rs(1) r(1) have "set (r # rs) = set rows" by auto
  then have "mset (r # rs) = mset rows"
    using rs(6) d by (intro distinct_mset) (auto simp only: distinct_map)
  moreover have "chain_order (r # rs)" using r rs(2) by simp
  ultimately show ?thesis using rs(3,5) by blast
qed

lemma linearize_complete:
  assumes d: "distinct (map row_digest rows)" and m: "mset rs = mset rows" and c: "chain_order rs"
  shows "linearize rows = Inr (entries_of rs, row_digest (last rs))"
proof -
  define asc where "asc = sort_key row_digest rows"
  have sets: "set asc = set rows" "set rs = set rows" using m by (auto simp: asc_def dest: mset_eq_setD)
  have mm: "mset (map row_digest asc) = mset (map row_digest rows)" "mset (map row_digest rs) = mset (map row_digest rows)"
    using m by (simp_all add: asc_def)
  with d have da: "distinct (map row_digest asc)" "distinct (map row_digest rs)" by (metis mset_eq_imp_distinct_iff)+
  obtain g qs where g: "rs = g # qs" "row_previous g = None" "follows (row_digest g) qs"
    using c by (cases rs) auto
  have previous: "\<exists>p. row_previous r = Some p \<and> p \<in> row_digest ` set rows" if "r \<in> set qs" for r
    using follows_previous [OF g(3) that] g(1) sets(2) by auto
  have "mset (genesis_digests rows) = image_mset row_digest (filter_mset (\<lambda>r. row_previous r = None) (mset rs))"
    using m by (simp add: genesis_digests_def)
  also have "filter_mset (\<lambda>r. row_previous r = None) (mset qs) = {#}"
    using previous by fastforce
  then have "filter_mset (\<lambda>r. row_previous r = None) (mset rs) = {#g#}"
    using g by simp
  finally have genesis: "genesis_digests rows = [row_digest g]" by simp
  have pre: "for_each (require_predecessor rows) asc = Inr ()"
    unfolding for_each_Inr_iff
  proof
    fix r assume "r \<in> set asc"
    then have "r = g \<or> r \<in> set qs" using sets g(1) by auto
    then show "require_predecessor rows r = Inr ()"
    proof
      assume "r \<in> set qs"
      then obtain p where "row_previous r = Some p" "p \<in> row_digest ` set rows" using previous by blast
      then show ?thesis using by_digest_None [of rows p] by (simp add: require_predecessor_def guard_def)
    qed (simp add: g(2) require_predecessor_def)
  qed
  have one: "length (successors asc p) \<le> 1" for p
    using no_sibling [of asc rs] da c sets by (simp add: distinct_map)
  then have sib: "for_each (require_one_successor asc) (sort (remdups (predecessors asc))) = Inr ()"
    by (simp add: for_each_Inr_iff require_one_successor_def)
  have "successors asc (row_digest (last (g # qs))) = []"
    unfolding successors_Nil
  proof
    fix r assume "r \<in> set asc"
    then have "r = g \<or> r \<in> set qs" using sets g(1) by auto
    moreover have "row_digest (last (g # qs)) = last (row_digest g # map row_digest qs)"
      by (metis last_map list.simps(9) list.distinct(1))
    ultimately show "row_previous r \<noteq> Some (row_digest (last (g # qs)))"
      using g follows_last [OF g(3), of r] da(2) by auto
  qed
  moreover have "set (g # qs) \<subseteq> set asc" using sets g(1) by simp
  ultimately have w: "walk asc (row_digest g) [] [] = Inr (rev (map row_digest rs), entries_of rs, row_digest (last rs))"
    using walk_along [OF da(1) one _ g(3), of "[]" "[]"] da(2) g(1) by (simp only: append_Nil append_Nil2 list.set Int_empty_left)
  have "filter (\<lambda>d. d \<notin> set (rev (map row_digest rs))) (map row_digest rows) = []"
    using sets by (simp add: filter_empty_conv)
  then show ?thesis
    using pre sib w genesis by (simp add: linearize_def asc_def [symmetric] Let_def)
qed

end
