(* ===== verification/ChainClasses.thy ===== *)
theory ChainClasses
  imports ChainInspectCorrect
begin

text \<open>The third pass over a chain in order, and the rules of the classes that it enforces.\<close>

section \<open>The rules\<close>

definition registered_in :: "chain_entries \<Rightarrow> pystr list" where
  "registered_in entries =
     List.map_filter (\<lambda>(_, entry). case entry of RegisteredEntry txid _ _ _ _ _ \<Rightarrow> Some txid | _ \<Rightarrow> None) entries"

text \<open>
  An entry refers back: a fulfilled intent is an earlier intent, a settled registration an
  earlier registration of the same transaction.
\<close>

definition refers_back :: "chain_entries \<Rightarrow> nat \<Rightarrow> bool" where
  "refers_back entries i \<longleftrightarrow>
     (case snd (entries ! i) of
        RegisteredEntry _ _ _ _ _ (Some f) \<Rightarrow> (\<exists>j < i. fst (entries ! j) = f \<and> is_intent (snd (entries ! j)))
      | SettledEntry txid registration _ \<Rightarrow>
          (\<exists>j < i. fst (entries ! j) = registration \<and>
             (\<exists>intent tag initial final fulfilled.
                snd (entries ! j) = RegisteredEntry txid intent tag initial final fulfilled))
      | _ \<Rightarrow> True)"

definition class_rules :: "chain_entries \<Rightarrow> bool" where
  "class_rules entries \<longleftrightarrow>
     distinct (registered_in entries) \<and> distinct (settled_in entries) \<and>
     distinct (committed_fulfillments entries) \<and> (\<forall>i < length entries. refers_back entries i)"

section \<open>Looking back\<close>

lemma entry_at: "x \<in> set (indexed entries) \<longleftrightarrow> fst x < length entries \<and> entries ! fst x = snd x"
  by (cases x) (simp only: in_set_indexed_iff fst_conv snd_conv)

lemma one_index:
  "distinct (map fst entries) \<Longrightarrow> i < length entries \<Longrightarrow> j < length entries \<Longrightarrow>
   fst (entries ! i) = fst (entries ! j) \<Longrightarrow> i = j"
  by (simp add: distinct_conv_nth) blast

lemma filter_digest:
  assumes "distinct (map fst entries)" and "j < length entries"
  shows "filter (\<lambda>x. fst (snd x) = fst (entries ! j)) (indexed entries) = [(j, entries ! j)]"
proof -
  let ?P = "\<lambda>x. fst (snd x) = fst (entries ! j)"
  have "length (filter ?P (indexed entries)) \<le> 1"
  proof (rule one_of)
    show "distinct (indexed entries)" by (simp add: indexed_def distinct_zipI1)
    show "x = y" if "x \<in> set (indexed entries)" "y \<in> set (indexed entries)" "?P x" "?P y" for x y
    proof -
      have "fst x = fst y" using that one_index [OF assms(1), of "fst x" "fst y"] unfolding entry_at by simp
      with that show ?thesis unfolding entry_at by (metis prod.collapse)
    qed
  qed
  moreover have "(j, entries ! j) \<in> set (filter ?P (indexed entries))"
    using assms(2) by (simp add: entry_at)
  ultimately show ?thesis by (cases "filter ?P (indexed entries)") auto
qed

lemma fulfills_fault_at:
  assumes "distinct (map fst entries)" and "j < length entries"
  shows "fulfills_fault entries n (fst (entries ! j)) = None \<longleftrightarrow> j < n \<and> is_intent (snd (entries ! j))"
  using filter_digest [OF assms] by (auto simp: fulfills_fault_def case_prod_unfold)

lemma fulfills_fault_None:
  assumes "distinct (map fst entries)" and "n \<le> length entries"
  shows "fulfills_fault entries n f = None \<longleftrightarrow> (\<exists>j < n. fst (entries ! j) = f \<and> is_intent (snd (entries ! j)))"
proof (cases "\<exists>j < length entries. fst (entries ! j) = f")
  case True
  then obtain j where j: "j < length entries" "fst (entries ! j) = f" by blast
  have "j' = j" if "j' < n" "fst (entries ! j') = f" for j'
    using one_index [OF assms(1), of j' j] that j assms(2) by simp
  then show ?thesis using fulfills_fault_at [OF assms(1) j(1), of n] j(2) by metis
next
  case False
  then have "filter (\<lambda>x. fst (snd x) = f) (indexed entries) = []"
    by (auto simp: filter_empty_conv in_set_indexed_iff)
  moreover have "\<not> (j < n \<and> fst (entries ! j) = f)" for j
    using False less_le_trans [OF _ assms(2), of j] by blast
  ultimately show ?thesis by (simp add: fulfills_fault_def case_prod_unfold) blast
qed

lemma index_of_iff:
  assumes "distinct (map fst entries)"
  shows "index_of entries d = Some j \<longleftrightarrow> j < length entries \<and> fst (entries ! j) = d"
proof -
  let ?items = "map (\<lambda>x. (fst (snd x), fst x)) (indexed entries)"
  have keys: "map fst ?items = map fst entries"
    by (rule nth_equalityI) (simp_all add: indexed_def)
  have "(d, j) \<in> set ?items \<longleftrightarrow> (\<exists>x \<in> set (indexed entries). fst x = j \<and> fst (snd x) = d)"
    by (auto simp del: split_paired_Ex)
  also have "\<dots> \<longleftrightarrow> j < length entries \<and> fst (entries ! j) = d"
  proof
    assume "\<exists>x \<in> set (indexed entries). fst x = j \<and> fst (snd x) = d"
    then obtain x where "x \<in> set (indexed entries)" "fst x = j" "fst (snd x) = d" by blast
    then show "j < length entries \<and> fst (entries ! j) = d" unfolding entry_at by simp
  next
    assume "j < length entries \<and> fst (entries ! j) = d"
    then show "\<exists>x \<in> set (indexed entries). fst x = j \<and> fst (snd x) = d"
      by (intro bexI [of _ "(j, entries ! j)"]) (simp_all add: entry_at)
  qed
  finally show ?thesis unfolding index_of_def case_prod_unfold using assms keys by (subst dict_of_Some) simp_all
qed

fun is_registered :: "chain_entry \<Rightarrow> bool" where
  "is_registered (RegisteredEntry _ _ _ _ _ _) = True"
| "is_registered _ = False"

lemma named_registration_iff:
  assumes "distinct (map fst entries)" and "n \<le> length entries"
  shows "named_registration entries n registration = Some x \<longleftrightarrow>
    (\<exists>j < n. fst (entries ! j) = registration \<and> snd (entries ! j) = x \<and> is_registered x)"
proof (cases "index_of entries registration")
  case None
  then have "\<not> (j < length entries \<and> fst (entries ! j) = registration)" for j
    using index_of_iff [OF assms(1), of registration j] by simp
  with assms(2) have "\<not> (j < n \<and> fst (entries ! j) = registration)" for j
    using less_le_trans [of j n "length entries"] by blast
  with None show ?thesis by (simp add: named_registration_def) blast
next
  case (Some p)
  with index_of_iff [OF assms(1)] have p: "p < length entries" "fst (entries ! p) = registration" by auto
  have "j = p" if "j < n" "fst (entries ! j) = registration" for j
    using index_of_iff [OF assms(1), of registration j] that assms(2) Some by simp
  then have "(\<exists>j < n. fst (entries ! j) = registration \<and> snd (entries ! j) = x \<and> is_registered x)
      \<longleftrightarrow> p < n \<and> snd (entries ! p) = x \<and> is_registered x" using p(2) by metis
  with Some show ?thesis
    by (cases "snd (entries ! p)") (auto simp: named_registration_def)
qed

lemma named_is_looked_up:
  assumes "distinct (map fst entries)" and "n \<le> length entries" and "named_registration entries n registration = Some x"
  shows "dict_of entries registration = Some x"
proof -
  from assms(3) obtain j where "j < n" "fst (entries ! j) = registration" "snd (entries ! j) = x"
    using named_registration_iff [OF assms(1,2)] by blast
  with assms(2) have "(registration, x) \<in> set entries" by (metis nth_mem order.strict_trans2 prod.collapse)
  with assms(1) show ?thesis by (simp add: dict_of_Some)
qed

section \<open>The pass\<close>

definition fulfilled_from :: "chain_entries \<Rightarrow> chain_entries \<Rightarrow> pystr list" where
  "fulfilled_from entries earlier =
     List.map_filter (\<lambda>(_, entry). case entry of
         SettledEntry _ registration outcome \<Rightarrow> fulfilled_by (dict_of entries registration) outcome
       | _ \<Rightarrow> None) earlier"

lemma fulfilled_all: "fulfilled_from entries entries = committed_fulfillments entries"
  by (simp add: fulfilled_from_def committed_fulfillments_def)

definition class_summary :: "chain_entries \<Rightarrow> nat \<Rightarrow> class_state" where
  "class_summary entries n =
     \<lparr>registered_txids = rev (registered_in (take n entries)), settled_txids = rev (settled_in (take n entries)),
      fulfilled_intents = rev (fulfilled_from entries (take n entries))\<rparr>"

definition rules_until :: "chain_entries \<Rightarrow> nat \<Rightarrow> bool" where
  "rules_until entries n \<longleftrightarrow>
     distinct (registered_in (take n entries)) \<and> distinct (settled_in (take n entries)) \<and>
     distinct (fulfilled_from entries (take n entries)) \<and> (\<forall>i < n. refers_back entries i)"

lemma map_filter_snoc: "List.map_filter f (xs @ [x]) = List.map_filter f xs @ (case f x of None \<Rightarrow> [] | Some y \<Rightarrow> [y])"
  by (simp add: map_filter_def split: option.split)

lemma collect_snoc:
  "registered_in (es @ [(d, e)]) = registered_in es @ (case e of RegisteredEntry txid _ _ _ _ _ \<Rightarrow> [txid] | _ \<Rightarrow> [])"
  "settled_in (es @ [(d, e)]) = settled_in es @ (case e of SettledEntry txid _ _ \<Rightarrow> [txid] | _ \<Rightarrow> [])"
  "fulfilled_from entries (es @ [(d, e)]) = fulfilled_from entries es @
     (case e of SettledEntry _ registration outcome \<Rightarrow>
        (case fulfilled_by (dict_of entries registration) outcome of None \<Rightarrow> [] | Some f \<Rightarrow> [f]) | _ \<Rightarrow> [])"
  by (cases e; simp add: registered_in_def settled_in_def fulfilled_from_def map_filter_snoc)+

lemma class_step_iff:
  assumes d: "distinct (map fst entries)" and n: "n < length entries"
  shows "class_step entries (class_summary entries n) (n, entries ! n) = Inr s \<and> rules_until entries n
    \<longleftrightarrow> rules_until entries (Suc n) \<and> s = class_summary entries (Suc n)"
proof -
  obtain digest entry where e: "entries ! n = (digest, entry)" by (cases "entries ! n")
  have t: "take (Suc n) entries = take n entries @ [(digest, entry)]" using n e by (simp add: take_Suc_conv_app_nth)
  have le: "n \<le> length entries" using n by simp
  have upto: "(\<forall>i < Suc n. refers_back entries i) \<longleftrightarrow> (\<forall>i < n. refers_back entries i) \<and> refers_back entries n"
    by (auto simp: less_Suc_eq)
  show ?thesis
  proof (cases entry)
    case (RegisteredEntry txid intent tag initial final fulfilled)
    have "refers_back entries n \<longleftrightarrow> (case fulfilled of None \<Rightarrow> True | Some f \<Rightarrow> fulfills_fault entries n f = None)"
      using e RegisteredEntry by (simp add: refers_back_def fulfills_fault_None [OF d le] split: option.split)
    then show ?thesis
      unfolding rules_until_def upto t class_summary_def e RegisteredEntry
      by (auto simp: guard_Inr_iff collect_snoc)
  next
    case (SettledEntry txid registration outcome)
    show ?thesis
    proof (cases "named_registration entries n registration")
      case None
      then have "\<not> refers_back entries n"
        using e SettledEntry named_registration_iff [OF d le, of registration]
        by (auto simp: refers_back_def) (metis is_registered.simps(1) option.distinct(1))
      with None show ?thesis by (simp add: rules_until_def upto e SettledEntry)
    next
      case (Some named)
      then obtain j where j: "j < n" "fst (entries ! j) = registration" "snd (entries ! j) = named" "is_registered named"
        using named_registration_iff [OF d le] by blast
      have only: "j' = j" if "j' < n" "fst (entries ! j') = registration" for j'
        using one_index [OF d, of j' j] that j le by simp
      have refers: "refers_back entries n \<longleftrightarrow> registered_txid named = txid"
      proof
        assume "refers_back entries n"
        then show "registered_txid named = txid"
          using e SettledEntry only j(3) by (auto simp: refers_back_def)
      next
        assume "registered_txid named = txid"
        with j show "refers_back entries n"
          using e SettledEntry by (cases named) (auto simp: refers_back_def)
      qed
      have "dict_of entries registration = Some named" using named_is_looked_up [OF d le Some] .
      with Some refers show ?thesis
        unfolding rules_until_def upto t class_summary_def e SettledEntry
        by (auto simp: guard_Inr_iff collect_snoc Let_def
            split: option.split)
    qed
  next
    case (GenesisEntry payload baseline)
    then have "refers_back entries n" using e by (simp add: refers_back_def)
    then show ?thesis unfolding rules_until_def upto class_summary_def t e GenesisEntry
      by (auto simp: collect_snoc)
  next
    case (IntentEntry payload)
    then have "refers_back entries n" using e by (simp add: refers_back_def)
    then show ?thesis unfolding rules_until_def upto class_summary_def t e IntentEntry
      by (auto simp: collect_snoc)
  qed
qed

lemma class_run:
  assumes d: "distinct (map fst entries)"
  shows "n \<le> length entries \<Longrightarrow> foldr_r (class_step entries) no_classes (take n (indexed entries)) = Inr s
    \<longleftrightarrow> rules_until entries n \<and> s = class_summary entries n"
proof (induction n arbitrary: s)
  case 0
  then show ?case
    by (auto simp: rules_until_def class_summary_def no_classes_def registered_in_def settled_in_def
        fulfilled_from_def map_filter_def)
next
  case (Suc n)
  then have n: "n < length entries" by simp
  then have "take (Suc n) (indexed entries) = take n (indexed entries) @ [(n, entries ! n)]"
    by (simp add: take_Suc_conv_app_nth indexed_def)
  with Suc.IH n class_step_iff [OF d n, of s] show ?case
    by (auto simp: foldr_r_append bindr_Inr_iff)
qed

lemma inspect_entry_classes_iff:
  assumes "distinct (map fst entries)"
  shows "inspect_entry_classes entries = Inr () \<longleftrightarrow> class_rules entries"
  using class_run [OF assms, of "length entries"]
  by (auto simp: inspect_entry_classes_def bindr_Inr_iff class_rules_def rules_until_def fulfilled_all)

end
