(* ===== verification/ChainScan.thy ===== *)
theory ChainScan
  imports ChainClasses
begin

text \<open>
  From the directory to the verdict: what a scan finds, that the inspection is total, and what a
  well-formed chain says of its transactions.
\<close>

section \<open>What a scan finds\<close>

definition leaf_row :: "unicode_tables \<Rightarrow> nat \<Rightarrow> (pystr \<Rightarrow> bytes option) \<Rightarrow> pystr \<Rightarrow> chain_row option" where
  "leaf_row u depth leaf name =
     (case leaf name of
        None \<Rightarrow> None
      | Some envelope \<Rightarrow>
          (case decode_entry u depth envelope of
             Inl _ \<Rightarrow> None
           | Inr (previous, entry) \<Rightarrow>
               if is_hex_digest name \<and> entry_digest envelope = name then Some (name, previous, entry, envelope) else None))"

lemma leaf_row_Some:
  "leaf_row u depth leaf name = Some r \<longleftrightarrow>
   is_hex_digest name \<and> entry_digest (snd (snd (snd r))) = name \<and> row_digest r = name \<and>
   leaf name = Some (snd (snd (snd r))) \<and> decode_entry u depth (snd (snd (snd r))) = Inr (row_previous r, row_entry r)"
  by (cases r) (auto simp: leaf_row_def split: option.splits sum.splits prod.splits if_splits)

lemma scan_name_staging:
  "scan_name u depth leaf scan STAGING_LEAF = Inr scan' \<longleftrightarrow>
   leaf STAGING_LEAF \<noteq> None \<and> scan' = scan\<lparr>staged := leaf STAGING_LEAF\<rparr>"
  by (auto simp: scan_name_def read_or_foreign_def bindr_Inr_iff lookup_or_Inr_iff)

lemma scan_name_entry:
  assumes "name \<noteq> STAGING_LEAF"
  shows "scan_name u depth leaf scan name = Inr scan' \<longleftrightarrow>
    (\<exists>r. leaf_row u depth leaf name = Some r \<and> scan' = scan\<lparr>found := found scan @ [r]\<rparr>)"
  using assms
  by (auto simp: scan_name_def read_or_foreign_def leaf_row_def bindr_Inr_iff lookup_or_Inr_iff guard_Inr_iff
      split: option.splits sum.splits error.splits)

lemma scan_names:
  assumes "distinct names"
  shows "foldr_r (scan_name u depth leaf) scan names = Inr scan' \<longleftrightarrow>
    (\<forall>name \<in> set names. if name = STAGING_LEAF then leaf name \<noteq> None else leaf_row u depth leaf name \<noteq> None) \<and>
    found scan' = found scan @ List.map_filter (leaf_row u depth leaf) (filter (\<lambda>name. name \<noteq> STAGING_LEAF) names) \<and>
    staged scan' = (if STAGING_LEAF \<in> set names then leaf STAGING_LEAF else staged scan)"
  using assms
proof (induction names arbitrary: scan)
  case Nil
  then show ?case by (cases scan; cases scan') (auto simp: map_filter_def)
next
  case (Cons name names)
  show ?case
  proof (cases "name = STAGING_LEAF")
    case True
    with Cons show ?thesis by (auto simp: bindr_Inr_iff scan_name_staging)
  next
    case False
    with Cons show ?thesis
      by (cases "leaf_row u depth leaf name") (auto simp: bindr_Inr_iff scan_name_entry map_filter_simps)
  qed
qed

definition scanned_rows :: "unicode_tables \<Rightarrow> nat \<Rightarrow> (pystr \<Rightarrow> bytes option) \<Rightarrow> pystr list \<Rightarrow> chain_row list" where
  "scanned_rows u depth leaf listing =
     List.map_filter (leaf_row u depth leaf) (filter (\<lambda>name. name \<noteq> STAGING_LEAF) (sort listing))"

lemma scan_iff:
  assumes "distinct listing"
  shows "scan_leaves u depth leaf listing = Inr scan \<longleftrightarrow>
    (\<forall>name \<in> set listing. if name = STAGING_LEAF then leaf name \<noteq> None else leaf_row u depth leaf name \<noteq> None) \<and>
    found scan = scanned_rows u depth leaf listing \<and>
    staged scan = (if STAGING_LEAF \<in> set listing then leaf STAGING_LEAF else None)"
  using scan_names [of "sort listing" u depth leaf "\<lparr>found = [], staged = None\<rparr>" scan] assms
  by (simp add: scan_leaves_def scanned_rows_def)

lemma leaf_row_name: "leaf_row u depth leaf n = Some r \<Longrightarrow> row_digest r = n"
  by (simp only: leaf_row_Some)

lemma row_digests: "map row_digest (List.map_filter (leaf_row u depth leaf) names) = filter (\<lambda>n. leaf_row u depth leaf n \<noteq> None) names"
proof (induction names)
  case (Cons n names)
  then show ?case by (cases "leaf_row u depth leaf n") (auto simp: map_filter_simps dest: leaf_row_name)
qed (simp add: map_filter_simps)

lemma scanned_distinct: "distinct listing \<Longrightarrow> distinct (map row_digest (scanned_rows u depth leaf listing))"
  by (simp add: scanned_rows_def row_digests)

lemma scanned_set:
  "r \<in> set (scanned_rows u depth leaf listing) \<longleftrightarrow>
   row_digest r \<in> set listing \<and> row_digest r \<noteq> STAGING_LEAF \<and> leaf_row u depth leaf (row_digest r) = Some r"
proof -
  have "r \<in> set (List.map_filter f names) \<longleftrightarrow> (\<exists>n \<in> set names. f n = Some r)" for f and names :: "pystr list"
    by (induction names) (auto simp: map_filter_simps split: option.split)
  then have "r \<in> set (scanned_rows u depth leaf listing) \<longleftrightarrow>
      (\<exists>n. n \<in> set listing \<and> n \<noteq> STAGING_LEAF \<and> leaf_row u depth leaf n = Some r)"
    by (simp add: scanned_rows_def conj_assoc Bex_def)
  also have "\<dots> \<longleftrightarrow> row_digest r \<in> set listing \<and> row_digest r \<noteq> STAGING_LEAF \<and>
      leaf_row u depth leaf (row_digest r) = Some r"
    by (metis leaf_row_name)
  finally show ?thesis .
qed

section \<open>The inspection is total\<close>

text \<open>A pass that ends with a defect or a value, and never with an exception.\<close>

definition only_reports :: "chain_stop + 'a \<Rightarrow> bool" where
  "only_reports r \<longleftrightarrow> (\<forall>e. r \<noteq> Inl (Raises e))"

lemma only_reports_simps [simp]:
  "only_reports (Inr x)" "only_reports (Inl (Reports d))" "only_reports (Inl (report k s))"
  "only_reports (guard c (report k s) m) \<longleftrightarrow> (c \<longrightarrow> only_reports m)"
  by (auto simp: only_reports_def guard_def report_def)

lemma only_reports_bind: "only_reports m \<Longrightarrow> (\<And>x. m = Inr x \<Longrightarrow> only_reports (f x)) \<Longrightarrow> only_reports (bindr m f)"
  by (cases m) (auto simp: only_reports_def)

lemma only_reports_loops:
  "(\<And>x. only_reports (f x)) \<Longrightarrow> only_reports (for_each f xs)"
  "(\<And>s x. only_reports (g s x)) \<Longrightarrow> only_reports (foldr_r g s ys)"
proof -
  show "(\<And>x. only_reports (f x)) \<Longrightarrow> only_reports (for_each f xs)"
    by (induction xs) (auto intro: only_reports_bind)
  show "(\<And>s x. only_reports (g s x)) \<Longrightarrow> only_reports (foldr_r g s ys)"
    by (induction ys arbitrary: s) (auto intro: only_reports_bind)
qed

lemma scan_reports: "only_reports (scan_leaves u depth leaf listing)"
proof -
  have "only_reports (scan_name u depth leaf scan name)" for scan name
  proof -
    have "only_reports (case decode_entry u depth data of
        Inl (ChainStateInvalid f) \<Rightarrow> Inl (report UNDECODABLE_ENTRY (Some name))
      | Inl e \<Rightarrow> Inl (Raises e)
      | Inr (previous, entry) \<Rightarrow> Inr (scan\<lparr>found := found scan @ [(name, previous, entry, data)]\<rparr>))" for data
      using decode_only_invalid [of u depth data]
      by (cases "decode_entry u depth data") (auto simp: only_invalid_def)
    moreover have "only_reports (read_or_foreign leaf name)"
      by (simp add: read_or_foreign_def lookup_or_def foreign_leaf_def split: option.split)
    ultimately show ?thesis
      by (auto simp: scan_name_def foreign_leaf_def intro!: only_reports_bind)
  qed
  then show ?thesis by (simp add: scan_leaves_def only_reports_loops)
qed

lemma walk_reports: "current \<in> row_digest ` set rows \<Longrightarrow> only_reports (walk rows current visited ordered)"
proof (induction rows current visited ordered rule: walk.induct)
  case (1 rows current visited ordered)
  show ?case
  proof (cases "current \<in> set visited")
    case True
    then show ?thesis by (subst walk.simps) simp
  next
    case False
    with "1.prems" obtain entry where entry: "by_digest rows current = Some entry"
      using by_digest_None [of rows current] by auto
    show ?thesis
    proof (cases "successors rows current")
      case Nil
      with entry show ?thesis by (subst walk.simps) (simp add: lookup_or_def)
    next
      case (Cons following later)
      then have "following \<in> row_digest ` set rows" using successor_row by (metis imageI)
      with 1(1) [OF False _ Cons] entry Cons show ?thesis
        by (subst walk.simps) (simp add: lookup_or_def)
    qed
  qed
qed

lemma walk_entries: "walk rows current visited ordered = Inr (vs, out, tip) \<Longrightarrow> out \<noteq> []"
proof (induction rows current visited ordered rule: walk.induct)
  case (1 rows current visited ordered)
  then show ?case
    by (cases "successors rows current")
      (auto simp: walk.simps [of rows current] guard_Inr_iff bindr_Inr_iff lookup_or_Inr_iff)
qed

lemma linearize_reports: "only_reports (linearize rows)"
proof -
  have "hd (genesis_digests rows) \<in> row_digest ` set (sort_key row_digest rows)"
    if "length (genesis_digests rows) = 1"
  proof -
    from that have "hd (genesis_digests rows) \<in> set (genesis_digests rows)" by (intro hd_in_set) auto
    then show ?thesis by (auto simp: genesis_digests_def)
  qed
  then show ?thesis
    unfolding linearize_def Let_def
    by (auto intro!: only_reports_bind only_reports_loops walk_reports
        simp: require_predecessor_def require_one_successor_def split: option.split list.split)
qed

lemma classes_report: "only_reports (inspect_entry_classes entries)"
proof -
  have "only_reports (class_step entries s x)" for s x
    by (cases "(entries, s, x)" rule: class_step.cases) (auto simp: Let_def split: option.split)
  then show ?thesis
    unfolding inspect_entry_classes_def by (intro only_reports_bind only_reports_loops) auto
qed

lemma inspection_okay: "okay (inspect_scan scan)"
proof -
  have "only_reports (inspect_found (found scan))"
    unfolding inspect_found_def
    by (intro only_reports_bind linearize_reports)
      (auto intro!: only_reports_bind classes_report split: list.split
        simp: linearize_def guard_Inr_iff bindr_Inr_iff none_left Let_def dest: walk_entries)
  then show ?thesis
    by (cases "inspect_found (found scan)") (auto simp: inspect_scan_def only_reports_def split: chain_stop.split)
qed

section \<open>Digests\<close>

lemma sha_round_length: "length state = 8 \<Longrightarrow> length (sha_round state k w) = 8"
  by (cases "(state, k, w)" rule: sha_round.cases) (auto simp: Let_def)

lemma sha_rounds_length: "length state = 8 \<Longrightarrow> length (sha_rounds ks window state) = 8"
  by (induction ks window state rule: sha_rounds.induct) (auto simp: sha_round_length simp del: sha_round.simps)

lemma sha_words_length: "length (sha256_words data) = 8"
proof -
  have "length hash = 8 \<Longrightarrow> length (foldl sha_block hash blocks) = 8" for hash blocks
    by (induction blocks arbitrary: hash) (simp_all add: sha_block_def sha_rounds_length)
  moreover have "length initial_hash = 8" by (simp add: initial_hash_def)
  ultimately show ?thesis by (simp add: sha256_words_def)
qed

lemma hex_nibble_lower: "is_lower_hex (hex_nibble (w AND 15))"
proof -
  have "unat (w AND 15) \<le> unat (15 :: w32)" by (intro word_le_nat_alt [THEN iffD1] word_and_le1)
  then show ?thesis by (auto simp: hex_nibble_def is_lower_hex_def Let_def)
qed

lemma entry_digest_hex: "is_hex_digest (entry_digest data)"
proof -
  have "length (concat (map hex_word ws)) = 8 * length ws" for ws
    by (induction ws) (auto simp: hex_word_def)
  moreover have "list_all is_lower_hex (hex_word w)" for w
    by (auto simp: hex_word_def list_all_iff intro: hex_nibble_lower)
  then have "list_all is_lower_hex (concat (map hex_word ws))" for ws
    by (induction ws) auto
  ultimately show ?thesis
    by (simp add: entry_digest_def sha256_hex_def is_hex_digest_def sha_words_length)
qed

section \<open>Well-formed chains\<close>

lemma case_list_first:
  "(case xs of [] \<Rightarrow> Inl s | (x, y) # _ \<Rightarrow> Inr (f x)) = Inr z \<longleftrightarrow> xs \<noteq> [] \<and> f (fst (hd xs)) = z"
  by (cases xs) auto

lemma inspect_scan_iff:
  assumes d: "distinct (map row_digest (found scan))"
  shows "inspect_scan scan = Inr (WellFormedChain g entries tip pend) \<longleftrightarrow>
    (\<exists>rs. mset rs = mset (found scan) \<and> chain_order rs \<and> class_rules (entries_of rs) \<and> entries = entries_of rs \<and>
       g = row_digest (hd rs) \<and> tip = row_digest (last rs) \<and> pend = pending_of entries)"
    (is "?inspected \<longleftrightarrow> (\<exists>rs. ?chain rs)")
proof
  assume i: ?inspected
  then have "inspect_found (found scan) = Inr (WellFormedChain g entries tip pend)"
    by (auto simp: inspect_scan_def split: if_splits sum.splits chain_stop.splits)
  then have l: "linearize (found scan) = Inr (entries, tip)" and c: "inspect_entry_classes entries = Inr ()"
    and g: "g = fst (hd entries)" and p: "pend = pending_of entries"
    by (auto simp: inspect_found_def bindr_Inr_iff case_list_first)
  from linearize_sound [OF d l] obtain rs where rs: "mset rs = mset (found scan)" "chain_order rs"
      "entries = entries_of rs" "tip = row_digest (last rs)" by blast
  have "distinct (map fst entries)" using d rs(1,3) by (simp add: mset_eq_imp_distinct_iff [of "map row_digest rs" "map row_digest (found scan)"])
  with c have "class_rules entries" by (simp add: inspect_entry_classes_iff)
  moreover have "g = row_digest (hd rs)" using g rs(2,3) by (cases rs) auto
  ultimately show "\<exists>rs. ?chain rs" using rs p by blast
next
  assume "\<exists>rs. ?chain rs"
  then obtain rs where rs: "?chain rs" by blast
  have "distinct (map fst entries)" using d rs by (simp add: mset_eq_imp_distinct_iff [of "map row_digest rs" "map row_digest (found scan)"])
  then have "inspect_entry_classes entries = Inr ()" using rs by (simp add: inspect_entry_classes_iff)
  moreover obtain r qs where "rs = r # qs" using rs by (cases rs) auto
  moreover from this have "found scan \<noteq> []" using rs by auto
  moreover have "linearize (found scan) = Inr (entries, tip)" using linearize_complete [OF d] rs by simp
  ultimately show ?inspected using rs by (simp add: inspect_scan_def inspect_found_def)
qed

lemma in_map_filter: "y \<in> set (List.map_filter f xs) \<longleftrightarrow> (\<exists>x \<in> set xs. f x = Some y)"
  by (induction xs) (auto simp: map_filter_simps split: option.split)

lemma registered_iff: "txid \<in> set (registered_in entries) \<longleftrightarrow>
    (\<exists>e \<in> set entries. is_registered (snd e) \<and> registered_txid (snd e) = txid)"
proof -
  have "(case e of RegisteredEntry txid _ _ _ _ _ \<Rightarrow> Some txid | _ \<Rightarrow> None) = Some txid
      \<longleftrightarrow> is_registered e \<and> registered_txid e = txid" for e by (cases e) auto
  then show ?thesis by (simp add: registered_in_def in_map_filter case_prod_unfold)
qed

lemma settled_iff: "txid \<in> set (settled_in entries) \<longleftrightarrow>
    (\<exists>e \<in> set entries. \<exists>registration outcome. snd e = SettledEntry txid registration outcome)"
proof -
  have "(case e of SettledEntry txid _ _ \<Rightarrow> Some txid | _ \<Rightarrow> None) = Some txid
      \<longleftrightarrow> (\<exists>registration outcome. e = SettledEntry txid registration outcome)" for e by (cases e) auto
  then show ?thesis by (simp add: settled_in_def in_map_filter case_prod_unfold)
qed

lemma settled_registered:
  assumes "class_rules entries" and "txid \<in> set (settled_in entries)"
  shows "txid \<in> set (registered_in entries)"
proof -
  from assms(2) obtain e registration outcome where e: "e \<in> set entries" "snd e = SettledEntry txid registration outcome"
    unfolding settled_iff by blast
  from e(1) obtain i where i: "i < length entries" "entries ! i = e" by (auto simp: in_set_conv_nth)
  with assms(1) have "refers_back entries i" by (simp add: class_rules_def)
  with i e obtain j intent tag initial final fulfilled where j: "j < i"
      "snd (entries ! j) = RegisteredEntry txid intent tag initial final fulfilled"
    by (auto simp: refers_back_def)
  then have "entries ! j \<in> set entries" using i(1) by (simp add: less_trans)
  with j(2) show ?thesis unfolding registered_iff by (intro bexI [of _ "entries ! j"]) simp_all
qed

lemma pending_txids:
  "map fst (pending_of entries) = filter (\<lambda>txid. txid \<notin> set (settled_in entries)) (registered_in entries)"
proof -
  have "map fst (List.map_filter (\<lambda>(digest, entry). case entry of
           RegisteredEntry txid _ _ _ _ _ \<Rightarrow> if txid \<notin> S then Some (txid, digest) else None | _ \<Rightarrow> None) entries)
        = filter (\<lambda>txid. txid \<notin> S) (registered_in entries)" for S
    by (induction entries) (auto simp: registered_in_def map_filter_simps split: chain_entry.split)
  then show ?thesis by (simp add: pending_of_def)
qed

lemma transactions_split:
  assumes "class_rules entries"
  shows "mset (registered_in entries) = mset (map fst (pending_of entries)) + mset (settled_in entries)"
proof -
  have "mset (filter (\<lambda>t. t \<in> set (settled_in entries)) (registered_in entries)) = mset (settled_in entries)"
    using assms settled_registered [OF assms] by (intro distinct_mset) (auto simp: class_rules_def)
  then show ?thesis
    using multiset_partition [of "mset (registered_in entries)" "\<lambda>t. t \<in> set (settled_in entries)"]
    by (simp add: pending_txids add.commute)
qed

section \<open>Cycles\<close>

lemma follows_snoc: "follows d (rs @ [r]) \<longleftrightarrow> follows d rs \<and> row_previous r = Some (last (d # map row_digest rs))"
  by (induction d rs rule: follows.induct) auto

lemma order_snoc:
  "chain_order (rs @ [r]) \<longleftrightarrow>
   (if rs = [] then row_previous r = None else chain_order rs \<and> row_previous r = Some (row_digest (last rs)))"
  by (cases rs) (auto simp: follows_snoc last_map)

lemma order_extends:
  assumes "chain_order (rs @ [r])" and "distinct (map row_digest rs)"
  shows "r \<notin> set rs"
proof (cases rs)
  case (Cons g qs)
  with assms(1) have "row_previous g = None" "follows (row_digest g) qs"
    "row_previous r = Some (last (row_digest g # map row_digest qs))" by (auto simp: follows_snoc)
  with follows_last [of "row_digest g" qs r] assms(2) Cons show ?thesis by auto
qed simp

lemma walk_no_cycle:
  assumes "distinct (map row_digest rows)" and "visited = rev (map row_digest ps)" and "set ps \<subseteq> set rows"
    and "distinct (map row_digest ps)" and "r \<in> set rows" and "row_digest r = current" and "chain_order (ps @ [r])"
  shows "walk rows current visited ordered \<noteq> Inl (report CYCLE s)"
  using assms
proof (induction rows current visited ordered arbitrary: ps r rule: walk.induct)
  case (1 rows current visited ordered)
  have "r \<notin> set ps" using order_extends [OF "1.prems"(7,4)] .
  have "row_digest q \<noteq> row_digest r" if "q \<in> set ps" for q
  proof (rule notI)
    assume same: "row_digest q = row_digest r"
    have "q \<in> set rows" using that "1.prems"(3) by (rule set_mp [rotated])
    from same_row [OF "1.prems"(1) this "1.prems"(5) same] that \<open>r \<notin> set ps\<close> show False by simp
  qed
  then have fresh: "row_digest r \<notin> set (map row_digest ps)" by fastforce
  then have new: "current \<notin> set visited" using "1.prems"(2,6) by simp
  have entry: "by_digest rows current = Some (row_entry r)" using "1.prems"(1,5,6) by_digest_row by metis
  show ?case
  proof (cases "successors rows current")
    case Nil
    with new entry show ?thesis by (simp add: walk.simps [of rows current] lookup_or_def)
  next
    case (Cons following later)
    then obtain r' where r': "r' \<in> set rows" "row_previous r' = Some current" "row_digest r' = following"
      using successor_row by metis
    have grown: "chain_order ((ps @ [r]) @ [r'])"
      using order_snoc [of "ps @ [r]" r'] "1.prems"(6,7) r'(2) by simp
    have "walk rows following (current # visited) (ordered @ [(current, row_entry r)]) \<noteq> Inl (report CYCLE s)"
      by (rule "1.IH" [OF new _ Cons, where ps = "ps @ [r]" and r = r'])
        (use "1.prems" r' fresh entry grown in \<open>auto simp: lookup_or_def\<close>)
    with new entry Cons show ?thesis by (simp add: walk.simps [of rows current] lookup_or_def)
  qed
qed

lemma for_each_Inl: "for_each f xs = Inl e \<Longrightarrow> \<exists>x \<in> set xs. f x = Inl e"
  by (induction xs) (auto simp: bindr_Inl_iff)

lemma linearize_no_cycle:
  assumes "distinct (map row_digest rows)"
  shows "linearize rows \<noteq> Inl (report CYCLE s)"
proof -
  define asc where "asc = sort_key row_digest rows"
  have "mset (map row_digest asc) = mset (map row_digest rows)" by (simp add: asc_def)
  with assms have d: "distinct (map row_digest asc)" by (metis mset_eq_imp_distinct_iff)
  have "walk asc (hd (genesis_digests rows)) [] [] \<noteq> Inl (report CYCLE s)" if "length (genesis_digests rows) = 1"
  proof -
    from that have "hd (genesis_digests rows) \<in> set (genesis_digests rows)" by (intro hd_in_set) auto
    then obtain g where g: "g \<in> set asc" "row_digest g = hd (genesis_digests rows)" "row_previous g = None"
      by (auto simp: genesis_digests_def asc_def)
    show ?thesis by (rule walk_no_cycle [OF d _ _ _ g(1,2), where ps = "[]"]) (use g(3) in auto)
  qed
  moreover have "for_each (require_predecessor rows) asc \<noteq> Inl (report CYCLE s)"
    by (auto simp: require_predecessor_def report_def guard_Inl_iff dest!: for_each_Inl split: option.splits)
  moreover have "for_each (require_one_successor asc) ps \<noteq> Inl (report CYCLE s)" for ps
    by (auto simp: require_one_successor_def report_def guard_Inl_iff dest!: for_each_Inl)
  ultimately show ?thesis
    by (auto simp: linearize_def Let_def asc_def [symmetric] bindr_Inl_iff guard_Inl_iff split: list.splits)
      (auto simp: report_def)
qed

lemma classes_no_cycle: "inspect_entry_classes entries \<noteq> Inl (report CYCLE s)"
proof -
  have "class_step entries st x \<noteq> Inl (report CYCLE s)" for st x
    by (cases "(entries, st, x)" rule: class_step.cases)
      (auto simp: guard_Inl_iff report_def Let_def split: option.splits)
  then have "foldr_r (class_step entries) st xs \<noteq> Inl (report CYCLE s)" for st xs
    by (induction xs arbitrary: st) (auto simp: bindr_Inl_iff)
  then show ?thesis by (simp add: inspect_entry_classes_def bindr_Inl_iff)
qed

section \<open>Properties\<close>

text \<open>
  C12: A chain is well formed exactly if its files are one linked history that keeps the rules of
  the classes. The inspection returns a linearization if and only if the scanned rows can be put
  in an order that starts at the only genesis, links every row to the one before it, registers
  and settles a transaction at most once, refers back to earlier intents and registrations, and
  commits at most one fulfillment of an intent; the result is that order.
\<close>

theorem chain_well_formed:
  assumes "distinct (map row_digest (found scan))"
  shows "inspect_scan scan = Inr (WellFormedChain g entries tip pend) \<longleftrightarrow>
    (\<exists>rows. mset rows = mset (found scan) \<and> chain_order rows \<and> class_rules (entries_of rows) \<and>
       entries = entries_of rows \<and> g = row_digest (hd rows) \<and> tip = row_digest (last rows) \<and>
       pend = pending_of entries)"
  by (rule inspect_scan_iff [OF assms])

text \<open>
  C19: Every registered transaction is accounted for. In a well-formed chain the registered
  transactions are, each once, the pending and the settled ones together.
\<close>

theorem transactions_accounted:
  assumes "distinct (map row_digest (found scan))"
    and "inspect_scan scan = Inr (WellFormedChain g entries tip pend)"
  shows "mset (registered_in entries) = mset (map fst pend) + mset (settled_in entries) \<and>
    distinct (registered_in entries)"
proof -
  from assms have "class_rules entries" "pend = pending_of entries" by (auto simp: inspect_scan_iff)
  with transactions_split show ?thesis by (auto simp: class_rules_def)
qed

text \<open>
  C35: Reading a chain directory raises for the descriptor alone. The scan raises a
  \<open>ProtocolError\<close> for a descriptor that is not registered or is not that of the chain directory, it
  raises \<open>ChainStateInvalid\<close> if the directory cannot be listed, and it raises nothing else, whatever
  the leaves hold: then it ends with a defect or a scan, and every scan has a verdict. No exception of
  the decoder, of a dictionary or of an index escapes, and the walk along the links ends. The one call
  whose error the code leaves to escape, closing the descriptor of a leaf, is outside the model.
\<close>

theorem chain_inspection_total:
  "case scan_chain_directory u depth h of
     Inl (Raises e) \<Rightarrow>
       handle_provenance h = None \<and> e = ProtocolError (ChainFault (ChainFile ProvenanceUnregistered)) \<or>
       (\<exists>p. handle_provenance h = Some p \<and> p \<noteq> Provenance Root_PROJECT CHAIN_LEAF) \<and>
         e = ProtocolError (ChainFault (ChainFile ProvenanceNotChain)) \<or>
       handle_provenance h = Some (Provenance Root_PROJECT CHAIN_LEAF) \<and> handle_listing h = None \<and>
         e = ChainStateInvalid (ChainFile DirectoryUnlistable)
   | Inl (Reports defect) \<Rightarrow>
       handle_provenance h = Some (Provenance Root_PROJECT CHAIN_LEAF) \<and> handle_listing h \<noteq> None
   | Inr scan \<Rightarrow>
       handle_provenance h = Some (Provenance Root_PROJECT CHAIN_LEAF) \<and> handle_listing h \<noteq> None \<and>
       (\<exists>chain. inspect_scan scan = Inr chain)"
proof (cases "handle_provenance h = Some (Provenance Root_PROJECT CHAIN_LEAF) \<and> handle_listing h \<noteq> None")
  case True
  then obtain listing where "scan_chain_directory u depth h = scan_leaves u depth (handle_leaf h) listing"
    by (auto simp: scan_chain_directory_def provenance_of_def guard_def)
  with True scan_reports [of u depth "handle_leaf h" listing] inspection_okay show ?thesis
    by (auto simp: only_reports_def okay_def split: sum.split chain_stop.split)
next
  case False
  then show ?thesis
    by (auto simp: scan_chain_directory_def provenance_of_def guard_def split: option.splits)
qed

text \<open>
  A chain directory has no cycle. Where no two rows have one digest, as with the files of a
  directory, a cycle is never the verdict: rows on a cycle have no genesis or are an orphan history.
\<close>

theorem chain_cycle_unreachable:
  assumes "distinct (map row_digest (found scan))"
  shows "inspect_scan scan \<noteq> Inr (MalformedChain (ChainDefect CYCLE name))"
proof -
  have "inspect_found (found scan) \<noteq> Inl (report CYCLE name)"
    using linearize_no_cycle [OF assms] classes_no_cycle
    by (auto simp: inspect_found_def bindr_Inl_iff report_def split: list.splits)
  moreover have "inspect_found (found scan) \<noteq> Inr (MalformedChain d)" for d
    by (auto simp: inspect_found_def bindr_Inr_iff case_list_first)
  ultimately show ?thesis
    by (auto simp: inspect_scan_def report_def split: sum.splits chain_stop.splits)
qed

text \<open>A registered and settled transaction that fulfills an intent, and one that is pending.\<close>

definition sample_scan :: chain_scan where
  "sample_scan =
     \<lparr>found = [([1], Some [4], RegisteredEntry [97] [] [] [] [] (Some [3]), []),
               ([2], Some [1], SettledEntry [97] [1] Chain_COMMITTED, []),
               ([3], Some [5], IntentEntry [], []),
               ([4], Some [3], RegisteredEntry [98] [] [] [] [] None, []),
               ([5], None, GenesisEntry [] [], [])],
      staged = None\<rparr>"

definition sample_chain :: chain_inspection where
  "sample_chain =
     WellFormedChain [5]
       [([5], GenesisEntry [] []), ([3], IntentEntry []), ([4], RegisteredEntry [98] [] [] [] [] None),
        ([1], RegisteredEntry [97] [] [] [] [] (Some [3])), ([2], SettledEntry [97] [1] Chain_COMMITTED)]
       [2] [([98], [4])]"

lemma sample_inspected: "inspect_scan sample_scan = Inr sample_chain" "distinct (map row_digest (found sample_scan))"
  by code_simp+

theorem chain_well_formed_example:
  "\<exists>rows. mset rows = mset (found sample_scan) \<and> chain_order rows \<and> class_rules (entries_of rows) \<and>
     chain_entries sample_chain = entries_of rows"
  using chain_well_formed [OF sample_inspected(2), of "[5]" "chain_entries sample_chain" "[2]" "[([98], [4])]"]
    sample_inspected(1) by (auto simp: sample_chain_def)

theorem transactions_accounted_example:
  "mset (registered_in (chain_entries sample_chain)) = mset [[98]] + mset (settled_in (chain_entries sample_chain))"
  using transactions_accounted [OF sample_inspected(2), of "[5]" "chain_entries sample_chain" "[2]" "[([98], [4])]"]
    sample_inspected(1) by (auto simp: sample_chain_def)

theorem chain_cycle_unreachable_example:
  "inspect_scan sample_scan \<noteq> Inr (MalformedChain (ChainDefect CYCLE (Some [3])))"
  by (rule chain_cycle_unreachable [OF sample_inspected(2)])

end
