(* ===== verification/ChainFilesCorrect.thy ===== *)
theory ChainFilesCorrect
  imports ChainFiles ChainScan
begin

text \<open>
  The directories that hold a chain: what they validate to, and which changes of a leaf keep or
  extend the chain.
\<close>

section \<open>Directories that hold a chain\<close>

definition dir_row :: "unicode_tables \<Rightarrow> nat \<Rightarrow> pystr \<times> bytes option \<Rightarrow> chain_row option" where
  "dir_row u depth leaf = leaf_row u depth (\<lambda>_. snd leaf) (fst leaf)"

definition dir_rows :: "unicode_tables \<Rightarrow> nat \<Rightarrow> chain_dir \<Rightarrow> chain_row list" where
  "dir_rows u depth dir = List.map_filter (dir_row u depth) (filter (\<lambda>leaf. fst leaf \<noteq> STAGING_LEAF) dir)"

definition readable :: "unicode_tables \<Rightarrow> nat \<Rightarrow> chain_dir \<Rightarrow> bool" where
  "readable u depth dir \<longleftrightarrow> distinct (map fst dir) \<and>
     (\<forall>leaf \<in> set dir. if fst leaf = STAGING_LEAF then snd leaf \<noteq> None else dir_row u depth leaf \<noteq> None)"

definition holds_chain :: "unicode_tables \<Rightarrow> nat \<Rightarrow> chain_dir \<Rightarrow> chain_row list \<Rightarrow> bool" where
  "holds_chain u depth dir rs \<longleftrightarrow> readable u depth dir \<and> mset rs = mset (dir_rows u depth dir) \<and>
     (rs = [] \<or> chain_order rs \<and> class_rules (entries_of rs))"

definition tip_of :: "chain_row list \<Rightarrow> pystr option" where
  "tip_of rs = (if rs = [] then None else Some (row_digest (last rs)))"

definition validated_of :: "chain_row list \<Rightarrow> survivor_action list \<Rightarrow> validated_chain" where
  "validated_of rs actions = \<lparr>history_entries = entries_of rs, history_tip = tip_of rs, survivors = actions\<rparr>"

lemma read_leaf_in: "distinct (map fst dir) \<Longrightarrow> leaf \<in> set dir \<Longrightarrow> read_leaf dir (fst leaf) = snd leaf"
  by (cases leaf) (simp add: read_leaf_def)

lemma dir_row_leaf: "distinct (map fst dir) \<Longrightarrow> leaf \<in> set dir \<Longrightarrow> leaf_row u depth (read_leaf dir) (fst leaf) = dir_row u depth leaf"
  by (simp add: leaf_row_def dir_row_def read_leaf_in)

lemma map_filter_cong: "(\<And>x. x \<in> set xs \<Longrightarrow> f (g x) = h x) \<Longrightarrow> List.map_filter f (map g xs) = List.map_filter h xs"
  by (induction xs) (auto simp: map_filter_simps split: option.split)

lemma mset_map_filter: "mset xs = mset ys \<Longrightarrow> mset (List.map_filter f xs) = mset (List.map_filter f ys)"
  by (simp add: map_filter_def)

lemma scanned_dir_rows:
  assumes "distinct (map fst dir)"
  shows "mset (scanned_rows u depth (read_leaf dir) (map fst dir)) = mset (dir_rows u depth dir)"
proof -
  have "mset (filter (\<lambda>n. n \<noteq> STAGING_LEAF) (sort (map fst dir))) = mset (map fst (filter (\<lambda>leaf. fst leaf \<noteq> STAGING_LEAF) dir))"
  proof -
    have "mset (filter P (sort names)) = mset (filter P names)" for P and names :: "pystr list" by simp
    also have "filter (\<lambda>n. n \<noteq> STAGING_LEAF) (map fst dir) = map fst (filter (\<lambda>leaf. fst leaf \<noteq> STAGING_LEAF) dir)"
      by (simp add: filter_map comp_def)
    finally show ?thesis .
  qed
  then have "mset (scanned_rows u depth (read_leaf dir) (map fst dir)) =
      mset (List.map_filter (leaf_row u depth (read_leaf dir)) (map fst (filter (\<lambda>leaf. fst leaf \<noteq> STAGING_LEAF) dir)))"
    unfolding scanned_rows_def by (rule mset_map_filter)
  also have "\<dots> = mset (dir_rows u depth dir)"
    unfolding dir_rows_def by (subst map_filter_cong [where h = "dir_row u depth"]) (simp_all add: dir_row_leaf [OF assms])
  finally show ?thesis .
qed

lemma staging_leaf: "read_leaf dir STAGING_LEAF = (if STAGING_LEAF \<in> fst ` set dir then read_leaf dir STAGING_LEAF else None)"
  by (cases "map_of dir STAGING_LEAF") (auto simp: read_leaf_def dest: map_of_SomeD intro: rev_image_eqI)

lemma scan_chain_handle: "scan_chain_directory u depth (chain_handle dir) = scan_leaves u depth (read_leaf dir) (map fst dir)"
  by (simp add: scan_chain_directory_def provenance_of_def chain_handle_def guard_def)

lemma scan_dir_iff:
  assumes "distinct (map fst dir)"
  shows "scan_dir u depth dir = Inr scan \<longleftrightarrow> readable u depth dir \<and>
    found scan = scanned_rows u depth (read_leaf dir) (map fst dir) \<and> staged scan = read_leaf dir STAGING_LEAF"
proof -
  have "(\<forall>name \<in> set (map fst dir). if name = STAGING_LEAF then read_leaf dir name \<noteq> None
       else leaf_row u depth (read_leaf dir) name \<noteq> None) \<longleftrightarrow> readable u depth dir"
    using assms read_leaf_in [OF assms] dir_row_leaf [OF assms] by (simp add: readable_def) metis
  then show ?thesis
    using scan_iff [OF assms, of u depth "read_leaf dir" scan] staging_leaf [of dir]
    by (auto simp: scan_dir_def scan_chain_handle split: sum.split chain_stop.split)
qed

lemma dir_rows_distinct:
  assumes "readable u depth dir"
  shows "distinct (map row_digest (dir_rows u depth dir))"
proof -
  have d: "distinct (map fst dir)" using assms by (simp add: readable_def)
  have "mset (map row_digest (scanned_rows u depth (read_leaf dir) (map fst dir))) = mset (map row_digest (dir_rows u depth dir))"
    using scanned_dir_rows [OF d] by simp
  with scanned_distinct [OF d, of u depth "read_leaf dir"] show ?thesis by (metis mset_eq_imp_distinct_iff)
qed

lemma dir_rows_in:
  "r \<in> set (dir_rows u depth dir) \<longleftrightarrow> (\<exists>leaf \<in> set dir. fst leaf \<noteq> STAGING_LEAF \<and> dir_row u depth leaf = Some r)"
  unfolding dir_rows_def in_map_filter set_filter by blast

lemma row_in_dir:
  assumes "r \<in> set (dir_rows u depth dir)"
  shows "(row_digest r, Some (snd (snd (snd r)))) \<in> set dir" "entry_digest (snd (snd (snd r))) = row_digest r"
    "decode_entry u depth (snd (snd (snd r))) = Inr (row_previous r, row_entry r)"
proof -
  from assms obtain leaf where l: "leaf \<in> set dir" "dir_row u depth leaf = Some r" by (auto simp: dir_rows_in)
  then have "fst leaf = row_digest r" "snd leaf = Some (snd (snd (snd r)))" "entry_digest (snd (snd (snd r))) = row_digest r"
    "decode_entry u depth (snd (snd (snd r))) = Inr (row_previous r, row_entry r)"
    by (auto simp: dir_row_def leaf_row_Some)
  with l(1) show "(row_digest r, Some (snd (snd (snd r)))) \<in> set dir" "entry_digest (snd (snd (snd r))) = row_digest r"
    "decode_entry u depth (snd (snd (snd r))) = Inr (row_previous r, row_entry r)"
    by (auto simp: prod_eq_iff) (metis prod.collapse)
qed

section \<open>Validation\<close>

abbreviation row_bytes :: "chain_row \<Rightarrow> bytes" where "row_bytes r \<equiv> snd (snd (snd r))"

lemma validated_scan:
  assumes d: "distinct (map row_digest (found scan))"
  shows "validate_scan scan = Inr chain \<longleftrightarrow>
    (\<exists>rs. mset rs = mset (found scan) \<and> (if rs = [] then chain = AbsentChain
       else chain_order rs \<and> class_rules (entries_of rs) \<and>
         chain = WellFormedChain (row_digest (hd rs)) (entries_of rs) (row_digest (last rs)) (pending_of (entries_of rs))))"
proof -
  have shape: "inspect_found (found scan) = Inr c \<Longrightarrow> \<exists>g es t p. c = WellFormedChain g es t p" for c
    by (auto simp: inspect_found_def bindr_Inr_iff case_list_first)
  show ?thesis
  proof (cases "found scan = []")
    case True
    then show ?thesis by (auto simp: validate_scan_def inspect_scan_def)
  next
    case False
    have "validate_scan scan = Inr chain \<longleftrightarrow> (\<exists>g es t p. chain = WellFormedChain g es t p \<and> inspect_scan scan = Inr chain)"
      using False shape
      by (cases "inspect_found (found scan)") (auto simp: validate_scan_def inspect_scan_def split: chain_stop.split)
    also have "\<dots> \<longleftrightarrow> (\<exists>rs. mset rs = mset (found scan) \<and> (if rs = [] then chain = AbsentChain
       else chain_order rs \<and> class_rules (entries_of rs) \<and>
         chain = WellFormedChain (row_digest (hd rs)) (entries_of rs) (row_digest (last rs)) (pending_of (entries_of rs))))"
      (is "?l \<longleftrightarrow> ?r")
    proof
      assume ?l
      then obtain g es t p where c: "chain = WellFormedChain g es t p" "inspect_scan scan = Inr chain" by blast
      then obtain rs where "mset rs = mset (found scan)" "chain_order rs" "class_rules (entries_of rs)" "es = entries_of rs"
          "g = row_digest (hd rs)" "t = row_digest (last rs)" "p = pending_of es"
        unfolding c(1) inspect_scan_iff [OF d] by blast
      with c(1) show ?r by (intro exI [of _ rs]) auto
    next
      assume ?r
      then obtain rs where rs: "mset rs = mset (found scan)" "if rs = [] then chain = AbsentChain
       else chain_order rs \<and> class_rules (entries_of rs) \<and>
         chain = WellFormedChain (row_digest (hd rs)) (entries_of rs) (row_digest (last rs)) (pending_of (entries_of rs))" by blast
      moreover have "rs \<noteq> []" using rs(1) False by auto
      ultimately have "inspect_scan scan = Inr (WellFormedChain (row_digest (hd rs)) (entries_of rs) (row_digest (last rs)) (pending_of (entries_of rs)))"
        unfolding inspect_scan_iff [OF d] by (intro exI [of _ rs]) simp
      with rs \<open>rs \<noteq> []\<close> show ?l by simp
    qed
    finally show ?thesis .
  qed
qed

lemma found_distinct:
  assumes "scan_dir u depth dir = Inr scan" and "distinct (map fst dir)"
  shows "distinct (map row_digest (found scan))" "mset (found scan) = mset (dir_rows u depth dir)"
  using assms scanned_distinct [OF assms(2)] scanned_dir_rows [OF assms(2)] by (simp_all add: scan_dir_iff)

lemma validated_holds:
  assumes "scan_dir u depth dir = Inr scan" and "distinct (map fst dir)"
  shows "(\<exists>chain. validate_scan scan = Inr chain \<and> flatten_chain chain = (entries, tip)) \<longleftrightarrow>
    (\<exists>rs. holds_chain u depth dir rs \<and> entries = entries_of rs \<and> tip = tip_of rs)"
proof -
  have r: "readable u depth dir" using assms by (simp add: scan_dir_iff)
  have one: "(\<exists>chain. (if rs = [] then chain = AbsentChain
       else chain_order rs \<and> class_rules (entries_of rs) \<and>
         chain = WellFormedChain (row_digest (hd rs)) (entries_of rs) (row_digest (last rs)) (pending_of (entries_of rs)))
       \<and> flatten_chain chain = (entries, tip)) \<longleftrightarrow>
     (rs = [] \<or> chain_order rs \<and> class_rules (entries_of rs)) \<and> entries = entries_of rs \<and> tip = tip_of rs" for rs
    by (cases "rs = []") (auto simp: tip_of_def)
  show ?thesis
    unfolding validated_scan [OF found_distinct(1) [OF assms]] found_distinct(2) [OF assms] holds_chain_def
    using r one by blast
qed

lemma durable_iff:
  assumes "scan_dir u depth dir = Inr scan" and "distinct (map fst dir)"
  shows "durable_envelopes scan d = Some data \<longleftrightarrow> (\<exists>r \<in> set (dir_rows u depth dir). row_digest r = d \<and> row_bytes r = data)"
proof -
  have "set (found scan) = set (dir_rows u depth dir)" using found_distinct(2) [OF assms] by (rule mset_eq_setD)
  moreover have "distinct (map fst (map (\<lambda>r. (row_digest r, row_bytes r)) (found scan)))"
    using found_distinct(1) [OF assms] by (simp add: comp_def)
  ultimately have "durable_envelopes scan d = Some data \<longleftrightarrow>
      (d, data) \<in> (\<lambda>r. (row_digest r, row_bytes r)) ` set (dir_rows u depth dir)"
    unfolding durable_envelopes_def by (subst dict_of_Some) simp_all
  also have "\<dots> \<longleftrightarrow> (\<exists>r \<in> set (dir_rows u depth dir). row_digest r = d \<and> row_bytes r = data)"
    unfolding image_iff prod.inject by blast
  finally show ?thesis .
qed

lemma validate_empty_plan:
  assumes "distinct (map fst dir)"
  shows "validate_chain u depth dir [] = Inr v \<longleftrightarrow>
    (\<exists>rs. holds_chain u depth dir rs \<and> v = validated_of rs (case read_leaf dir STAGING_LEAF of
       None \<Rightarrow> [] | Some _ \<Rightarrow> [SurvivorAction STAGING_LEAF Survivor_REMOVE None]))"
proof (cases "scan_dir u depth dir")
  case (Inl e)
  then have "\<not> readable u depth dir" using scan_dir_iff [OF assms, of u depth
    "\<lparr>found = scanned_rows u depth (read_leaf dir) (map fst dir), staged = read_leaf dir STAGING_LEAF\<rparr>"] by auto
  with Inl show ?thesis by (auto simp: validate_chain_def planned_entries_def holds_chain_def)
next
  case (Inr scan)
  have "staged scan = read_leaf dir STAGING_LEAF" using Inr assms by (simp add: scan_dir_iff)
  then have "validate_chain u depth dir [] = Inr v \<longleftrightarrow>
    (\<exists>chain. validate_scan scan = Inr chain \<and> flatten_chain chain = (history_entries v, history_tip v)) \<and>
    survivors v = (case read_leaf dir STAGING_LEAF of None \<Rightarrow> [] | Some _ \<Rightarrow> [SurvivorAction STAGING_LEAF Survivor_REMOVE None])"
    using Inr
    by (cases v) (auto simp: validate_chain_def planned_entries_def bindr_Inr_iff survivors_of_def case_prod_unfold
        Let_def prod_eq_iff split: option.split)
  then show ?thesis
    unfolding validated_holds [OF Inr assms] by (cases v) (auto simp: validated_of_def)
qed

lemma validate_one_plan:
  assumes h: "holds_chain u depth dir rs" and e: "decode_entry u depth envelope = Inr (previous, entry)"
    and p: "previous = tip_of rs \<or> (\<exists>r \<in> set (dir_rows u depth dir). row_bytes r = envelope)"
  shows "validate_chain u depth dir [envelope] = Inr (validated_of rs (case read_leaf dir STAGING_LEAF of
      None \<Rightarrow> []
    | Some data \<Rightarrow>
        if data = envelope \<and> \<not> (\<exists>r \<in> set (dir_rows u depth dir). row_bytes r = envelope)
        then [SurvivorAction STAGING_LEAF Survivor_FINISH (Some envelope)]
        else [SurvivorAction STAGING_LEAF Survivor_REMOVE None]))"
proof -
  have d: "distinct (map fst dir)" and r: "readable u depth dir" using h by (auto simp: holds_chain_def readable_def)
  define scan where "scan = \<lparr>found = scanned_rows u depth (read_leaf dir) (map fst dir), staged = read_leaf dir STAGING_LEAF\<rparr>"
  have s: "scan_dir u depth dir = Inr scan" using scan_dir_iff [OF d] r by (simp add: scan_def)
  from validated_holds [OF s d] h obtain chain where c: "validate_scan scan = Inr chain"
      "flatten_chain chain = (entries_of rs, tip_of rs)" by blast
  have durable: "durable_envelopes scan (entry_digest envelope) = Some envelope \<longleftrightarrow>
      (\<exists>r \<in> set (dir_rows u depth dir). row_bytes r = envelope)"
    unfolding durable_iff [OF s d] using row_in_dir(2) by metis
  have "planned_entries u depth [envelope] = Inr [(envelope, previous)]"
    by (simp add: planned_entries_def plan_envelope_def decode_or_def e)
  moreover have "for_each (\<lambda>(e, p). guard (durable_envelopes scan (entry_digest e) = Some e \<or> p = tip_of rs)
      (chain_misuse PlannedUnlinked) (Inr ())) [(envelope, previous)] = Inr ()"
    using p durable by (auto simp: for_each_Inr_iff guard_def)
  moreover have "survivors_of scan [envelope] = (case read_leaf dir STAGING_LEAF of
      None \<Rightarrow> []
    | Some data \<Rightarrow>
        if data = envelope \<and> \<not> (\<exists>r \<in> set (dir_rows u depth dir). row_bytes r = envelope)
        then [SurvivorAction STAGING_LEAF Survivor_FINISH (Some envelope)]
        else [SurvivorAction STAGING_LEAF Survivor_REMOVE None])"
  proof -
    have "staged scan = read_leaf dir STAGING_LEAF" by (simp add: scan_def)
    then show ?thesis
      unfolding survivors_of_def durable [symmetric] by (cases "read_leaf dir STAGING_LEAF") auto
  qed
  ultimately show ?thesis
    using s c by (simp add: validate_chain_def validated_of_def)
qed

section \<open>Changing the directory\<close>

lemma drop_staging:
  assumes "readable u depth dir"
  shows "readable u depth (drop_leaf STAGING_LEAF dir)" "dir_rows u depth (drop_leaf STAGING_LEAF dir) = dir_rows u depth dir"
    "STAGING_LEAF \<notin> fst ` set (drop_leaf STAGING_LEAF dir)"
proof -
  show "readable u depth (drop_leaf STAGING_LEAF dir)"
    using assms by (simp add: readable_def drop_leaf_def distinct_map_filter)
  show "dir_rows u depth (drop_leaf STAGING_LEAF dir) = dir_rows u depth dir"
    by (simp add: dir_rows_def drop_leaf_def)
qed (auto simp: drop_leaf_def)

lemma holds_drop: "holds_chain u depth dir rs \<Longrightarrow> holds_chain u depth (drop_leaf STAGING_LEAF dir) rs"
  by (simp add: holds_chain_def drop_staging)

lemma holds_stage:
  assumes "holds_chain u depth dir rs"
  shows "holds_chain u depth (put_leaf STAGING_LEAF (Some data) dir) rs"
proof -
  have r: "readable u depth dir" using assms by (simp add: holds_chain_def)
  have "dir_rows u depth (put_leaf STAGING_LEAF (Some data) dir) = dir_rows u depth dir"
    using drop_staging(2) [OF r] by (simp add: put_leaf_def dir_rows_def)
  moreover have "readable u depth (put_leaf STAGING_LEAF (Some data) dir)"
    using drop_staging [OF r] by (auto simp: put_leaf_def readable_def)
  ultimately show ?thesis using assms by (simp add: holds_chain_def)
qed

lemma read_put: "read_leaf (put_leaf name leaf dir) name = leaf"
  by (simp add: read_leaf_def put_leaf_def)

lemma put_names: "fst ` set (put_leaf name leaf dir) = insert name (fst ` set dir)"
  by (auto simp: put_leaf_def drop_leaf_def)

lemma drop_names: "fst ` set (drop_leaf name dir) = fst ` set dir - {name}"
  by (auto simp: drop_leaf_def)

lemma holds_extend:
  assumes h: "holds_chain u depth dir rs" and row: "dir_row u depth (digest, Some envelope) = Some row"
    and new: "digest \<notin> fst ` set dir" and "digest \<noteq> STAGING_LEAF"
    and linked: "row_previous row = tip_of rs" and rules: "class_rules (entries_of (rs @ [row]))"
  shows "holds_chain u depth (put_leaf digest (Some envelope) dir) (rs @ [row])"
proof -
  have "drop_leaf digest dir = dir" using new by (auto simp: drop_leaf_def filter_id_conv)
  then have put: "put_leaf digest (Some envelope) dir = (digest, Some envelope) # dir" by (simp add: put_leaf_def)
  have "dir_rows u depth (put_leaf digest (Some envelope) dir) = row # dir_rows u depth dir"
    using assms(4) row by (simp add: put dir_rows_def map_filter_simps)
  moreover have "readable u depth (put_leaf digest (Some envelope) dir)"
    using h new row assms(4) by (simp add: put readable_def holds_chain_def)
  moreover have "chain_order (rs @ [row])"
    using h linked by (auto simp: order_snoc holds_chain_def tip_of_def)
  ultimately show ?thesis using h rules by (simp add: holds_chain_def)
qed

section \<open>The validated value\<close>

lemma holds_row:
  assumes "holds_chain u depth dir rs" and "r \<in> set rs"
  shows "entry_digest (row_bytes r) = row_digest r" "encode_entry u (row_previous r) (row_entry r) = Inr (row_bytes r)"
proof -
  have "r \<in> set (dir_rows u depth dir)" using assms by (auto simp: holds_chain_def dest: mset_eq_setD)
  from row_in_dir(2,3) [OF this] encode_decoded
  show "entry_digest (row_bytes r) = row_digest r" "encode_entry u (row_previous r) (row_entry r) = Inr (row_bytes r)" by auto
qed

lemma named_follows:
  "follows d rs \<Longrightarrow> \<forall>r \<in> set rs. entry_digest (row_bytes r) = row_digest r \<and>
     encode_entry u (row_previous r) (row_entry r) = Inr (row_bytes r) \<Longrightarrow>
   require_named u (Some d) (entries_of rs) = Inr (Some (last (d # map row_digest rs)))"
  by (induction d rs rule: follows.induct) auto

lemma named_chain:
  assumes "holds_chain u depth dir rs"
  shows "require_named u None (entries_of rs) = Inr (tip_of rs)"
proof (cases rs)
  case (Cons g qs)
  with assms have g: "row_previous g = None" "follows (row_digest g) qs" by (auto simp: holds_chain_def)
  moreover have "\<forall>r \<in> set rs. entry_digest (row_bytes r) = row_digest r \<and>
      encode_entry u (row_previous r) (row_entry r) = Inr (row_bytes r)" using holds_row [OF assms] by blast
  ultimately show ?thesis using named_follows [OF g(2), of u] Cons by (simp add: tip_of_def last_map)
qed (simp add: tip_of_def)

definition action_ok :: "unicode_tables \<Rightarrow> nat \<Rightarrow> pystr option \<Rightarrow> survivor_action \<Rightarrow> bool" where
  "action_ok u depth tip action \<longleftrightarrow> action = SurvivorAction STAGING_LEAF Survivor_REMOVE None \<or>
     (\<exists>data entry. action = SurvivorAction STAGING_LEAF Survivor_FINISH (Some data) \<and>
        decode_entry u depth data = Inr (tip, entry))"

lemma fields_pass:
  assumes "holds_chain u depth dir rs" and "length actions \<le> 1" and "\<forall>action \<in> set actions. action_ok u depth (tip_of rs) action"
  shows "validated_fields u depth (validated_of rs actions) = Inr ()"
proof -
  have "action_fields u depth action (tip_of rs) = Inr ()" if "action \<in> set actions" for action
    using assms(3) that by (auto simp: action_ok_def action_fields_def decode_or_def)
  then show ?thesis
    using named_chain [OF assms(1)] assms(2) by (simp add: validated_fields_def validated_of_def for_each_Inr_iff)
qed

end
