(* ===== verification/ChainAppendCorrect.thy ===== *)
theory ChainAppendCorrect
  imports ChainFilesCorrect
begin

text \<open>
  Extending a chain is atomic: every directory that is seen while an entry is appended, and so
  every directory that a crash leaves, reads as the old chain or as the new one, and applying the
  survivor that it reports completes it to one of them.
\<close>

section \<open>Writing the staging leaf\<close>

definition staging_phase :: "unicode_tables \<Rightarrow> nat \<Rightarrow> chain_row list \<Rightarrow> pystr \<Rightarrow> chain_dir \<Rightarrow> bool" where
  "staging_phase u depth rs digest dir \<longleftrightarrow> holds_chain u depth dir rs \<and> digest \<notin> fst ` set dir"

definition honest :: "(bytes \<Rightarrow> nat) \<Rightarrow> bool" where
  "honest accepts \<longleftrightarrow> (\<forall>data. data \<noteq> [] \<longrightarrow> 0 < accepts data \<and> accepts data \<le> length data)"

lemma stage_phase: "staging_phase u depth rs digest dir \<Longrightarrow> digest \<noteq> STAGING_LEAF \<Longrightarrow>
    staging_phase u depth rs digest (put_leaf STAGING_LEAF (Some data) dir)"
  by (simp add: staging_phase_def holds_stage put_names)

lemma write_all_phase:
  assumes "digest \<noteq> STAGING_LEAF" and "staging_phase u depth rs digest (now s)"
    and "read_leaf (now s) STAGING_LEAF = Some written"
  shows "\<exists>r s' new. write_all accepts STAGING_LEAF data s = (r, s') \<and> staging_phase u depth rs digest (now s') \<and>
    seen s' = seen s @ new \<and> (\<forall>dir \<in> set new. staging_phase u depth rs digest dir) \<and>
    (r = Inr () \<longrightarrow> read_leaf (now s') STAGING_LEAF = Some (written @ data)) \<and> (honest accepts \<longrightarrow> r = Inr ())"
  using assms(2,3)
proof (induction accepts "STAGING_LEAF" data arbitrary: s written rule: write_all.induct)
  case (1 accepts data)
  show ?case
  proof (cases "data = []")
    case True
    then show ?thesis using "1.prems" by (simp add: write_all.simps returns_def)
  next
    case False
    show ?thesis
    proof (cases "0 < accepts data \<and> accepts data \<le> length data")
      case True
      define dir where "dir = put_leaf STAGING_LEAF (Some (written @ take (accepts data) data)) (now s)"
      define s1 where "s1 = \<lparr>now = dir, seen = seen s @ [dir]\<rparr>"
      have w: "write_file STAGING_LEAF (take (accepts data) data) s = (Inr (), s1)"
        using "1.prems"(2) by (simp add: write_file_def changing_def lookup_or_def s1_def dir_def)
      have p: "staging_phase u depth rs digest (now s1)"
        using stage_phase [OF "1.prems"(1) assms(1)] by (simp add: s1_def dir_def)
      have "read_leaf (now s1) STAGING_LEAF = Some (written @ take (accepts data) data)"
        by (simp add: s1_def dir_def read_put)
      from "1.hyps" [OF False True p this] obtain r s' new where r:
          "write_all accepts STAGING_LEAF (drop (accepts data) data) s1 = (r, s')" "staging_phase u depth rs digest (now s')"
          "seen s' = seen s1 @ new" "\<forall>dir \<in> set new. staging_phase u depth rs digest dir"
          "r = Inr () \<longrightarrow> read_leaf (now s') STAGING_LEAF = Some ((written @ take (accepts data) data) @ drop (accepts data) data)"
          "honest accepts \<longrightarrow> r = Inr ()" by blast
      have "write_all accepts STAGING_LEAF data s = (r, s')"
        using False True w r(1) by (simp add: write_all.simps [of accepts STAGING_LEAF data] andthen_disk_def)
      moreover have "seen s' = seen s @ (dir # new)" "\<forall>d \<in> set (dir # new). staging_phase u depth rs digest d"
        using r(3,4) p by (simp_all add: s1_def)
      ultimately show ?thesis using r(2,5,6) by (metis append.assoc append_take_drop_id)
    next
      case bad: False
      then have "\<not> honest accepts" using False by (auto simp: honest_def)
      moreover have "write_all accepts STAGING_LEAF data s = (Inl (chain_misuse WriteStep), s)"
        using False bad by (subst write_all.simps) (auto simp: require_disk_def)
      ultimately show ?thesis using "1.prems" by auto
    qed
  qed
qed

section \<open>Appending\<close>

definition new_row :: "chain_row list \<Rightarrow> chain_entry \<Rightarrow> bytes \<Rightarrow> chain_row" where
  "new_row rs entry envelope = (entry_digest envelope, tip_of rs, entry, envelope)"

text \<open>An entry that may be appended: encodable, new to the directory, and within the rules.\<close>

definition appendable ::
  "unicode_tables \<Rightarrow> nat \<Rightarrow> chain_dir \<Rightarrow> chain_row list \<Rightarrow> chain_entry \<Rightarrow> bytes \<Rightarrow> bool" where
  "appendable u depth dir rs entry envelope \<longleftrightarrow> 5 \<le> depth \<and> holds_chain u depth dir rs \<and>
     encode_entry u (tip_of rs) entry = Inr envelope \<and> entry_digest envelope \<notin> fst ` set dir \<and>
     class_rules (entries_of (rs @ [new_row rs entry envelope]))"

definition completed ::
  "unicode_tables \<Rightarrow> nat \<Rightarrow> chain_row list \<Rightarrow> chain_entry \<Rightarrow> bytes \<Rightarrow> chain_dir \<Rightarrow> bool" where
  "completed u depth rs entry envelope dir \<longleftrightarrow>
     holds_chain u depth dir (rs @ [new_row rs entry envelope]) \<and> STAGING_LEAF \<notin> fst ` set dir"

lemma digest_not_staging: "entry_digest data \<noteq> STAGING_LEAF"
  using entry_digest_hex [of data] by (auto simp: is_hex_digest_def STAGING_LEAF_def)

lemma appendable_row:
  assumes "appendable u depth dir rs entry envelope"
  shows "decode_entry u depth envelope = Inr (tip_of rs, entry)"
    "dir_row u depth (entry_digest envelope, Some envelope) = Some (new_row rs entry envelope)"
proof -
  show "decode_entry u depth envelope = Inr (tip_of rs, entry)"
    using assms decode_encoded by (simp add: appendable_def)
  then show "dir_row u depth (entry_digest envelope, Some envelope) = Some (new_row rs entry envelope)"
    using entry_digest_hex [of envelope] by (simp add: dir_row_def leaf_row_def new_row_def)
qed

lemma transfer_completes:
  assumes a: "appendable u depth dir rs entry envelope"
    and p: "staging_phase u depth rs (entry_digest envelope) d" and r: "read_leaf d STAGING_LEAF = Some envelope"
  defines "final \<equiv> put_leaf (entry_digest envelope) (Some envelope) (drop_leaf STAGING_LEAF d)"
  shows "completed u depth rs entry envelope final"
    "\<lbrakk>now s = d\<rbrakk> \<Longrightarrow> transfer_noclobber STAGING_LEAF (entry_digest envelope) s = (Inr (), \<lparr>now = final, seen = seen s @ [final]\<rparr>)"
proof -
  have h: "holds_chain u depth d rs" and n: "entry_digest envelope \<notin> fst ` set d" using p by (simp_all add: staging_phase_def)
  have "row_previous (new_row rs entry envelope) = tip_of rs" by (simp add: new_row_def)
  moreover have "class_rules (entries_of (rs @ [new_row rs entry envelope]))" using a by (simp add: appendable_def)
  moreover have "entry_digest envelope \<notin> fst ` set (drop_leaf STAGING_LEAF d)" using n by (simp add: drop_names)
  ultimately show "completed u depth rs entry envelope final"
    using holds_extend [OF holds_drop [OF h] appendable_row(2) [OF a] _ digest_not_staging] digest_not_staging
    unfolding completed_def final_def by (metis DiffE drop_names insertCI insertE put_names)
  from r have "map_of d STAGING_LEAF = Some (Some envelope)"
    by (auto simp: read_leaf_def split: option.splits)
  then show "transfer_noclobber STAGING_LEAF (entry_digest envelope) s = (Inr (), \<lparr>now = final, seen = seen s @ [final]\<rparr>)"
    if "now s = d" using that n by (simp add: transfer_noclobber_def changing_def lookup_or_def final_def)
qed

lemma append_run:
  assumes a: "appendable u depth dir rs entry envelope" and stage: "STAGING_LEAF \<notin> fst ` set dir"
  shows "\<exists>r s. append_entry u depth accepts (validated_of rs []) entry \<lparr>now = dir, seen = []\<rparr> = (r, s) \<and>
    (\<forall>d \<in> set (seen s). staging_phase u depth rs (entry_digest envelope) d \<or> completed u depth rs entry envelope d) \<and>
    (honest accepts \<longrightarrow> r = Inr (entry_digest envelope) \<and> completed u depth rs entry envelope (now s))"
proof -
  have h: "holds_chain u depth dir rs" and e: "encode_entry u (tip_of rs) entry = Inr envelope"
    and n: "entry_digest envelope \<notin> fst ` set dir" using a by (simp_all add: appendable_def)
  have d: "distinct (map fst dir)" using h by (simp add: holds_chain_def readable_def)
  have f: "validated_fields u depth (validated_of rs []) = Inr ()" using fields_pass [OF h] by simp
  have "read_leaf dir STAGING_LEAF = None" using stage staging_leaf [of dir] by simp
  then have v: "validate_chain u depth dir [] = Inr (validated_of rs [])"
    using validate_empty_plan [OF d, of u depth "validated_of rs []"] h by auto
  define dir1 where "dir1 = put_leaf STAGING_LEAF (Some []) dir"
  define s1 where "s1 = \<lparr>now = dir1, seen = [dir1]\<rparr>"
  have c: "create_exclusive STAGING_LEAF \<lparr>now = dir, seen = []\<rparr> = (Inr (), s1)"
    using stage by (simp add: create_exclusive_def changing_def s1_def dir1_def)
  have p1: "staging_phase u depth rs (entry_digest envelope) (now s1)" "read_leaf (now s1) STAGING_LEAF = Some []"
    using h n stage_phase [OF _ digest_not_staging] by (simp_all add: s1_def dir1_def staging_phase_def read_put)
  from write_all_phase [OF digest_not_staging p1, of accepts envelope] obtain r s2 new where w:
      "write_all accepts STAGING_LEAF envelope s1 = (r, s2)" "staging_phase u depth rs (entry_digest envelope) (now s2)"
      "seen s2 = seen s1 @ new" "\<forall>d \<in> set new. staging_phase u depth rs (entry_digest envelope) d"
      "r = Inr () \<longrightarrow> read_leaf (now s2) STAGING_LEAF = Some envelope" "honest accepts \<longrightarrow> r = Inr ()"
    by auto
  have seen2: "\<forall>d \<in> set (seen s2). staging_phase u depth rs (entry_digest envelope) d"
    using w(3,4) p1(1) by (simp add: s1_def)
  have run: "append_entry u depth accepts (validated_of rs []) entry \<lparr>now = dir, seen = []\<rparr> =
      andthen_disk (write_all accepts STAGING_LEAF envelope) (\<lambda>_.
        andthen_disk (catching FileExistsError (transfer_noclobber STAGING_LEAF (entry_digest envelope))
          (prove_eexist u depth envelope (entry_digest envelope) (tip_of rs, entry))) (\<lambda>_.
        returns (entry_digest envelope))) s1"
    using f e v c
    by (simp add: append_entry_def andthen_disk_def reading_def require_disk_def validating_def catching_def Let_def
        validated_of_def)
  show ?thesis
  proof (cases r)
    case (Inl fault)
    then show ?thesis using run w(1,6) seen2 by (auto simp: andthen_disk_def)
  next
    case (Inr x)
    define final where "final = put_leaf (entry_digest envelope) (Some envelope) (drop_leaf STAGING_LEAF (now s2))"
    have "read_leaf (now s2) STAGING_LEAF = Some envelope" using w(5) Inr by simp
    from transfer_completes [OF a w(2) this] have t: "completed u depth rs entry envelope final"
      "transfer_noclobber STAGING_LEAF (entry_digest envelope) s2 = (Inr (), \<lparr>now = final, seen = seen s2 @ [final]\<rparr>)"
      unfolding final_def by auto
    with run w(1) Inr have "append_entry u depth accepts (validated_of rs []) entry \<lparr>now = dir, seen = []\<rparr> =
        (Inr (entry_digest envelope), \<lparr>now = final, seen = seen s2 @ [final]\<rparr>)"
      by (simp add: andthen_disk_def catching_def returns_def)
    with t(1) seen2 show ?thesis by auto
  qed
qed

section \<open>Recovering\<close>

lemma validate_held:
  assumes "holds_chain u depth d rs"
  shows "validate_chain u depth d [] = Inr (validated_of rs (case read_leaf d STAGING_LEAF of
       None \<Rightarrow> [] | Some _ \<Rightarrow> [SurvivorAction STAGING_LEAF Survivor_REMOVE None]))"
proof -
  have "distinct (map fst d)" using assms by (simp add: holds_chain_def readable_def)
  from validate_empty_plan [OF this] assms show ?thesis by blast
qed

lemma apply_nothing:
  assumes "holds_chain u depth d rs" and "read_leaf d STAGING_LEAF = None"
  shows "apply_survivors u depth (validated_of rs []) \<lparr>now = d, seen = []\<rparr> = (Inr (validated_of rs []), \<lparr>now = d, seen = []\<rparr>)"
  using fields_pass [OF assms(1), of "[]"] validate_held [OF assms(1)] assms(2)
  by (simp add: apply_survivors_def andthen_disk_def reading_def require_disk_def validating_def returns_def validated_of_def)

lemma unlink_staged:
  assumes "read_leaf (now s) STAGING_LEAF = Some data"
  shows "unlink_stage s = (Inr (), \<lparr>now = drop_leaf STAGING_LEAF (now s), seen = seen s @ [drop_leaf STAGING_LEAF (now s)]\<rparr>)"
proof -
  have "STAGING_LEAF \<in> fst ` set (now s)" using assms staging_leaf [of "now s"] by (auto split: if_splits)
  then show ?thesis by (simp add: unlink_stage_def catching_def unlink_child_def changing_def)
qed

lemma no_staging: "STAGING_LEAF \<notin> fst ` set d \<Longrightarrow> read_leaf d STAGING_LEAF = None"
  using staging_leaf [of d] by simp

lemma apply_removal:
  assumes h: "holds_chain u depth d rs" and "read_leaf d STAGING_LEAF = Some data"
  shows "apply_survivors u depth (validated_of rs [SurvivorAction STAGING_LEAF Survivor_REMOVE None]) \<lparr>now = d, seen = []\<rparr> =
    (Inr (validated_of rs []), \<lparr>now = drop_leaf STAGING_LEAF d, seen = [drop_leaf STAGING_LEAF d]\<rparr>)"
proof -
  have "read_leaf (drop_leaf STAGING_LEAF d) STAGING_LEAF = None" by (rule no_staging) (simp add: drop_names)
  then have "validate_chain u depth (drop_leaf STAGING_LEAF d) [] = Inr (validated_of rs [])"
    using validate_held [OF holds_drop [OF h]] by simp
  moreover have "validated_fields u depth (validated_of rs [SurvivorAction STAGING_LEAF Survivor_REMOVE None]) = Inr ()"
    using fields_pass [OF h] by (simp add: action_ok_def)
  ultimately show ?thesis
    using validate_held [OF h] assms(2) unlink_staged [of "\<lparr>now = d, seen = []\<rparr>"]
    by (simp add: apply_survivors_def remove_survivor_def andthen_disk_def reading_def require_disk_def validating_def
        validated_of_def same_history_def)
qed

lemma apply_finish:
  assumes a: "appendable u depth dir rs entry envelope"
    and p: "staging_phase u depth rs (entry_digest envelope) d" and r: "read_leaf d STAGING_LEAF = Some envelope"
  shows "\<exists>s. apply_survivors u depth (validated_of rs [SurvivorAction STAGING_LEAF Survivor_FINISH (Some envelope)])
      \<lparr>now = d, seen = []\<rparr> = (Inr (validated_of (rs @ [new_row rs entry envelope]) []), s) \<and>
    completed u depth rs entry envelope (now s)"
proof -
  have h: "holds_chain u depth d rs" using p by (simp add: staging_phase_def)
  define final where "final = put_leaf (entry_digest envelope) (Some envelope) (drop_leaf STAGING_LEAF d)"
  from transfer_completes [OF a p r] have c: "completed u depth rs entry envelope final"
    and t: "transfer_noclobber STAGING_LEAF (entry_digest envelope) \<lparr>now = d, seen = []\<rparr> = (Inr (), \<lparr>now = final, seen = [final]\<rparr>)"
    unfolding final_def by auto
  from c have "read_leaf final STAGING_LEAF = None" "holds_chain u depth final (rs @ [new_row rs entry envelope])"
    by (simp_all add: completed_def no_staging)
  then have f: "validate_chain u depth final [] = Inr (validated_of (rs @ [new_row rs entry envelope]) [])"
    using validate_held by fastforce
  have "validated_fields u depth (validated_of rs [SurvivorAction STAGING_LEAF Survivor_FINISH (Some envelope)]) = Inr ()"
    using fields_pass [OF h] appendable_row(1) [OF a] by (simp add: action_ok_def)
  moreover have "entries_of (rs @ [new_row rs entry envelope]) = entries_of rs @ [(entry_digest envelope, entry)]"
    "tip_of (rs @ [new_row rs entry envelope]) = Some (entry_digest envelope)"
    by (simp_all add: entries_of_def new_row_def tip_of_def)
  ultimately have "apply_survivors u depth (validated_of rs [SurvivorAction STAGING_LEAF Survivor_FINISH (Some envelope)])
      \<lparr>now = d, seen = []\<rparr> = (Inr (validated_of (rs @ [new_row rs entry envelope]) []), \<lparr>now = final, seen = [final]\<rparr>)"
    using validate_held [OF h] r f t appendable_row(1) [OF a]
    by (simp add: apply_survivors_def complete_survivor_def finish_survivor_def andthen_disk_def reading_def
        require_disk_def validating_def validated_of_def same_history_def require_bytes_def read_regular_def
        lookup_or_def catching_def returns_def Let_def)
  with c show ?thesis by auto
qed

lemma staging_absent:
  assumes "holds_chain u depth d rs" and "read_leaf d STAGING_LEAF = None"
  shows "STAGING_LEAF \<notin> fst ` set d"
proof
  assume "STAGING_LEAF \<in> fst ` set d"
  then obtain leaf where "leaf \<in> set d" "fst leaf = STAGING_LEAF" by auto
  with assms read_leaf_in [of d leaf] show False by (auto simp: holds_chain_def readable_def)
qed

lemma recover_run:
  assumes a: "appendable u depth dir rs entry envelope"
    and d: "staging_phase u depth rs (entry_digest envelope) d \<or> completed u depth rs entry envelope d"
  shows "\<exists>v s rs'. validate_chain u depth d [envelope] = Inr v \<and>
    apply_survivors u depth v \<lparr>now = d, seen = []\<rparr> = (Inr (validated_of rs' []), s) \<and>
    holds_chain u depth (now s) rs' \<and> STAGING_LEAF \<notin> fst ` set (now s) \<and>
    (rs' = rs \<or> rs' = rs @ [new_row rs entry envelope])"
  using d
proof
  assume p: "staging_phase u depth rs (entry_digest envelope) d"
  then have h: "holds_chain u depth d rs" and n: "entry_digest envelope \<notin> fst ` set d" by (simp_all add: staging_phase_def)
  have fresh: "\<not> (\<exists>r \<in> set (dir_rows u depth d). row_bytes r = envelope)"
  proof
    assume "\<exists>r \<in> set (dir_rows u depth d). row_bytes r = envelope"
    then obtain r where "r \<in> set (dir_rows u depth d)" "row_bytes r = envelope" by blast
    with row_in_dir(1,2) [OF this(1)] n show False by force
  qed
  have v: "validate_chain u depth d [envelope] = Inr (validated_of rs (case read_leaf d STAGING_LEAF of
      None \<Rightarrow> []
    | Some data \<Rightarrow> if data = envelope then [SurvivorAction STAGING_LEAF Survivor_FINISH (Some envelope)]
        else [SurvivorAction STAGING_LEAF Survivor_REMOVE None]))"
    using validate_one_plan [OF h appendable_row(1) [OF a]] fresh by (simp split: option.split)
  consider "read_leaf d STAGING_LEAF = None" | "read_leaf d STAGING_LEAF = Some envelope"
    | data where "read_leaf d STAGING_LEAF = Some data" "data \<noteq> envelope" by (cases "read_leaf d STAGING_LEAF") blast+
  then show ?thesis
  proof cases
    case 1
    with v h apply_nothing [OF h] staging_absent [OF h 1] show ?thesis by auto
  next
    case 2
    from apply_finish [OF a p 2] 2 v show ?thesis by (auto simp: completed_def)
  next
    case 3
    then have "validate_chain u depth d [envelope] = Inr (validated_of rs [SurvivorAction STAGING_LEAF Survivor_REMOVE None])"
      using v by simp
    with apply_removal [OF h 3(1)] holds_drop [OF h] drop_names [of STAGING_LEAF d] show ?thesis by fastforce
  qed
next
  assume c: "completed u depth rs entry envelope d"
  then have h: "holds_chain u depth d (rs @ [new_row rs entry envelope])" and n: "read_leaf d STAGING_LEAF = None"
    by (simp_all add: completed_def no_staging)
  from h have "new_row rs entry envelope \<in> set (dir_rows u depth d)"
    by (metis holds_chain_def in_set_conv_decomp mset_eq_setD)
  moreover have "row_bytes (new_row rs entry envelope) = envelope" by (simp add: new_row_def)
  ultimately have "\<exists>r \<in> set (dir_rows u depth d). row_bytes r = envelope" by blast
  from validate_one_plan [OF h appendable_row(1) [OF a] disjI2 [OF this]] n
  have "validate_chain u depth d [envelope] = Inr (validated_of (rs @ [new_row rs entry envelope]) [])" by simp
  with apply_nothing [OF h n] c show ?thesis by (auto simp: completed_def)
qed

section \<open>Properties\<close>

lemma appendable_chain:
  assumes "5 \<le> depth" and "distinct (map fst dir)" and "validate_chain u depth dir [] = Inr chain" and "survivors chain = []"
    and "encode_entry u (history_tip chain) entry = Inr envelope" and "entry_digest envelope \<notin> fst ` set dir"
    and "class_rules (history_entries chain @ [(entry_digest envelope, entry)])"
  shows "\<exists>rs. chain = validated_of rs [] \<and> appendable u depth dir rs entry envelope \<and> STAGING_LEAF \<notin> fst ` set dir"
proof -
  from assms(3) obtain rs where rs: "holds_chain u depth dir rs" "chain = validated_of rs (case read_leaf dir STAGING_LEAF of
       None \<Rightarrow> [] | Some _ \<Rightarrow> [SurvivorAction STAGING_LEAF Survivor_REMOVE None])"
    unfolding validate_empty_plan [OF assms(2)] by blast
  with assms(4) have n: "read_leaf dir STAGING_LEAF = None" by (auto simp: validated_of_def split: option.splits)
  with rs assms have "appendable u depth dir rs entry envelope"
    by (simp add: appendable_def validated_of_def new_row_def entries_of_def)
  with rs n staging_absent [OF rs(1) n] show ?thesis by auto
qed

lemma extended_entries:
  "history_entries (validated_of (rs @ [new_row rs entry envelope]) actions) =
   history_entries (validated_of rs other) @ [(entry_digest envelope, entry)]"
  by (simp add: validated_of_def entries_of_def new_row_def)

text \<open>
  C10: Appending is atomic under crashes. An entry is appended to a validated chain that it may
  extend; the appending may fail at any write. Whatever directory is left, the one at the start
  or any that is seen on the way, validating it with the planned envelope and applying the
  survivor succeeds, and the chain that is then in the directory is the old one or the old one
  with the entry, with nothing staged.
\<close>

theorem append_crash_atomic:
  assumes "5 \<le> depth" and "distinct (map fst dir)" and "validate_chain u depth dir [] = Inr chain" and "survivors chain = []"
    and "encode_entry u (history_tip chain) entry = Inr envelope" and "entry_digest envelope \<notin> fst ` set dir"
    and "class_rules (history_entries chain @ [(entry_digest envelope, entry)])"
    and "append_entry u depth accepts chain entry \<lparr>now = dir, seen = []\<rparr> = (r, s)"
    and "crashed \<in> set (dir # seen s)"
  shows "\<exists>v recovered s'. validate_chain u depth crashed [envelope] = Inr v \<and>
    apply_survivors u depth v \<lparr>now = crashed, seen = []\<rparr> = (Inr recovered, s') \<and>
    validate_chain u depth (now s') [] = Inr recovered \<and> survivors recovered = [] \<and>
    history_entries recovered \<in> {history_entries chain, history_entries chain @ [(entry_digest envelope, entry)]}"
proof -
  from appendable_chain [OF assms(1-7)] obtain rs where rs: "chain = validated_of rs []"
      "appendable u depth dir rs entry envelope" "STAGING_LEAF \<notin> fst ` set dir" by blast
  from append_run [OF rs(2,3), of accepts] assms(8) rs(1)
  have "\<forall>d \<in> set (seen s). staging_phase u depth rs (entry_digest envelope) d \<or> completed u depth rs entry envelope d" by auto
  moreover have "staging_phase u depth rs (entry_digest envelope) dir"
    using rs(2) by (simp add: staging_phase_def appendable_def)
  ultimately have "staging_phase u depth rs (entry_digest envelope) crashed \<or> completed u depth rs entry envelope crashed"
    using assms(9) by auto
  from recover_run [OF rs(2) this] obtain v s' rs' where v: "validate_chain u depth crashed [envelope] = Inr v"
      "apply_survivors u depth v \<lparr>now = crashed, seen = []\<rparr> = (Inr (validated_of rs' []), s')"
      "holds_chain u depth (now s') rs'" "STAGING_LEAF \<notin> fst ` set (now s')"
      "rs' = rs \<or> rs' = rs @ [new_row rs entry envelope]" by blast
  have "validate_chain u depth (now s') [] = Inr (validated_of rs' [])"
    using validate_held [OF v(3)] no_staging [OF v(4)] by simp
  moreover have "survivors (validated_of rs' []) = []" by (simp add: validated_of_def)
  moreover have "history_entries (validated_of rs' []) \<in>
      {history_entries chain, history_entries chain @ [(entry_digest envelope, entry)]}"
    using v(5) rs(1) extended_entries [of rs entry envelope "[]" "[]"] by auto
  ultimately show ?thesis using v(1,2) by blast
qed

text \<open>
  C17: Appending succeeds. Where every write accepts at least one byte, the entry is appended under
  its digest and the directory then validates as the old history with the entry at its tip.
\<close>

theorem append_succeeds:
  assumes "5 \<le> depth" and "distinct (map fst dir)" and "validate_chain u depth dir [] = Inr chain" and "survivors chain = []"
    and "encode_entry u (history_tip chain) entry = Inr envelope" and "entry_digest envelope \<notin> fst ` set dir"
    and "class_rules (history_entries chain @ [(entry_digest envelope, entry)])"
    and "honest accepts"
  shows "\<exists>s. append_entry u depth accepts chain entry \<lparr>now = dir, seen = []\<rparr> = (Inr (entry_digest envelope), s) \<and>
    validate_chain u depth (now s) [] =
      Inr \<lparr>history_entries = history_entries chain @ [(entry_digest envelope, entry)],
           history_tip = Some (entry_digest envelope), survivors = []\<rparr>"
proof -
  from appendable_chain [OF assms(1-7)] obtain rs where rs: "chain = validated_of rs []"
      "appendable u depth dir rs entry envelope" "STAGING_LEAF \<notin> fst ` set dir" by blast
  from append_run [OF rs(2,3), of accepts] assms(8) rs(1) obtain s where
      s: "append_entry u depth accepts chain entry \<lparr>now = dir, seen = []\<rparr> = (Inr (entry_digest envelope), s)"
      "completed u depth rs entry envelope (now s)" by auto
  from s(2) have "validate_chain u depth (now s) [] = Inr (validated_of (rs @ [new_row rs entry envelope]) [])"
    using validate_held [of u depth "now s" "rs @ [new_row rs entry envelope]"] by (simp add: completed_def no_staging)
  with s(1) rs(1) show ?thesis by (auto simp: validated_of_def entries_of_def new_row_def tip_of_def)
qed

text \<open>The first entry of a chain, written byte by byte into an empty directory.\<close>

definition empty_chain :: validated_chain where
  "empty_chain = \<lparr>history_entries = [], history_tip = None, survivors = []\<rparr>"

lemma sample_appended:
  "\<exists>envelope. encode_entry plain_tables None sample_entry = Inr envelope"
  "validate_chain plain_tables 1000 [] [] = Inr empty_chain"
  "class_rules [(d, sample_entry)]" "honest (\<lambda>_. 1)"
proof -
  have "okay (encode_entry plain_tables None sample_entry)" by code_simp
  then show "\<exists>envelope. encode_entry plain_tables None sample_entry = Inr envelope" by (auto simp: okay_def)
  have "holds_chain plain_tables 1000 [] []" by (simp add: holds_chain_def readable_def dir_rows_def map_filter_simps)
  from validate_held [OF this] show "validate_chain plain_tables 1000 [] [] = Inr empty_chain"
    by (simp add: no_staging validated_of_def tip_of_def empty_chain_def)
  show "class_rules [(d, sample_entry)]"
    by (simp add: class_rules_def sample_entry_def registered_in_def settled_in_def committed_fulfillments_def
        map_filter_simps refers_back_def)
  show "honest (\<lambda>_. 1)" by (auto simp: honest_def Suc_le_eq)
qed

theorem append_crash_atomic_example:
  "\<exists>envelope v recovered s. encode_entry plain_tables None sample_entry = Inr envelope \<and>
     validate_chain plain_tables 1000 [] [envelope] = Inr v \<and>
     apply_survivors plain_tables 1000 v \<lparr>now = [], seen = []\<rparr> = (Inr recovered, s) \<and>
     history_entries recovered \<in> {[], [(entry_digest envelope, sample_entry)]}"
proof -
  obtain envelope where e: "encode_entry plain_tables None sample_entry = Inr envelope" using sample_appended(1) by blast
  obtain r s where run: "append_entry plain_tables 1000 (\<lambda>_. 1) empty_chain sample_entry \<lparr>now = [], seen = []\<rparr> = (r, s)"
    by (rule prod.exhaust)
  have "\<exists>v recovered s'. validate_chain plain_tables 1000 [] [envelope] = Inr v \<and>
      apply_survivors plain_tables 1000 v \<lparr>now = [], seen = []\<rparr> = (Inr recovered, s') \<and>
      validate_chain plain_tables 1000 (now s') [] = Inr recovered \<and> survivors recovered = [] \<and>
      history_entries recovered \<in> {history_entries empty_chain, history_entries empty_chain @ [(entry_digest envelope, sample_entry)]}"
    by (rule append_crash_atomic [OF _ _ sample_appended(2) _ _ _ _ run])
      (use e sample_appended(3) in \<open>simp_all add: empty_chain_def\<close>)
  then obtain v recovered s' where "validate_chain plain_tables 1000 [] [envelope] = Inr v"
      "apply_survivors plain_tables 1000 v \<lparr>now = [], seen = []\<rparr> = (Inr recovered, s')"
      "history_entries recovered \<in> {[], [(entry_digest envelope, sample_entry)]}" by (auto simp: empty_chain_def)
  with e show ?thesis by (intro exI conjI)
qed

theorem append_succeeds_example:
  "\<exists>envelope s. encode_entry plain_tables None sample_entry = Inr envelope \<and>
     append_entry plain_tables 1000 (\<lambda>_. 1) empty_chain sample_entry \<lparr>now = [], seen = []\<rparr> = (Inr (entry_digest envelope), s) \<and>
     okay (validate_chain plain_tables 1000 (now s) [])"
proof -
  obtain envelope where e: "encode_entry plain_tables None sample_entry = Inr envelope" using sample_appended(1) by blast
  have "\<exists>s. append_entry plain_tables 1000 (\<lambda>_. 1) empty_chain sample_entry \<lparr>now = [], seen = []\<rparr> = (Inr (entry_digest envelope), s) \<and>
      validate_chain plain_tables 1000 (now s) [] =
        Inr \<lparr>history_entries = history_entries empty_chain @ [(entry_digest envelope, sample_entry)],
             history_tip = Some (entry_digest envelope), survivors = []\<rparr>"
    by (rule append_succeeds [OF _ _ sample_appended(2) _ _ _ _ sample_appended(4)])
      (use e sample_appended(3) in \<open>simp_all add: empty_chain_def\<close>)
  then obtain s where "append_entry plain_tables 1000 (\<lambda>_. 1) empty_chain sample_entry \<lparr>now = [], seen = []\<rparr> =
      (Inr (entry_digest envelope), s)" "okay (validate_chain plain_tables 1000 (now s) [])" by (auto simp: okay_def)
  with e show ?thesis by (intro exI conjI)
qed

end
