(* ===== verification/StoreSchema.thy ===== *)
theory StoreSchema
  imports Plan
begin

text \<open>
  The durable schema (\<open>store/schema.py\<close>) and the statements of the store on it
  (\<open>store/records.py\<close>, \<open>store/blobs.py\<close>). A table is the list of its rows by primary key. A column
  whose \<open>CHECK\<close> lists the values of an enumeration holds its members; the columns of the root
  tables are texts with their checks written out. Each trigger is a predicate that says when it
  raises; a statement that a trigger, a key or a check refuses raises \<open>IntegrityError\<close> and
  changes nothing. A text with a surrogate cannot be bound to a parameter.
\<close>

section \<open>Tables\<close>

record record_row =
  spec_json :: pystr
  state_column :: transaction_state
  committed_column :: commit_decision
  result_column :: "rollback_result option"
  diagnostic_column :: "pystr option"
  registration_column :: "pystr option"
  settlement_column :: "pystr option"
  evidence_column :: pystr
  assembly_column :: "pystr option"

record effect_row =
  variant_column :: effect_variant
  journal_column :: journal_state

record root_lifecycle =
  lifecycle_state :: pystr
  machine_id :: pystr
  root_path :: pystr
  lifecycle_origin :: pystr

record root_operation =
  operation_id :: pystr
  operation_kind :: pystr
  operation_phase :: pystr
  request_json :: pystr
  request_hash :: pystr
  source_snapshot :: "pystr option"
  destination_snapshot :: "pystr option"
  genesis_digest :: "pystr option"

record database =
  record_table :: "(pystr \<times> record_row) list"
  effect_table :: "((pystr \<times> pystr) \<times> effect_row) list"
  blob_table :: "(pystr \<times> int) list"
  active_table :: "pystr option"
  lifecycle_table :: "root_lifecycle option"
  operation_table :: "root_operation option"

definition empty_database :: database where
  "empty_database =
     \<lparr>record_table = [], effect_table = [], blob_table = [], active_table = None,
      lifecycle_table = None, operation_table = None\<rparr>"

section \<open>Statements\<close>

definition refuse_unless :: "bool \<Rightarrow> database \<Rightarrow> database result" where
  "refuse_unless admitted db = guard admitted IntegrityError (Inr db)"

definition bind_text :: "pystr \<Rightarrow> unit result" where
  "bind_text t = guard (utf8_encodable t) UnicodeEncodeError (Inr ())"

text \<open>\<open>UPDATE ... WHERE key = ?\<close> on the rows with this key; a statement that finds none changes none.\<close>

definition update_rows :: "'k \<Rightarrow> ('r \<Rightarrow> 'r) \<Rightarrow> ('k \<times> 'r) list \<Rightarrow> ('k \<times> 'r) list" where
  "update_rows key new rows = map (\<lambda>(k, r). (k, if k = key then new r else r)) rows"

text \<open>The result of an \<open>UPDATE\<close>: the table and the number of rows it matched.\<close>

definition update_record ::
  "(record_row \<Rightarrow> bool) \<Rightarrow> (record_row \<Rightarrow> record_row) \<Rightarrow> pystr \<Rightarrow> database \<Rightarrow> (database \<times> nat) result" where
  "update_record refused new txid db =
     (case map_of (record_table db) txid of
        None \<Rightarrow> Inr (db, 0)
      | Some old \<Rightarrow>
          guard (\<not> refused old) IntegrityError
            (Inr (db\<lparr>record_table := update_rows txid new (record_table db)\<rparr>, 1)))"

section \<open>Triggers on transactions\<close>

definition trg_registration_write_once :: "record_row \<Rightarrow> bool" where
  "trg_registration_write_once old \<longleftrightarrow> registration_column old \<noteq> None"

definition trg_settlement_write_once :: "record_row \<Rightarrow> bool" where
  "trg_settlement_write_once old \<longleftrightarrow> settlement_column old \<noteq> None"

definition trg_assembly_halt_write_once :: "record_row \<Rightarrow> bool" where
  "trg_assembly_halt_write_once old \<longleftrightarrow> assembly_column old \<noteq> None"

definition effects_of :: "pystr \<Rightarrow> database \<Rightarrow> (pystr \<times> effect_row) list" where
  "effects_of txid db = map (\<lambda>(key, row). (snd key, row)) (filter (\<lambda>(key, row). fst key = txid) (effect_table db))"

definition trg_registration_window :: "database \<Rightarrow> pystr \<Rightarrow> record_row \<Rightarrow> bool" where
  "trg_registration_window db txid old \<longleftrightarrow>
     state_column old \<noteq> Tx_PREPARED \<or>
     (\<exists>(effect_id, row) \<in> set (effects_of txid db). journal_column row \<noteq> J_PENDING)"

definition trg_departure_needs_registration :: "transaction_state \<Rightarrow> record_row \<Rightarrow> bool" where
  "trg_departure_needs_registration new old \<longleftrightarrow>
     state_column old = Tx_PREPARED \<and> new \<noteq> Tx_PREPARED \<and> registration_column old = None"

definition terminal_column :: "record_row \<Rightarrow> bool" where
  "terminal_column r \<longleftrightarrow> state_column r \<in> {Tx_COMMITTED, Tx_ROLLED_BACK}"

definition trg_journal_start_gate :: "database \<Rightarrow> pystr \<Rightarrow> journal_state \<Rightarrow> effect_row \<Rightarrow> bool" where
  "trg_journal_start_gate db txid new old \<longleftrightarrow>
     new = J_STARTED \<and> journal_column old = J_PENDING \<and>
     (case map_of (record_table db) txid of
        None \<Rightarrow> False
      | Some t \<Rightarrow> state_column t \<noteq> Tx_APPLYING \<or> registration_column t = None)"

definition trg_settlement_gate :: "record_row \<Rightarrow> bool" where
  "trg_settlement_gate old \<longleftrightarrow> registration_column old = None \<or> \<not> terminal_column old"

definition trg_active_delete_gate :: "database \<Rightarrow> pystr \<Rightarrow> bool" where
  "trg_active_delete_gate db txid \<longleftrightarrow>
     (case map_of (record_table db) txid of
        None \<Rightarrow> True
      | Some t \<Rightarrow>
          \<not> (terminal_column t \<and> registration_column t \<noteq> None \<and> settlement_column t \<noteq> None \<and>
             assembly_column t = None))"

definition trg_assembly_halt_freezes_record :: "record_row \<Rightarrow> bool" where
  "trg_assembly_halt_freezes_record old \<longleftrightarrow> assembly_column old \<noteq> None"

definition trg_assembly_halt_freezes_journal :: "database \<Rightarrow> pystr \<Rightarrow> bool" where
  "trg_assembly_halt_freezes_journal db txid \<longleftrightarrow>
     (case map_of (record_table db) txid of None \<Rightarrow> False | Some t \<Rightarrow> assembly_column t \<noteq> None)"

text \<open>\<open>UNIQUE\<close>: another row holds the digest already.\<close>

definition digest_taken :: "(record_row \<Rightarrow> pystr option) \<Rightarrow> pystr \<Rightarrow> pystr \<Rightarrow> database \<Rightarrow> bool" where
  "digest_taken column txid digest db \<longleftrightarrow>
     (\<exists>(t, r) \<in> set (record_table db). t \<noteq> txid \<and> column r = Some digest)"

section \<open>Statements on transactions\<close>

definition sql_insert_record :: "pystr \<Rightarrow> pystr \<Rightarrow> pystr \<Rightarrow> database \<Rightarrow> database result" where
  "sql_insert_record txid spec evidence db =
     andthen (bind_text spec) (andthen (bind_text evidence)
     (refuse_unless (map_of (record_table db) txid = None)
       (db\<lparr>record_table := record_table db @
            [(txid, \<lparr>spec_json = spec, state_column = Tx_PREPARED, committed_column = Decision_UNCOMMITTED,
                     result_column = None, diagnostic_column = None, registration_column = None,
                     settlement_column = None, evidence_column = evidence, assembly_column = None\<rparr>)]\<rparr>)))"

definition sql_insert_effect :: "pystr \<Rightarrow> pystr \<Rightarrow> effect_variant \<Rightarrow> database \<Rightarrow> database result" where
  "sql_insert_effect txid effect_id variant db =
     andthen (bind_text effect_id)
     (refuse_unless (map_of (effect_table db) (txid, effect_id) = None \<and> map_of (record_table db) txid \<noteq> None)
       (db\<lparr>effect_table := effect_table db @
            [((txid, effect_id), \<lparr>variant_column = variant, journal_column = J_PENDING\<rparr>)]\<rparr>))"

definition sql_update_state :: "pystr \<Rightarrow> transaction_state \<Rightarrow> database \<Rightarrow> (database \<times> nat) result" where
  "sql_update_state txid new db =
     update_record (\<lambda>old. trg_departure_needs_registration new old \<or> trg_assembly_halt_freezes_record old)
       (\<lambda>r. r\<lparr>state_column := new\<rparr>) txid db"

definition sql_update_committed :: "pystr \<Rightarrow> commit_decision \<Rightarrow> database \<Rightarrow> (database \<times> nat) result" where
  "sql_update_committed txid new db =
     update_record trg_assembly_halt_freezes_record (\<lambda>r. r\<lparr>committed_column := new\<rparr>) txid db"

definition sql_update_result :: "pystr \<Rightarrow> rollback_result \<Rightarrow> database \<Rightarrow> (database \<times> nat) result" where
  "sql_update_result txid new db =
     update_record trg_assembly_halt_freezes_record (\<lambda>r. r\<lparr>result_column := Some new\<rparr>) txid db"

definition sql_update_diagnostic :: "pystr \<Rightarrow> pystr \<Rightarrow> database \<Rightarrow> (database \<times> nat) result" where
  "sql_update_diagnostic txid new db =
     andthen (bind_text new)
       (update_record trg_assembly_halt_freezes_record (\<lambda>r. r\<lparr>diagnostic_column := Some new\<rparr>) txid db)"

definition sql_update_registration :: "pystr \<Rightarrow> pystr \<Rightarrow> database \<Rightarrow> (database \<times> nat) result" where
  "sql_update_registration txid digest db =
     andthen (bind_text digest)
       (update_record
          (\<lambda>old. trg_registration_write_once old \<or> trg_registration_window db txid old \<or>
                 trg_assembly_halt_freezes_record old \<or> digest_taken registration_column txid digest db)
          (\<lambda>r. r\<lparr>registration_column := Some digest\<rparr>) txid db)"

definition sql_update_settlement :: "pystr \<Rightarrow> pystr \<Rightarrow> database \<Rightarrow> (database \<times> nat) result" where
  "sql_update_settlement txid digest db =
     andthen (bind_text digest)
       (update_record
          (\<lambda>old. trg_settlement_write_once old \<or> trg_settlement_gate old \<or>
                 trg_assembly_halt_freezes_record old \<or> digest_taken settlement_column txid digest db)
          (\<lambda>r. r\<lparr>settlement_column := Some digest\<rparr>) txid db)"

definition sql_update_assembly_halt :: "pystr \<Rightarrow> pystr \<Rightarrow> database \<Rightarrow> (database \<times> nat) result" where
  "sql_update_assembly_halt txid payload db =
     andthen (bind_text payload)
       (update_record (\<lambda>old. trg_assembly_halt_write_once old \<or> trg_assembly_halt_freezes_record old)
          (\<lambda>r. r\<lparr>assembly_column := Some payload\<rparr>) txid db)"

definition sql_update_journal ::
  "pystr \<Rightarrow> pystr \<Rightarrow> journal_state \<Rightarrow> database \<Rightarrow> (database \<times> nat) result" where
  "sql_update_journal txid effect_id new db =
     (case map_of (effect_table db) (txid, effect_id) of
        None \<Rightarrow> Inr (db, 0)
      | Some old \<Rightarrow>
          guard (\<not> (trg_journal_start_gate db txid new old \<or> trg_assembly_halt_freezes_journal db txid)) IntegrityError
            (Inr (db\<lparr>effect_table :=
                    update_rows (txid, effect_id) (\<lambda>r. r\<lparr>journal_column := new\<rparr>) (effect_table db)\<rparr>, 1)))"

text \<open>\<open>ON CONFLICT(digest) DO NOTHING\<close>\<close>

definition sql_insert_blob :: "pystr \<Rightarrow> int \<Rightarrow> database \<Rightarrow> database result" where
  "sql_insert_blob digest len db =
     andthen (bind_text digest)
     (refuse_unless (0 \<le> len)
       (if map_of (blob_table db) digest = None then db\<lparr>blob_table := blob_table db @ [(digest, len)]\<rparr> else db))"

definition sql_insert_active :: "pystr \<Rightarrow> database \<Rightarrow> database result" where
  "sql_insert_active txid db =
     refuse_unless (active_table db = None \<and> map_of (record_table db) txid \<noteq> None)
       (db\<lparr>active_table := Some txid\<rparr>)"

definition sql_delete_active :: "database \<Rightarrow> database result" where
  "sql_delete_active db =
     refuse_unless (case active_table db of None \<Rightarrow> True | Some txid \<Rightarrow> \<not> trg_active_delete_gate db txid)
       (db\<lparr>active_table := None\<rparr>)"

section \<open>The root tables\<close>

text \<open>\<open>length(x) = n AND x NOT GLOB '*[^0-9a-f]*'\<close>: both read a text up to its first \<open>NUL\<close>.\<close>

definition sql_hex :: "nat \<Rightarrow> pystr \<Rightarrow> bool" where
  "sql_hex n x \<longleftrightarrow>
     (let text_read = takeWhile (\<lambda>c. c \<noteq> 0) x
      in length text_read = n \<and> list_all (\<lambda>c. 48 \<le> c \<and> c \<le> 57 \<or> 97 \<le> c \<and> c \<le> 102) text_read)"

text \<open>The texts of the columns are definitions, so that proofs compare them by their names.\<close>

definition root_writable :: pystr where "root_writable = py ''writable''"
definition serviceable :: pystr where "serviceable = py ''read-only-serviceable''"
definition unserviceable :: pystr where "unserviceable = py ''read-only-unserviceable''"
definition register_kind :: pystr where "register_kind = py ''register''"
definition replicate_kind :: pystr where "replicate_kind = py ''replicate''"
definition fork_kind :: pystr where "fork_kind = py ''fork''"
definition read_origin :: pystr where "read_origin = py ''read-serviceability''"
definition migration_origin :: pystr where "migration_origin = py ''migration-v2''"
definition recorded :: pystr where "recorded = py ''recorded''"
definition source_durable :: pystr where "source_durable = py ''source-snapshot-durable''"
definition tree_durable :: pystr where "tree_durable = py ''tree-durable''"
definition complete_phase :: pystr where "complete_phase = py ''complete''"

lemmas column_texts =
  root_writable_def serviceable_def unserviceable_def register_kind_def replicate_kind_def fork_kind_def
  read_origin_def migration_origin_def recorded_def source_durable_def tree_durable_def complete_phase_def

lemma column_texts_distinct:
  "distinct [root_writable, serviceable, unserviceable]" "distinct [unserviceable, serviceable, root_writable]"
  "distinct [register_kind, replicate_kind, fork_kind, read_origin, migration_origin]"
  "distinct [migration_origin, read_origin, fork_kind, replicate_kind, register_kind]"
  "distinct [recorded, source_durable, tree_durable, complete_phase]"
  "distinct [complete_phase, tree_durable, source_durable, recorded]"
  by (simp_all add: column_texts)

lemmas column_texts_differ [simp] = column_texts_distinct [simplified]

definition ROOT_LIFECYCLE_STATES :: "pystr list" where
  "ROOT_LIFECYCLE_STATES = [root_writable, serviceable, unserviceable]"

definition ROOT_OPERATION_KINDS :: "pystr list" where
  "ROOT_OPERATION_KINDS = [register_kind, replicate_kind, fork_kind]"

definition ROOT_LIFECYCLE_ORIGINS :: "pystr list" where
  "ROOT_LIFECYCLE_ORIGINS = ROOT_OPERATION_KINDS @ [read_origin, migration_origin]"

definition ROOT_OPERATION_PHASES :: "pystr list" where
  "ROOT_OPERATION_PHASES =
     [recorded, source_durable, tree_durable, complete_phase]"

definition check_lifecycle :: "root_lifecycle \<Rightarrow> bool" where
  "check_lifecycle l \<longleftrightarrow>
     lifecycle_state l \<in> set ROOT_LIFECYCLE_STATES \<and> lifecycle_origin l \<in> set ROOT_LIFECYCLE_ORIGINS \<and>
     sql_hex 32 (machine_id l) \<and> machine_id l \<noteq> replicate 32 48 \<and>
     takeWhile (\<lambda>c. c \<noteq> 0) (root_path l) \<noteq> [] \<and>
     (lifecycle_origin l \<in> {register_kind, fork_kind} \<and> lifecycle_state l \<in> {unserviceable, root_writable} \<or>
      lifecycle_origin l = replicate_kind \<and> lifecycle_state l \<in> {unserviceable, serviceable} \<or>
      lifecycle_origin l = read_origin \<and> lifecycle_state l = serviceable \<or>
      lifecycle_origin l = migration_origin \<and> lifecycle_state l = root_writable)"

definition check_operation :: "root_operation \<Rightarrow> bool" where
  "check_operation p \<longleftrightarrow>
     operation_kind p \<in> set ROOT_OPERATION_KINDS \<and> operation_phase p \<in> set ROOT_OPERATION_PHASES \<and>
     sql_hex 32 (operation_id p) \<and> sql_hex 64 (request_hash p) \<and>
     (case genesis_digest p of None \<Rightarrow> True | Some g \<Rightarrow> sql_hex 64 g) \<and>
     (operation_kind p = register_kind \<and> source_snapshot p = None \<and>
        (operation_phase p = recorded \<and> destination_snapshot p = None \<and> genesis_digest p = None \<or>
         operation_phase p \<in> {tree_durable, complete_phase} \<and> destination_snapshot p \<noteq> None \<and>
           genesis_digest p \<noteq> None) \<or>
      operation_kind p = replicate_kind \<and> genesis_digest p = None \<and>
        (operation_phase p = recorded \<and> source_snapshot p = None \<and> destination_snapshot p = None \<or>
         operation_phase p = source_durable \<and> source_snapshot p \<noteq> None \<and>
           destination_snapshot p = None \<or>
         operation_phase p \<in> {tree_durable, complete_phase} \<and> source_snapshot p \<noteq> None \<and>
           destination_snapshot p \<noteq> None) \<or>
      operation_kind p = fork_kind \<and>
        (operation_phase p = recorded \<and> source_snapshot p = None \<and> destination_snapshot p = None \<and>
           genesis_digest p = None \<or>
         operation_phase p = source_durable \<and> source_snapshot p \<noteq> None \<and>
           destination_snapshot p = None \<and> genesis_digest p = None \<or>
         operation_phase p \<in> {tree_durable, complete_phase} \<and> source_snapshot p \<noteq> None \<and>
           destination_snapshot p \<noteq> None \<and> genesis_digest p \<noteq> None))"

definition trg_root_lifecycle_insert_gate :: "database \<Rightarrow> root_lifecycle \<Rightarrow> bool" where
  "trg_root_lifecycle_insert_gate db new \<longleftrightarrow>
     \<not> (lifecycle_origin new \<in> {register_kind, replicate_kind, fork_kind} \<and> lifecycle_state new = unserviceable \<and>
          (case operation_table db of
             None \<Rightarrow> False
           | Some p \<Rightarrow> operation_kind p = lifecycle_origin new \<and> operation_phase p = recorded) \<or>
        lifecycle_origin new = read_origin \<and> lifecycle_state new = serviceable \<and>
          operation_table db = None \<or>
        lifecycle_origin new = migration_origin \<and> lifecycle_state new = root_writable \<and> operation_table db = None)"

definition trg_root_lifecycle_transition :: "database \<Rightarrow> root_lifecycle \<Rightarrow> pystr \<Rightarrow> bool" where
  "trg_root_lifecycle_transition db old new \<longleftrightarrow>
     \<not> (new = lifecycle_state old \<or>
        lifecycle_state old = unserviceable \<and> new = serviceable \<and>
          (case operation_table db of None \<Rightarrow> True | Some p \<Rightarrow> operation_phase p = complete_phase) \<or>
        lifecycle_state old = unserviceable \<and> new = root_writable \<and>
          lifecycle_origin old \<in> {register_kind, fork_kind} \<and>
          (case operation_table db of
             None \<Rightarrow> False
           | Some p \<Rightarrow> operation_kind p = lifecycle_origin old \<and> operation_phase p = tree_durable))"

definition trg_root_operation_insert_gate :: "database \<Rightarrow> root_operation \<Rightarrow> bool" where
  "trg_root_operation_insert_gate db new \<longleftrightarrow>
     operation_phase new \<noteq> recorded \<or> lifecycle_table db \<noteq> None"

text \<open>\<open>NEW.x IS NOT OLD.x\<close> for a field that was set.\<close>

definition overwrites :: "pystr option \<Rightarrow> pystr option \<Rightarrow> bool" where
  "overwrites old new \<longleftrightarrow> old \<noteq> None \<and> new \<noteq> old"

definition trg_root_operation_proof_write_once :: "root_operation \<Rightarrow> root_operation \<Rightarrow> bool" where
  "trg_root_operation_proof_write_once old new \<longleftrightarrow>
     overwrites (source_snapshot old) (source_snapshot new) \<or>
     overwrites (destination_snapshot old) (destination_snapshot new) \<or>
     overwrites (genesis_digest old) (genesis_digest new)"

definition trg_root_operation_phase_transition :: "root_operation \<Rightarrow> root_operation \<Rightarrow> bool" where
  "trg_root_operation_phase_transition old new \<longleftrightarrow>
     \<not> (operation_phase old = recorded \<and> operation_phase new = source_durable \<and>
          operation_kind old \<in> {replicate_kind, fork_kind} \<or>
        operation_phase old = recorded \<and> operation_phase new = tree_durable \<and>
          operation_kind old = register_kind \<or>
        operation_phase old = source_durable \<and> operation_phase new = tree_durable \<or>
        operation_phase old = tree_durable \<and> operation_phase new = complete_phase)"

definition trg_root_operation_complete_gate :: "database \<Rightarrow> root_operation \<Rightarrow> bool" where
  "trg_root_operation_complete_gate db new \<longleftrightarrow>
     operation_phase new = complete_phase \<and>
     (case lifecycle_table db of
        None \<Rightarrow> True
      | Some l \<Rightarrow>
          \<not> (lifecycle_origin l = operation_kind new \<and>
             lifecycle_state l = (if operation_kind new = replicate_kind then unserviceable else root_writable)))"

definition sql_insert_root_lifecycle :: "root_lifecycle \<Rightarrow> database \<Rightarrow> database result" where
  "sql_insert_root_lifecycle new db =
     andthen (for_each bind_text [lifecycle_state new, machine_id new, root_path new, lifecycle_origin new])
     (refuse_unless (\<not> trg_root_lifecycle_insert_gate db new \<and> check_lifecycle new \<and> lifecycle_table db = None)
       (db\<lparr>lifecycle_table := Some new\<rparr>))"

definition sql_insert_root_operation :: "pystr \<Rightarrow> pystr \<Rightarrow> pystr \<Rightarrow> pystr \<Rightarrow> database \<Rightarrow> database result" where
  "sql_insert_root_operation op_id kind request hash db =
     (let new = \<lparr>operation_id = op_id, operation_kind = kind, operation_phase = recorded,
                 request_json = request, request_hash = hash, source_snapshot = None,
                 destination_snapshot = None, genesis_digest = None\<rparr>
      in andthen (for_each bind_text [op_id, kind, request, hash])
         (refuse_unless (\<not> trg_root_operation_insert_gate db new \<and> check_operation new \<and> operation_table db = None)
           (db\<lparr>operation_table := Some new\<rparr>)))"

definition sql_update_lifecycle_state :: "pystr \<Rightarrow> database \<Rightarrow> (database \<times> nat) result" where
  "sql_update_lifecycle_state new db =
     andthen (bind_text new)
     (case lifecycle_table db of
        None \<Rightarrow> Inr (db, 0)
      | Some old \<Rightarrow>
          guard (\<not> trg_root_lifecycle_transition db old new \<and> check_lifecycle (old\<lparr>lifecycle_state := new\<rparr>)) IntegrityError
            (Inr (db\<lparr>lifecycle_table := Some (old\<lparr>lifecycle_state := new\<rparr>)\<rparr>, 1)))"

text \<open>The \<open>UPDATE\<close>s of the operation, all of which set its phase: \<open>new\<close> is the row they write.\<close>

definition update_operation :: "(root_operation \<Rightarrow> root_operation) \<Rightarrow> database \<Rightarrow> (database \<times> nat) result" where
  "update_operation new db =
     (case operation_table db of
        None \<Rightarrow> Inr (db, 0)
      | Some old \<Rightarrow>
          guard (\<not> trg_root_operation_proof_write_once old (new old) \<and>
                 \<not> trg_root_operation_phase_transition old (new old) \<and>
                 \<not> trg_root_operation_complete_gate db (new old) \<and> check_operation (new old)) IntegrityError
            (Inr (db\<lparr>operation_table := Some (new old)\<rparr>, 1)))"

definition sql_update_operation_phase :: "pystr \<Rightarrow> database \<Rightarrow> (database \<times> nat) result" where
  "sql_update_operation_phase phase db =
     andthen (bind_text phase) (update_operation (\<lambda>p. p\<lparr>operation_phase := phase\<rparr>) db)"

definition sql_update_source_snapshot :: "pystr \<Rightarrow> database \<Rightarrow> (database \<times> nat) result" where
  "sql_update_source_snapshot snapshot db =
     andthen (bind_text snapshot)
       (update_operation (\<lambda>p. p\<lparr>source_snapshot := Some snapshot, operation_phase := source_durable\<rparr>) db)"

definition sql_update_tree_proof :: "pystr \<Rightarrow> pystr option \<Rightarrow> database \<Rightarrow> (database \<times> nat) result" where
  "sql_update_tree_proof snapshot genesis db =
     andthen (bind_text snapshot) (andthen (case genesis of None \<Rightarrow> Inr () | Some g \<Rightarrow> bind_text g)
       (update_operation
          (\<lambda>p. p\<lparr>destination_snapshot := Some snapshot, genesis_digest := genesis, operation_phase := tree_durable\<rparr>) db))"

end
