(* ===== verification/StoreDiagnostic.thy ===== *)
theory StoreDiagnostic
  imports RecoveryModel Json
begin

text \<open>
  The durable encoding of a halt diagnostic (\<open>store/records.py\<close>): a JSON object written field by
  field, and the decoder of the text column, which is the whole boundary of that column. The
  text is ASCII: the encoder keeps the default of \<open>json.dumps\<close>. The recursion limit of the
  interpreter is the argument \<open>depth\<close> of the decoder.
\<close>

section \<open>Values of the enumerations\<close>

fun tx_value :: "transaction_state \<Rightarrow> pystr" where
  "tx_value Tx_PREPARED = py ''prepared''"
| "tx_value Tx_APPLYING = py ''applying''"
| "tx_value Tx_APPLIED = py ''applied''"
| "tx_value Tx_COMMITTED = py ''committed''"
| "tx_value Tx_ROLLING_BACK = py ''rolling_back''"
| "tx_value Tx_ROLLED_BACK = py ''rolled_back''"
| "tx_value Tx_HALTED = py ''halted''"

fun decision_value :: "commit_decision \<Rightarrow> pystr" where
  "decision_value Decision_UNCOMMITTED = py ''uncommitted''"
| "decision_value Decision_COMMITTED = py ''committed''"

fun journal_value :: "journal_state \<Rightarrow> pystr" where
  "journal_value J_PENDING = py ''pending''"
| "journal_value J_STARTED = py ''started''"
| "journal_value J_DONE = py ''done''"
| "journal_value J_UNDO_STARTED = py ''undo_started''"
| "journal_value J_UNDONE = py ''undone''"

fun halt_reason_value :: "halt_reason \<Rightarrow> pystr" where
  "halt_reason_value JOURNAL_TOPOLOGY_INVALID = py ''journal_topology_invalid''"
| "halt_reason_value COMMIT_DECISION_CONFLICT = py ''commit_decision_conflict''"
| "halt_reason_value ACTIVE_BINDING_MISSING = py ''active_binding_missing''"
| "halt_reason_value EFFECT_TUPLE_UNATTRIBUTABLE = py ''effect_tuple_unattributable''"
| "halt_reason_value DIRECTORY_NOT_EMPTY = py ''directory_not_empty''"
| "halt_reason_value COMMITTED_SURFACE_MISMATCH = py ''committed_surface_mismatch''"
| "halt_reason_value PLAN_PRECONDITION_CHANGED = py ''plan_precondition_changed''"
| "halt_reason_value MUTATION_DENIED = py ''mutation_denied''"

fun build_value :: "file_build_relation \<Rightarrow> pystr" where
  "build_value Build_EXACT = py ''exact''"
| "build_value Build_STRICT_PREFIX = py ''strict_prefix''"
| "build_value Build_DIVERGED = py ''diverged''"

fun identity_value :: "identity_relation \<Rightarrow> pystr" where
  "identity_value Identity_SAME = py ''same''"
| "identity_value Identity_DIFFERENT = py ''different''"

fun operator_value :: "operator_action \<Rightarrow> pystr" where
  "operator_value INSPECT_PRESERVED_EVIDENCE = py ''inspect_preserved_evidence''"
| "operator_value REPAIR_DURABLE_METADATA = py ''repair_durable_metadata''"

text \<open>The members of an enumeration by their values, in the order of the class.\<close>

definition by_value :: "('a \<Rightarrow> pystr) \<Rightarrow> 'a list \<Rightarrow> pystr \<rightharpoonup> 'a" where
  "by_value value members = map_of (map (\<lambda>m. (value m, m)) members)"

definition TX_STATES :: "transaction_state list" where
  "TX_STATES = [Tx_PREPARED, Tx_APPLYING, Tx_APPLIED, Tx_COMMITTED, Tx_ROLLING_BACK, Tx_ROLLED_BACK, Tx_HALTED]"

definition DECISIONS :: "commit_decision list" where
  "DECISIONS = [Decision_UNCOMMITTED, Decision_COMMITTED]"

definition JOURNAL_STATES :: "journal_state list" where
  "JOURNAL_STATES = [J_PENDING, J_STARTED, J_DONE, J_UNDO_STARTED, J_UNDONE]"

definition HALT_REASONS :: "halt_reason list" where
  "HALT_REASONS =
     [JOURNAL_TOPOLOGY_INVALID, COMMIT_DECISION_CONFLICT, ACTIVE_BINDING_MISSING, EFFECT_TUPLE_UNATTRIBUTABLE,
      DIRECTORY_NOT_EMPTY, COMMITTED_SURFACE_MISMATCH, PLAN_PRECONDITION_CHANGED, MUTATION_DENIED]"

definition BUILD_RELATIONS :: "file_build_relation list" where
  "BUILD_RELATIONS = [Build_EXACT, Build_STRICT_PREFIX, Build_DIVERGED]"

definition IDENTITY_RELATIONS :: "identity_relation list" where
  "IDENTITY_RELATIONS = [Identity_SAME, Identity_DIFFERENT]"

definition OPERATOR_ACTIONS :: "operator_action list" where
  "OPERATOR_ACTIONS = [INSPECT_PRESERVED_EVIDENCE, REPAIR_DURABLE_METADATA]"

section \<open>Writing\<close>

fun diagnostic_state_obj :: "diagnostic_state \<Rightarrow> json" where
  "diagnostic_state_obj (DiagUnrecognized st_mode) =
     JObj [(py ''kind'', JStr (py ''unrecognized'')), (py ''st_mode'', JInt st_mode)]"
| "diagnostic_state_obj DiagContended = JObj [(py ''kind'', JStr (py ''contended''))]"
| "diagnostic_state_obj DiagInaccessible = JObj [(py ''kind'', JStr (py ''inaccessible''))]"
| "diagnostic_state_obj (DiagState AbsentState) = JObj [(py ''kind'', JStr (py ''absent''))]"
| "diagnostic_state_obj (DiagState (FileState hash mode len)) =
     JObj [(py ''kind'', JStr (py ''file'')), (py ''content_hash'', JStr hash), (py ''mode'', JInt mode),
           (py ''byte_len'', JInt len)]"
| "diagnostic_state_obj (DiagState (DirectoryState mode)) =
     JObj [(py ''kind'', JStr (py ''directory'')), (py ''mode'', JInt mode)]"
| "diagnostic_state_obj (DiagState (SymlinkState target mode)) =
     JObj [(py ''kind'', JStr (py ''symlink'')), (py ''target'', JStr target), (py ''mode'', JInt mode)]"

text \<open>\<open>None if value is None else ...\<close>\<close>

definition optional_obj :: "('a \<Rightarrow> json) \<Rightarrow> 'a option \<Rightarrow> json" where
  "optional_obj obj v = (case v of None \<Rightarrow> JNull | Some x \<Rightarrow> obj x)"

definition diagnostic_entry_obj :: "diagnostic_entry \<Rightarrow> json" where
  "diagnostic_entry_obj entry =
     JObj [(py ''slot'', JStr (de_slot entry)),
           (py ''state'', diagnostic_state_obj (de_state entry)),
           (py ''has_unmodeled_child'', optional_obj JBool (de_unmodeled entry)),
           (py ''file_build_relation'', optional_obj (\<lambda>r. JStr (build_value r)) (de_relation entry))]"

definition journal_obj :: "journal_row \<Rightarrow> json" where
  "journal_obj j =
     JObj [(py ''effect_id'', JStr (row_effect_id j)), (py ''state'', JStr (journal_value (row_state j)))]"

definition relation_obj :: "diagnostic_identity_relation \<Rightarrow> json" where
  "relation_obj r =
     JObj [(py ''left_slot'', JStr (left_slot r)), (py ''right_slot'', JStr (right_slot r)),
           (py ''relation'', JStr (identity_value (id_relation r)))]"

definition diagnostic_obj :: "halt_diagnostic \<Rightarrow> json" where
  "diagnostic_obj d =
     JObj [(py ''pre_halt_state'', JStr (tx_value (pre_halt_state d))),
           (py ''commit_decision'', JStr (decision_value (diag_commit_decision d))),
           (py ''journals'', JList (map journal_obj (diag_journals d))),
           (py ''projected_transaction_state'', JStr (tx_value (projected_transaction_state d))),
           (py ''projected_journals'', JList (map journal_obj (projected_journals d))),
           (py ''effect_id'', optional_obj JStr (diag_effect_id d)),
           (py ''paths'', JList (map JStr (diag_paths d))),
           (py ''expected'', JList (map diagnostic_entry_obj (diag_expected d))),
           (py ''observed'', JList (map diagnostic_entry_obj (diag_observed d))),
           (py ''identity_relations'', JList (map relation_obj (diag_relations d))),
           (py ''reason'', JStr (halt_reason_value (diag_reason d))),
           (py ''operator_action'', JStr (operator_value (diag_action d)))]"

definition encode_diagnostic :: "halt_diagnostic \<Rightarrow> pystr result" where
  "encode_diagnostic d = json_dumps_ascii (diagnostic_obj d)"

section \<open>Reading\<close>

abbreviation diag_refuse :: "store_fault \<Rightarrow> error" where
  "diag_refuse \<equiv> MetadataStoreInvalid"

text \<open>\<open>_member\<close>: what is no string is no value of an enumeration.\<close>

definition diag_member :: "(pystr \<rightharpoonup> 'a) \<Rightarrow> json \<Rightarrow> 'a result" where
  "diag_member members v =
     (case v of
        JStr s \<Rightarrow> lookup_or (diag_refuse DiagnosticNotMember) members s
      | _ \<Rightarrow> Inl (diag_refuse DiagnosticNotMember))"

fun diag_text :: "json \<Rightarrow> pystr result" where
  "diag_text (JStr s) = Inr s"
| "diag_text _ = Inl (diag_refuse DiagnosticNotText)"

fun diag_integer :: "json \<Rightarrow> int result" where
  "diag_integer (JInt i) = Inr i"
| "diag_integer _ = Inl (diag_refuse DiagnosticNotInteger)"

fun diag_flag :: "json \<Rightarrow> bool result" where
  "diag_flag (JBool b) = Inr b"
| "diag_flag _ = Inl (diag_refuse DiagnosticNotFlag)"

fun diag_optional :: "(json \<Rightarrow> 'a result) \<Rightarrow> json \<Rightarrow> 'a option result" where
  "diag_optional read JNull = Inr None"
| "diag_optional read v = bindr (read v) (\<lambda>x. Inr (Some x))"

fun diag_sequence :: "json \<Rightarrow> json list result" where
  "diag_sequence (JList vs) = Inr vs"
| "diag_sequence _ = Inl (diag_refuse DiagnosticNotArray)"

fun diag_dict :: "json \<Rightarrow> (pystr \<times> json) list result" where
  "diag_dict (JObj items) = Inr items"
| "diag_dict _ = Inl (diag_refuse DiagnosticNotObject)"

definition diag_keys :: "(pystr \<times> json) list \<Rightarrow> pystr list \<Rightarrow> unit result" where
  "diag_keys obj expected = guard (fst ` set obj = set expected) (diag_refuse DiagnosticFields) (Inr ())"

text \<open>\<open>read(obj, key)\<close>\<close>

definition diag_field :: "(json \<Rightarrow> 'a result) \<Rightarrow> (pystr \<times> json) list \<Rightarrow> pystr \<Rightarrow> 'a result" where
  "diag_field read obj name = bindr (lookup_or KeyError (map_of obj) name) read"

definition decode_diagnostic_state :: "json \<Rightarrow> diagnostic_state result" where
  "decode_diagnostic_state raw =
     bindr (diag_dict raw) (\<lambda>obj.
     let kind = map_of obj (py ''kind'')
     in if kind = Some (JStr (py ''absent'')) then
          andthen (diag_keys obj [py ''kind'']) (Inr (DiagState AbsentState))
        else if kind = Some (JStr (py ''file'')) then
          andthen (diag_keys obj [py ''kind'', py ''content_hash'', py ''mode'', py ''byte_len''])
          (bindr (diag_field diag_text obj (py ''content_hash'')) (\<lambda>hash.
           bindr (diag_field diag_integer obj (py ''mode'')) (\<lambda>mode.
           bindr (diag_field diag_integer obj (py ''byte_len'')) (\<lambda>len.
           Inr (DiagState (FileState hash mode len))))))
        else if kind = Some (JStr (py ''directory'')) then
          andthen (diag_keys obj [py ''kind'', py ''mode''])
          (bindr (diag_field diag_integer obj (py ''mode'')) (\<lambda>mode.
           Inr (DiagState (DirectoryState mode))))
        else if kind = Some (JStr (py ''symlink'')) then
          andthen (diag_keys obj [py ''kind'', py ''target'', py ''mode''])
          (bindr (diag_field diag_text obj (py ''target'')) (\<lambda>target.
           bindr (diag_field diag_integer obj (py ''mode'')) (\<lambda>mode.
           Inr (DiagState (SymlinkState target mode)))))
        else if kind = Some (JStr (py ''unrecognized'')) then
          andthen (diag_keys obj [py ''kind'', py ''st_mode''])
          (bindr (diag_field diag_integer obj (py ''st_mode'')) (\<lambda>mode.
           guard (is_unrecognized_st_mode mode) (diag_refuse DiagnosticStateMode)
           (Inr (DiagUnrecognized mode))))
        else if kind = Some (JStr (py ''contended'')) then
          andthen (diag_keys obj [py ''kind'']) (Inr DiagContended)
        else if kind = Some (JStr (py ''inaccessible'')) then
          andthen (diag_keys obj [py ''kind'']) (Inr DiagInaccessible)
        else Inl (diag_refuse DiagnosticStateKind))"

definition decode_journal :: "json \<Rightarrow> journal_row result" where
  "decode_journal raw =
     bindr (diag_dict raw) (\<lambda>obj.
     andthen (diag_keys obj [py ''effect_id'', py ''state''])
     (bindr (diag_field diag_text obj (py ''effect_id'')) (\<lambda>effect_id.
      bindr (diag_field (diag_member (by_value journal_value JOURNAL_STATES)) obj (py ''state'')) (\<lambda>state.
      Inr (EffectJournalState effect_id state)))))"

definition decode_diagnostic_entry :: "json \<Rightarrow> diagnostic_entry result" where
  "decode_diagnostic_entry raw =
     bindr (diag_dict raw) (\<lambda>obj.
     andthen (diag_keys obj [py ''slot'', py ''state'', py ''has_unmodeled_child'', py ''file_build_relation''])
     (bindr (diag_field diag_text obj (py ''slot'')) (\<lambda>slot.
      bindr (diag_field decode_diagnostic_state obj (py ''state'')) (\<lambda>state.
      bindr (diag_field (diag_optional diag_flag) obj (py ''has_unmodeled_child'')) (\<lambda>unmodeled.
      bindr (diag_field (diag_optional (diag_member (by_value build_value BUILD_RELATIONS))) obj
               (py ''file_build_relation'')) (\<lambda>relation.
      Inr (DiagnosticEntry slot state unmodeled relation)))))))"

definition decode_relation :: "json \<Rightarrow> diagnostic_identity_relation result" where
  "decode_relation raw =
     bindr (diag_dict raw) (\<lambda>obj.
     andthen (diag_keys obj [py ''left_slot'', py ''right_slot'', py ''relation''])
     (bindr (diag_field diag_text obj (py ''left_slot'')) (\<lambda>left.
      bindr (diag_field diag_text obj (py ''right_slot'')) (\<lambda>right.
      bindr (diag_field (diag_member (by_value identity_value IDENTITY_RELATIONS)) obj (py ''relation'')) (\<lambda>relation.
      Inr (DiagnosticIdentityRelation left right relation))))))"

definition diag_all :: "(json \<Rightarrow> 'a result) \<Rightarrow> (pystr \<times> json) list \<Rightarrow> pystr \<Rightarrow> 'a list result" where
  "diag_all read obj name = bindr (diag_field diag_sequence obj name) (traverse read)"

definition DIAGNOSTIC_FIELDS :: "pystr list" where
  "DIAGNOSTIC_FIELDS =
     [py ''pre_halt_state'', py ''commit_decision'', py ''journals'', py ''projected_transaction_state'',
      py ''projected_journals'', py ''effect_id'', py ''paths'', py ''expected'', py ''observed'',
      py ''identity_relations'', py ''reason'', py ''operator_action'']"

definition decode_diagnostic_obj :: "json \<Rightarrow> halt_diagnostic result" where
  "decode_diagnostic_obj raw =
     bindr (diag_dict raw) (\<lambda>obj.
     andthen (diag_keys obj DIAGNOSTIC_FIELDS)
     (bindr (diag_all diag_text obj (py ''paths'')) (\<lambda>paths.
      bindr (diag_field (diag_member (by_value tx_value TX_STATES)) obj (py ''pre_halt_state'')) (\<lambda>pre_halt.
      bindr (diag_field (diag_member (by_value decision_value DECISIONS)) obj (py ''commit_decision'')) (\<lambda>decision.
      bindr (diag_all decode_journal obj (py ''journals'')) (\<lambda>rows.
      bindr (diag_field (diag_member (by_value tx_value TX_STATES)) obj (py ''projected_transaction_state'')) (\<lambda>projected.
      bindr (diag_all decode_journal obj (py ''projected_journals'')) (\<lambda>projected_rows.
      bindr (diag_field (diag_optional diag_text) obj (py ''effect_id'')) (\<lambda>effect_id.
      bindr (diag_all decode_diagnostic_entry obj (py ''expected'')) (\<lambda>expected.
      bindr (diag_all decode_diagnostic_entry obj (py ''observed'')) (\<lambda>observed.
      bindr (diag_all decode_relation obj (py ''identity_relations'')) (\<lambda>relations.
      bindr (diag_field (diag_member (by_value halt_reason_value HALT_REASONS)) obj (py ''reason'')) (\<lambda>reason.
      bindr (diag_field (diag_member (by_value operator_value OPERATOR_ACTIONS)) obj (py ''operator_action'')) (\<lambda>action.
      Inr \<lparr>pre_halt_state = pre_halt, diag_commit_decision = decision, diag_journals = rows,
           projected_transaction_state = projected, projected_journals = projected_rows,
           diag_effect_id = effect_id, diag_paths = paths, diag_expected = expected,
           diag_observed = observed, diag_relations = relations, diag_reason = reason,
           diag_action = action\<rparr>))))))))))))))"

text \<open>\<open>except json.JSONDecodeError\<close>: no other exception of \<open>json.loads\<close> is caught here.\<close>

fun wrap_diagnostic_error :: "'a result \<Rightarrow> 'a result" where
  "wrap_diagnostic_error (Inl JSONDecodeError) = Inl (diag_refuse DiagnosticNotJson)"
| "wrap_diagnostic_error r = r"

definition decode_diagnostic :: "nat \<Rightarrow> pystr \<Rightarrow> halt_diagnostic result" where
  "decode_diagnostic depth payload =
     bindr (wrap_diagnostic_error (json_loads (unique_keys (diag_refuse DiagnosticDuplicateKey)) depth payload))
       decode_diagnostic_obj"

end
