(* ===== verification/Approval.thy ===== *)
theory Approval
  imports Snapshot Json
begin

text \<open>
  The proof that project approval issues and its durable evidence (\<open>fs/approval.py\<close>, with the
  values of \<open>fs/topology.py\<close>, \<open>fs/lookup.py\<close> and \<open>fs/resolve.py\<close> that it is made of): a canonical
  JSON document with one key per directory node, and the reader that accepts nothing but the
  canonical text of a well-formed document. A binding is the identity of its object and the mount
  of its evidence. The recursion limit of the interpreter is the argument \<open>depth\<close> of the reader.
\<close>

section \<open>Approved values\<close>

datatype lookup_proof = EXACT_BYTES | UNREPRODUCIBLE_CASEFOLD

fun lookup_proof_value :: "lookup_proof \<Rightarrow> pystr" where
  "lookup_proof_value EXACT_BYTES = py ''exact_bytes''"
| "lookup_proof_value UNREPRODUCIBLE_CASEFOLD = py ''unreproducible_casefold''"

datatype directory_constraints = DirectoryConstraints (lookup_proof_of: lookup_proof) (name_max: int)

datatype filesystem_identity = FilesystemIdentity (fs_device: int) (fs_inode: int)

datatype approved_directory =
    ApprovedExistingDirectory (ad_node: topology_node) filesystem_identity (ad_constraints: directory_constraints)
  | ApprovedPlannedDirectory (ad_node: topology_node) (ad_constraints: directory_constraints)

datatype approved_work_base = ApprovedWorkBase filesystem_identity directory_constraints

record project_binding =
  binding_identity :: nat
  binding_mount :: int
  binding_live :: bool

record project_approved_spec =
  approved_compiled :: compiled_spec
  approved_binding :: project_binding
  approved_txid :: pystr
  approved_topology :: "topology_parent list"
  approved_directories :: "approved_directory list"
  approved_directory_paths :: "(pystr \<times> topology_node) list"
  approved_work_base :: "approved_work_base option"

section \<open>Writing the evidence\<close>

fun node_key :: "topology_node \<Rightarrow> pystr result" where
  "node_key ProjectRoot = Inr (py ''project_root'')"
| "node_key WorkRoot = Inr (py ''work_root'')"
| "node_key (TopologyDirectory node_id) =
     guard (0 \<le> node_id) (evi_err EvidenceNodeNegative)
       (bindr (int_str node_id) (\<lambda>digits. Inr (py ''topology_directory:'' @ digits)))"
| "node_key (PersistentNode path) = Inr (py ''persistent:'' @ path)"
| "node_key (ScratchNode _ _) = Inl (evi_err EvidenceNotDirectoryNode)"

definition constraint_evidence :: "directory_constraints \<Rightarrow> (pystr \<times> json) list" where
  "constraint_evidence c =
     [(py ''lookup_proof'', JStr (lookup_proof_value (lookup_proof_of c))), (py ''name_max'', JInt (name_max c))]"

definition identity_evidence :: "filesystem_identity \<Rightarrow> json" where
  "identity_evidence i = JObj [(py ''st_dev'', JInt (fs_device i)), (py ''st_ino'', JInt (fs_inode i))]"

fun directory_identity :: "approved_directory \<Rightarrow> json" where
  "directory_identity (ApprovedExistingDirectory _ identity _) = identity_evidence identity"
| "directory_identity (ApprovedPlannedDirectory _ _) = JNull"

text \<open>The evidence of one directory, with the key it is sorted by.\<close>

definition directory_evidence ::
  "(topology_node \<rightharpoonup> pystr) \<Rightarrow> approved_directory \<Rightarrow> (pystr \<times> json) result" where
  "directory_evidence paths entry =
     bindr (node_key (ad_node entry)) (\<lambda>node.
     bindr (if ad_node entry = WorkRoot then Inr JNull
            else bindr (lookup_or KeyError paths (ad_node entry)) (\<lambda>path. Inr (JStr path))) (\<lambda>path.
     Inr (node, JObj ([(py ''node'', JStr node), (py ''path'', path), (py ''identity'', directory_identity entry)]
                      @ constraint_evidence (ad_constraints entry)))))"

fun work_base_evidence :: "approved_work_base option \<Rightarrow> json" where
  "work_base_evidence None = JNull"
| "work_base_evidence (Some (ApprovedWorkBase identity constraints)) =
     JObj ((py ''identity'', identity_evidence identity) # constraint_evidence constraints)"

definition approval_document :: "project_approved_spec \<Rightarrow> json result" where
  "approval_document approved =
     (let paths = dict_of (map (\<lambda>(path, node). (node, path)) (approved_directory_paths approved))
      in bindr (traverse (directory_evidence paths) (approved_directories approved)) (\<lambda>directories.
         Inr (JObj [(py ''directories'', JList (map snd (sort_key fst directories))),
                    (py ''mount_id'', JInt (binding_mount (approved_binding approved))),
                    (py ''work_root'', work_base_evidence (approved_work_base approved))])))"

definition encode_approval_evidence :: "project_approved_spec \<Rightarrow> pystr result" where
  "encode_approval_evidence approved = bindr (approval_document approved) json_dumps"

section \<open>Reading the evidence\<close>

definition closed_object :: "error \<Rightarrow> pystr list \<Rightarrow> json \<Rightarrow> (pystr \<times> json) list result" where
  "closed_object e keys v =
     (case v of
        JObj items \<Rightarrow> guard (fst ` set items = set keys) e (Inr items)
      | _ \<Rightarrow> Inl e)"

text \<open>\<open>obj[name]\<close>\<close>

definition evidence_item :: "(pystr \<times> json) list \<Rightarrow> pystr \<Rightarrow> json result" where
  "evidence_item obj name = lookup_or KeyError (map_of obj) name"

definition nonnegative_integer :: "error \<Rightarrow> json \<Rightarrow> unit result" where
  "nonnegative_integer e v =
     (case v of JInt i \<Rightarrow> guard (0 \<le> i) e (Inr ()) | _ \<Rightarrow> Inl e)"

definition is_lookup_proof :: "json \<Rightarrow> bool" where
  "is_lookup_proof v \<longleftrightarrow>
     v \<in> {JStr (lookup_proof_value EXACT_BYTES), JStr (lookup_proof_value UNREPRODUCIBLE_CASEFOLD)}"

definition decoded_constraints :: "(pystr \<times> json) list \<Rightarrow> unit result" where
  "decoded_constraints obj =
     bindr (evidence_item obj (py ''lookup_proof'')) (\<lambda>proof.
     guard (is_lookup_proof proof) (evi_err EvidenceLookup)
     (bindr (evidence_item obj (py ''name_max'')) (nonnegative_integer (evi_err EvidenceNameMax))))"

definition decoded_identity :: "json \<Rightarrow> unit result" where
  "decoded_identity v =
     bindr (closed_object (evi_err EvidenceIdentityFields) [py ''st_dev'', py ''st_ino''] v) (\<lambda>identity.
     bindr (evidence_item identity (py ''st_dev'')) (\<lambda>dev.
     andthen (nonnegative_integer (evi_err EvidenceIdentityNumber) dev)
     (bindr (evidence_item identity (py ''st_ino'')) (nonnegative_integer (evi_err EvidenceIdentityNumber)))))"

text \<open>\<open>^topology_directory:(0|[1-9][0-9]*)$\<close>\<close>

definition is_topology_node :: "pystr \<Rightarrow> bool" where
  "is_topology_node node \<longleftrightarrow>
     starts_with (py ''topology_directory:'') node \<and>
     (let digits = drop (length (py ''topology_directory:'')) node
      in digits = [48] \<or> digits \<noteq> [] \<and> hd digits \<noteq> 48 \<and> list_all is_digit digits)"

abbreviation persistent_prefix :: pystr where
  "persistent_prefix \<equiv> py ''persistent:''"

definition is_node_key :: "pystr \<Rightarrow> bool" where
  "is_node_key node \<longleftrightarrow>
     node \<in> {py ''project_root'', py ''work_root''} \<or> is_topology_node node \<or> starts_with persistent_prefix node"

text \<open>The path of a directory that is not the work root.\<close>

definition decoded_path :: "unicode_tables \<Rightarrow> pystr \<Rightarrow> json \<Rightarrow> pystr result" where
  "decoded_path u node v =
     (case v of
        JStr path \<Rightarrow>
          andthen
            (if node = py ''project_root'' then guard (path = []) (evi_err EvidenceRootPath) (Inr ())
             else case require_rel_path u path of
                    Inl (SpecValidationError _) \<Rightarrow> Inl (evi_err EvidencePathGrammar)
                  | Inl e \<Rightarrow> Inl e
                  | Inr _ \<Rightarrow> Inr ())
          (guard (\<not> (starts_with persistent_prefix node \<and> drop (length persistent_prefix) node \<noteq> path))
             (evi_err EvidencePathMismatch)
          (Inr path))
      | _ \<Rightarrow> Inl (evi_err EvidencePathType))"

text \<open>One directory: its node, and its path unless it is the work root.\<close>

definition decoded_directory :: "unicode_tables \<Rightarrow> json \<Rightarrow> (pystr \<times> pystr option) result" where
  "decoded_directory u v =
     bindr (closed_object (evi_err EvidenceNodeFields)
              [py ''node'', py ''path'', py ''identity'', py ''lookup_proof'', py ''name_max''] v) (\<lambda>obj.
     bindr (evidence_item obj (py ''node'')) (\<lambda>raw_node.
     case raw_node of
       JStr node \<Rightarrow>
         guard (is_node_key node) (evi_err EvidenceNode)
         (bindr (evidence_item obj (py ''path'')) (\<lambda>raw_path.
          bindr (if node = py ''work_root''
                 then guard (raw_path = JNull) (evi_err EvidenceWorkPath) (Inr None)
                 else bindr (decoded_path u node raw_path) (\<lambda>path. Inr (Some path))) (\<lambda>path.
          bindr (evidence_item obj (py ''identity'')) (\<lambda>identity.
          guard (\<not> (node = py ''work_root'' \<and> identity \<noteq> JNull)) (evi_err EvidenceWorkIdentity)
         (guard (\<not> (node = py ''project_root'' \<and> identity = JNull)) (evi_err EvidenceRootIdentity)
         (andthen (if identity \<noteq> JNull then decoded_identity identity else Inr ())
         (andthen (decoded_constraints obj)
         (Inr (node, path)))))))))
     | _ \<Rightarrow> Inl (evi_err EvidenceNode)))"

text \<open>What \<open>json.loads\<close> may raise here; a \<open>RecursionError\<close> is not among what is caught.\<close>

fun wrap_evidence_error :: "'a result \<Rightarrow> 'a result" where
  "wrap_evidence_error (Inl (ProtocolError f)) = Inl (ProtocolError f)"
| "wrap_evidence_error (Inl RecursionError) = Inl RecursionError"
| "wrap_evidence_error (Inl _) = Inl (evi_err EvidenceNotJson)"
| "wrap_evidence_error (Inr x) = Inr x"

definition decoded_work_root :: "json \<Rightarrow> unit result" where
  "decoded_work_root v =
     (if v = JNull then Inr ()
      else bindr (closed_object (evi_err EvidenceWorkFields)
                    [py ''identity'', py ''lookup_proof'', py ''name_max''] v) (\<lambda>work.
           bindr (evidence_item work (py ''identity'')) (\<lambda>identity.
           andthen (decoded_identity identity) (decoded_constraints work))))"

definition decoded_directories :: "unicode_tables \<Rightarrow> json \<Rightarrow> pystr list result" where
  "decoded_directories u v =
     (case v of
        JList raw \<Rightarrow>
          bindr (traverse (decoded_directory u) raw) (\<lambda>found.
          guard (sort (map fst found) = map fst found \<and> distinct (map fst found)) (evi_err EvidenceNodesOrder)
         (guard (distinct (List.map_filter snd found)) (evi_err EvidencePathsRepeated)
         (Inr (map fst found))))
      | _ \<Rightarrow> Inl (evi_err EvidenceNotArray))"

definition decode_approval_evidence :: "unicode_tables \<Rightarrow> nat \<Rightarrow> pystr \<Rightarrow> json result" where
  "decode_approval_evidence u depth evidence =
     bindr (wrap_evidence_error (json_loads (unique_keys (evi_err EvidenceDuplicateKey)) depth evidence)) (\<lambda>raw.
     bindr (closed_object (evi_err EvidenceFields) [py ''directories'', py ''mount_id'', py ''work_root''] raw) (\<lambda>document.
     bindr (evidence_item document (py ''mount_id'')) (\<lambda>mount.
     andthen (nonnegative_integer (evi_err EvidenceMountId) mount)
     (bindr (evidence_item document (py ''directories'')) (\<lambda>directories.
      bindr (decoded_directories u directories) (\<lambda>nodes.
      bindr (evidence_item document (py ''work_root'')) (\<lambda>work_root.
      andthen (decoded_work_root work_root)
     (guard (count_list nodes (py ''project_root'') = 1) (evi_err EvidenceRootCount)
     (guard ((py ''work_root'' \<in> set nodes) = (work_root \<noteq> JNull)) (evi_err EvidenceWorkMismatch)
     (bindr (json_dumps raw) (\<lambda>canonical.
      guard (canonical = evidence) (evi_err EvidenceNotCanonical) (Inr raw))))))))))))"

end
