(* ===== verification/StoreRecords.thy ===== *)
theory StoreRecords
  imports StoreSchema StoreDiagnostic Approval Canonical Assembly Compiler
begin

text \<open>
  Reading records and checking their coherence (\<open>store/records.py\<close>): the findings that make a
  record uninterpretable, the record a coherent row stands for, and the two root rows with the
  rule that pairs them. A finding is its rule with the name it is about; the wording is left
  out. The coherence check and the readers pass on what their decoders raise.
\<close>

fun effect_variant_of :: "effect \<Rightarrow> effect_variant" where
  "effect_variant_of (ReplaceFile _ _ _ _) = REPLACE_FILE"
| "effect_variant_of (CreateFileNoClobber _ _ _) = CREATE_FILE_NO_CLOBBER"
| "effect_variant_of (DeletePath _ _ _) = DELETE_PATH"
| "effect_variant_of (MoveNoClobber _ _ _ _) = MOVE_NO_CLOBBER"
| "effect_variant_of (CreateDirectory _ _ _) = CREATE_DIRECTORY"

section \<open>References and journals\<close>

definition spec_states :: "transaction_spec \<Rightarrow> path_state list" where
  "spec_states spec =
     map entry_state (initial_surface spec @ final_surface spec) @
     concat (map (\<lambda>effect. concat (map (\<lambda>occ. [occ_pre occ, occ_post occ]) (occurrences effect))) (spec_effects spec))"

fun file_reference :: "path_state \<Rightarrow> (pystr \<times> int) option" where
  "file_reference (FileState hash _ len) = Some (hash, len)"
| "file_reference _ = None"

text \<open>The digests of all file states with their lengths, as a sorted set.\<close>

definition referenced_digests :: "transaction_spec \<Rightarrow> (pystr \<times> int) list" where
  "referenced_digests spec = sort (remdups (List.map_filter file_reference (spec_states spec)))"

definition journal_vector :: "transaction_spec \<Rightarrow> (pystr \<times> effect_row) list \<Rightarrow> journal_row list result" where
  "journal_vector spec rows =
     traverse (\<lambda>effect. bindr (lookup_or KeyError (map_of rows) (effect_id_of effect))
       (\<lambda>row. Inr (EffectJournalState (effect_id_of effect) (journal_column row)))) (spec_effects spec)"

section \<open>Coherence\<close>

datatype finding =
    SpecDecodes | SpecCanonical | SpecCompiles
  | EffectCoverage pystr | EffectVariant pystr
  | BlobRowPresent pystr | BlobByteLen pystr
  | RollbackResultExactly | HaltDiagnosticExactly
  | DiagnosticCommitDecision | DiagnosticJournalVector
  | ActiveRecordExists

definition active_findings :: "database \<Rightarrow> finding list" where
  "active_findings db =
     (case active_table db of
        None \<Rightarrow> []
      | Some txid \<Rightarrow> if map_of (record_table db) txid = None then [ActiveRecordExists] else [])"

definition effect_findings :: "transaction_spec \<Rightarrow> (pystr \<times> effect_row) list \<Rightarrow> finding list" where
  "effect_findings spec rows =
     (let declared = map effect_id_of (spec_effects spec); stored = map fst rows;
          variant = dict_of (map (\<lambda>effect. (effect_id_of effect, effect_variant_of effect)) (spec_effects spec))
      in map EffectCoverage (sort (filter (\<lambda>e. e \<notin> set stored) (remdups declared))) @
         map EffectCoverage (sort (filter (\<lambda>e. e \<notin> set declared) (remdups stored))) @
         map EffectVariant (sort (filter (\<lambda>e. e \<in> set stored \<and>
           map_option variant_column (map_of rows e) \<noteq> variant e) (remdups declared))))"

definition blob_findings :: "database \<Rightarrow> transaction_spec \<Rightarrow> finding list" where
  "blob_findings db spec =
     concat (map (\<lambda>(digest, len).
       case map_of (blob_table db) digest of
         None \<Rightarrow> [BlobRowPresent digest]
       | Some stored \<Rightarrow> if stored \<noteq> len then [BlobByteLen digest] else []) (referenced_digests spec))"

definition presence_findings :: "record_row \<Rightarrow> finding list" where
  "presence_findings row =
     (if (state_column row = Tx_ROLLED_BACK) \<noteq> (result_column row \<noteq> None) then [RollbackResultExactly] else []) @
     (if (state_column row = Tx_HALTED) \<noteq> (diagnostic_column row \<noteq> None) then [HaltDiagnosticExactly] else [])"

definition covers_effects :: "transaction_spec \<Rightarrow> (pystr \<times> effect_row) list \<Rightarrow> bool" where
  "covers_effects spec rows \<longleftrightarrow> effect_id_of ` set (spec_effects spec) = fst ` set rows"

definition diagnostic_findings ::
  "nat \<Rightarrow> transaction_spec \<Rightarrow> record_row \<Rightarrow> (pystr \<times> effect_row) list \<Rightarrow> finding list result" where
  "diagnostic_findings depth spec row rows =
     (case diagnostic_column row of
        None \<Rightarrow> Inr []
      | Some payload \<Rightarrow>
          bindr (decode_diagnostic depth payload) (\<lambda>d.
          bindr (if covers_effects spec rows
                 then bindr (journal_vector spec rows) (\<lambda>vector. Inr (diag_journals d = vector))
                 else Inr False) (\<lambda>agrees.
          Inr ((if diag_commit_decision d \<noteq> committed_column row then [DiagnosticCommitDecision] else []) @
               (if agrees then [] else [DiagnosticJournalVector])))))"

definition compile_findings :: "unicode_tables \<Rightarrow> transaction_spec \<Rightarrow> finding list result" where
  "compile_findings u spec =
     (case compile_spec u spec of
        Inr _ \<Rightarrow> Inr []
      | Inl (SpecValidationError _) \<Rightarrow> Inr [SpecCompiles]
      | Inl e \<Rightarrow> Inl e)"

text \<open>What is found in a row that is there; its specification may not decode.\<close>

definition record_findings ::
  "unicode_tables \<Rightarrow> nat \<Rightarrow> database \<Rightarrow> pystr \<Rightarrow> record_row \<Rightarrow> finding list result" where
  "record_findings u depth db txid row =
     (case from_canonical_json depth (spec_json row) of
        Inl (SpecValidationError _) \<Rightarrow> Inr [SpecDecodes]
      | Inl ValueError \<Rightarrow> Inr [SpecDecodes]
      | Inl e \<Rightarrow> Inl e
      | Inr spec \<Rightarrow>
          (let rows = effects_of txid db
           in bindr (canonical_json spec) (\<lambda>canonical.
              bindr (compile_findings u spec) (\<lambda>compiles.
              bindr (diagnostic_findings depth spec row rows) (\<lambda>diagnostic.
              Inr ((if canonical \<noteq> spec_json row then [SpecCanonical] else []) @ compiles @
                   effect_findings spec rows @ blob_findings db spec @ presence_findings row @
                   diagnostic @ active_findings db))))))"

definition coherence_findings :: "unicode_tables \<Rightarrow> nat \<Rightarrow> database \<Rightarrow> pystr \<Rightarrow> finding list result" where
  "coherence_findings u depth db txid =
     (case map_of (record_table db) txid of
        None \<Rightarrow> Inr (active_findings db)
      | Some row \<Rightarrow> record_findings u depth db txid row)"

section \<open>Records\<close>

record stored_record =
  stored_txid :: pystr
  stored_spec :: transaction_spec
  stored_state :: transaction_state
  stored_committed :: commit_decision
  stored_result :: "rollback_result option"
  stored_diagnostic :: "halt_diagnostic option"
  stored_registration :: "pystr option"
  stored_settlement :: "pystr option"
  stored_evidence :: pystr
  stored_assembly_halt :: "assembly_halt option"
  stored_journals :: "journal_row list"

definition require_assembly_halt_binding :: "pystr \<Rightarrow> pystr \<Rightarrow> assembly_halt \<Rightarrow> unit result" where
  "require_assembly_halt_binding txid evidence halt =
     guard (ah_txid halt = txid) (use_err HaltTxidMismatch)
     (guard (ah_expected halt = evidence) (use_err HaltEvidenceMismatch) (Inr ()))"

text \<open>\<open>except ProtocolError as caught: raise MetadataStoreInvalid\<close>\<close>

fun protocol_as :: "store_fault \<Rightarrow> 'a result \<Rightarrow> 'a result" where
  "protocol_as fault (Inl (ProtocolError _)) = Inl (MetadataStoreInvalid fault)"
| "protocol_as fault r = r"

definition optional_result :: "('a \<Rightarrow> 'b result) \<Rightarrow> 'a option \<Rightarrow> 'b option result" where
  "optional_result f v = (case v of None \<Rightarrow> Inr None | Some x \<Rightarrow> bindr (f x) (\<lambda>y. Inr (Some y)))"

definition load_assembly_halt :: "nat \<Rightarrow> pystr \<Rightarrow> record_row \<Rightarrow> assembly_halt option result" where
  "load_assembly_halt depth txid row =
     protocol_as RecordAssemblyHalt
       (optional_result (\<lambda>payload.
          bindr (decode_assembly_halt depth payload) (\<lambda>halt.
          andthen (require_assembly_halt_binding txid (evidence_column row) halt) (Inr halt))) (assembly_column row))"

definition materialize_record ::
  "unicode_tables \<Rightarrow> nat \<Rightarrow> database \<Rightarrow> pystr \<Rightarrow> record_row \<Rightarrow> stored_record result" where
  "materialize_record u depth db txid row =
     bindr (from_canonical_json depth (spec_json row)) (\<lambda>spec.
     bindr (protocol_as RecordEvidence (decode_approval_evidence u depth (evidence_column row))) (\<lambda>_.
     bindr (load_assembly_halt depth txid row) (\<lambda>halt.
     bindr (optional_result (decode_diagnostic depth) (diagnostic_column row)) (\<lambda>diagnostic.
     bindr (journal_vector spec (effects_of txid db)) (\<lambda>vector.
     Inr \<lparr>stored_txid = txid, stored_spec = spec, stored_state = state_column row,
          stored_committed = committed_column row, stored_result = result_column row,
          stored_diagnostic = diagnostic, stored_registration = registration_column row,
          stored_settlement = settlement_column row, stored_evidence = evidence_column row,
          stored_assembly_halt = halt, stored_journals = vector\<rparr>)))))"

definition load_record :: "unicode_tables \<Rightarrow> nat \<Rightarrow> database \<Rightarrow> pystr \<Rightarrow> stored_record option result" where
  "load_record u depth db txid =
     bindr (coherence_findings u depth db txid) (\<lambda>findings.
     guard (findings = []) (MetadataStoreInvalid RecordFindings)
     (optional_result (materialize_record u depth db txid) (map_of (record_table db) txid)))"

section \<open>Root rows\<close>

definition require_hex :: "pystr \<Rightarrow> nat \<Rightarrow> unit result" where
  "require_hex v n =
     guard (length v = n \<and> list_all (\<lambda>c. 48 \<le> c \<and> c \<le> 57 \<or> 97 \<le> c \<and> c \<le> 102) v)
       (MetadataStoreInvalid LifecycleHex) (Inr ())"

definition validate_root_lifecycle :: "root_lifecycle \<Rightarrow> unit result" where
  "validate_root_lifecycle l =
     guard (lifecycle_state l \<in> set ROOT_LIFECYCLE_STATES) (MetadataStoreInvalid LifecycleState)
     (guard (lifecycle_origin l \<in> set ROOT_LIFECYCLE_ORIGINS) (MetadataStoreInvalid LifecycleOrigin)
     (andthen (require_hex (machine_id l) 32)
     (guard (machine_id l \<noteq> replicate 32 48) (MetadataStoreInvalid LifecycleMachineZero)
     (guard (root_path l \<noteq> []) (MetadataStoreInvalid LifecyclePath) (Inr ())))))"

definition load_root_lifecycle :: "database \<Rightarrow> root_lifecycle option result" where
  "load_root_lifecycle db =
     optional_result (\<lambda>l. andthen (validate_root_lifecycle l) (Inr l)) (lifecycle_table db)"

definition validate_root_operation :: "root_operation \<Rightarrow> unit result" where
  "validate_root_operation p =
     andthen (require_hex (operation_id p) 32)
     (guard (operation_kind p \<in> set ROOT_OPERATION_KINDS) (MetadataStoreInvalid OperationKind)
     (guard (operation_phase p \<in> set ROOT_OPERATION_PHASES) (MetadataStoreInvalid OperationPhase)
     (andthen (require_hex (request_hash p) 64)
     (case genesis_digest p of None \<Rightarrow> Inr () | Some g \<Rightarrow> require_hex g 64))))"

definition load_root_operation :: "database \<Rightarrow> root_operation option result" where
  "load_root_operation db =
     optional_result (\<lambda>p. andthen (validate_root_operation p) (Inr p)) (operation_table db)"

definition require_root_row_pair :: "root_lifecycle option \<Rightarrow> root_operation option \<Rightarrow> unit result" where
  "require_root_row_pair lifecycle operation =
     (case lifecycle of
        None \<Rightarrow> guard (operation = None) (MetadataStoreInvalid OperationAlone) (Inr ())
      | Some l \<Rightarrow>
          if lifecycle_origin l \<in> set ROOT_OPERATION_KINDS then
            (case operation of
               None \<Rightarrow> Inl (MetadataStoreInvalid OperationMissing)
             | Some p \<Rightarrow>
                 guard (operation_kind p = lifecycle_origin l) (MetadataStoreInvalid OperationMismatch) (Inr ()))
          else guard (operation = None) (MetadataStoreInvalid OperationForeign) (Inr ()))"

end
