(* ===== verification/StoreTransactions.thy ===== *)
theory StoreTransactions
  imports StoreRecords "HOL-Library.AList"
begin

text \<open>
  Write transactions of the store (\<open>store/connection.py\<close>, \<open>store/blobs.py\<close>): the methods of the
  transaction object on a working copy of the database, the poison a failed method leaves, the
  barrier before the commit, and the public reads. A statement that fails undoes itself and not
  the statements before it, so a method returns the working copy also where it raises. A caller
  that catches what a method raised is a body whose write is marked \<open>caught\<close>. The liveness gate
  is the flag \<open>live\<close>, which no step of a transaction changes; the contents of staging and of
  the blob directory are parameters of the promotion.
\<close>

record transaction =
  working :: database
  touched :: "pystr list"
  promoted :: "(pystr \<times> pystr list) list"
  poisoned :: bool

definition begin_transaction :: "database \<Rightarrow> transaction" where
  "begin_transaction db = \<lparr>working = db, touched = [], promoted = [], poisoned = False\<rparr>"

type_synonym write_result = "transaction \<times> unit result"

text \<open>\<open>with self._mutating()\<close>: whatever the body raises poisons the transaction.\<close>

definition mutating :: "write_result \<Rightarrow> write_result" where
  "mutating r = (case snd r of Inl e \<Rightarrow> ((fst r)\<lparr>poisoned := True\<rparr>, Inl e) | Inr _ \<Rightarrow> r)"

definition touch :: "pystr \<Rightarrow> transaction \<Rightarrow> transaction" where
  "touch txid t = t\<lparr>touched := List.insert txid (touched t)\<rparr>"

text \<open>One statement on the working copy, and then the rest.\<close>

definition execute :: "(database \<Rightarrow> database result) \<Rightarrow> transaction \<Rightarrow> (transaction \<Rightarrow> write_result) \<Rightarrow> write_result" where
  "execute statement t rest =
     (case statement (working t) of Inl e \<Rightarrow> (t, Inl e) | Inr db \<Rightarrow> rest (t\<lparr>working := db\<rparr>))"

text \<open>An \<open>UPDATE\<close> whose row count is not one raises; here no row was changed then.\<close>

definition execute_one ::
  "error \<Rightarrow> (database \<Rightarrow> (database \<times> nat) result) \<Rightarrow> transaction \<Rightarrow> (transaction \<Rightarrow> write_result) \<Rightarrow> write_result" where
  "execute_one missing statement t rest =
     (case statement (working t) of
        Inl e \<Rightarrow> (t, Inl e)
      | Inr (db, n) \<Rightarrow> if n \<noteq> 1 then (t\<lparr>working := db\<rparr>, Inl missing) else rest (t\<lparr>working := db\<rparr>))"

definition done_with :: "transaction \<Rightarrow> write_result" where
  "done_with t = (t, Inr ())"

text \<open>A check of an argument before any statement.\<close>

definition checked :: "unit result \<Rightarrow> transaction \<Rightarrow> (transaction \<Rightarrow> write_result) \<Rightarrow> write_result" where
  "checked check t rest = (case check of Inl e \<Rightarrow> (t, Inl e) | Inr _ \<Rightarrow> rest t)"

definition require_store_identifier :: "pystr \<Rightarrow> unit result" where
  "require_store_identifier v = guard (is_valid_identifier v) (use_err StoreIdentifier) (Inr ())"

section \<open>Methods on records\<close>

fun insert_effects :: "pystr \<Rightarrow> effect list \<Rightarrow> transaction \<Rightarrow> (transaction \<Rightarrow> write_result) \<Rightarrow> write_result" where
  "insert_effects txid [] t rest = rest t"
| "insert_effects txid (effect # effects) t rest =
     execute (sql_insert_effect txid (effect_id_of effect) (effect_variant_of effect)) t
       (\<lambda>t. insert_effects txid effects t rest)"

definition txn_insert_record :: "pystr \<Rightarrow> transaction_spec \<Rightarrow> pystr \<Rightarrow> transaction \<Rightarrow> write_result" where
  "txn_insert_record txid spec evidence t =
     mutating (checked (require_store_identifier txid) t (\<lambda>t.
       case canonical_json spec of
         Inl e \<Rightarrow> (t, Inl e)
       | Inr canonical \<Rightarrow>
           execute (sql_insert_record txid canonical evidence) t (\<lambda>t.
           insert_effects txid (spec_effects spec) t (\<lambda>t. done_with (touch txid t)))))"

definition set_column ::
  "pystr \<Rightarrow> (database \<Rightarrow> (database \<times> nat) result) \<Rightarrow> transaction \<Rightarrow> write_result" where
  "set_column txid statement t =
     mutating (checked (require_store_identifier txid) t (\<lambda>t.
       execute_one (use_err NoRecordRow) statement t (\<lambda>t. done_with (touch txid t))))"

definition txn_set_transaction_state :: "pystr \<Rightarrow> transaction_state \<Rightarrow> transaction \<Rightarrow> write_result" where
  "txn_set_transaction_state txid s t = mutating (set_column txid (sql_update_state txid s) t)"

definition txn_set_commit_decision :: "pystr \<Rightarrow> commit_decision \<Rightarrow> transaction \<Rightarrow> write_result" where
  "txn_set_commit_decision txid d t = mutating (set_column txid (sql_update_committed txid d) t)"

definition txn_set_rollback_result :: "pystr \<Rightarrow> rollback_result \<Rightarrow> transaction \<Rightarrow> write_result" where
  "txn_set_rollback_result txid r t = mutating (set_column txid (sql_update_result txid r) t)"

definition txn_set_halt_diagnostic :: "pystr \<Rightarrow> halt_diagnostic \<Rightarrow> transaction \<Rightarrow> write_result" where
  "txn_set_halt_diagnostic txid d t =
     mutating (case encode_diagnostic d of
       Inl e \<Rightarrow> (t, Inl e)
     | Inr payload \<Rightarrow> set_column txid (sql_update_diagnostic txid payload) t)"

definition txn_set_registration_digest :: "pystr \<Rightarrow> pystr \<Rightarrow> transaction \<Rightarrow> write_result" where
  "txn_set_registration_digest txid digest t = mutating (set_column txid (sql_update_registration txid digest) t)"

definition txn_set_settlement_digest :: "pystr \<Rightarrow> pystr \<Rightarrow> transaction \<Rightarrow> write_result" where
  "txn_set_settlement_digest txid digest t = mutating (set_column txid (sql_update_settlement txid digest) t)"

definition txn_set_assembly_halt :: "pystr \<Rightarrow> assembly_halt \<Rightarrow> transaction \<Rightarrow> write_result" where
  "txn_set_assembly_halt txid halt t =
     mutating (checked (require_store_identifier txid) t (\<lambda>t.
       case map_of (record_table (working t)) txid of
         None \<Rightarrow> (t, Inl (use_err NoRecordRow))
       | Some row \<Rightarrow>
           checked (require_assembly_halt_binding txid (evidence_column row) halt) t (\<lambda>t.
             case encode_assembly_halt halt of
               Inl e \<Rightarrow> (t, Inl e)
             | Inr payload \<Rightarrow> set_column txid (sql_update_assembly_halt txid payload) t)))"

definition txn_set_journal_state :: "pystr \<Rightarrow> pystr \<Rightarrow> journal_state \<Rightarrow> transaction \<Rightarrow> write_result" where
  "txn_set_journal_state txid effect_id s t =
     mutating (checked (require_store_identifier txid) t (\<lambda>t.
       checked (require_store_identifier effect_id) t (\<lambda>t.
       execute_one (use_err NoEffectRow) (sql_update_journal txid effect_id s) t (\<lambda>t. done_with (touch txid t)))))"

definition txn_set_active :: "pystr option \<Rightarrow> transaction \<Rightarrow> write_result" where
  "txn_set_active txid t =
     mutating (case txid of
       None \<Rightarrow> execute sql_delete_active t done_with
     | Some v \<Rightarrow>
         checked (require_store_identifier v) t (\<lambda>t.
           execute (sql_insert_active v) t (\<lambda>t. done_with (touch v t))))"

section \<open>Methods on the root rows\<close>

definition txn_insert_root_operation :: "pystr \<Rightarrow> pystr \<Rightarrow> pystr \<Rightarrow> pystr \<Rightarrow> transaction \<Rightarrow> write_result" where
  "txn_insert_root_operation op_id kind request hash t =
     mutating (execute (sql_insert_root_operation op_id kind request hash) t done_with)"

definition txn_insert_root_lifecycle :: "pystr \<Rightarrow> pystr \<Rightarrow> pystr \<Rightarrow> pystr \<Rightarrow> transaction \<Rightarrow> write_result" where
  "txn_insert_root_lifecycle s machine path origin t =
     mutating (execute (sql_insert_root_lifecycle
       \<lparr>lifecycle_state = s, machine_id = machine, root_path = path, lifecycle_origin = origin\<rparr>) t done_with)"

definition txn_set_root_lifecycle_state :: "pystr \<Rightarrow> transaction \<Rightarrow> write_result" where
  "txn_set_root_lifecycle_state s t =
     mutating (execute_one (use_err NoLifecycleRow) (sql_update_lifecycle_state s) t done_with)"

definition txn_set_root_operation_phase :: "pystr \<Rightarrow> transaction \<Rightarrow> write_result" where
  "txn_set_root_operation_phase phase t =
     mutating (execute_one (use_err NoOperationRow) (sql_update_operation_phase phase) t done_with)"

definition txn_set_source_snapshot :: "pystr \<Rightarrow> transaction \<Rightarrow> write_result" where
  "txn_set_source_snapshot snapshot t =
     mutating (execute_one (use_err NoOperationRow) (sql_update_source_snapshot snapshot) t done_with)"

definition txn_set_tree_proof :: "pystr \<Rightarrow> pystr option \<Rightarrow> transaction \<Rightarrow> write_result" where
  "txn_set_tree_proof snapshot genesis t =
     mutating (execute_one (use_err NoOperationRow) (sql_update_tree_proof snapshot genesis) t done_with)"

section \<open>Promotion of staged blobs\<close>

datatype staged_blob = StagedBlob (staged_name: pystr) (staged_digest: pystr) (staged_len: int)

definition require_digest :: "pystr \<Rightarrow> unit result" where
  "require_digest v = guard (is_sha256_digest v) (use_err DigestForm) (Inr ())"

definition require_path_component :: "pystr \<Rightarrow> unit result" where
  "require_path_component v =
     guard (v \<noteq> [] \<and> v \<notin> {py ''.'', py ''..''} \<and> slash \<notin> set v \<and> 0 \<notin> set v) (use_err ComponentForm) (Inr ())"

text \<open>The loop over the manifest, with the names and the lengths it has seen.\<close>

fun check_manifest :: "pystr list \<Rightarrow> (pystr \<times> int) list \<Rightarrow> staged_blob list \<Rightarrow> unit result" where
  "check_manifest names lengths [] = Inr ()"
| "check_manifest names lengths (entry # manifest) =
     andthen (require_path_component (staged_name entry))
     (andthen (require_digest (staged_digest entry))
     (guard (0 \<le> staged_len entry) (use_err ManifestLengthNegative)
     (guard (staged_name entry \<notin> set names) (use_err ManifestNameTwice)
     (case map_of lengths (staged_digest entry) of
        None \<Rightarrow> check_manifest (staged_name entry # names) ((staged_digest entry, staged_len entry) # lengths) manifest
      | Some previous \<Rightarrow>
          guard (previous = staged_len entry) (use_err ManifestLengthsDiffer)
            (check_manifest (staged_name entry # names) lengths manifest)))))"

text \<open>
  \<open>present\<close> are the names in staging, \<open>verify_staged\<close> the check of a staged file against its
  entry, \<open>verify_leaf\<close> that of an indexed leaf of the blob directory against its length.
\<close>

definition preflight ::
  "database \<Rightarrow> pystr list \<Rightarrow> (staged_blob \<Rightarrow> unit result) \<Rightarrow> (pystr \<Rightarrow> int \<Rightarrow> unit result) \<Rightarrow>
   staged_blob list \<Rightarrow> unit result" where
  "preflight db present verify_staged verify_leaf manifest =
     andthen (check_manifest [] [] manifest)
     (guard (set present = set (map staged_name manifest)) (use_err ManifestNotExact)
     (andthen (for_each verify_staged manifest)
     (for_each (\<lambda>(digest, len).
        case map_of (blob_table db) digest of
          None \<Rightarrow> Inr ()
        | Some stored \<Rightarrow>
            guard (stored = len) (MetadataStoreInvalid PromotedLengthDiffers) (verify_leaf digest stored))
        (sort (remdups (map (\<lambda>entry. (staged_digest entry, staged_len entry)) manifest))))))"

fun index_blobs :: "staged_blob list \<Rightarrow> transaction \<Rightarrow> (transaction \<Rightarrow> write_result) \<Rightarrow> write_result" where
  "index_blobs [] t rest = rest t"
| "index_blobs (entry # manifest) t rest =
     execute (sql_insert_blob (staged_digest entry) (staged_len entry)) t (\<lambda>t. index_blobs manifest t rest)"

definition add_promoted :: "pystr \<Rightarrow> pystr list \<Rightarrow> (pystr \<times> pystr list) list \<Rightarrow> (pystr \<times> pystr list) list" where
  "add_promoted txid digests table =
     AList.update txid ((case map_of table txid of None \<Rightarrow> [] | Some ds \<Rightarrow> ds) @ digests) table"

text \<open>\<open>moved\<close> is the outcome of moving the files; \<open>workspace\<close> the transaction they are staged for.\<close>

definition txn_promote_staging ::
  "pystr \<Rightarrow> pystr list \<Rightarrow> (staged_blob \<Rightarrow> unit result) \<Rightarrow> (pystr \<Rightarrow> int \<Rightarrow> unit result) \<Rightarrow> unit result \<Rightarrow>
   staged_blob list \<Rightarrow> transaction \<Rightarrow> write_result" where
  "txn_promote_staging workspace present verify_staged verify_leaf moved manifest t =
     mutating (checked (preflight (working t) present verify_staged verify_leaf manifest) t (\<lambda>t.
       checked moved t (\<lambda>t.
       index_blobs manifest t (\<lambda>t.
       done_with ((touch workspace t)\<lparr>promoted :=
         add_promoted workspace (map staged_digest manifest) (promoted t)\<rparr>)))))"

section \<open>Transactions\<close>

datatype store_write =
    InsertRecord pystr transaction_spec pystr
  | SetTransactionState pystr transaction_state
  | SetCommitDecision pystr commit_decision
  | SetRollbackResult pystr rollback_result
  | SetHaltDiagnostic pystr halt_diagnostic
  | SetRegistrationDigest pystr pystr
  | SetSettlementDigest pystr pystr
  | SetAssemblyHalt pystr assembly_halt
  | SetJournalState pystr pystr journal_state
  | SetActive "pystr option"
  | InsertRootOperation pystr pystr pystr pystr
  | InsertRootLifecycle pystr pystr pystr pystr
  | SetRootLifecycleState pystr
  | SetRootOperationPhase pystr
  | SetSourceSnapshot pystr
  | SetTreeProof pystr "pystr option"
  | PromoteStaging pystr "pystr list" "staged_blob \<Rightarrow> unit result" "pystr \<Rightarrow> int \<Rightarrow> unit result"
      "unit result" "staged_blob list"

fun run_write :: "store_write \<Rightarrow> transaction \<Rightarrow> write_result" where
  "run_write (InsertRecord txid spec evidence) t = txn_insert_record txid spec evidence t"
| "run_write (SetTransactionState txid s) t = txn_set_transaction_state txid s t"
| "run_write (SetCommitDecision txid d) t = txn_set_commit_decision txid d t"
| "run_write (SetRollbackResult txid r) t = txn_set_rollback_result txid r t"
| "run_write (SetHaltDiagnostic txid d) t = txn_set_halt_diagnostic txid d t"
| "run_write (SetRegistrationDigest txid digest) t = txn_set_registration_digest txid digest t"
| "run_write (SetSettlementDigest txid digest) t = txn_set_settlement_digest txid digest t"
| "run_write (SetAssemblyHalt txid halt) t = txn_set_assembly_halt txid halt t"
| "run_write (SetJournalState txid effect_id s) t = txn_set_journal_state txid effect_id s t"
| "run_write (SetActive txid) t = txn_set_active txid t"
| "run_write (InsertRootOperation op_id kind request hash) t = txn_insert_root_operation op_id kind request hash t"
| "run_write (InsertRootLifecycle s machine path origin) t = txn_insert_root_lifecycle s machine path origin t"
| "run_write (SetRootLifecycleState s) t = txn_set_root_lifecycle_state s t"
| "run_write (SetRootOperationPhase phase) t = txn_set_root_operation_phase phase t"
| "run_write (SetSourceSnapshot snapshot) t = txn_set_source_snapshot snapshot t"
| "run_write (SetTreeProof snapshot genesis) t = txn_set_tree_proof snapshot genesis t"
| "run_write (PromoteStaging workspace present verify_staged verify_leaf moved manifest) t =
     txn_promote_staging workspace present verify_staged verify_leaf moved manifest t"

text \<open>The body of a \<open>with\<close> statement: its writes, each marked if the caller catches what it raises.\<close>

type_synonym transaction_body = "(bool \<times> store_write) list"

fun run_body :: "transaction_body \<Rightarrow> transaction \<Rightarrow> write_result" where
  "run_body [] t = done_with t"
| "run_body ((caught, w) # body) t =
     (case run_write w t of
        (t', Inr _) \<Rightarrow> run_body body t'
      | (t', Inl e) \<Rightarrow> if caught then run_body body t' else (t', Inl e))"

definition barrier_record :: "unicode_tables \<Rightarrow> nat \<Rightarrow> database \<Rightarrow> pystr \<Rightarrow> unit result" where
  "barrier_record u depth db txid =
     bindr (coherence_findings u depth db txid) (\<lambda>findings.
     guard (findings = []) (use_err RecordNotCoherent) (Inr ()))"

definition barrier_promoted :: "nat \<Rightarrow> database \<Rightarrow> pystr \<times> pystr list \<Rightarrow> unit result" where
  "barrier_promoted depth db = (\<lambda>(txid, digests).
     bindr (case map_of (record_table db) txid of
              None \<Rightarrow> Inr []
            | Some row \<Rightarrow>
                bindr (from_canonical_json depth (spec_json row)) (\<lambda>spec. Inr (map fst (referenced_digests spec))))
       (\<lambda>referenced. guard (set digests \<subseteq> set referenced) (use_err PromotedUnreferenced) (Inr ())))"

definition run_barrier :: "unicode_tables \<Rightarrow> nat \<Rightarrow> transaction \<Rightarrow> unit result" where
  "run_barrier u depth t =
     andthen (for_each (barrier_record u depth (working t)) (sort (touched t)))
     (for_each (barrier_promoted depth (working t)) (sort_key fst (promoted t)))"

text \<open>A transaction from a durable database: the database it leaves and what it raises.\<close>

definition store_transaction ::
  "unicode_tables \<Rightarrow> nat \<Rightarrow> bool \<Rightarrow> transaction_body \<Rightarrow> database \<Rightarrow> database \<times> unit result" where
  "store_transaction u depth live body db =
     (if \<not> live then (db, Inl (use_err StoreNotLive))
      else case run_body body (begin_transaction db) of
        (t, Inl e) \<Rightarrow> (db, Inl e)
      | (t, Inr _) \<Rightarrow>
          (case guard (\<not> poisoned t) (use_err TransactionPoisoned) (run_barrier u depth t) of
             Inl e \<Rightarrow> (db, Inl e)
           | Inr _ \<Rightarrow> (working t, Inr ())))"

section \<open>Reads\<close>

definition read_record :: "unicode_tables \<Rightarrow> nat \<Rightarrow> bool \<Rightarrow> database \<Rightarrow> pystr \<Rightarrow> stored_record option result" where
  "read_record u depth live db txid =
     andthen (require_store_identifier txid)
     (guard live (use_err StoreNotLive) (load_record u depth db txid))"

definition read_active :: "unicode_tables \<Rightarrow> nat \<Rightarrow> bool \<Rightarrow> database \<Rightarrow> stored_record option result" where
  "read_active u depth live db =
     guard live (use_err StoreNotLive)
     (case active_table db of None \<Rightarrow> Inr None | Some txid \<Rightarrow> load_record u depth db txid)"

end
