(* ===== verification/StoreCorrect.thy ===== *)
theory StoreCorrect
  imports StoreTransactions
begin

text \<open>
  The durable database stays coherent: a write changes the rows of the transactions it touches
  only, a failed write poisons, and the barrier checks what was touched.
\<close>

section \<open>When a write succeeds\<close>

named_theorems write_simps \<open>when a method of a transaction succeeds\<close>

lemma mutating_Inr [write_simps]: "mutating r = (t', Inr u) \<longleftrightarrow> r = (t', Inr u)"
  by (cases r; cases "snd r") (auto simp: mutating_def)

lemma mutating_twice [simp]: "mutating (mutating r) = mutating r"
  by (cases r; cases "snd r") (auto simp: mutating_def)

lemma execute_Inr [write_simps]:
  "execute statement t rest = (t', Inr u) \<longleftrightarrow>
   (\<exists>db. statement (working t) = Inr db \<and> rest (t\<lparr>working := db\<rparr>) = (t', Inr u))"
  by (auto simp: execute_def split: sum.splits)

lemma execute_one_Inr [write_simps]:
  "execute_one missing statement t rest = (t', Inr u) \<longleftrightarrow>
   (\<exists>db. statement (working t) = Inr (db, 1) \<and> rest (t\<lparr>working := db\<rparr>) = (t', Inr u))"
  by (auto simp: execute_one_def split: sum.splits if_splits)

lemma checked_Inr [write_simps]:
  "checked check t rest = (t', Inr u) \<longleftrightarrow> check = Inr () \<and> rest t = (t', Inr u)"
  by (auto simp: checked_def split: sum.splits)

lemma done_with_Inr [write_simps]: "done_with t = (t', Inr u) \<longleftrightarrow> t' = t"
  by (auto simp: done_with_def)

lemma failed_case [write_simps]:
  "(case r of Inl e \<Rightarrow> (t, Inl e) | Inr x \<Rightarrow> f x) = (t', Inr u) \<longleftrightarrow> (\<exists>x. r = Inr x \<and> f x = (t', Inr u))"
  by (cases r) auto

lemma set_column_Inr [write_simps]:
  "set_column txid statement t = (t', Inr u) \<longleftrightarrow>
   is_valid_identifier txid \<and> (\<exists>db. statement (working t) = Inr (db, 1) \<and> t' = touch txid (t\<lparr>working := db\<rparr>))"
  by (auto simp: set_column_def write_simps require_store_identifier_def guard_Inr_iff)

lemmas store_methods =
  txn_insert_record_def txn_set_transaction_state_def txn_set_commit_decision_def
  txn_set_rollback_result_def txn_set_halt_diagnostic_def txn_set_registration_digest_def
  txn_set_settlement_digest_def txn_set_assembly_halt_def txn_set_journal_state_def
  txn_set_active_def txn_insert_root_operation_def txn_insert_root_lifecycle_def
  txn_set_root_lifecycle_state_def txn_set_root_operation_phase_def txn_set_source_snapshot_def
  txn_set_tree_proof_def txn_promote_staging_def

section \<open>Poison\<close>

lemma mutating_fails: "mutating r = (t', Inl e) \<Longrightarrow> poisoned t'"
  by (cases r; cases "snd r") (auto simp: mutating_def)

lemma write_fails: "run_write w t = (t', Inl e) \<Longrightarrow> poisoned t'"
  by (cases w) (auto simp: store_methods dest: mutating_fails)

section \<open>Statements as steps\<close>

text \<open>
  The steps of the database: a statement that succeeds, with the transactions whose rows it may
  write. Every property of the durable database below is an induction over these rules.
\<close>

inductive statement :: "pystr set \<Rightarrow> database \<Rightarrow> database \<Rightarrow> bool" where
  insert_record: "sql_insert_record txid spec evidence db = Inr db' \<Longrightarrow> statement {txid} db db'"
| insert_effect: "sql_insert_effect txid e v db = Inr db' \<Longrightarrow> statement {txid} db db'"
| update_state: "sql_update_state txid s db = Inr (db', n) \<Longrightarrow> statement {txid} db db'"
| update_committed: "sql_update_committed txid d db = Inr (db', n) \<Longrightarrow> statement {txid} db db'"
| update_result: "sql_update_result txid r db = Inr (db', n) \<Longrightarrow> statement {txid} db db'"
| update_diagnostic: "sql_update_diagnostic txid p db = Inr (db', n) \<Longrightarrow> statement {txid} db db'"
| update_registration: "sql_update_registration txid g db = Inr (db', n) \<Longrightarrow> statement {txid} db db'"
| update_settlement: "sql_update_settlement txid g db = Inr (db', n) \<Longrightarrow> statement {txid} db db'"
| update_assembly_halt: "sql_update_assembly_halt txid p db = Inr (db', n) \<Longrightarrow> statement {txid} db db'"
| update_journal: "sql_update_journal txid e j db = Inr (db', n) \<Longrightarrow> statement {txid} db db'"
| insert_blob: "sql_insert_blob g len db = Inr db' \<Longrightarrow> statement {} db db'"
| insert_active: "sql_insert_active txid db = Inr db' \<Longrightarrow> statement {} db db'"
| delete_active: "sql_delete_active db = Inr db' \<Longrightarrow> statement {} db db'"
| insert_lifecycle: "sql_insert_root_lifecycle l db = Inr db' \<Longrightarrow> statement {} db db'"
| insert_operation: "sql_insert_root_operation o' kind request hash db = Inr db' \<Longrightarrow> statement {} db db'"
| update_lifecycle: "sql_update_lifecycle_state ls db = Inr (db', n) \<Longrightarrow> statement {} db db'"
| update_phase: "sql_update_operation_phase phase db = Inr (db', n) \<Longrightarrow> statement {} db db'"
| update_snapshot: "sql_update_source_snapshot snapshot db = Inr (db', n) \<Longrightarrow> statement {} db db'"
| update_tree_proof: "sql_update_tree_proof snapshot genesis db = Inr (db', n) \<Longrightarrow> statement {} db db'"

text \<open>Statements that write rows of the transactions of \<open>T\<close> only.\<close>

definition statement_in :: "pystr set \<Rightarrow> database \<Rightarrow> database \<Rightarrow> bool" where
  "statement_in T db db' \<longleftrightarrow> (\<exists>T' \<subseteq> T. statement T' db db')"

lemma statement_one: "statement {txid} db db' \<Longrightarrow> txid \<in> T \<Longrightarrow> (statement_in T)\<^sup>*\<^sup>* db db'"
  unfolding statement_in_def by (rule r_into_rtranclp) blast

lemma statement_none: "statement {} db db' \<Longrightarrow> (statement_in T)\<^sup>*\<^sup>* db db'"
  unfolding statement_in_def by (rule r_into_rtranclp) blast

lemma statements_mono: "(statement_in T)\<^sup>*\<^sup>* db db' \<Longrightarrow> T \<subseteq> T' \<Longrightarrow> (statement_in T')\<^sup>*\<^sup>* db db'"
proof -
  assume "T \<subseteq> T'"
  then have "statement_in T \<le> statement_in T'" unfolding statement_in_def by blast
  then show "(statement_in T)\<^sup>*\<^sup>* db db' \<Longrightarrow> (statement_in T')\<^sup>*\<^sup>* db db'"
    using rtranclp_mono by blast
qed

section \<open>Writes are runs of statements\<close>

text \<open>A successful write records the transactions it may have changed, and never takes one back.\<close>

definition runs :: "transaction \<Rightarrow> transaction \<Rightarrow> bool" where
  "runs t t' \<longleftrightarrow>
     (statement_in (set (touched t')))\<^sup>*\<^sup>* (working t) (working t') \<and> set (touched t) \<subseteq> set (touched t') \<and>
     poisoned t' = poisoned t"

lemma runs_trans: "runs t t' \<Longrightarrow> runs t' t'' \<Longrightarrow> runs t t''"
  by (auto simp: runs_def intro: rtranclp_trans statements_mono)

lemma touch_simps [simp]:
  "working (touch txid t) = working t" "set (touched (touch txid t)) = insert txid (set (touched t))"
  "poisoned (touch txid t) = poisoned t" "promoted (touch txid t) = promoted t"
  by (simp_all add: touch_def)

lemma runs_row:
  "statement {txid} (working t) db \<Longrightarrow> runs t (touch txid (t\<lparr>working := db\<rparr>))"
  by (auto simp: runs_def intro: statement_one)

lemma runs_elsewhere: "statement {} (working t) db \<Longrightarrow> runs t (t\<lparr>working := db\<rparr>)"
  by (auto simp: runs_def intro: statement_none)

lemma insert_effects_runs:
  "insert_effects txid effects t rest = (t', Inr u) \<Longrightarrow>
   \<exists>db. (statement_in {txid})\<^sup>*\<^sup>* (working t) db \<and> rest (t\<lparr>working := db\<rparr>) = (t', Inr u)"
proof (induction effects arbitrary: t)
  case (Cons effect effects)
  from Cons.prems obtain db where db: "sql_insert_effect txid (effect_id_of effect) (effect_variant_of effect) (working t) = Inr db"
      "insert_effects txid effects (t\<lparr>working := db\<rparr>) rest = (t', Inr u)"
    by (auto simp: write_simps)
  from statement_one [OF statement.insert_effect [OF db(1)], of "{txid}"] Cons.IH [OF db(2)] show ?case
    by (auto intro: rtranclp_trans)
qed auto

lemma index_blobs_runs:
  "index_blobs manifest t rest = (t', Inr u) \<Longrightarrow>
   \<exists>db. (statement_in {})\<^sup>*\<^sup>* (working t) db \<and> rest (t\<lparr>working := db\<rparr>) = (t', Inr u)"
proof (induction manifest arbitrary: t)
  case (Cons entry manifest)
  from Cons.prems obtain db where db: "sql_insert_blob (staged_digest entry) (staged_len entry) (working t) = Inr db"
      "index_blobs manifest (t\<lparr>working := db\<rparr>) rest = (t', Inr u)"
    by (auto simp: write_simps)
  from statement_none [OF statement.insert_blob [OF db(1)], of "{}"] Cons.IH [OF db(2)] show ?case
    by (auto intro: rtranclp_trans)
qed auto

lemma insert_record_runs:
  assumes "txn_insert_record txid spec evidence t = (t', Inr u)"
  shows "runs t t'"
proof -
  from assms obtain canonical db where a: "sql_insert_record txid canonical evidence (working t) = Inr db"
    "insert_effects txid (spec_effects spec) (t\<lparr>working := db\<rparr>) (\<lambda>t. done_with (touch txid t)) = (t', Inr u)"
    by (auto simp: txn_insert_record_def write_simps)
  from insert_effects_runs [OF a(2)] obtain db' where b: "(statement_in {txid})\<^sup>*\<^sup>* db db'"
    "t' = touch txid (t\<lparr>working := db'\<rparr>)" by (auto simp: write_simps)
  from statement_one [OF statement.insert_record [OF a(1)], of "{txid}"] b(1)
  have "(statement_in {txid})\<^sup>*\<^sup>* (working t) db'" by simp
  then show ?thesis by (auto simp: b(2) runs_def elim: statements_mono)
qed

lemma promote_runs:
  assumes "txn_promote_staging workspace present vs vl moved manifest t = (t', Inr u)"
  shows "runs t t'"
proof -
  from assms obtain db where "(statement_in {})\<^sup>*\<^sup>* (working t) db"
      "t' = (touch workspace (t\<lparr>working := db\<rparr>))\<lparr>promoted := add_promoted workspace (map staged_digest manifest) (promoted t)\<rparr>"
    by (auto simp: txn_promote_staging_def write_simps dest!: index_blobs_runs)
  then show ?thesis by (auto simp: runs_def elim: statements_mono)
qed

lemma active_runs: "txn_set_active txid t = (t', Inr u) \<Longrightarrow> runs t t'"
  by (auto simp: txn_set_active_def write_simps runs_def split: option.splits
      intro!: statement_none intro: statement.intros)

lemma column_runs:
  "set_column txid f t = (t', Inr u) \<Longrightarrow> (\<And>db n. f (working t) = Inr (db, n) \<Longrightarrow> statement {txid} (working t) db) \<Longrightarrow>
   runs t t'"
  by (auto simp: write_simps intro: runs_row)

lemma assembly_halt_runs: "txn_set_assembly_halt txid halt t = (t', Inr u) \<Longrightarrow> runs t t'"
  by (auto simp: txn_set_assembly_halt_def write_simps split: option.splits intro!: runs_row statement.update_assembly_halt)

theorem write_runs: "run_write w t = (t', Inr u) \<Longrightarrow> runs t t'"
  by (cases w)
    (auto simp: insert_record_runs promote_runs active_runs assembly_halt_runs, (auto simp: store_methods write_simps
      intro!: runs_row runs_elsewhere intro: statement.intros)+)

section \<open>What a statement leaves alone\<close>

definition active_recorded :: "database \<Rightarrow> bool" where
  "active_recorded db \<longleftrightarrow> (\<forall>txid. active_table db = Some txid \<longrightarrow> map_of (record_table db) txid \<noteq> None)"

text \<open>Between the databases only the transactions of \<open>T\<close> differ; blobs are kept.\<close>

definition differs_at :: "pystr set \<Rightarrow> database \<Rightarrow> database \<Rightarrow> bool" where
  "differs_at T db db' \<longleftrightarrow>
     (\<forall>txid. txid \<notin> T \<longrightarrow>
        map_of (record_table db') txid = map_of (record_table db) txid \<and> effects_of txid db' = effects_of txid db) \<and>
     map_of (blob_table db) \<subseteq>\<^sub>m map_of (blob_table db') \<and>
     (active_recorded db \<longrightarrow> active_recorded db')"

lemma differs_refl: "differs_at T db db"
  by (simp add: differs_at_def)

lemma differs_trans: "differs_at T db db' \<Longrightarrow> differs_at T' db' db'' \<Longrightarrow> differs_at (T \<union> T') db db''"
  by (auto simp: differs_at_def intro: map_le_trans)

lemma differs_mono: "differs_at T db db' \<Longrightarrow> T \<subseteq> T' \<Longrightarrow> differs_at T' db db'"
  by (auto simp: differs_at_def)

lemma update_rows_lookup:
  "map_of (update_rows key new rows) k = (if k = key then map_option new (map_of rows k) else map_of rows k)"
  by (induction rows) (auto simp: update_rows_def)

lemma effects_of_update:
  "filter (\<lambda>(k, r). fst k = txid) (update_rows (txid', e) new rows) =
   (if txid = txid' then update_rows (txid', e) new (filter (\<lambda>(k, r). fst k = txid) rows)
    else filter (\<lambda>(k, r). fst k = txid) rows)"
  by (induction rows) (auto simp: update_rows_def)

lemma update_record_Inr:
  "update_record refused new txid db = Inr (db', n) \<longleftrightarrow>
   (case map_of (record_table db) txid of
      None \<Rightarrow> db' = db \<and> n = 0
    | Some old \<Rightarrow> \<not> refused old \<and> n = 1 \<and> db' = db\<lparr>record_table := update_rows txid new (record_table db)\<rparr>)"
  by (auto simp: update_record_def guard_Inr_iff split: option.splits)

lemma update_record_differs: "update_record refused new txid db = Inr (db', n) \<Longrightarrow> differs_at {txid} db db'"
  by (auto simp: update_record_Inr differs_at_def update_rows_lookup effects_of_def active_recorded_def
      split: option.splits if_splits)

lemma statements_on_records:
  "sql_update_state txid s db = Inr (db', n) \<Longrightarrow> differs_at {txid} db db'"
  "sql_update_committed txid d db = Inr (db', n) \<Longrightarrow> differs_at {txid} db db'"
  "sql_update_result txid r db = Inr (db', n) \<Longrightarrow> differs_at {txid} db db'"
  "sql_update_diagnostic txid p db = Inr (db', n) \<Longrightarrow> differs_at {txid} db db'"
  "sql_update_registration txid g db = Inr (db', n) \<Longrightarrow> differs_at {txid} db db'"
  "sql_update_settlement txid g db = Inr (db', n) \<Longrightarrow> differs_at {txid} db db'"
  "sql_update_assembly_halt txid p db = Inr (db', n) \<Longrightarrow> differs_at {txid} db db'"
  by (auto simp: sql_update_state_def sql_update_committed_def sql_update_result_def sql_update_diagnostic_def
      sql_update_registration_def sql_update_settlement_def sql_update_assembly_halt_def bindr_Inr_iff
      intro: update_record_differs)

lemma refuse_unless_Inr: "refuse_unless admitted db = Inr db' \<longleftrightarrow> admitted \<and> db' = db"
  by (auto simp: refuse_unless_def guard_Inr_iff)

lemma insert_record_differs: "sql_insert_record txid spec evidence db = Inr db' \<Longrightarrow> differs_at {txid} db db'"
  by (auto simp: sql_insert_record_def bindr_Inr_iff refuse_unless_Inr differs_at_def effects_of_def
      active_recorded_def map_add_def split: option.splits)

lemma insert_effect_differs: "sql_insert_effect txid e v db = Inr db' \<Longrightarrow> differs_at {txid} db db'"
  by (auto simp: sql_insert_effect_def bindr_Inr_iff refuse_unless_Inr differs_at_def effects_of_def
      active_recorded_def)

lemma update_journal_differs: "sql_update_journal txid e s db = Inr (db', n) \<Longrightarrow> differs_at {txid} db db'"
  by (auto simp: sql_update_journal_def guard_Inr_iff differs_at_def effects_of_def effects_of_update
      active_recorded_def split: option.splits)

lemma insert_blob_differs: "sql_insert_blob g n db = Inr db' \<Longrightarrow> differs_at {} db db'"
  by (auto simp: sql_insert_blob_def bindr_Inr_iff refuse_unless_Inr differs_at_def effects_of_def
      active_recorded_def map_le_def map_add_def split: option.splits)

lemma active_differs:
  "sql_insert_active txid db = Inr db' \<Longrightarrow> differs_at {} db db'"
  "sql_delete_active db = Inr db' \<Longrightarrow> differs_at {} db db'"
  by (auto simp: sql_insert_active_def sql_delete_active_def refuse_unless_Inr differs_at_def effects_of_def
      active_recorded_def)

text \<open>A statement on the root rows.\<close>

definition same_records :: "database \<Rightarrow> database \<Rightarrow> bool" where
  "same_records db db' \<longleftrightarrow>
     record_table db' = record_table db \<and> effect_table db' = effect_table db \<and>
     blob_table db' = blob_table db \<and> active_table db' = active_table db"

lemma same_differs: "same_records db db' \<Longrightarrow> differs_at {} db db'"
  by (auto simp: same_records_def differs_at_def effects_of_def active_recorded_def)

lemma update_operation_same: "update_operation new db = Inr (db', n) \<Longrightarrow> same_records db db'"
  by (auto simp: update_operation_def guard_Inr_iff same_records_def split: option.splits)

lemma root_statements_same:
  "sql_insert_root_lifecycle l db = Inr db' \<Longrightarrow> same_records db db'"
  "sql_insert_root_operation op_id kind request hash db = Inr db' \<Longrightarrow> same_records db db'"
  "sql_update_lifecycle_state s db = Inr (db', n) \<Longrightarrow> same_records db db'"
  "sql_update_operation_phase s db = Inr (db', n) \<Longrightarrow> same_records db db'"
  "sql_update_source_snapshot s db = Inr (db', n) \<Longrightarrow> same_records db db'"
  "sql_update_tree_proof s g db = Inr (db', n) \<Longrightarrow> same_records db db'"
  by (auto simp: sql_insert_root_lifecycle_def sql_insert_root_operation_def sql_update_lifecycle_state_def
      sql_update_operation_phase_def sql_update_source_snapshot_def sql_update_tree_proof_def bindr_Inr_iff
      refuse_unless_Inr Let_def same_records_def guard_Inr_iff split: option.splits dest: update_operation_same)

lemma statement_differs: "statement T db db' \<Longrightarrow> differs_at T db db'"
  by (induction rule: statement.induct)
    (auto intro: insert_record_differs insert_effect_differs statements_on_records update_journal_differs
      insert_blob_differs active_differs same_differs root_statements_same)

lemma statements_differ: "(statement_in T)\<^sup>*\<^sup>* db db' \<Longrightarrow> differs_at T db db'"
proof (induction rule: rtranclp_induct)
  case (step db' db'')
  then have "differs_at T db' db''" by (auto simp: statement_in_def intro: differs_mono statement_differs)
  with differs_trans [OF step.IH, of T db''] show ?case by simp
qed (rule differs_refl)

section \<open>Transactions\<close>

lemma runs_refl: "runs t t"
  by (simp add: runs_def)

lemma write_keeps_poison: "run_write w t = (t', r) \<Longrightarrow> poisoned t \<Longrightarrow> poisoned t'"
  by (cases r) (auto simp: runs_def dest: write_fails dest!: write_runs)

lemma body_keeps_poison: "run_body body t = (t', r) \<Longrightarrow> poisoned t \<Longrightarrow> poisoned t'"
proof (induction body arbitrary: t)
  case (Cons cw body)
  obtain caught w where cw: "cw = (caught, w)" by (cases cw)
  obtain t1 r1 where w: "run_write w t = (t1, r1)" by (cases "run_write w t")
  with write_keeps_poison Cons.prems(2) have "poisoned t1" by blast
  with Cons w cw show ?case by (auto split: sum.splits if_splits)
qed (simp add: done_with_def)

text \<open>A body that ends without poison is a run of its writes, none of which failed.\<close>

lemma body_runs: "run_body body t = (t', Inr v) \<Longrightarrow> \<not> poisoned t' \<Longrightarrow> runs t t'"
proof (induction body arbitrary: t)
  case (Cons cw body)
  obtain caught w where cw: "cw = (caught, w)" by (cases cw)
  obtain t1 r1 where w: "run_write w t = (t1, r1)" by (cases "run_write w t")
  with Cons.prems cw have rest: "run_body body t1 = (t', Inr v)" by (auto split: sum.splits if_splits)
  with body_keeps_poison Cons.prems(2) write_fails w have "r1 = Inr ()" by (cases r1) auto
  with w write_runs have "runs t t1" by simp
  with Cons.IH [OF rest Cons.prems(2)] show ?case by (blast intro: runs_trans)
qed (simp add: done_with_def runs_refl)

lemma for_each_Inr: "for_each f xs = Inr v \<longleftrightarrow> (\<forall>x \<in> set xs. f x = Inr ())"
  by (induction xs) (auto simp: bindr_Inr_iff)

lemma committed:
  assumes "store_transaction u depth live body db = (db', Inr v)"
  obtains T where "(statement_in T)\<^sup>*\<^sup>* db db'" "\<And>txid. txid \<in> T \<Longrightarrow> coherence_findings u depth db' txid = Inr []"
proof -
  from assms obtain t where t: "run_body body (begin_transaction db) = (t, Inr ())" "\<not> poisoned t"
      "run_barrier u depth t = Inr ()" "db' = working t"
    by (auto simp: store_transaction_def guard_def split: if_splits prod.splits sum.splits)
  from body_runs [OF t(1,2)] have "(statement_in (set (touched t)))\<^sup>*\<^sup>* db (working t)"
    by (simp add: runs_def begin_transaction_def)
  moreover from t(3) have "\<forall>txid \<in> set (touched t). coherence_findings u depth (working t) txid = Inr []"
    by (auto simp: run_barrier_def bindr_Inr_iff for_each_Inr barrier_record_def guard_Inr_iff)
  ultimately show thesis using that t(4) by blast
qed

lemma refused: "store_transaction u depth live body db = (db', Inl e) \<Longrightarrow> db' = db"
  by (auto simp: store_transaction_def split: if_splits prod.splits sum.splits)

section \<open>Coherence\<close>

definition coherent :: "unicode_tables \<Rightarrow> nat \<Rightarrow> database \<Rightarrow> bool" where
  "coherent u depth db \<longleftrightarrow> (\<forall>txid. coherence_findings u depth db txid = Inr [])"

lemma active_findings_iff: "active_findings db = [] \<longleftrightarrow> active_recorded db"
  by (auto simp: active_findings_def active_recorded_def split: option.splits)

lemma blob_findings_iff:
  "blob_findings db spec = [] \<longleftrightarrow>
   (\<forall>(digest, len) \<in> set (referenced_digests spec). map_of (blob_table db) digest = Some len)"
  by (force simp: blob_findings_def split: option.splits if_splits)

lemma record_findings_iff:
  "record_findings u depth db txid row = Inr [] \<longleftrightarrow>
   (\<exists>spec. from_canonical_json depth (spec_json row) = Inr spec \<and> canonical_json spec = Inr (spec_json row) \<and>
     compile_findings u spec = Inr [] \<and> diagnostic_findings depth spec row (effects_of txid db) = Inr [] \<and>
     effect_findings spec (effects_of txid db) = [] \<and> presence_findings row = [] \<and>
     blob_findings db spec = [] \<and> active_recorded db)"
  by (auto simp: record_findings_def Let_def bindr_Inr_iff active_findings_iff split: sum.splits error.splits)

lemma coherent_active: "coherence_findings u depth db txid = Inr [] \<Longrightarrow> active_recorded db"
  by (auto simp: coherence_findings_def record_findings_iff active_findings_iff split: option.splits)

lemma map_leD_some: "m \<subseteq>\<^sub>m m' \<Longrightarrow> m k = Some v \<Longrightarrow> m' k = Some v"
  by (force simp: map_le_def)

lemma blob_findings_mono:
  "map_of (blob_table db) \<subseteq>\<^sub>m map_of (blob_table db') \<Longrightarrow> blob_findings db spec = [] \<Longrightarrow> blob_findings db' spec = []"
  by (auto simp: blob_findings_iff intro: map_leD_some)

lemma coherent_elsewhere:
  assumes "coherence_findings u depth db txid = Inr []" "differs_at T db db'" "txid \<notin> T"
  shows "coherence_findings u depth db' txid = Inr []"
proof -
  have "active_recorded db'"
    using coherent_active [OF assms(1)] assms(2) by (simp add: differs_at_def)
  moreover have "map_of (blob_table db) \<subseteq>\<^sub>m map_of (blob_table db')"
      "map_of (record_table db') txid = map_of (record_table db) txid" "effects_of txid db' = effects_of txid db"
    using assms(2,3) by (simp_all add: differs_at_def)
  ultimately show ?thesis
    using assms(1)
    by (auto simp: coherence_findings_def record_findings_iff active_findings_iff split: option.splits
        intro: blob_findings_mono)
qed

lemma transaction_coherent:
  assumes "coherent u depth db" "store_transaction u depth live body db = (db', r)"
  shows "coherent u depth db'"
proof (cases r)
  case (Inl e)
  with refused [of u depth live body db db' e] assms show ?thesis by simp
next
  case (Inr v)
  with assms committed obtain T where "(statement_in T)\<^sup>*\<^sup>* db db'"
      "\<And>txid. txid \<in> T \<Longrightarrow> coherence_findings u depth db' txid = Inr []" by metis
  with assms(1) coherent_elsewhere [OF _ statements_differ] show ?thesis
    unfolding coherent_def by metis
qed

lemma empty_coherent: "coherent u depth empty_database"
  by (simp add: coherent_def coherence_findings_def active_findings_def empty_database_def)

section \<open>Histories\<close>

text \<open>The transactions of a store, whatever their bodies; one that raises leaves the database as it is.\<close>

inductive store_step :: "unicode_tables \<Rightarrow> nat \<Rightarrow> database \<Rightarrow> database \<Rightarrow> bool" for u depth where
  transact: "store_transaction u depth live body db = (db', r) \<Longrightarrow> store_step u depth db db'"

abbreviation later :: "unicode_tables \<Rightarrow> nat \<Rightarrow> database \<Rightarrow> database \<Rightarrow> bool" where
  "later u depth \<equiv> (store_step u depth)\<^sup>*\<^sup>*"

abbreviation stored :: "unicode_tables \<Rightarrow> nat \<Rightarrow> database \<Rightarrow> bool" where
  "stored u depth \<equiv> later u depth empty_database"

lemma stored_coherent: "stored u depth db \<Longrightarrow> coherent u depth db"
  by (induction rule: rtranclp_induct) (auto simp: empty_coherent elim: store_step.cases intro: transaction_coherent)

text \<open>Whatever every statement keeps, every transaction keeps.\<close>

lemma statements_keep:
  assumes "\<And>T db db'. statement T db db' \<Longrightarrow> P db \<Longrightarrow> P db'"
  shows "(statement_in T)\<^sup>*\<^sup>* db db' \<Longrightarrow> P db \<Longrightarrow> P db'"
  by (induction rule: rtranclp_induct) (auto simp: statement_in_def intro: assms)

lemma later_keeps:
  assumes kept: "\<And>T db db'. statement T db db' \<Longrightarrow> P db \<Longrightarrow> P db'"
  shows "later u depth db db' \<Longrightarrow> P db \<Longrightarrow> P db'"
proof (induction rule: rtranclp_induct)
  case (step db' db'')
  from step.hyps(2) obtain live body r where r: "store_transaction u depth live body db' = (db'', r)"
    by (auto elim: store_step.cases)
  then show ?case
  proof (cases r)
    case (Inl e)
    with r refused step.IH step.prems show ?thesis by metis
  next
    case (Inr v)
    with r obtain T where "(statement_in T)\<^sup>*\<^sup>* db' db''" by (auto elim: committed)
    then show ?thesis by (rule statements_keep [of P, rotated]) (auto intro: kept step)
  qed
qed

end
