(* ===== verification/StoreHistory.thy ===== *)
theory StoreHistory
  imports StoreCorrect
begin

text \<open>
  What later transactions of the store keep: the gates on the records, the columns that are written
  once and the rows of the root. Each is an invariant of a single statement, and
  \<open>later_keeps\<close> carries it over transactions that commit or raise.
\<close>

section \<open>What a transaction can never take back\<close>

text \<open>The row of a transaction later: the specification and the evidence are fixed, the digests once they are written, everything under a halt.\<close>

definition row_later :: "record_row \<Rightarrow> record_row \<Rightarrow> bool" where
  "row_later r r' \<longleftrightarrow>
     spec_json r' = spec_json r \<and> evidence_column r' = evidence_column r \<and>
     (registration_column r \<noteq> None \<longrightarrow> registration_column r' = registration_column r) \<and>
     (settlement_column r \<noteq> None \<longrightarrow> settlement_column r' = settlement_column r) \<and>
     (assembly_column r \<noteq> None \<longrightarrow> r' = r)"

definition records_later :: "database \<Rightarrow> database \<Rightarrow> bool" where
  "records_later db db' \<longleftrightarrow>
     (\<forall>txid r. map_of (record_table db) txid = Some r \<longrightarrow>
        (\<exists>r'. map_of (record_table db') txid = Some r' \<and> row_later r r' \<and>
          (assembly_column r \<noteq> None \<longrightarrow>
             (\<forall>effect_id row. map_of (effect_table db) (txid, effect_id) = Some row \<longrightarrow>
                map_of (effect_table db') (txid, effect_id) = Some row))))"

lemma row_later_refl [simp]: "row_later r r"
  by (simp add: row_later_def)

lemma records_later_refl: "records_later db db"
  by (auto simp: records_later_def)

lemma records_later_trans:
  assumes "records_later db db'" "records_later db' db''" shows "records_later db db''"
  unfolding records_later_def
proof (intro allI impI)
  fix txid r assume r: "map_of (record_table db) txid = Some r"
  from assms(1) r obtain r' where r': "map_of (record_table db') txid = Some r'" "row_later r r'"
    "assembly_column r \<noteq> None \<longrightarrow> (\<forall>effect_id row. map_of (effect_table db) (txid, effect_id) = Some row \<longrightarrow>
       map_of (effect_table db') (txid, effect_id) = Some row)"
    unfolding records_later_def by blast
  from assms(2) r'(1) obtain r'' where r'': "map_of (record_table db'') txid = Some r''" "row_later r' r''"
    "assembly_column r' \<noteq> None \<longrightarrow> (\<forall>effect_id row. map_of (effect_table db') (txid, effect_id) = Some row \<longrightarrow>
       map_of (effect_table db'') (txid, effect_id) = Some row)"
    unfolding records_later_def by blast
  have "row_later r r''" using r'(2) r''(2) by (auto simp: row_later_def)
  moreover have "assembly_column r' \<noteq> None" if "assembly_column r \<noteq> None" using r'(2) that by (simp add: row_later_def)
  ultimately show "\<exists>r''. map_of (record_table db'') txid = Some r'' \<and> row_later r r'' \<and>
      (assembly_column r \<noteq> None \<longrightarrow> (\<forall>effect_id row. map_of (effect_table db) (txid, effect_id) = Some row \<longrightarrow>
         map_of (effect_table db'') (txid, effect_id) = Some row))"
    using r'(3) r''(1,3) by blast
qed

text \<open>Statements that leave records and effects alone, and updates of one row.\<close>

lemma update_record_later:
  "update_record refused new txid db = Inr (db', n) \<Longrightarrow>
   (\<And>old. map_of (record_table db) txid = Some old \<Longrightarrow> \<not> refused old \<Longrightarrow> row_later old (new old)) \<Longrightarrow> records_later db db'"
  by (auto simp: update_record_Inr records_later_def update_rows_lookup split: option.splits)

lemmas sql_updates =
  sql_update_state_def sql_update_committed_def sql_update_result_def sql_update_diagnostic_def
  sql_update_registration_def sql_update_settlement_def sql_update_assembly_halt_def

lemma sql_updates_later:
  "sql_update_state txid s db = Inr (db', n) \<Longrightarrow> records_later db db'"
  "sql_update_committed txid d db = Inr (db', n) \<Longrightarrow> records_later db db'"
  "sql_update_result txid r db = Inr (db', n) \<Longrightarrow> records_later db db'"
  "sql_update_diagnostic txid p db = Inr (db', n) \<Longrightarrow> records_later db db'"
  "sql_update_registration txid g db = Inr (db', n) \<Longrightarrow> records_later db db'"
  "sql_update_settlement txid g db = Inr (db', n) \<Longrightarrow> records_later db db'"
  "sql_update_assembly_halt txid p db = Inr (db', n) \<Longrightarrow> records_later db db'"
  by (auto simp: sql_updates bindr_Inr_iff row_later_def trg_assembly_halt_freezes_record_def
      trg_registration_write_once_def trg_settlement_write_once_def elim!: update_record_later)

lemma inserts_later:
  "sql_insert_record txid spec evidence db = Inr db' \<Longrightarrow> records_later db db'"
  "sql_insert_effect txid e v db = Inr db' \<Longrightarrow> records_later db db'"
  "sql_insert_blob g len db = Inr db' \<Longrightarrow> records_later db db'"
  "sql_insert_active txid db = Inr db' \<Longrightarrow> records_later db db'"
  "sql_delete_active db = Inr db' \<Longrightarrow> records_later db db'"
  by (auto simp: sql_insert_record_def sql_insert_effect_def sql_insert_blob_def sql_insert_active_def
      sql_delete_active_def bindr_Inr_iff refuse_unless_Inr records_later_def map_add_def split: option.splits)

lemma update_journal_later: "sql_update_journal txid e s db = Inr (db', n) \<Longrightarrow> records_later db db'"
  by (auto simp: sql_update_journal_def guard_Inr_iff records_later_def update_rows_lookup
      trg_assembly_halt_freezes_journal_def split: option.splits)

lemma same_later: "same_records db db' \<Longrightarrow> records_later db db'"
  by (simp add: same_records_def records_later_def)

lemma statement_later: "statement T db db' \<Longrightarrow> records_later db db'"
  by (induction rule: statement.induct)
    (auto intro: sql_updates_later inserts_later update_journal_later same_later root_statements_same)

lemma stored_records_later: "later u depth db db' \<Longrightarrow> records_later db db'"
  by (erule later_keeps [of "records_later db", rotated]) (blast intro: records_later_refl records_later_trans statement_later)+

section \<open>The gates of a transaction\<close>

definition gated_row :: "record_row \<Rightarrow> bool" where
  "gated_row r \<longleftrightarrow>
     (state_column r \<noteq> Tx_PREPARED \<longrightarrow> registration_column r \<noteq> None) \<and>
     (settlement_column r \<noteq> None \<longrightarrow> registration_column r \<noteq> None)"

text \<open>No two transactions share a registration, or a settlement.\<close>

definition digests_distinct :: "(record_row \<Rightarrow> pystr option) \<Rightarrow> database \<Rightarrow> bool" where
  "digests_distinct column db \<longleftrightarrow>
     (\<forall>txid txid' r r'. map_of (record_table db) txid = Some r \<and> map_of (record_table db) txid' = Some r' \<and>
        column r \<noteq> None \<and> column r' = column r \<longrightarrow> txid' = txid)"

definition gated :: "database \<Rightarrow> bool" where
  "gated db \<longleftrightarrow>
     (\<forall>txid r. map_of (record_table db) txid = Some r \<longrightarrow> gated_row r) \<and>
     digests_distinct registration_column db \<and> digests_distinct settlement_column db"

lemma same_gated: "record_table db' = record_table db \<Longrightarrow> gated db \<Longrightarrow> gated db'"
  by (simp add: gated_def digests_distinct_def)

lemma update_record_gated:
  assumes "update_record refused new txid db = Inr (db', n)" "gated db"
    "\<And>old. map_of (record_table db) txid = Some old \<Longrightarrow> \<not> refused old \<Longrightarrow> gated_row old \<Longrightarrow> gated_row (new old)"
    "\<And>old. \<not> refused old \<Longrightarrow> registration_column (new old) = registration_column old \<or>
       (\<exists>g. registration_column (new old) = Some g \<and> \<not> digest_taken registration_column txid g db)"
    "\<And>old. \<not> refused old \<Longrightarrow> settlement_column (new old) = settlement_column old \<or>
       (\<exists>g. settlement_column (new old) = Some g \<and> \<not> digest_taken settlement_column txid g db)"
  shows "gated db'"
proof (cases "map_of (record_table db) txid")
  case None
  with assms(1,2) show ?thesis by (simp add: update_record_Inr)
next
  case (Some old)
  with assms(1) have a: "\<not> refused old" "map_of (record_table db') = (map_of (record_table db))(txid := Some (new old))"
    by (auto simp: update_record_Inr update_rows_lookup)
  have taken: "digest_taken column txid g db"
    if "map_of (record_table db) t = Some r" "t \<noteq> txid" "column r = Some g" for column g t r
    using that map_of_SomeD [OF that(1)] by (auto simp: digest_taken_def)
  have "digests_distinct column db'"
    if "digests_distinct column db" "column (new old) = column old \<or>
       (\<exists>g. column (new old) = Some g \<and> \<not> digest_taken column txid g db)" for column
    using that Some a(2) taken [of _ _ column] unfolding digests_distinct_def
    by (auto split: if_splits) (metis option.exhaust)+
  with assms(2-5) a Some show ?thesis by (simp add: gated_def)
qed

lemma sql_updates_gated:
  "sql_update_state txid s db = Inr (db', n) \<Longrightarrow> gated db \<Longrightarrow> gated db'"
  "sql_update_committed txid d db = Inr (db', n) \<Longrightarrow> gated db \<Longrightarrow> gated db'"
  "sql_update_result txid r db = Inr (db', n) \<Longrightarrow> gated db \<Longrightarrow> gated db'"
  "sql_update_diagnostic txid p db = Inr (db', n) \<Longrightarrow> gated db \<Longrightarrow> gated db'"
  "sql_update_registration txid g db = Inr (db', n) \<Longrightarrow> gated db \<Longrightarrow> gated db'"
  "sql_update_settlement txid g db = Inr (db', n) \<Longrightarrow> gated db \<Longrightarrow> gated db'"
  "sql_update_assembly_halt txid p db = Inr (db', n) \<Longrightarrow> gated db \<Longrightarrow> gated db'"
  by (auto simp: sql_updates bindr_Inr_iff gated_row_def trg_departure_needs_registration_def trg_settlement_gate_def
      elim!: update_record_gated)

lemma insert_record_gated: "sql_insert_record txid spec evidence db = Inr db' \<Longrightarrow> gated db \<Longrightarrow> gated db'"
  by (auto simp: sql_insert_record_def bindr_Inr_iff refuse_unless_Inr gated_def gated_row_def digests_distinct_def
      map_add_def split: option.splits if_splits)

lemma same_table:
  "sql_insert_effect txid e v db = Inr db' \<Longrightarrow> record_table db' = record_table db"
  "sql_insert_blob g len db = Inr db' \<Longrightarrow> record_table db' = record_table db"
  "sql_insert_active txid db = Inr db' \<Longrightarrow> record_table db' = record_table db"
  "sql_delete_active db = Inr db' \<Longrightarrow> record_table db' = record_table db"
  "sql_update_journal txid e j db = Inr (db', n) \<Longrightarrow> record_table db' = record_table db"
  "same_records db db' \<Longrightarrow> record_table db' = record_table db"
  by (auto simp: sql_insert_effect_def sql_insert_blob_def sql_insert_active_def sql_delete_active_def
      sql_update_journal_def bindr_Inr_iff refuse_unless_Inr guard_Inr_iff same_records_def split: option.splits)

lemma statement_gated: "statement T db db' \<Longrightarrow> gated db \<Longrightarrow> gated db'"
  by (induction rule: statement.induct)
    (blast intro: sql_updates_gated insert_record_gated same_gated same_table root_statements_same)+

lemma empty_gated: "gated empty_database"
  by (simp add: gated_def digests_distinct_def empty_database_def)

lemma stored_gated: "stored u depth db \<Longrightarrow> gated db"
  by (erule later_keeps [of gated, rotated])
    (auto intro: statement_gated empty_gated)

section \<open>The root rows\<close>

text \<open>
  A row of a registration, replication or fork has its operation, and is writable only when the
  tree of that operation is durable; other rows have none.
\<close>

definition root_rows :: "database \<Rightarrow> bool" where
  "root_rows db \<longleftrightarrow>
     (case operation_table db of None \<Rightarrow> True | Some p \<Rightarrow> check_operation p) \<and>
     (case lifecycle_table db of
        None \<Rightarrow> True
      | Some l \<Rightarrow>
          check_lifecycle l \<and> require_root_row_pair (Some l) (operation_table db) = Inr () \<and>
          (case operation_table db of
             None \<Rightarrow> True
           | Some p \<Rightarrow>
               (lifecycle_state l = root_writable \<longrightarrow> operation_phase p \<in> {tree_durable, complete_phase}) \<and>
               (lifecycle_state l = serviceable \<longrightarrow> operation_phase p = complete_phase) \<and>
               (operation_phase p = complete_phase \<longrightarrow> lifecycle_state l = unserviceable \<longrightarrow>
                  operation_kind p = replicate_kind)))"

lemma empty_root_rows: "root_rows empty_database"
  by (simp add: root_rows_def empty_database_def)

lemma same_root_rows:
  "operation_table db' = operation_table db \<Longrightarrow> lifecycle_table db' = lifecycle_table db \<Longrightarrow> root_rows db \<Longrightarrow> root_rows db'"
  by (simp add: root_rows_def cong: option.case_cong)

lemma insert_operation_root_rows:
  "sql_insert_root_operation op_id kind request hash db = Inr db' \<Longrightarrow> root_rows db \<Longrightarrow> root_rows db'"
  by (auto simp: sql_insert_root_operation_def bindr_Inr_iff refuse_unless_Inr root_rows_def Let_def
      trg_root_operation_insert_gate_def)

lemma insert_lifecycle_root_rows:
  "sql_insert_root_lifecycle l db = Inr db' \<Longrightarrow> root_rows db \<Longrightarrow> root_rows db'"
  by (auto simp: sql_insert_root_lifecycle_def bindr_Inr_iff refuse_unless_Inr root_rows_def
      trg_root_lifecycle_insert_gate_def require_root_row_pair_def guard_def ROOT_OPERATION_KINDS_def
      split: option.splits)

lemma root_row_pair_iff:
  "require_root_row_pair (Some l) operation = Inr () \<longleftrightarrow>
   (if lifecycle_origin l \<in> set ROOT_OPERATION_KINDS
    then \<exists>p. operation = Some p \<and> operation_kind p = lifecycle_origin l else operation = None)"
  by (auto simp: require_root_row_pair_def guard_Inr_iff split: option.splits)

text \<open>The rows of a root with an operation and of one without.\<close>

definition root_pair :: "root_lifecycle \<Rightarrow> root_operation \<Rightarrow> bool" where
  "root_pair l p \<longleftrightarrow>
     lifecycle_origin l \<in> set ROOT_OPERATION_KINDS \<and> operation_kind p = lifecycle_origin l \<and>
     (lifecycle_state l = root_writable \<longrightarrow> operation_phase p = tree_durable \<or> operation_phase p = complete_phase) \<and>
     (lifecycle_state l = serviceable \<longrightarrow> operation_phase p = complete_phase) \<and>
     (operation_phase p = complete_phase \<longrightarrow> lifecycle_state l = unserviceable \<longrightarrow> operation_kind p = replicate_kind)"

lemma root_rows_some:
  "lifecycle_table db = Some l \<Longrightarrow>
   root_rows db \<longleftrightarrow> check_lifecycle l \<and>
     (case operation_table db of
        None \<Rightarrow> lifecycle_origin l \<notin> set ROOT_OPERATION_KINDS
      | Some p \<Rightarrow> check_operation p \<and> root_pair l p)"
  unfolding root_rows_def root_row_pair_iff root_pair_def by (cases "operation_table db") auto

lemma root_rows_none:
  "lifecycle_table db = None \<Longrightarrow>
   root_rows db \<longleftrightarrow> (\<forall>p. operation_table db = Some p \<longrightarrow> check_operation p)"
  unfolding root_rows_def by (cases "operation_table db") auto

lemma transition_pair:
  assumes "root_pair l p" "operation_table db = Some p" "\<not> trg_root_lifecycle_transition db l s"
  shows "root_pair (l\<lparr>lifecycle_state := s\<rparr>) p"
proof -
  have "s = lifecycle_state l \<or> s = serviceable \<and> operation_phase p = complete_phase \<or>
      s = root_writable \<and> operation_phase p = tree_durable"
    using assms(2,3) unfolding trg_root_lifecycle_transition_def by auto
  with assms(1) show ?thesis
    by (auto simp: root_pair_def)
qed

lemma update_lifecycle_root_rows:
  assumes "sql_update_lifecycle_state s db = Inr (db', n)" "root_rows db"
  shows "root_rows db'"
proof (cases "lifecycle_table db")
  case None
  with assms show ?thesis by (simp add: sql_update_lifecycle_state_def bindr_Inr_iff)
next
  case (Some l)
  with assms(1) have a: "\<not> trg_root_lifecycle_transition db l s" "check_lifecycle (l\<lparr>lifecycle_state := s\<rparr>)"
      "db' = db\<lparr>lifecycle_table := Some (l\<lparr>lifecycle_state := s\<rparr>)\<rparr>"
    by (simp_all add: sql_update_lifecycle_state_def bindr_Inr_iff guard_Inr_iff)
  with assms(2) Some transition_pair [OF _ _ a(1)] show ?thesis
    by (cases "operation_table db") (auto simp: root_rows_some)
qed

lemma three_states: "check_lifecycle l \<Longrightarrow> lifecycle_state l = root_writable \<or> lifecycle_state l = serviceable \<or> lifecycle_state l = unserviceable"
  unfolding check_lifecycle_def ROOT_LIFECYCLE_STATES_def by simp

lemma phase_pair:
  assumes "root_pair l p" "check_lifecycle l" "lifecycle_table db = Some l" "operation_kind p' = operation_kind p"
    "\<not> trg_root_operation_phase_transition p p'" "\<not> trg_root_operation_complete_gate db p'"
  shows "root_pair l p'"
proof -
  have "operation_phase p = tree_durable \<and> operation_phase p' = complete_phase \<or>
      operation_phase p \<notin> {tree_durable, complete_phase} \<and> operation_phase p' \<noteq> complete_phase"
    using assms(5) unfolding trg_root_operation_phase_transition_def by auto
  then show ?thesis
  proof
    assume a: "operation_phase p = tree_durable \<and> operation_phase p' = complete_phase"
    then have "lifecycle_state l = (if operation_kind p' = replicate_kind then unserviceable else root_writable)"
      using assms(3,6) by (simp add: trg_root_operation_complete_gate_def split: if_splits)
    with a assms(1,4) show ?thesis by (auto simp: root_pair_def split: if_splits)
  next
    assume a: "operation_phase p \<notin> {tree_durable, complete_phase} \<and> operation_phase p' \<noteq> complete_phase"
    with assms(1) three_states [OF assms(2)] have "lifecycle_state l = unserviceable" by (auto simp: root_pair_def)
    with a assms(1,4) show ?thesis by (auto simp: root_pair_def)
  qed
qed

lemma update_operation_root_rows:
  assumes "update_operation new db = Inr (db', n)" "\<And>p. operation_kind (new p) = operation_kind p"
    "root_rows db"
  shows "root_rows db'"
proof (cases "operation_table db")
  case None
  with assms(1,3) show ?thesis by (simp add: update_operation_def)
next
  case (Some p)
  with assms(1) have a: "\<not> trg_root_operation_phase_transition p (new p)" "\<not> trg_root_operation_complete_gate db (new p)"
      "check_operation (new p)" "db' = db\<lparr>operation_table := Some (new p)\<rparr>"
    by (simp_all add: update_operation_def guard_Inr_iff)
  show ?thesis
  proof (cases "lifecycle_table db")
    case None
    with a show ?thesis by (simp add: root_rows_none)
  next
    case l: (Some l)
    with assms(3) Some a phase_pair [OF _ _ l assms(2) a(1,2)] show ?thesis by (simp add: root_rows_some)
  qed
qed

definition same_roots :: "database \<Rightarrow> database \<Rightarrow> bool" where
  "same_roots db db' \<longleftrightarrow> operation_table db' = operation_table db \<and> lifecycle_table db' = lifecycle_table db"

lemma update_record_roots: "update_record refused new txid db = Inr (db', n) \<Longrightarrow> same_roots db db'"
  by (auto simp: update_record_Inr same_roots_def split: option.splits)

lemma other_roots:
  "sql_update_state txid s db = Inr (db', n) \<Longrightarrow> same_roots db db'"
  "sql_update_committed txid d db = Inr (db', n) \<Longrightarrow> same_roots db db'"
  "sql_update_result txid r db = Inr (db', n) \<Longrightarrow> same_roots db db'"
  "sql_update_diagnostic txid p db = Inr (db', n) \<Longrightarrow> same_roots db db'"
  "sql_update_registration txid g db = Inr (db', n) \<Longrightarrow> same_roots db db'"
  "sql_update_settlement txid g db = Inr (db', n) \<Longrightarrow> same_roots db db'"
  "sql_update_assembly_halt txid p db = Inr (db', n) \<Longrightarrow> same_roots db db'"
  "sql_insert_record txid spec evidence db = Inr db' \<Longrightarrow> same_roots db db'"
  "sql_insert_effect txid e v db = Inr db' \<Longrightarrow> same_roots db db'"
  "sql_insert_blob g len db = Inr db' \<Longrightarrow> same_roots db db'"
  "sql_insert_active txid db = Inr db' \<Longrightarrow> same_roots db db'"
  "sql_delete_active db = Inr db' \<Longrightarrow> same_roots db db'"
  "sql_update_journal txid e j db = Inr (db', n) \<Longrightarrow> same_roots db db'"
  by (auto simp: sql_updates bindr_Inr_iff dest!: update_record_roots)
    (auto simp: sql_insert_record_def sql_insert_effect_def sql_insert_blob_def sql_insert_active_def
      sql_delete_active_def sql_update_journal_def bindr_Inr_iff refuse_unless_Inr guard_Inr_iff same_roots_def
      split: option.splits)

text \<open>What the statements on root rows keep, every statement keeps.\<close>

lemma statement_roots:
  assumes "statement T db db'"
    "\<And>db db'. same_roots db db' \<Longrightarrow> Q db db'"
    "\<And>l db db'. sql_insert_root_lifecycle l db = Inr db' \<Longrightarrow> Q db db'"
    "\<And>op_id kind request hash db db'. sql_insert_root_operation op_id kind request hash db = Inr db' \<Longrightarrow> Q db db'"
    "\<And>s db db' n. sql_update_lifecycle_state s db = Inr (db', n) \<Longrightarrow> Q db db'"
    "\<And>new db db' n. update_operation new db = Inr (db', n) \<Longrightarrow>
       (\<And>p. operation_id (new p) = operation_id p \<and> operation_kind (new p) = operation_kind p \<and>
          request_json (new p) = request_json p \<and> request_hash (new p) = request_hash p) \<Longrightarrow> Q db db'"
  shows "Q db db'"
  using assms(1)
  by (induction rule: statement.induct)
    (auto simp: sql_update_operation_phase_def sql_update_source_snapshot_def sql_update_tree_proof_def bindr_Inr_iff
      intro: assms(2-4) other_roots elim: assms(5,6))

lemma statement_root_rows: "statement T db db' \<Longrightarrow> root_rows db \<Longrightarrow> root_rows db'"
  by (erule statement_roots [of T db db' "\<lambda>db db'. root_rows db \<longrightarrow> root_rows db'", THEN mp])
    (auto simp: same_roots_def intro: update_lifecycle_root_rows insert_operation_root_rows
      insert_lifecycle_root_rows update_operation_root_rows elim: same_root_rows [rotated 2])

lemma stored_root_rows: "stored u depth db \<Longrightarrow> root_rows db"
  by (erule later_keeps [of root_rows, rotated]) (auto intro: statement_root_rows empty_root_rows)

text \<open>Later root rows: the phase goes forward, and a proof, the machine, the path and the request are fixed.\<close>

definition phase_rank :: "pystr \<Rightarrow> nat" where
  "phase_rank phase =
     (if phase = recorded then 0 else if phase = source_durable then 1 else if phase = tree_durable then 2 else 3)"

definition kept_once :: "'a option \<Rightarrow> 'a option \<Rightarrow> bool" where
  "kept_once old new \<longleftrightarrow> old \<noteq> None \<longrightarrow> new = old"

definition operation_later :: "root_operation \<Rightarrow> root_operation \<Rightarrow> bool" where
  "operation_later p p' \<longleftrightarrow>
     operation_id p' = operation_id p \<and> operation_kind p' = operation_kind p \<and> request_json p' = request_json p \<and>
     request_hash p' = request_hash p \<and> phase_rank (operation_phase p) \<le> phase_rank (operation_phase p') \<and>
     kept_once (source_snapshot p) (source_snapshot p') \<and>
     kept_once (destination_snapshot p) (destination_snapshot p') \<and> kept_once (genesis_digest p) (genesis_digest p')"

definition lifecycle_later :: "root_lifecycle \<Rightarrow> root_lifecycle \<Rightarrow> bool" where
  "lifecycle_later l l' \<longleftrightarrow>
     machine_id l' = machine_id l \<and> root_path l' = root_path l \<and> lifecycle_origin l' = lifecycle_origin l \<and>
     (lifecycle_state l \<noteq> unserviceable \<longrightarrow> lifecycle_state l' = lifecycle_state l)"

definition roots_later :: "database \<Rightarrow> database \<Rightarrow> bool" where
  "roots_later db db' \<longleftrightarrow>
     (\<forall>l. lifecycle_table db = Some l \<longrightarrow> (\<exists>l'. lifecycle_table db' = Some l' \<and> lifecycle_later l l')) \<and>
     (\<forall>p. operation_table db = Some p \<longrightarrow> (\<exists>p'. operation_table db' = Some p' \<and> operation_later p p'))"

lemma operation_later_refl [simp]: "operation_later p p"
  by (simp add: operation_later_def kept_once_def)

lemma lifecycle_later_refl [simp]: "lifecycle_later l l"
  by (simp add: lifecycle_later_def)

lemma roots_later_refl: "roots_later db db"
  by (simp add: roots_later_def)

lemma operation_later_trans: "operation_later p p' \<Longrightarrow> operation_later p' p'' \<Longrightarrow> operation_later p p''"
  by (auto simp: operation_later_def kept_once_def)

lemma lifecycle_later_trans: "lifecycle_later l l' \<Longrightarrow> lifecycle_later l' l'' \<Longrightarrow> lifecycle_later l l''"
  by (auto simp: lifecycle_later_def)

lemma roots_later_trans: "roots_later db db' \<Longrightarrow> roots_later db' db'' \<Longrightarrow> roots_later db db''"
  unfolding roots_later_def by (meson operation_later_trans lifecycle_later_trans)

lemma update_operation_later:
  "update_operation new db = Inr (db', n) \<Longrightarrow>
   (\<And>p. operation_id (new p) = operation_id p \<and> operation_kind (new p) = operation_kind p \<and>
      request_json (new p) = request_json p \<and> request_hash (new p) = request_hash p) \<Longrightarrow> roots_later db db'"
  by (auto simp: update_operation_def guard_Inr_iff roots_later_def operation_later_def kept_once_def
      trg_root_operation_proof_write_once_def overwrites_def trg_root_operation_phase_transition_def phase_rank_def
      split: option.splits)

lemma update_lifecycle_later: "sql_update_lifecycle_state s db = Inr (db', n) \<Longrightarrow> roots_later db db'"
  by (auto simp: sql_update_lifecycle_state_def bindr_Inr_iff guard_Inr_iff roots_later_def lifecycle_later_def
      trg_root_lifecycle_transition_def split: option.splits)

lemma root_inserts_later:
  "sql_insert_root_lifecycle l db = Inr db' \<Longrightarrow> roots_later db db'"
  "sql_insert_root_operation op_id kind request hash db = Inr db' \<Longrightarrow> roots_later db db'"
  by (auto simp: sql_insert_root_lifecycle_def sql_insert_root_operation_def bindr_Inr_iff refuse_unless_Inr
      roots_later_def Let_def)

lemma same_roots_later: "same_roots db db' \<Longrightarrow> roots_later db db'"
  by (simp add: same_roots_def roots_later_def)

lemma statement_roots_later: "statement T db db' \<Longrightarrow> roots_later db db'"
  by (erule statement_roots)
    (blast intro: same_roots_later update_operation_later update_lifecycle_later root_inserts_later)+

lemma stored_roots_later: "later u depth db db' \<Longrightarrow> roots_later db db'"
  by (erule later_keeps [of "roots_later db", rotated]) (blast intro: roots_later_refl roots_later_trans statement_roots_later)+

section \<open>Effects belong to records\<close>

definition effects_recorded :: "database \<Rightarrow> bool" where
  "effects_recorded db \<longleftrightarrow>
     list_all (\<lambda>key. map_of (record_table db) (fst key) \<noteq> None) (map fst (effect_table db))"

definition same_effects :: "database \<Rightarrow> database \<Rightarrow> bool" where
  "same_effects db db' \<longleftrightarrow> map fst (effect_table db') = map fst (effect_table db)"

lemma update_record_effects: "update_record refused new txid db = Inr (db', n) \<Longrightarrow> same_effects db db'"
  by (auto simp: update_record_Inr same_effects_def split: option.splits)

lemma update_rows_keys: "map fst (update_rows key new rows) = map fst rows"
  by (induction rows) (auto simp: update_rows_def)

lemma effects_kept:
  "sql_update_state txid s db = Inr (db', n) \<Longrightarrow> same_effects db db'"
  "sql_update_committed txid d db = Inr (db', n) \<Longrightarrow> same_effects db db'"
  "sql_update_result txid r db = Inr (db', n) \<Longrightarrow> same_effects db db'"
  "sql_update_diagnostic txid p db = Inr (db', n) \<Longrightarrow> same_effects db db'"
  "sql_update_registration txid g db = Inr (db', n) \<Longrightarrow> same_effects db db'"
  "sql_update_settlement txid g db = Inr (db', n) \<Longrightarrow> same_effects db db'"
  "sql_update_assembly_halt txid p db = Inr (db', n) \<Longrightarrow> same_effects db db'"
  "sql_insert_record txid spec evidence db = Inr db' \<Longrightarrow> same_effects db db'"
  "sql_insert_blob g len db = Inr db' \<Longrightarrow> same_effects db db'"
  "sql_insert_active txid db = Inr db' \<Longrightarrow> same_effects db db'"
  "sql_delete_active db = Inr db' \<Longrightarrow> same_effects db db'"
  "same_records db db' \<Longrightarrow> same_effects db db'"
  "sql_update_journal txid e j db = Inr (db', n) \<Longrightarrow> same_effects db db'"
  by (auto simp: sql_updates bindr_Inr_iff dest!: update_record_effects)
    (auto simp: sql_insert_record_def sql_insert_blob_def sql_insert_active_def sql_delete_active_def
      sql_update_journal_def guard_Inr_iff same_records_def bindr_Inr_iff refuse_unless_Inr same_effects_def
      update_rows_keys split: option.splits)

lemma effects_recorded_kept:
  "records_later db db' \<Longrightarrow> same_effects db db' \<Longrightarrow> effects_recorded db \<Longrightarrow> effects_recorded db'"
  unfolding effects_recorded_def records_later_def same_effects_def list_all_iff by (metis option.exhaust option.discI)

lemma insert_effect_recorded:
  "sql_insert_effect txid e v db = Inr db' \<Longrightarrow> effects_recorded db \<Longrightarrow> effects_recorded db'"
  by (auto simp: sql_insert_effect_def bindr_Inr_iff refuse_unless_Inr effects_recorded_def)

lemma statement_effects:
  "statement T db db' \<Longrightarrow> same_effects db db' \<or> (\<exists>txid e v. sql_insert_effect txid e v db = Inr db')"
  by (erule statement.cases) (blast intro: effects_kept root_statements_same)+

lemma statement_effects_recorded: "statement T db db' \<Longrightarrow> effects_recorded db \<Longrightarrow> effects_recorded db'"
  using statement_effects effects_recorded_kept [OF statement_later] insert_effect_recorded by blast

lemma empty_effects_recorded: "effects_recorded empty_database"
  by (simp add: effects_recorded_def empty_database_def)

lemma stored_effects_recorded: "stored u depth db \<Longrightarrow> effects_recorded db"
  by (erule later_keeps [of effects_recorded, rotated])
    (auto intro: statement_effects_recorded empty_effects_recorded)

section \<open>Properties\<close>

text \<open>
  C7: Whatever transactions a store has run, committed or not, every row of its database is
  coherent: the specification decodes and compiles and its text is canonical, the effect rows and
  the blob rows are those it declares, a rollback result and a diagnostic are there exactly in their
  states, and the active transaction has a record. No transaction is terminal, applying or settled
  without a registration, and no two share a registration or a settlement.
\<close>

theorem store_coherent:
  assumes "stored u depth db"
  shows "coherence_findings u depth db txid = Inr [] \<and> gated db"
  using stored_coherent [OF assms] stored_gated [OF assms] by (simp add: coherent_def)

text \<open>
  C9: What is written once stays. A record is never deleted, its specification and its evidence
  never change, a registration and a settlement are never replaced, and from the moment an assembly
  halt is stored the whole row and all of its journals are frozen.
\<close>

theorem store_write_once:
  assumes "later u depth db db'" and "map_of (record_table db) txid = Some r"
  shows "\<exists>r'. map_of (record_table db') txid = Some r' \<and>
    spec_json r' = spec_json r \<and> evidence_column r' = evidence_column r \<and>
    (registration_column r \<noteq> None \<longrightarrow> registration_column r' = registration_column r) \<and>
    (settlement_column r \<noteq> None \<longrightarrow> settlement_column r' = settlement_column r) \<and>
    (assembly_column r \<noteq> None \<longrightarrow> r' = r \<and>
       (\<forall>effect_id row. map_of (effect_table db) (txid, effect_id) = Some row \<longrightarrow>
          map_of (effect_table db') (txid, effect_id) = Some row))"
proof -
  from stored_records_later [OF assms(1)] assms(2) obtain r' where "map_of (record_table db') txid = Some r'" "row_later r r'"
    "assembly_column r \<noteq> None \<longrightarrow> (\<forall>effect_id row. map_of (effect_table db) (txid, effect_id) = Some row \<longrightarrow>
       map_of (effect_table db') (txid, effect_id) = Some row)"
    unfolding records_later_def by blast
  then show ?thesis unfolding row_later_def by (intro exI [of _ r'] conjI impI) simp_all
qed

text \<open>
  C38: The rows of a root pair up, and a root that a registration or a fork has made writable has a
  durable tree: its operation is past \<open>tree-durable\<close>, with the snapshot and the genesis digest. The
  machine, the path and the origin of a root never change, a root that can be served never
  goes back, and the phase of its operation never does.
\<close>

theorem root_rows_follow_operation:
  assumes "stored u depth db" and "later u depth db db'" and "lifecycle_table db = Some l"
  shows "\<exists>l'. lifecycle_table db' = Some l' \<and> lifecycle_later l l' \<and>
    require_root_row_pair (Some l') (operation_table db') = Inr () \<and>
    (\<forall>p'. operation_table db' = Some p' \<longrightarrow>
      (\<forall>p. operation_table db = Some p \<longrightarrow> operation_later p p') \<and>
      (lifecycle_state l' = root_writable \<longrightarrow> operation_phase p' \<in> {tree_durable, complete_phase} \<and>
        destination_snapshot p' \<noteq> None \<and> genesis_digest p' \<noteq> None) \<and>
      (lifecycle_state l' = serviceable \<longrightarrow> operation_kind p' = replicate_kind \<and> operation_phase p' = complete_phase))"
proof -
  from stored_roots_later [OF assms(2)] assms(3) obtain l' where l': "lifecycle_table db' = Some l'" "lifecycle_later l l'"
    unfolding roots_later_def by blast
  have rows: "root_rows db'" using assms(1,2) by (blast intro: stored_root_rows rtranclp_trans)
  then have pair: "require_root_row_pair (Some l') (operation_table db') = Inr ()" "check_lifecycle l'"
    using l'(1) by (auto simp: root_rows_def split: option.splits)
  have "(\<forall>p. operation_table db = Some p \<longrightarrow> operation_later p p') \<and>
      (lifecycle_state l' = root_writable \<longrightarrow> operation_phase p' \<in> {tree_durable, complete_phase} \<and>
        destination_snapshot p' \<noteq> None \<and> genesis_digest p' \<noteq> None) \<and>
      (lifecycle_state l' = serviceable \<longrightarrow> operation_kind p' = replicate_kind \<and> operation_phase p' = complete_phase)"
    if p': "operation_table db' = Some p'" for p'
  proof -
    have a: "root_pair l' p'" "check_operation p'" using rows l'(1) p' by (simp_all add: root_rows_some)
    have "operation_kind p' = register_kind \<or> operation_kind p' = fork_kind" if "lifecycle_state l' = root_writable"
      using that pair(2) a(1) by (auto simp: check_lifecycle_def root_pair_def ROOT_OPERATION_KINDS_def)
    moreover have "operation_kind p' = replicate_kind" if "lifecycle_state l' = serviceable"
      using that pair(2) a(1) by (auto simp: check_lifecycle_def root_pair_def ROOT_OPERATION_KINDS_def)
    moreover have "\<forall>p. operation_table db = Some p \<longrightarrow> operation_later p p'"
      using stored_roots_later [OF assms(2)] p' by (auto simp: roots_later_def)
    ultimately show ?thesis using a by (auto simp: root_pair_def check_operation_def)
  qed
  with l' pair show ?thesis by blast
qed

end
