(* ===== verification/Coordinator.thy ===== *)
theory Coordinator
  imports StoreTransactions Reducer ChainFiles
begin

text \<open>
  What the coordinator writes to the store and to the chain: preparation (\<open>coordinator/prepare.py\<close>),
  the persistence of a recovery plan (\<open>coordinator/transitions.py\<close>), the reconciliation of the
  record with the chain (\<open>coordinator/recover.py\<close>) and the end of a commit
  (\<open>coordinator/commit.py\<close>). A lease is the state: its binding, the liveness of the store and the
  durable database. The backend of a live binding is the chain directory as a disk; the files of a
  workspace are parameters of the preparation, as in the store.
\<close>

section \<open>The lease\<close>

record lease =
  lease_binding :: project_binding
  lease_live :: bool
  lease_db :: database

text \<open>\<open>with lease._store.transaction()\<close>\<close>

definition in_transaction ::
  "unicode_tables \<Rightarrow> nat \<Rightarrow> transaction_body \<Rightarrow> lease \<Rightarrow> lease \<times> unit result" where
  "in_transaction u depth body l =
     (case store_transaction u depth (lease_live l) body (lease_db l) of
        (db, r) \<Rightarrow> (l\<lparr>lease_db := db\<rparr>, r))"

definition lease_active :: "unicode_tables \<Rightarrow> nat \<Rightarrow> lease \<Rightarrow> stored_record option result" where
  "lease_active u depth l = read_active u depth (lease_live l) (lease_db l)"

definition require_admitted :: "lease \<Rightarrow> project_approved_spec \<Rightarrow> unit result" where
  "require_admitted l approved =
     guard (binding_identity (approved_binding approved) = binding_identity (lease_binding l)) (step_err ProofBinding)
     (guard (binding_live (approved_binding approved)) (step_err BindingClosed) (Inr ()))"

text \<open>A check before a step on the lease.\<close>

definition after :: "'a result \<Rightarrow> ('a \<Rightarrow> lease \<Rightarrow> lease \<times> 'b result) \<Rightarrow> lease \<Rightarrow> lease \<times> 'b result" where
  "after check rest l = (case check of Inl e \<Rightarrow> (l, Inl e) | Inr x \<Rightarrow> rest x l)"

definition followed_by ::
  "(lease \<Rightarrow> lease \<times> 'a result) \<Rightarrow> ('a \<Rightarrow> lease \<Rightarrow> lease \<times> 'b result) \<Rightarrow> lease \<Rightarrow> lease \<times> 'b result" where
  "followed_by step rest l = (case step l of (l', Inl e) \<Rightarrow> (l', Inl e) | (l', Inr x) \<Rightarrow> rest x l')"

section \<open>Preparation\<close>

definition prepare_body ::
  "project_approved_spec \<Rightarrow> pystr list \<Rightarrow> (staged_blob \<Rightarrow> unit result) \<Rightarrow> (pystr \<Rightarrow> int \<Rightarrow> unit result) \<Rightarrow>
   unit result \<Rightarrow> staged_blob list \<Rightarrow> pystr \<Rightarrow> transaction_body" where
  "prepare_body approved present verify_staged verify_leaf moved manifest evidence =
     [(False, PromoteStaging (approved_txid approved) present verify_staged verify_leaf moved manifest),
      (False, InsertRecord (approved_txid approved) (compiled_of (approved_compiled approved)) evidence),
      (False, SetActive (Some (approved_txid approved)))]"

text \<open>
  The evidence is encoded inside the transaction, after the promotion; an encoder that raises
  there rolls everything back.
\<close>

definition prepare_transaction ::
  "unicode_tables \<Rightarrow> nat \<Rightarrow> project_approved_spec \<Rightarrow> pystr \<Rightarrow> pystr list \<Rightarrow> (staged_blob \<Rightarrow> unit result) \<Rightarrow>
   (pystr \<Rightarrow> int \<Rightarrow> unit result) \<Rightarrow> unit result \<Rightarrow> staged_blob list \<Rightarrow> lease \<Rightarrow> lease \<times> unit result" where
  "prepare_transaction u depth approved workspace present verify_staged verify_leaf moved manifest l =
     after (require_admitted l approved) (\<lambda>_.
     after (guard (workspace = approved_txid approved) (step_err WorkspaceNotTheProof) (Inr ())) (\<lambda>_ l.
       case encode_approval_evidence approved of
         Inr evidence \<Rightarrow>
           in_transaction u depth (prepare_body approved present verify_staged verify_leaf moved manifest evidence) l
       | Inl e \<Rightarrow>
           (l, Inl (if \<not> lease_live l then use_err StoreNotLive
                    else case run_body [(False, PromoteStaging workspace present verify_staged verify_leaf moved manifest)]
                                (begin_transaction (lease_db l)) of
                           (_, Inl e') \<Rightarrow> e'
                         | (_, Inr _) \<Rightarrow> e)))) l"

section \<open>Persistence of a plan\<close>

fun stops :: "recovery_step \<Rightarrow> bool" where
  "stops (TransformEffectTuple _ _ _ _ _ _) = True"
| "stops (RemoveScratch _ _ _ _) = True"
| "stops DetachActive = True"
| "stops _ = False"

text \<open>\<open>_require_projection_matches\<close>\<close>

definition require_fields_match :: "stored_record \<Rightarrow> recovery_snapshot \<Rightarrow> unit result" where
  "require_fields_match record expected =
     guard (stored_state record = tx_state expected) (step_err StateDisagrees)
     (guard (stored_committed record = commit_decision expected) (step_err DecisionDisagrees)
     (guard (stored_result record = rollback_result expected) (step_err ResultDisagrees)
     (guard (stored_diagnostic record = halt_diagnostic expected) (step_err DiagnosticDisagrees)
     (guard (stored_journals record = journals expected) (step_err JournalsDisagree)
     (guard (active expected) (step_err PlanDetached) (Inr ()))))))"

definition require_projection_matches ::
  "unicode_tables \<Rightarrow> stored_record \<Rightarrow> recovery_plan \<Rightarrow> nat \<Rightarrow> project_approved_spec \<Rightarrow> unit result" where
  "require_projection_matches u record plan start approved =
     guard (compiled (bound_snapshot plan) = approved_compiled approved) (step_err PlanCompiledDiffers)
     (guard (topology (bound_snapshot plan) = approved_topology approved) (step_err PlanTopologyDiffers)
     (bindr (reduce_recovery_plan_prefix u (bound_snapshot plan) plan start) (\<lambda>expected.
     bindr (canonical_json (stored_spec record)) (\<lambda>stored.
     bindr (canonical_json (compiled_of (compiled expected))) (\<lambda>projected.
     guard (stored = projected) (step_err SpecDisagrees)
     (require_fields_match record expected))))))"

text \<open>\<open>read_active\<close> of the transaction of the proof, with the failure for none and for another one.\<close>

definition proof_record ::
  "unicode_tables \<Rightarrow> nat \<Rightarrow> error \<Rightarrow> error \<Rightarrow> project_approved_spec \<Rightarrow> lease \<Rightarrow> stored_record result" where
  "proof_record u depth none other approved l =
     bindr (lease_active u depth l) (\<lambda>found.
     case found of
       None \<Rightarrow> Inl none
     | Some record \<Rightarrow> guard (stored_txid record = approved_txid approved) other (Inr record))"

definition transition_body ::
  "pystr \<Rightarrow> transaction_state \<Rightarrow> rollback_result option \<Rightarrow> halt_diagnostic option \<Rightarrow> transaction_body" where
  "transition_body txid to_state result diag =
     (False, SetTransactionState txid to_state) #
     (case result of None \<Rightarrow> [] | Some r \<Rightarrow> [(False, SetRollbackResult txid r)]) @
     (case diag of None \<Rightarrow> [] | Some d \<Rightarrow> [(False, SetHaltDiagnostic txid d)])"

fun persist_one :: "unicode_tables \<Rightarrow> nat \<Rightarrow> pystr \<Rightarrow> recovery_step \<Rightarrow> lease \<Rightarrow> lease \<times> unit result" where
  "persist_one u depth txid (PreserveExternal _) l = (l, Inr ())"
| "persist_one u depth txid (TransitionEffectState effect_id _ to_state) l =
     in_transaction u depth [(False, SetJournalState txid effect_id to_state)] l"
| "persist_one u depth txid (TransitionTransactionState _ to_state result diag) l =
     in_transaction u depth (transition_body txid to_state result diag) l"
| "persist_one u depth txid _ l = (l, Inl (step_err StepNotPersistable))"

text \<open>The loop: \<open>steps\<close> are those from the cursor on.\<close>

fun persist_steps ::
  "unicode_tables \<Rightarrow> nat \<Rightarrow> pystr \<Rightarrow> nat \<Rightarrow> recovery_step list \<Rightarrow> lease \<Rightarrow> lease \<times> nat result" where
  "persist_steps u depth txid cursor [] l = (l, Inr cursor)"
| "persist_steps u depth txid cursor (step # steps) l =
     (if stops step then (l, Inr cursor)
      else followed_by (persist_one u depth txid step) (\<lambda>_. persist_steps u depth txid (Suc cursor) steps) l)"

definition persist_plan_prefix ::
  "unicode_tables \<Rightarrow> nat \<Rightarrow> project_approved_spec \<Rightarrow> recovery_plan \<Rightarrow> int \<Rightarrow> lease \<Rightarrow> lease \<times> nat result" where
  "persist_plan_prefix u depth approved plan start l =
     after (require_admitted l approved) (\<lambda>_.
     after (guard (0 \<le> start \<and> start \<le> int (length (plan_steps plan))) (step_err StartOutOfRange) (Inr ())) (\<lambda>_ l.
     after (proof_record u depth (step_err NoActiveRecord) (step_err ActiveNotTheProof) approved l) (\<lambda>record.
     after (require_projection_matches u record plan (nat start) approved) (\<lambda>_.
     persist_steps u depth (stored_txid record) (nat start) (drop (nat start) (plan_steps plan)))) l)) l"

definition persist_detach ::
  "unicode_tables \<Rightarrow> nat \<Rightarrow> project_approved_spec \<Rightarrow> recovery_plan \<Rightarrow> int \<Rightarrow> lease \<Rightarrow> lease \<times> nat result" where
  "persist_detach u depth approved plan cursor l =
     after (require_admitted l approved) (\<lambda>_.
     after (guard (0 \<le> cursor \<and> cursor < int (length (plan_steps plan))) (step_err DetachOutOfRange) (Inr ())) (\<lambda>_.
     after (guard (plan_steps plan ! nat cursor = DetachActive) (step_err NotDetachStep) (Inr ())) (\<lambda>_ l.
     after (proof_record u depth (step_err ActiveNotTheProof) (step_err ActiveNotTheProof) approved l) (\<lambda>record.
     after (require_projection_matches u record plan (nat cursor) approved) (\<lambda>_.
     after (guard (stored_registration record \<noteq> None \<and> stored_settlement record \<noteq> None) (step_err DetachUnbound) (Inr ())) (\<lambda>_.
     followed_by (in_transaction u depth [(False, SetActive None)]) (\<lambda>_ l. (l, Inr (Suc (nat cursor))))))) l))) l"

text \<open>\<open>_persist_halt\<close> of \<open>coordinator/recover.py\<close>\<close>

definition persist_halt ::
  "unicode_tables \<Rightarrow> nat \<Rightarrow> project_approved_spec \<Rightarrow> recovery_plan \<Rightarrow> lease \<Rightarrow> lease \<times> unit result" where
  "persist_halt u depth approved plan =
     followed_by (persist_plan_prefix u depth approved plan 0) (\<lambda>cursor.
     after (guard (cursor = length (plan_steps plan)) (step_err HaltPlanMutates) (Inr ())) (\<lambda>_ l. (l, Inr ())))"

section \<open>Reconciliation\<close>

datatype reconciliation_action = Backfill pystr | Append chain_entry

datatype reconciliation =
  Reconciliation (for_registration: "reconciliation_action option") (for_settlement: "reconciliation_action option")

definition registered_surface :: "surface_entry list \<Rightarrow> pystr list \<Rightarrow> surface_json result" where
  "registered_surface surface paths =
     (let states = dict_of (map (\<lambda>item. (entry_path item, entry_state item)) surface)
      in traverse (\<lambda>path. bindr (lookup_or KeyError states path) (\<lambda>state.
           bindr (state_to_json state) (\<lambda>facts. Inr (path, facts)))) paths)"

definition registration_entry :: "transaction_spec \<Rightarrow> pystr \<Rightarrow> chain_entry result" where
  "registration_entry spec txid =
     bindr (registered_surface (initial_surface spec) (registered_paths spec)) (\<lambda>initial.
     bindr (registered_surface (final_surface spec) (registered_paths spec)) (\<lambda>final.
     Inr (RegisteredEntry txid (intent_digest spec) (consumer_tag spec) initial final (fulfills spec))))"

definition terminal_outcome :: "stored_record \<Rightarrow> chain_outcome option" where
  "terminal_outcome record =
     (case stored_state record of
        Tx_COMMITTED \<Rightarrow> Some Chain_COMMITTED | Tx_ROLLED_BACK \<Rightarrow> Some Chain_ROLLED_BACK | _ \<Rightarrow> None)"

abbreviation rec_err :: "reconcile_fault \<Rightarrow> error" where
  "rec_err f \<equiv> ChainStateInvalid (Reconcile f)"

fun registers :: "pystr \<Rightarrow> chain_entry \<Rightarrow> bool" where
  "registers txid (RegisteredEntry t _ _ _ _ _) = (t = txid)"
| "registers txid _ = False"

fun settles :: "pystr \<Rightarrow> chain_entry \<Rightarrow> bool" where
  "settles txid (SettledEntry t _ _) = (t = txid)"
| "settles txid _ = False"

definition derive_registration ::
  "stored_record \<Rightarrow> chain_entries \<Rightarrow> reconciliation_action option result" where
  "derive_registration record entries =
     (let registrations = filter (\<lambda>(_, entry). registers (stored_txid record) entry) entries
      in guard (length registrations \<le> 1) (rec_err RegistrationsDuplicate)
         (case stored_registration record of
            Some digest \<Rightarrow>
              guard (case dict_of entries digest of None \<Rightarrow> False | Some entry \<Rightarrow> registers (stored_txid record) entry)
                (rec_err RegistrationUnresolved) (Inr None)
          | None \<Rightarrow>
              guard (stored_state record = Tx_PREPARED \<and>
                     (\<forall>row \<in> set (stored_journals record). row_state row = J_PENDING))
                (rec_err RegistrationMissing)
                (case registrations of
                   (digest, _) # _ \<Rightarrow> Inr (Some (Backfill digest))
                 | [] \<Rightarrow>
                     bindr (registration_entry (stored_spec record) (stored_txid record))
                       (\<lambda>entry. Inr (Some (Append entry))))))"

definition committed_halt :: "stored_record \<Rightarrow> bool" where
  "committed_halt record \<longleftrightarrow>
     stored_state record = Tx_HALTED \<and>
     (case stored_diagnostic record of None \<Rightarrow> False | Some d \<Rightarrow> pre_halt_state d = Tx_COMMITTED)"

text \<open>
  The settlement expected of a terminal record names its registration. A record without one has
  been given one by then, or the derivation has stopped; the digest that stands for none is empty,
  which is no digest.
\<close>

definition expected_settlement :: "stored_record \<Rightarrow> chain_outcome \<Rightarrow> chain_entry" where
  "expected_settlement record outcome =
     SettledEntry (stored_txid record) (case stored_registration record of None \<Rightarrow> [] | Some g \<Rightarrow> g) outcome"

definition derive_settlement ::
  "stored_record \<Rightarrow> chain_entries \<Rightarrow> reconciliation_action option result" where
  "derive_settlement record entries =
     (let settlements = filter (\<lambda>(_, entry). settles (stored_txid record) entry) entries;
          outcome = terminal_outcome record
      in guard (length settlements \<le> 1) (rec_err SettlementsDuplicate)
         (case stored_settlement record of
            Some digest \<Rightarrow>
              guard (case (dict_of entries digest, stored_registration record,
                           if committed_halt record then Some Chain_COMMITTED else outcome) of
                       (Some (SettledEntry t g bound), Some registration, Some expected) \<Rightarrow>
                         t = stored_txid record \<and> g = registration \<and> bound = expected
                     | _ \<Rightarrow> False) (rec_err SettlementContradicts)
              (guard (outcome \<noteq> None \<or> committed_halt record) (rec_err SettlementNotCommittedHalt) (Inr None))
          | None \<Rightarrow>
              (case outcome of
                 None \<Rightarrow> guard (settlements = []) (rec_err NonterminalSettled) (Inr None)
               | Some terminal \<Rightarrow>
                   (case settlements of
                      (digest, entry) # _ \<Rightarrow>
                        guard (entry = expected_settlement record terminal) (rec_err UnboundSettlementContradicts)
                          (Inr (Some (Backfill digest)))
                    | [] \<Rightarrow> Inr (Some (Append (expected_settlement record terminal)))))))"

definition derive_reconciliation :: "stored_record option \<Rightarrow> validated_chain \<Rightarrow> reconciliation result" where
  "derive_reconciliation record validated =
     (case record of
        None \<Rightarrow> Inr (Reconciliation None None)
      | Some record \<Rightarrow>
          bindr (derive_registration record (history_entries validated)) (\<lambda>registration.
          bindr (derive_settlement record (history_entries validated)) (\<lambda>settlement.
          Inr (Reconciliation registration settlement))))"

end
