(* ===== verification/StoreAdmission.thy ===== *)
theory StoreAdmission
  imports StoreHistory CanonicalCorrect Coordinator
begin

text \<open>
  The preparation of a compiled specification, and what is read back: the barrier accepts the rows
  that the preparation writes, and the record a reader gets is the transaction as it was admitted.
\<close>

section \<open>The texts of a compiled specification\<close>

lemma compiled_canonical:
  assumes "compile_spec u spec = Inr c" and "python_texts spec" and "4 \<le> depth"
  obtains t where "canonical_json (compiled_of c) = Inr t" "utf8_encodable t"
    "from_canonical_json depth t = Inr (compiled_of c)"
proof -
  from assms(1) have wf: "well_formed u spec" and can: "compiled_of c = canonicalize spec"
    by (simp_all add: compile_spec_iff)
  from dumps_writable [OF compiled_writable [OF wf assms(2)]] obtain t where
    t: "json_dumps (canonical_obj spec) = Inr t" "list_all encodable t" by blast
  then have j: "canonical_json (compiled_of c) = Inr t"
    by (simp add: can canonical_json_def canonical_obj_canonicalize)
  from utf8_total [OF t(2)] obtain b where b: "utf8_encode t = Inr b" by blast
  with j have "canonical_bytes (compiled_of c) = Inr b" by (simp add: canonical_bytes_def)
  from compiled_decodes [OF assms(1) this assms(3)] have "from_canonical_json depth t = Inr (compiled_of c)"
    by (simp add: from_canonical_bytes_def utf8.decode_encode [OF b])
  moreover have "utf8_encodable t" using t(2) by (auto simp: utf8_encodable_def encodable_def list_all_iff)
  ultimately show thesis using that j by blast
qed

lemma compiled_again: "compile_spec u spec = Inr c \<Longrightarrow> compile_spec u (compiled_of c) = Inr c"
proof -
  assume a: "compile_spec u spec = Inr c"
  have "spec_effects (canonicalize spec) = spec_effects spec" by (simp add: canonicalize_def)
  with a well_formed_permuted [OF canonicalize_same, of u spec] show ?thesis
    by (auto simp: compile_spec_iff canonicalize_idem)
qed

lemma compiled_effects:
  assumes "compile_spec u spec = Inr c"
  shows "distinct (map effect_id_of (spec_effects (compiled_of c)))"
    "\<forall>effect \<in> set (spec_effects (compiled_of c)). utf8_encodable (effect_id_of effect)"
proof -
  from compiled_again [OF assms] have wf: "well_formed u (compiled_of c)" by (simp add: compile_spec_iff)
  then have "distinct (map (portability_equivalence_key u) (map effect_id_of (spec_effects (compiled_of c))))"
    by (simp add: well_formed_def comp_def)
  then show "distinct (map effect_id_of (spec_effects (compiled_of c)))" by (metis distinct_map)
  have "is_valid_identifier (effect_id_of effect)" if "effect_ok effect" for effect
    using that by (cases effect) auto
  moreover have "utf8_encodable i" if "is_valid_identifier i" for i
    using encodable_identifier [OF that] by (auto simp: utf8_encodable_def encodable_def list_all_iff)
  ultimately show "\<forall>effect \<in> set (spec_effects (compiled_of c)). utf8_encodable (effect_id_of effect)"
    using wf by (auto simp: well_formed_def)
qed

section \<open>The rows of an admitted transaction\<close>

definition admitted_row :: "pystr \<Rightarrow> pystr \<Rightarrow> record_row" where
  "admitted_row spec evidence =
     \<lparr>spec_json = spec, state_column = Tx_PREPARED, committed_column = Decision_UNCOMMITTED,
      result_column = None, diagnostic_column = None, registration_column = None,
      settlement_column = None, evidence_column = evidence, assembly_column = None\<rparr>"

definition pending_row :: "effect \<Rightarrow> pystr \<times> effect_row" where
  "pending_row effect = (effect_id_of effect, \<lparr>variant_column = effect_variant_of effect, journal_column = J_PENDING\<rparr>)"

lemma insert_effects_succeed:
  assumes "distinct (map effect_id_of effects)" "\<forall>effect \<in> set effects. utf8_encodable (effect_id_of effect)"
    "\<forall>effect \<in> set effects. map_of (effect_table (working t)) (txid, effect_id_of effect) = None"
    "map_of (record_table (working t)) txid \<noteq> None"
  shows "insert_effects txid effects t rest =
    rest (t\<lparr>working := (working t)\<lparr>effect_table := effect_table (working t) @
      map (\<lambda>effect. ((txid, effect_id_of effect), snd (pending_row effect))) effects\<rparr>\<rparr>)"
  using assms
proof (induction effects arbitrary: t)
  case (Cons effect effects)
  have "sql_insert_effect txid (effect_id_of effect) (effect_variant_of effect) (working t) =
      Inr ((working t)\<lparr>effect_table := effect_table (working t) @ [((txid, effect_id_of effect), snd (pending_row effect))]\<rparr>)"
    using Cons.prems by (simp add: sql_insert_effect_def bind_text_def refuse_unless_def guard_def pending_row_def)
  moreover have "effect_id_of e \<noteq> effect_id_of effect" if "e \<in> set effects" for e
    using Cons.prems(1) that by (metis distinct.simps(2) image_eqI list.set_map list.simps(9))
  then have "\<forall>e \<in> set effects. map_of (effect_table (working t) @
      [((txid, effect_id_of effect), snd (pending_row effect))]) (txid, effect_id_of e) = None"
    using Cons.prems(3) by (simp add: map_add_def)
  then have "insert_effects txid effects (t\<lparr>working := (working t)\<lparr>effect_table := effect_table (working t) @
        [((txid, effect_id_of effect), snd (pending_row effect))]\<rparr>\<rparr>) rest =
      rest (t\<lparr>working := (working t)\<lparr>effect_table := (effect_table (working t) @
        [((txid, effect_id_of effect), snd (pending_row effect))]) @
        map (\<lambda>effect. ((txid, effect_id_of effect), snd (pending_row effect))) effects\<rparr>\<rparr>)"
    using Cons.prems(1,2,4) by (subst Cons.IH) simp_all
  ultimately show ?case by (simp add: execute_def)
qed simp

lemma effects_of_absent:
  "effects_recorded db \<Longrightarrow> map_of (record_table db) txid = None \<Longrightarrow> effects_of txid db = []"
  by (force simp: effects_recorded_def effects_of_def list_all_iff filter_empty_conv)

lemma effect_absent:
  "effects_recorded db \<Longrightarrow> map_of (record_table db) txid = None \<Longrightarrow> map_of (effect_table db) (txid, e) = None"
  by (force simp: effects_recorded_def list_all_iff map_of_eq_None_iff)

lemma pending_rows:
  assumes "distinct (map effect_id_of (spec_effects spec))"
  shows "effect_findings spec (map pending_row (spec_effects spec)) = []"
    "journal_vector spec (map pending_row (spec_effects spec)) =
       Inr (map (\<lambda>effect. EffectJournalState (effect_id_of effect) J_PENDING) (spec_effects spec))"
proof -
  let ?rows = "map pending_row (spec_effects spec)"
  have ids: "map fst ?rows = map effect_id_of (spec_effects spec)" by (simp add: pending_row_def comp_def)
  have row: "map_of ?rows (effect_id_of effect) = Some (snd (pending_row effect))" if "effect \<in> set (spec_effects spec)" for effect
    using that assms by (intro map_of_is_SomeI) (auto simp: comp_def pending_row_def image_iff)
  have variant: "dict_of (map (\<lambda>effect. (effect_id_of effect, effect_variant_of effect)) (spec_effects spec))
      (effect_id_of effect) = Some (effect_variant_of effect)" if "effect \<in> set (spec_effects spec)" for effect
    using that assms by (subst dict_of_distinct) (auto simp: comp_def intro!: map_of_is_SomeI)
  show "effect_findings spec ?rows = []"
    using row variant by (auto simp: effect_findings_def Let_def ids filter_empty_conv pending_row_def)
  have "traverse (\<lambda>effect. bindr (lookup_or KeyError (map_of ?rows) (effect_id_of effect))
      (\<lambda>row. Inr (EffectJournalState (effect_id_of effect) (journal_column row)))) effects =
    Inr (map (\<lambda>effect. EffectJournalState (effect_id_of effect) J_PENDING) effects)"
    if "set effects \<subseteq> set (spec_effects spec)" for effects
    using that row by (induction effects) (auto simp: lookup_or_def pending_row_def)
  then show "journal_vector spec ?rows =
      Inr (map (\<lambda>effect. EffectJournalState (effect_id_of effect) J_PENDING) (spec_effects spec))"
    by (simp add: journal_vector_def)
qed

section \<open>Blobs of a manifest\<close>

lemma check_manifest_step:
  assumes "check_manifest names lengths (e # manifest) = Inr ()"
  obtains names' lengths' where "is_sha256_digest (staged_digest e)" "0 \<le> staged_len e"
    "check_manifest names' lengths' manifest = Inr ()" "map_of lengths' (staged_digest e) = Some (staged_len e)"
    "map_of lengths \<subseteq>\<^sub>m map_of lengths'"
proof (cases "map_of lengths (staged_digest e)")
  case None
  then have "map_of lengths \<subseteq>\<^sub>m map_of ((staged_digest e, staged_len e) # lengths)"
    by (auto simp: map_le_def)
  with None assms that [of "staged_name e # names" "(staged_digest e, staged_len e) # lengths"] show thesis
    by (simp add: require_digest_def bindr_Inr_iff guard_Inr_iff)
next
  case (Some n)
  with assms that [of "staged_name e # names" lengths] show thesis
    by (auto simp: require_digest_def bindr_Inr_iff guard_Inr_iff)
qed

lemma check_manifest_entries:
  "check_manifest names lengths manifest = Inr () \<Longrightarrow> entry \<in> set manifest \<Longrightarrow>
   is_sha256_digest (staged_digest entry) \<and> 0 \<le> staged_len entry \<and>
   (\<forall>n. map_of lengths (staged_digest entry) = Some n \<longrightarrow> n = staged_len entry)"
proof (induction manifest arbitrary: names lengths)
  case (Cons e manifest)
  from Cons.prems(1) obtain names' lengths' where rest: "is_sha256_digest (staged_digest e)" "0 \<le> staged_len e"
    "check_manifest names' lengths' manifest = Inr ()" "map_of lengths' (staged_digest e) = Some (staged_len e)"
    "map_of lengths \<subseteq>\<^sub>m map_of lengths'" by (rule check_manifest_step)
  have "map_of lengths' d = Some n" if "map_of lengths d = Some n" for d n
    using rest(5) that by (rule map_leD_some)
  with rest(1,2,4) Cons.IH [OF rest(3)] Cons.prems(2) show ?case by fastforce
qed simp

lemma check_manifest_lengths:
  "check_manifest names lengths manifest = Inr () \<Longrightarrow> entry \<in> set manifest \<Longrightarrow> entry' \<in> set manifest \<Longrightarrow>
   staged_digest entry' = staged_digest entry \<Longrightarrow> staged_len entry' = staged_len entry"
proof (induction manifest arbitrary: names lengths)
  case (Cons e manifest)
  from Cons.prems(1) obtain names' lengths' where rest: "check_manifest names' lengths' manifest = Inr ()"
      "map_of lengths' (staged_digest e) = Some (staged_len e)" by (rule check_manifest_step)
  have "staged_len x = staged_len e" if "x \<in> set manifest" "staged_digest x = staged_digest e" for x
    using check_manifest_entries [OF rest(1) that(1)] rest(2) that(2) by simp
  with Cons.IH [OF rest(1)] Cons.prems(2-4) show ?case by (metis set_ConsD)
qed simp

text \<open>The index after the manifest: what was there, and the new digests.\<close>

fun indexed :: "staged_blob list \<Rightarrow> database \<Rightarrow> database" where
  "indexed [] db = db"
| "indexed (entry # manifest) db =
     indexed manifest
       (if map_of (blob_table db) (staged_digest entry) = None
        then db\<lparr>blob_table := blob_table db @ [(staged_digest entry, staged_len entry)]\<rparr> else db)"

lemma indexed_tables [simp]:
  "record_table (indexed manifest db) = record_table db" "effect_table (indexed manifest db) = effect_table db"
  "active_table (indexed manifest db) = active_table db"
  by (induction manifest db rule: indexed.induct) auto

lemma indexed_keeps: "map_of (blob_table db) d = Some n \<Longrightarrow> map_of (blob_table (indexed manifest db)) d = Some n"
  by (induction manifest db rule: indexed.induct) (auto simp: map_add_def)

lemma indexed_lookup:
  "entry \<in> set manifest \<Longrightarrow>
   (\<And>e. e \<in> set manifest \<Longrightarrow> staged_digest e = staged_digest entry \<Longrightarrow> staged_len e = staged_len entry) \<Longrightarrow>
   map_of (blob_table db) (staged_digest entry) \<in> {None, Some (staged_len entry)} \<Longrightarrow>
   map_of (blob_table (indexed manifest db)) (staged_digest entry) = Some (staged_len entry)"
proof (induction manifest arbitrary: db)
  case (Cons e manifest)
  let ?db = "if map_of (blob_table db) (staged_digest e) = None
        then db\<lparr>blob_table := blob_table db @ [(staged_digest e, staged_len e)]\<rparr> else db"
  show ?case
  proof (cases "staged_digest e = staged_digest entry")
    case True
    with Cons.prems(2) [of e] have "staged_len e = staged_len entry" by simp
    with True Cons.prems(3) have "map_of (blob_table ?db) (staged_digest entry) = Some (staged_len entry)"
      by (auto simp: map_add_def)
    then show ?thesis by (simp only: indexed.simps indexed_keeps)
  next
    case False
    then have db: "map_of (blob_table ?db) (staged_digest entry) \<in> {None, Some (staged_len entry)}"
      using Cons.prems(3) by (auto simp: map_add_def split: option.splits)
    have entry: "entry \<in> set manifest" using False Cons.prems(1) by auto
    have "map_of (blob_table (indexed manifest ?db)) (staged_digest entry) = Some (staged_len entry)"
      by (rule Cons.IH [OF entry _ db]) (rule Cons.prems(2), simp_all)
    then show ?thesis by (simp only: indexed.simps)
  qed
qed simp

lemma index_blobs_succeed:
  "\<forall>entry \<in> set manifest. is_sha256_digest (staged_digest entry) \<and> 0 \<le> staged_len entry \<Longrightarrow>
   index_blobs manifest t rest = rest (t\<lparr>working := indexed manifest (working t)\<rparr>)"
proof (induction manifest arbitrary: t)
  case (Cons entry manifest)
  then have "utf8_encodable (staged_digest entry)"
    using encodable_digest by (force simp: utf8_encodable_def encodable_def list_all_iff)
  with Cons show ?case
    by (simp add: execute_def sql_insert_blob_def bind_text_def guard_def refuse_unless_def)
qed simp

lemma preflight_checks:
  assumes "preflight db present verify_staged verify_leaf manifest = Inr ()"
  shows "check_manifest [] [] manifest = Inr ()"
    "entry \<in> set manifest \<Longrightarrow> map_of (blob_table db) (staged_digest entry) \<in> {None, Some (staged_len entry)}"
proof -
  show "check_manifest [] [] manifest = Inr ()" using assms by (simp add: preflight_def bindr_Inr_iff)
  assume "entry \<in> set manifest"
  then have "(staged_digest entry, staged_len entry) \<in>
      set (sort (remdups (map (\<lambda>entry. (staged_digest entry, staged_len entry)) manifest)))" by simp
  then show "map_of (blob_table db) (staged_digest entry) \<in> {None, Some (staged_len entry)}"
    using assms unfolding preflight_def bindr_Inr_iff guard_Inr_iff for_each_Inr
    by (cases "map_of (blob_table db) (staged_digest entry)") (force simp: guard_Inr_iff)+
qed

section \<open>The transaction that admits it\<close>

definition admitted_database :: "pystr \<Rightarrow> transaction_spec \<Rightarrow> pystr \<Rightarrow> pystr \<Rightarrow> database \<Rightarrow> database" where
  "admitted_database txid spec json evidence db =
     db\<lparr>record_table := record_table db @ [(txid, admitted_row json evidence)],
        effect_table := effect_table db @ map (\<lambda>effect. ((txid, effect_id_of effect), snd (pending_row effect))) (spec_effects spec)\<rparr>"

lemma admitted_reads:
  assumes "effects_recorded db" "map_of (record_table db) txid = None"
  shows "map_of (record_table (admitted_database txid spec json evidence db)) txid = Some (admitted_row json evidence)"
    "effects_of txid (admitted_database txid spec json evidence db) = map pending_row (spec_effects spec)"
proof -
  have "effects_of txid (admitted_database txid spec json evidence db) =
      effects_of txid db @ map pending_row (spec_effects spec)"
    by (auto simp: effects_of_def admitted_database_def pending_row_def comp_def filter_map)
  then show "effects_of txid (admitted_database txid spec json evidence db) = map pending_row (spec_effects spec)"
    by (simp add: effects_of_absent [OF assms])
  show "map_of (record_table (admitted_database txid spec json evidence db)) txid = Some (admitted_row json evidence)"
    using assms(2) by (simp add: admitted_database_def map_add_def)
qed

lemma insert_record_succeeds:
  assumes "compile_spec u spec = Inr c" "canonical_json (compiled_of c) = Inr json" "utf8_encodable json"
    "utf8_encodable evidence" "is_valid_identifier txid" "effects_recorded (working t)"
    "map_of (record_table (working t)) txid = None"
  shows "txn_insert_record txid (compiled_of c) evidence t =
    (touch txid (t\<lparr>working := admitted_database txid (compiled_of c) json evidence (working t)\<rparr>), Inr ())"
proof -
  let ?db = "(working t)\<lparr>record_table := record_table (working t) @ [(txid, admitted_row json evidence)]\<rparr>"
  have "sql_insert_record txid json evidence (working t) = Inr ?db"
    using assms by (simp add: sql_insert_record_def bind_text_def refuse_unless_def guard_def admitted_row_def)
  moreover have "insert_effects txid (spec_effects (compiled_of c)) (t\<lparr>working := ?db\<rparr>)
      (\<lambda>t. done_with (touch txid t)) =
    done_with (touch txid (t\<lparr>working := admitted_database txid (compiled_of c) json evidence (working t)\<rparr>))"
    using compiled_effects [OF assms(1)] effect_absent [OF assms(6,7)] assms(7)
    by (subst insert_effects_succeed) (simp_all add: map_add_def admitted_database_def)
  ultimately show ?thesis
    using assms(2,5)
    by (simp add: txn_insert_record_def checked_def require_store_identifier_def guard_def execute_def mutating_def
        done_with_def)
qed

text \<open>The database of a prepared transaction, and the record read from it.\<close>

definition prepared_database ::
  "pystr \<Rightarrow> transaction_spec \<Rightarrow> pystr \<Rightarrow> pystr \<Rightarrow> staged_blob list \<Rightarrow> database \<Rightarrow> database" where
  "prepared_database txid spec json evidence manifest db =
     (admitted_database txid spec json evidence (indexed manifest db))\<lparr>active_table := Some txid\<rparr>"

definition prepared_record :: "pystr \<Rightarrow> transaction_spec \<Rightarrow> pystr \<Rightarrow> stored_record" where
  "prepared_record txid spec evidence =
     \<lparr>stored_txid = txid, stored_spec = spec, stored_state = Tx_PREPARED, stored_committed = Decision_UNCOMMITTED,
      stored_result = None, stored_diagnostic = None, stored_registration = None, stored_settlement = None,
      stored_evidence = evidence, stored_assembly_halt = None,
      stored_journals = map (\<lambda>effect. EffectJournalState (effect_id_of effect) J_PENDING) (spec_effects spec)\<rparr>"

lemma prepared_reads:
  assumes "effects_recorded db" "map_of (record_table db) txid = None"
  shows "map_of (record_table (prepared_database txid spec json evidence manifest db)) txid = Some (admitted_row json evidence)"
    "effects_of txid (prepared_database txid spec json evidence manifest db) = map pending_row (spec_effects spec)"
    "blob_table (prepared_database txid spec json evidence manifest db) = blob_table (indexed manifest db)"
    "active_table (prepared_database txid spec json evidence manifest db) = Some txid"
  using admitted_reads [of "indexed manifest db" txid] assms
  by (simp_all add: prepared_database_def effects_of_def effects_recorded_def admitted_database_def)

lemma prepared_coherent:
  assumes "compile_spec u spec = Inr c" "canonical_json (compiled_of c) = Inr json"
    "from_canonical_json depth json = Inr (compiled_of c)" "effects_recorded db" "map_of (record_table db) txid = None"
    "\<forall>(digest, len) \<in> set (referenced_digests (compiled_of c)). map_of (blob_table (indexed manifest db)) digest = Some len"
  shows "coherence_findings u depth (prepared_database txid (compiled_of c) json evidence manifest db) txid = Inr []"
proof -
  let ?db = "prepared_database txid (compiled_of c) json evidence manifest db"
  note reads = prepared_reads [OF assms(4,5), of "compiled_of c" json evidence manifest]
  have "blob_findings ?db (compiled_of c) = []"
    using assms(6) by (simp add: blob_findings_iff reads)
  moreover have "active_recorded ?db" by (simp add: active_recorded_def reads)
  moreover note compiled_again [OF assms(1)]
  ultimately show ?thesis
    using assms(2,3)
    by (simp add: coherence_findings_def reads record_findings_iff admitted_row_def
        compile_findings_def diagnostic_findings_def presence_findings_def pending_rows compiled_effects [OF assms(1)])
qed

lemma prepared_loads:
  assumes "compile_spec u spec = Inr c" "from_canonical_json depth json = Inr (compiled_of c)"
    "effects_recorded db" "map_of (record_table db) txid = None"
    "decode_approval_evidence u depth evidence = Inr document"
    "coherence_findings u depth (prepared_database txid (compiled_of c) json evidence manifest db) txid = Inr []"
  shows "load_record u depth (prepared_database txid (compiled_of c) json evidence manifest db) txid =
    Inr (Some (prepared_record txid (compiled_of c) evidence))"
  using assms(2,5,6) pending_rows(2) [OF compiled_effects(1) [OF assms(1)]]
  by (simp add: load_record_def guard_def optional_result_def materialize_record_def prepared_reads [OF assms(3,4)]
      admitted_row_def load_assembly_halt_def prepared_record_def)

lemma promote_succeeds:
  assumes "preflight (working t) present verify_staged verify_leaf manifest = Inr ()"
  shows "txn_promote_staging txid present verify_staged verify_leaf (Inr ()) manifest t =
    ((touch txid (t\<lparr>working := indexed manifest (working t)\<rparr>))\<lparr>promoted :=
       add_promoted txid (map staged_digest manifest) (promoted t)\<rparr>, Inr ())"
  using assms check_manifest_entries [OF preflight_checks(1) [OF assms]]
  by (simp add: txn_promote_staging_def checked_def index_blobs_succeed mutating_def done_with_def touch_def)

lemma prepare_body_runs:
  assumes "compile_spec u spec = Inr c" "canonical_json (compiled_of c) = Inr json" "utf8_encodable json"
    "utf8_encodable evidence" "is_valid_identifier txid" "effects_recorded db" "map_of (record_table db) txid = None"
    "active_table db = None" "preflight db present verify_staged verify_leaf manifest = Inr ()"
    "approved_txid approved = txid" "approved_compiled approved = c"
  shows "run_body (prepare_body approved present verify_staged verify_leaf (Inr ()) manifest evidence) (begin_transaction db) =
    (\<lparr>working = prepared_database txid (compiled_of c) json evidence manifest db, touched = [txid],
      promoted = [(txid, map staged_digest manifest)], poisoned = False\<rparr>, Inr ())"
proof -
  let ?t1 = "\<lparr>working = indexed manifest db, touched = [txid], promoted = [(txid, map staged_digest manifest)], poisoned = False\<rparr>"
  have 1: "txn_promote_staging txid present verify_staged verify_leaf (Inr ()) manifest (begin_transaction db) = (?t1, Inr ())"
    using promote_succeeds [of "begin_transaction db" present verify_staged verify_leaf manifest txid] assms(9)
    by (simp add: begin_transaction_def touch_def add_promoted_def)
  let ?t2 = "?t1\<lparr>working := admitted_database txid (compiled_of c) json evidence (indexed manifest db)\<rparr>"
  have 2: "txn_insert_record txid (compiled_of c) evidence ?t1 = (?t2, Inr ())"
    using insert_record_succeeds [OF assms(1-5), of ?t1] assms(6,7)
    by (simp add: effects_recorded_def touch_def)
  have "sql_insert_active txid (working ?t2) = Inr (prepared_database txid (compiled_of c) json evidence manifest db)"
    using assms(7,8) by (simp add: sql_insert_active_def refuse_unless_def guard_def prepared_database_def
        admitted_database_def map_add_def)
  then have 3: "txn_set_active (Some txid) ?t2 = (?t1\<lparr>working := prepared_database txid (compiled_of c) json evidence manifest db\<rparr>, Inr ())"
    using assms(5) by (simp add: txn_set_active_def checked_def require_store_identifier_def guard_def execute_def
        mutating_def done_with_def touch_def)
  show ?thesis using 1 2 3 by (simp add: prepare_body_def assms(10,11) done_with_def)
qed

lemma prepare_commits:
  assumes "compile_spec u spec = Inr c" "canonical_json (compiled_of c) = Inr json" "utf8_encodable json"
    "from_canonical_json depth json = Inr (compiled_of c)" "utf8_encodable evidence" "is_valid_identifier txid"
    "effects_recorded db" "map_of (record_table db) txid = None" "active_table db = None"
    "preflight db present verify_staged verify_leaf manifest = Inr ()"
    "set (map staged_digest manifest) \<subseteq> fst ` set (referenced_digests (compiled_of c))"
    "\<forall>(digest, len) \<in> set (referenced_digests (compiled_of c)). map_of (blob_table db) digest = Some len \<or>
      (digest, len) \<in> set (map (\<lambda>entry. (staged_digest entry, staged_len entry)) manifest)"
    "approved_txid approved = txid" "approved_compiled approved = c"
  shows "store_transaction u depth True (prepare_body approved present verify_staged verify_leaf (Inr ()) manifest evidence) db =
      (prepared_database txid (compiled_of c) json evidence manifest db, Inr ())"
    "coherence_findings u depth (prepared_database txid (compiled_of c) json evidence manifest db) txid = Inr []"
proof -
  let ?new = "prepared_database txid (compiled_of c) json evidence manifest db"
  have "map_of (blob_table (indexed manifest db)) digest = Some len"
    if "(digest, len) \<in> set (referenced_digests (compiled_of c))" for digest len
  proof (cases "map_of (blob_table db) digest = Some len")
    case False
    with assms(12) that obtain entry where e: "entry \<in> set manifest" "digest = staged_digest entry" "len = staged_len entry"
      by auto
    from indexed_lookup [OF e(1) check_manifest_lengths [OF preflight_checks(1) [OF assms(10)] e(1)]
        preflight_checks(2) [OF assms(10) e(1)]] e(2,3) show ?thesis by simp
  qed (rule indexed_keeps)
  then show coh: "coherence_findings u depth ?new txid = Inr []"
    by (intro prepared_coherent [OF assms(1,2,4,7,8)]) auto
  have "from_canonical_json depth (spec_json (admitted_row json evidence)) = Inr (compiled_of c)"
    by (simp add: admitted_row_def assms(4))
  with assms(11) have "barrier_promoted depth ?new (txid, map staged_digest manifest) = Inr ()"
    by (simp add: barrier_promoted_def prepared_reads [OF assms(7,8)] guard_def)
  with coh show "store_transaction u depth True
      (prepare_body approved present verify_staged verify_leaf (Inr ()) manifest evidence) db = (?new, Inr ())"
    using prepare_body_runs [OF assms(1-3,5-10,13,14)]
    by (simp add: store_transaction_def run_barrier_def barrier_record_def guard_def)
qed

section \<open>Properties\<close>

text \<open>
  C8: A prepared transaction is durable as it was approved. In any database a store can reach, with
  no active transaction and for a new identifier, if the staged files pass the preflight and are the
  blobs the specification references, and the text of the evidence is one that the reader of evidence
  accepts, \<open>prepare_transaction\<close> commits, and the active record read
  afterwards is the compiled specification with the evidence of its approval: prepared, uncommitted,
  unregistered, every effect pending in the order of the specification.
\<close>

theorem prepared_reads_back:
  assumes "stored u depth (lease_db l)" and "lease_live l" and "require_admitted l approved = Inr ()"
    and "compile_spec u spec = Inr (approved_compiled approved)" and "python_texts spec" and "4 \<le> depth"
    and "is_valid_identifier (approved_txid approved)"
    and "map_of (record_table (lease_db l)) (approved_txid approved) = None" and "active_table (lease_db l) = None"
    and "encode_approval_evidence approved = Inr evidence" and "utf8_encodable evidence"
    and "decode_approval_evidence u depth evidence = Inr document"
    and "preflight (lease_db l) present verify_staged verify_leaf manifest = Inr ()"
    and "set (map staged_digest manifest) \<subseteq> fst ` set (referenced_digests (compiled_of (approved_compiled approved)))"
    and "\<forall>(digest, len) \<in> set (referenced_digests (compiled_of (approved_compiled approved))).
      map_of (blob_table (lease_db l)) digest = Some len \<or>
      (digest, len) \<in> set (map (\<lambda>entry. (staged_digest entry, staged_len entry)) manifest)"
  shows "\<exists>l'. prepare_transaction u depth approved (approved_txid approved) present verify_staged verify_leaf (Inr ()) manifest l =
      (l', Inr ()) \<and>
    lease_active u depth l' = Inr (Some
      \<lparr>stored_txid = approved_txid approved, stored_spec = compiled_of (approved_compiled approved),
       stored_state = Tx_PREPARED, stored_committed = Decision_UNCOMMITTED, stored_result = None,
       stored_diagnostic = None, stored_registration = None, stored_settlement = None, stored_evidence = evidence,
       stored_assembly_halt = None,
       stored_journals = map (\<lambda>effect. EffectJournalState (effect_id_of effect) J_PENDING)
         (spec_effects (compiled_of (approved_compiled approved)))\<rparr>)"
proof -
  let ?txid = "approved_txid approved" and ?c = "approved_compiled approved" and ?db = "lease_db l"
  from compiled_canonical [OF assms(4-6)] obtain json where json: "canonical_json (compiled_of ?c) = Inr json"
    "utf8_encodable json" "from_canonical_json depth json = Inr (compiled_of ?c)" by blast
  note recorded = stored_effects_recorded [OF assms(1)] assms(8)
  let ?new = "prepared_database ?txid (compiled_of ?c) json evidence manifest ?db"
  note commits = prepare_commits [OF assms(4) json assms(11,7) recorded assms(9,13-15) refl refl]
  note coh = commits(2)
  from commits(1) have "prepare_transaction u depth approved ?txid present verify_staged verify_leaf (Inr ()) manifest l =
      (l\<lparr>lease_db := ?new\<rparr>, Inr ())"
    using assms(2,3,10) by (simp add: prepare_transaction_def after_def guard_def in_transaction_def)
  moreover have "lease_active u depth (l\<lparr>lease_db := ?new\<rparr>) = Inr (Some (prepared_record ?txid (compiled_of ?c) evidence))"
    using prepared_loads [OF assms(4) json(3) recorded assms(12) coh] assms(2)
    by (simp add: lease_active_def read_active_def guard_def prepared_reads [OF recorded])
  ultimately show ?thesis by (simp add: prepared_record_def)
qed

end
