(* ===== verification/StoreDiagnosticCorrect.thy ===== *)
theory StoreDiagnosticCorrect
  imports StoreDiagnostic JsonCorrect
begin

text \<open>The text of a halt diagnostic reads back as the diagnostic.\<close>

lemma diag_dict_sorted [simp]: "diag_dict (sorted_json (JObj items)) = Inr (sort_items items)"
  by (simp add: sorted_obj)

lemma diag_keys_sorted [simp]:
  "diag_keys (sort_items items) expected = guard (fst ` set items = set expected) (diag_refuse DiagnosticFields) (Inr ())"
  by (simp add: diag_keys_def)

lemma diag_field_sorted [simp]:
  "distinct (map fst items) \<Longrightarrow>
   diag_field read (sort_items items) name =
     (case map_of items name of None \<Rightarrow> Inl KeyError | Some v \<Rightarrow> read (sorted_json v))"
  by (simp add: diag_field_def split: option.split)

lemma diag_all_sorted [simp]:
  "distinct (map fst items) \<Longrightarrow>
   diag_all read (sort_items items) name =
     (case map_of items name of
        None \<Rightarrow> Inl KeyError | Some v \<Rightarrow> bindr (diag_sequence (sorted_json v)) (traverse read))"
  by (simp add: diag_all_def split: option.split)

text \<open>A member of an enumeration is found by its value.\<close>

lemma values_found [simp]:
  "by_value tx_value TX_STATES (tx_value s) = Some s"
  "by_value decision_value DECISIONS (decision_value d) = Some d"
  "by_value journal_value JOURNAL_STATES (journal_value j) = Some j"
  "by_value halt_reason_value HALT_REASONS (halt_reason_value r) = Some r"
  "by_value build_value BUILD_RELATIONS (build_value b) = Some b"
  "by_value identity_value IDENTITY_RELATIONS (identity_value i) = Some i"
  "by_value operator_value OPERATOR_ACTIONS (operator_value a) = Some a"
  subgoal by (cases s) (simp_all add: by_value_def TX_STATES_def)
  subgoal by (cases d) (simp_all add: by_value_def DECISIONS_def)
  subgoal by (cases j) (simp_all add: by_value_def JOURNAL_STATES_def)
  subgoal by (cases r) (simp_all add: by_value_def HALT_REASONS_def)
  subgoal by (cases b) (simp_all add: by_value_def BUILD_RELATIONS_def)
  subgoal by (cases i) (simp_all add: by_value_def IDENTITY_RELATIONS_def)
  subgoal by (cases a) (simp_all add: by_value_def OPERATOR_ACTIONS_def)
  done

lemma diag_member_text [simp]:
  "diag_member members (JStr s) = lookup_or (diag_refuse DiagnosticNotMember) members s"
  by (simp add: diag_member_def)

lemma optional_read:
  "(\<And>x. read (sorted_json (obj x)) = Inr x) \<Longrightarrow> (\<And>x. obj x \<noteq> JNull \<and> sorted_json (obj x) \<noteq> JNull) \<Longrightarrow>
   diag_optional read (sorted_json (optional_obj obj v)) = Inr v"
proof (cases v)
  case (Some x)
  assume a: "\<And>x. read (sorted_json (obj x)) = Inr x" "\<And>x. obj x \<noteq> JNull \<and> sorted_json (obj x) \<noteq> JNull"
  then have "diag_optional read (sorted_json (obj x)) = bindr (read (sorted_json (obj x))) (\<lambda>x. Inr (Some x))"
    by (cases "sorted_json (obj x)") auto
  with a Some show ?thesis by (simp add: optional_obj_def)
qed (simp add: optional_obj_def)

text \<open>An observed mode is that of an unrecognized entry.\<close>

definition state_admissible :: "diagnostic_state \<Rightarrow> bool" where
  "state_admissible s \<longleftrightarrow> (case s of DiagUnrecognized m \<Rightarrow> is_unrecognized_st_mode m | _ \<Rightarrow> True)"

lemma read_diagnostic_state:
  "state_admissible s \<Longrightarrow> decode_diagnostic_state (sorted_json (diagnostic_state_obj s)) = Inr s"
  by (induction s rule: diagnostic_state_obj.induct)
    (simp_all add: decode_diagnostic_state_def lookup_or_def insert_commute state_admissible_def)

lemma read_journal: "decode_journal (sorted_json (journal_obj j)) = Inr j"
  by (cases j) (simp add: decode_journal_def journal_obj_def lookup_or_def)

lemma read_relation: "decode_relation (sorted_json (relation_obj r)) = Inr r"
  by (cases r) (simp add: decode_relation_def relation_obj_def lookup_or_def)

lemma read_diagnostic_entry:
  "state_admissible (de_state e) \<Longrightarrow> decode_diagnostic_entry (sorted_json (diagnostic_entry_obj e)) = Inr e"
  by (cases e)
    (simp add: decode_diagnostic_entry_def diagnostic_entry_obj_def read_diagnostic_state lookup_or_def optional_read)

lemma read_mapped:
  "(\<And>x. x \<in> set xs \<Longrightarrow> read (sorted_json (obj x)) = Inr x) \<Longrightarrow>
   traverse read (map (sorted_json \<circ> obj) xs) = Inr xs"
  by (induction xs) auto

lemma sequence_sorted [simp]: "diag_sequence (sorted_json (JList (map obj xs))) = Inr (map (sorted_json \<circ> obj) xs)"
  by simp

definition diagnostic_admissible :: "halt_diagnostic \<Rightarrow> bool" where
  "diagnostic_admissible d \<longleftrightarrow> (\<forall>e \<in> set (diag_expected d) \<union> set (diag_observed d). state_admissible (de_state e))"

lemma read_diagnostic_obj:
  assumes "diagnostic_admissible d"
  shows "decode_diagnostic_obj (sorted_json (diagnostic_obj d)) = Inr d"
proof -
  have entries: "traverse decode_diagnostic_entry (map (sorted_json \<circ> diagnostic_entry_obj) es) = Inr es"
    if "set es \<subseteq> set (diag_expected d) \<union> set (diag_observed d)" for es
    using that assms by (intro read_mapped read_diagnostic_entry) (auto simp: diagnostic_admissible_def)
  have texts: "traverse diag_text (map (sorted_json \<circ> JStr) ss) = Inr ss" for ss
    by (intro read_mapped) simp
  show ?thesis
    unfolding decode_diagnostic_obj_def diagnostic_obj_def
    by (simp add: DIAGNOSTIC_FIELDS_def entries texts read_mapped read_journal read_relation optional_read lookup_or_def
        del: sorted_json.simps(1))
qed

section \<open>Texts\<close>

text \<open>Every string of the diagnostic is one that an ASCII text keeps.\<close>

definition state_texts :: "diagnostic_state \<Rightarrow> pystr list" where
  "state_texts s =
     (case s of
        DiagState (FileState hash _ _) \<Rightarrow> [hash]
      | DiagState (SymlinkState target _) \<Rightarrow> [target]
      | _ \<Rightarrow> [])"

definition entry_texts :: "diagnostic_entry \<Rightarrow> pystr list" where
  "entry_texts e = de_slot e # state_texts (de_state e)"

definition diagnostic_texts :: "halt_diagnostic \<Rightarrow> pystr list" where
  "diagnostic_texts d =
     map row_effect_id (diag_journals d @ projected_journals d) @
     (case diag_effect_id d of None \<Rightarrow> [] | Some e \<Rightarrow> [e]) @ diag_paths d @
     concat (map entry_texts (diag_expected d @ diag_observed d)) @
     concat (map (\<lambda>r. [left_slot r, right_slot r]) (diag_relations d))"

lemma ascii_not_high [simp]: "c < 55296 \<Longrightarrow> \<not> high_surrogate c"
  by (simp add: high_surrogate_def)

lemma unpaired_ascii: "list_all (\<lambda>c. c < 128) s \<Longrightarrow> unpaired s"
  by (induction s rule: unpaired.induct) (auto simp: high_surrogate_def)

lemma unpaired_values [simp]:
  "unpaired (tx_value s)" "unpaired (decision_value c)" "unpaired (journal_value j)"
  "unpaired (halt_reason_value r)" "unpaired (build_value b)" "unpaired (identity_value i)"
  "unpaired (operator_value a)"
  subgoal by (cases s) simp_all
  subgoal by (cases c) simp_all
  subgoal by (cases j) simp_all
  subgoal by (cases r) simp_all
  subgoal by (cases b) simp_all
  subgoal by (cases i) simp_all
  subgoal by (cases a) simp_all
  done

lemma state_obj_plain:
  "list_all unpaired (state_texts s) \<Longrightarrow>
   plain_in unpaired (diagnostic_state_obj s) \<and> nested_in (diagnostic_state_obj s) (Suc n)"
  by (induction s rule: diagnostic_state_obj.induct) (simp_all add: state_texts_def)

lemma optional_plain:
  "(\<And>x. v = Some x \<Longrightarrow> plain_in good (obj x) \<and> nested_in (obj x) n) \<Longrightarrow>
   plain_in good (optional_obj obj v) \<and> nested_in (optional_obj obj v) n"
  by (cases v) (auto simp: optional_obj_def)

lemma entry_obj_plain:
  "list_all unpaired (entry_texts e) \<Longrightarrow>
   plain_in unpaired (diagnostic_entry_obj e) \<and> nested_in (diagnostic_entry_obj e) (Suc (Suc n))"
  using state_obj_plain [of "de_state e"]
  by (simp add: diagnostic_entry_obj_def entry_texts_def optional_plain)

lemma parts_plain:
  "unpaired (row_effect_id j) \<Longrightarrow> plain_in unpaired (journal_obj j) \<and> nested_in (journal_obj j) (Suc n)"
  "unpaired (left_slot r) \<Longrightarrow> unpaired (right_slot r) \<Longrightarrow>
   plain_in unpaired (relation_obj r) \<and> nested_in (relation_obj r) (Suc n)"
  by (simp_all add: journal_obj_def relation_obj_def)

lemma list_obj_plain:
  "(\<And>x. x \<in> set xs \<Longrightarrow> plain_in good (obj x) \<and> nested_in (obj x) n) \<Longrightarrow>
   plain_in good (JList (map obj xs)) \<and> nested_in (JList (map obj xs)) (Suc n)"
  by auto

lemma object_plain:
  "distinct (map fst items) \<Longrightarrow> list_all (\<lambda>(k, v). good k \<and> plain_in good v \<and> nested_in v n) items \<Longrightarrow>
   plain_in good (JObj items) \<and> nested_in (JObj items) (Suc n)"
  by (auto simp: list_all_iff)

lemma diagnostic_obj_plain:
  assumes "list_all unpaired (diagnostic_texts d)"
  shows "plain_in unpaired (diagnostic_obj d) \<and> nested_in (diagnostic_obj d) 4"
proof -
  let ?P = "\<lambda>v. plain_in unpaired v \<and> nested_in v (Suc (Suc (Suc 0)))"
  have optional: "?P (optional_obj JStr (diag_effect_id d))"
    using assms by (intro optional_plain) (auto simp: diagnostic_texts_def)
  have rows: "?P (JList (map journal_obj (diag_journals d)))" "?P (JList (map journal_obj (projected_journals d)))"
    using assms by (intro list_obj_plain parts_plain; auto simp: diagnostic_texts_def list_all_iff)+
  have entries: "?P (JList (map diagnostic_entry_obj (diag_expected d)))"
      "?P (JList (map diagnostic_entry_obj (diag_observed d)))"
    using assms by (intro list_obj_plain entry_obj_plain; auto simp: diagnostic_texts_def list_all_iff)+
  have relations: "?P (JList (map relation_obj (diag_relations d)))"
    using assms by (intro list_obj_plain parts_plain) (auto simp: diagnostic_texts_def list_all_iff)
  have paths: "?P (JList (map JStr (diag_paths d)))"
    using assms by (intro list_obj_plain) (auto simp: diagnostic_texts_def list_all_iff)
  have "4 = Suc (Suc (Suc (Suc 0)))" by simp
  then show ?thesis
    unfolding diagnostic_obj_def
    by (simp only:) (rule object_plain; simp add: optional rows entries relations paths
        del: plain_simps(6) nested_in_simps(6))
qed

text \<open>A text the encoder writes for a diagnostic of such strings.\<close>

definition diagnostic_keeps :: "halt_diagnostic \<Rightarrow> bool" where
  "diagnostic_keeps d \<longleftrightarrow> diagnostic_admissible d \<and> list_all unpaired (diagnostic_texts d)"

lemma diagnostic_reads_back:
  assumes "encode_diagnostic d = Inr payload" and "diagnostic_keeps d" and "4 \<le> depth"
  shows "decode_diagnostic depth payload = Inr d"
proof -
  from assms(2) have p: "plain_in unpaired (diagnostic_obj d) \<and> nested_in (diagnostic_obj d) 4"
    by (intro diagnostic_obj_plain) (simp add: diagnostic_keeps_def)
  have "json_loads (unique_keys e) depth payload = Inr (sorted_json (diagnostic_obj d))" for e
    using assms(1) p nested_in_mono [OF _ assms(3)]
    by (intro ascii_writer.loads_written) (auto simp: encode_diagnostic_def)
  with assms(2) read_diagnostic_obj show ?thesis
    by (simp add: decode_diagnostic_def diagnostic_keeps_def)
qed

end
