(* ===== verification/PersistCorrect.thy ===== *)
theory PersistCorrect
  imports Coordinator StoreHistory StoreDiagnosticCorrect HaltCorrect
begin

text \<open>
  Persisting a plan refines the reduction of the plan: after each step the durable record is the
  projection of the reduced snapshot.
\<close>

section \<open>Writes that succeed\<close>

lemma set_column_succeeds:
  "is_valid_identifier txid \<Longrightarrow> f (working t) = Inr (db, 1) \<Longrightarrow>
   set_column txid f t = (touch txid (t\<lparr>working := db\<rparr>), Inr ())"
  by (simp add: set_column_def checked_def require_store_identifier_def guard_def execute_one_def done_with_def mutating_def)

lemma mutating_done: "mutating (t, Inr v) = (t, Inr v)"
  by (simp add: mutating_def)

lemma run_body_cons: "run_write w t = (t', Inr v) \<Longrightarrow> run_body ((caught, w) # body) t = run_body body t'"
  by simp

lemma update_record_succeeds:
  "map_of (record_table db) txid = Some r \<Longrightarrow> \<not> barred r \<Longrightarrow>
   update_record barred new txid db = Inr (db\<lparr>record_table := update_rows txid new (record_table db)\<rparr>, 1)"
  by (simp add: update_record_def guard_def)

lemma update_rows_twice: "update_rows k f (update_rows k g rows) = update_rows k (f \<circ> g) rows"
  by (auto simp: update_rows_def)

text \<open>The transaction state of a body that touched one transaction.\<close>

definition one_touched :: "pystr \<Rightarrow> database \<Rightarrow> transaction" where
  "one_touched txid db = \<lparr>working = db, touched = [txid], promoted = [], poisoned = False\<rparr>"

lemma touch_first [simp]: "touch txid ((begin_transaction db)\<lparr>working := db'\<rparr>) = one_touched txid db'"
  by (simp add: touch_def begin_transaction_def one_touched_def)

lemma touch_again [simp]: "touch txid ((one_touched txid db)\<lparr>working := db'\<rparr>) = one_touched txid db'"
  by (simp add: touch_def one_touched_def)

lemma one_touched_simps [simp]: "working (one_touched txid db) = db" "working (begin_transaction db) = db"
  by (simp_all add: one_touched_def begin_transaction_def)

lemma commit_one:
  assumes "run_body body (begin_transaction db) = (one_touched txid db', Inr ())"
    "coherence_findings u depth db' txid = Inr []"
  shows "store_transaction u depth True body db = (db', Inr ())"
  using assms by (simp add: store_transaction_def run_barrier_def barrier_record_def guard_def one_touched_def)

section \<open>The durable projection of a snapshot\<close>

text \<open>The row holds the fields of the snapshot, is registered and not under an assembly halt.\<close>

definition row_projects :: "nat \<Rightarrow> database \<Rightarrow> pystr \<Rightarrow> record_row \<Rightarrow> transaction_spec \<Rightarrow> recovery_snapshot \<Rightarrow> bool" where
  "row_projects depth db txid r spec s \<longleftrightarrow>
     map_of (record_table db) txid = Some r \<and> registration_column r \<noteq> None \<and> assembly_column r = None \<and>
     from_canonical_json depth (spec_json r) = Inr spec \<and>
     state_column r = tx_state s \<and> committed_column r = commit_decision s \<and> result_column r = rollback_result s \<and>
     optional_result (decode_diagnostic depth) (diagnostic_column r) = Inr (halt_diagnostic s) \<and>
     journal_vector spec (effects_of txid db) = Inr (journals s)"

lemma terminal_payloads_iff:
  "validate_terminal_payloads s = Inr () \<longleftrightarrow>
     (rollback_result s \<noteq> None) = (tx_state s = Tx_ROLLED_BACK) \<and>
     (halt_diagnostic s \<noteq> None) = (tx_state s = Tx_HALTED) \<and>
     (\<forall>d. halt_diagnostic s = Some d \<longrightarrow> commit_decision s = diag_commit_decision d \<and> journals s = diag_journals d)"
  by (auto simp: validate_terminal_payloads_def guard_Inr_iff split: option.splits)

lemma sort_Nil_iff [simp]: "sort xs = [] \<longleftrightarrow> xs = []"
  by (metis length_0_conv length_sort)

lemma covers_of_findings: "effect_findings spec rows = [] \<Longrightarrow> covers_effects spec rows"
  by (auto simp: effect_findings_def covers_effects_def Let_def filter_empty_conv)

text \<open>A row that projects a valid snapshot is coherent if its specification, effects and blobs are.\<close>

lemma projection_coherent:
  assumes "row_projects depth db txid r spec s" "validate_terminal_payloads s = Inr ()"
    "canonical_json spec = Inr (spec_json r)" "compile_findings u spec = Inr []"
    "effect_findings spec (effects_of txid db) = []" "blob_findings db spec = []" "active_recorded db"
  shows "coherence_findings u depth db txid = Inr []"
proof -
  have "presence_findings r = []"
    using assms(1,2) by (auto simp: presence_findings_def row_projects_def terminal_payloads_iff optional_result_def
        bindr_Inr_iff split: option.splits)
  moreover have "diagnostic_findings depth spec r (effects_of txid db) = Inr []"
    using assms(1,2) covers_of_findings [OF assms(5)]
    by (cases "diagnostic_column r") (auto simp: diagnostic_findings_def row_projects_def terminal_payloads_iff
        optional_result_def bindr_Inr_iff)
  ultimately show ?thesis
    using assms by (auto simp: coherence_findings_def record_findings_iff row_projects_def)
qed

lemma coherent_row:
  assumes "row_projects depth db txid r spec s" "coherence_findings u depth db txid = Inr []"
  shows "canonical_json spec = Inr (spec_json r)" "compile_findings u spec = Inr []"
    "effect_findings spec (effects_of txid db) = []" "blob_findings db spec = []" "active_recorded db"
  using assms by (auto simp: coherence_findings_def record_findings_iff row_projects_def)

section \<open>A step on the transaction row\<close>

lemma validated_diagnostic_admissible: "validate_halt_diagnostic u (Some d) = Inr () \<Longrightarrow> diagnostic_admissible d"
  by (auto simp: validate_halt_diagnostic_def validate_diagnostic_entries_def guard_Inr_iff bindr_Inr_iff
      diagnostic_admissible_def state_admissible_def for_each_Inr result_simps split: diagnostic_state.splits)

text \<open>A diagnostic with a text that the reader takes back.\<close>

definition storable_diagnostic :: "halt_diagnostic \<Rightarrow> bool" where
  "storable_diagnostic d \<longleftrightarrow> (\<exists>payload. encode_diagnostic d = Inr payload) \<and> list_all unpaired (diagnostic_texts d)"

fun storable_step :: "recovery_step \<Rightarrow> bool" where
  "storable_step (TransitionTransactionState a b _ diag) \<longleftrightarrow>
     a \<noteq> Tx_ROLLED_BACK \<and> (case diag of None \<Rightarrow> True | Some d \<Rightarrow> storable_diagnostic d)"
| "storable_step _ \<longleftrightarrow> True"

text \<open>The writer for diagnostics writes ASCII, which SQLite takes.\<close>

abbreviation ascii :: "pystr \<Rightarrow> bool" where
  "ascii \<equiv> list_all (\<lambda>c. c < 128)"

lemma ascii_escape: "u < 65536 \<Longrightarrow> ascii (hex_escape u)"
  by (auto simp: hex_escape_def hex_digit_def less_mult_imp_div_less)

lemma ascii_char_ascii: "c < 1114112 \<Longrightarrow> ascii (ascii_char c)"
  by (auto simp: ascii_char_def escape_char_def intro!: ascii_escape)

lemma ascii_string_ascii: "unpaired s \<Longrightarrow> ascii (ascii_string s)"
proof -
  have "ascii (concat (map ascii_char s))" if "unpaired s"
    using that by (induction s rule: unpaired.induct) (auto simp: ascii_char_ascii)
  then show "unpaired s \<Longrightarrow> ?thesis" by (simp add: ascii_string_def)
qed

lemma ascii_int: "int_str i = Inr t \<Longrightarrow> ascii t"
  using decimal_digits [of "nat \<bar>i\<bar>"]
  by (auto simp: int_str_def Let_def guard_def list_all_iff is_digit_def split: if_splits dest!: bspec)

lemma ascii_join: "\<forall>p \<in> set parts. ascii p \<Longrightarrow> ascii (join_with 44 parts)"
  by (induction "44 :: nat" parts rule: join_with.induct) auto

lemma traverse_each: "traverse f xs = Inr ys \<Longrightarrow> (\<And>x y. x \<in> set xs \<Longrightarrow> f x = Inr y \<Longrightarrow> P y) \<Longrightarrow> \<forall>y \<in> set ys. P y"
  by (auto simp: traverse_Inr_iff list_all2_conv_all_nth in_set_conv_nth) blast

lemma ascii_dumps: "plain_in unpaired v \<Longrightarrow> json_dumps_ascii v = Inr t \<Longrightarrow> ascii t"
proof (induction v arbitrary: t)
  case (JList vs)
  from JList.prems obtain parts where p: "traverse json_dumps_ascii vs = Inr parts" "t = [91] @ join_with 44 parts @ [93]"
    by (auto simp: bindr_Inr_iff)
  from p(1) JList have "\<forall>p \<in> set parts. ascii p" by (elim traverse_each) auto
  with p(2) ascii_join show ?case by simp
next
  case (JObj items)
  let ?f = "\<lambda>(k, v). bindr (json_dumps_ascii v) (\<lambda>t. Inr (ascii_string k @ [58] @ t))"
  from JObj.prems obtain parts where p: "traverse ?f (sort_key fst items) = Inr parts"
      "t = [123] @ join_with 44 parts @ [125]"
    by (auto simp: bindr_Inr_iff)
  have "ascii y" if "x \<in> set (sort_key fst items)" "?f x = Inr y" for x y
    using that JObj.prems(1) JObj.IH by (fastforce simp: bindr_Inr_iff ascii_string_ascii)
  with p(1) have "\<forall>p \<in> set parts. ascii p" by (rule traverse_each)
  with p(2) ascii_join show ?case by simp
qed (auto simp: ascii_string_ascii ascii_int)

lemma diagnostic_text: "storable_diagnostic d \<Longrightarrow> encode_diagnostic d = Inr payload \<Longrightarrow> bind_text payload = Inr ()"
  using ascii_dumps [of "diagnostic_obj d" payload] diagnostic_obj_plain [of d]
  by (fastforce simp: storable_diagnostic_def encode_diagnostic_def bind_text_def guard_def utf8_encodable_def list_all_iff)

definition transition_row ::
  "transaction_state \<Rightarrow> rollback_result option \<Rightarrow> pystr option \<Rightarrow> record_row \<Rightarrow> record_row" where
  "transition_row to_state result payload r =
     r\<lparr>state_column := to_state, result_column := (case result of None \<Rightarrow> result_column r | Some v \<Rightarrow> Some v),
       diagnostic_column := (case payload of None \<Rightarrow> diagnostic_column r | Some p \<Rightarrow> Some p)\<rparr>"

lemma transition_row_keeps [simp]:
  "registration_column (transition_row a b c r) = registration_column r"
  "assembly_column (transition_row a b c r) = assembly_column r"
  by (simp_all add: transition_row_def)

definition rewritten :: "pystr \<Rightarrow> (record_row \<Rightarrow> record_row) \<Rightarrow> database \<Rightarrow> database" where
  "rewritten txid new db = db\<lparr>record_table := update_rows txid new (record_table db)\<rparr>"

lemma rewritten_twice: "rewritten txid f (rewritten txid g db) = rewritten txid (f \<circ> g) db"
  by (simp add: rewritten_def update_rows_twice)

lemma rewritten_reads:
  "map_of (record_table db) txid = Some r \<Longrightarrow> map_of (record_table (rewritten txid new db)) txid = Some (new r)"
  "effects_of t (rewritten txid new db) = effects_of t db" "blob_table (rewritten txid new db) = blob_table db"
  "active_table (rewritten txid new db) = active_table db"
  "active_recorded (rewritten txid new db) = active_recorded db"
  by (auto simp: rewritten_def update_rows_lookup effects_of_def active_recorded_def)

lemma sql_writes:
  assumes "map_of (record_table db) txid = Some r" "registration_column r \<noteq> None" "assembly_column r = None"
  shows "sql_update_state txid to_state db = Inr (rewritten txid (state_column_update (\<lambda>_. to_state)) db, 1)"
    "sql_update_result txid v db = Inr (rewritten txid (result_column_update (\<lambda>_. Some v)) db, 1)"
    "bind_text p = Inr () \<Longrightarrow> sql_update_diagnostic txid p db = Inr (rewritten txid (diagnostic_column_update (\<lambda>_. Some p)) db, 1)"
  using assms
  by (simp_all add: sql_update_state_def sql_update_result_def sql_update_diagnostic_def rewritten_def
      trg_departure_needs_registration_def trg_assembly_halt_freezes_record_def update_record_succeeds)

lemma transition_body_succeeds:
  assumes "map_of (record_table db) txid = Some r" "registration_column r \<noteq> None" "assembly_column r = None"
    "is_valid_identifier txid" "\<forall>d. diag = Some d \<longrightarrow> storable_diagnostic d \<and> encode_diagnostic d = Inr (the payload)"
    "payload = None \<longleftrightarrow> diag = None"
  shows "run_body (transition_body txid to_state result diag) (begin_transaction db) =
    (one_touched txid (rewritten txid (transition_row to_state result payload) db), Inr ())"
proof -
  let ?db1 = "rewritten txid (state_column_update (\<lambda>_. to_state)) db"
  have w1: "txn_set_transaction_state txid to_state (begin_transaction db) = (one_touched txid ?db1, Inr ())"
    using assms by (simp add: txn_set_transaction_state_def set_column_succeeds sql_writes mutating_done)
  note r1 = rewritten_reads(1) [OF assms(1), of "state_column_update (\<lambda>_. to_state)"]
  let ?db2 = "rewritten txid (transition_row to_state result None) db"
  have row2: "map_of (record_table ?db2) txid = Some (transition_row to_state result None r)"
    by (rule rewritten_reads(1) [OF assms(1)])
  have w2: "txn_set_rollback_result txid v (one_touched txid ?db1) = (one_touched txid ?db2, Inr ())"
    if "result = Some v" for v
    using assms that by (simp add: txn_set_rollback_result_def set_column_succeeds sql_writes [OF r1] rewritten_twice
        mutating_done comp_def transition_row_def [abs_def])
  have none: "?db2 = ?db1" if "result = None"
    using that by (intro arg_cong [where f = "\<lambda>new. rewritten txid new db"] ext) (simp add: transition_row_def)
  have eq: "diagnostic_column_update (\<lambda>_. Some p) \<circ> transition_row to_state result None =
      transition_row to_state result (Some p)" for p
    by (rule ext) (simp add: transition_row_def)
  have w3: "txn_set_halt_diagnostic txid d (one_touched txid ?db2) =
      (one_touched txid (rewritten txid (transition_row to_state result payload) db), Inr ())" if "diag = Some d" for d
    using assms that diagnostic_text [of d]
    by (auto simp: txn_set_halt_diagnostic_def set_column_succeeds sql_writes [OF row2] rewritten_twice mutating_done eq)
  show ?thesis
  proof (cases diag)
    case None
    with assms(6) w1 w2 none show ?thesis
      by (cases result) (auto simp: transition_body_def done_with_def)
  next
    case (Some d)
    with w1 w2 w3 none show ?thesis
      by (cases result) (auto simp: transition_body_def done_with_def)
  qed
qed

text \<open>The transition of the row is that of the snapshot.\<close>

lemma transition_persisted:
  assumes "row_projects depth db txid r spec s" "coherence_findings u depth db txid = Inr []"
    "is_valid_identifier txid" "4 \<le> depth"
    "apply_step u s (TransitionTransactionState a b result diag) = Inr s'"
    "storable_step (TransitionTransactionState a b result diag)"
  shows "\<exists>db' r'. store_transaction u depth True (transition_body txid b result diag) db = (db', Inr ()) \<and>
    row_projects depth db' txid r' spec s' \<and> coherence_findings u depth db' txid = Inr [] \<and>
    active_table db' = active_table db \<and> spec_json r' = spec_json r \<and> evidence_column r' = evidence_column r"
proof -
  from assms(5) have t: "tx_state s = a" "transaction_recovery_edge a b" "valid_payload b result diag"
      "rebuild u (s\<lparr>tx_state := b, rollback_result := result, halt_diagnostic := diag\<rparr>) = Inr s'"
    by (auto dest: transition_transaction_Inr)
  from rebuild_Inr [OF t(4)] obtain scratch where s': "s' = s\<lparr>tx_state := b, rollback_result := result,
      halt_diagnostic := diag, scratch_observations := scratch\<rparr>" and v: "valid_snapshot u s'" by auto
  have old: "rollback_result s = None" "halt_diagnostic s = None"
    using assms(1,2,6) t(1,2)
    by (auto simp: row_projects_def coherence_findings_def record_findings_iff presence_findings_def
        transaction_recovery_edge_def optional_result_def bindr_Inr_iff split: option.splits if_splits)
  then have r: "result_column r = None" "diagnostic_column r = None" "map_of (record_table db) txid = Some r"
      "registration_column r \<noteq> None" "assembly_column r = None"
    using assms(1) by (auto simp: row_projects_def optional_result_def bindr_Inr_iff split: option.splits)
  define payload where "payload = (case diag of None \<Rightarrow> None | Some d \<Rightarrow> Some (SOME p. encode_diagnostic d = Inr p))"
  have enc: "storable_diagnostic d \<and> encode_diagnostic d = Inr (the payload)" if "diag = Some d" for d
    using assms(6) that by (auto simp: payload_def storable_diagnostic_def intro: someI_ex)
  have read: "optional_result (decode_diagnostic depth) payload = Inr diag"
  proof (cases diag)
    case (Some d)
    have "validate_halt_diagnostic u (Some d) = Inr ()" using v Some by (simp add: valid_snapshot_iff s')
    then have "diagnostic_keeps d"
      using enc [OF Some] by (simp add: diagnostic_keeps_def storable_diagnostic_def validated_diagnostic_admissible)
    moreover obtain p where p: "payload = Some p" by (simp add: payload_def Some)
    moreover have "encode_diagnostic d = Inr p" using enc [OF Some] p by simp
    ultimately have "decode_diagnostic depth p = Inr d" by (simp add: diagnostic_reads_back assms(4))
    with p Some show ?thesis by (simp add: optional_result_def)
  qed (simp add: payload_def optional_result_def)
  let ?db = "rewritten txid (transition_row b result payload) db"
  let ?r = "transition_row b result payload r"
  have proj: "row_projects depth ?db txid ?r spec s'"
    using assms(1) r read
    by (auto simp: row_projects_def rewritten_reads transition_row_def s' split: option.splits)
  have coh: "coherence_findings u depth ?db txid = Inr []"
    using projection_coherent [OF proj] coherent_row [OF assms(1,2)] v
    by (simp add: valid_snapshot_iff rewritten_reads blob_findings_def transition_row_def)
  have "run_body (transition_body txid b result diag) (begin_transaction db) = (one_touched txid ?db, Inr ())"
    using enc by (intro transition_body_succeeds [OF r(3-5) assms(3)]) (auto simp: payload_def split: option.splits)
  from commit_one [OF this coh] proj coh show ?thesis
    by (intro exI [of _ ?db] exI [of _ ?r]) (simp add: rewritten_reads transition_row_def)
qed

section \<open>A step on a journal\<close>

definition journalled :: "pystr \<Rightarrow> pystr \<Rightarrow> journal_state \<Rightarrow> database \<Rightarrow> database" where
  "journalled txid e j db =
     db\<lparr>effect_table := update_rows (txid, e) (journal_column_update (\<lambda>_. j)) (effect_table db)\<rparr>"

lemma effects_of_lookup: "map_of (effects_of txid db) e = map_of (effect_table db) (txid, e)"
proof -
  have "map_of (map (\<lambda>(key, row). (snd key, row)) (filter (\<lambda>(key, row). fst key = txid) rows)) e = map_of rows (txid, e)"
    for rows :: "((pystr \<times> pystr) \<times> effect_row) list"
    by (induction rows) auto
  then show ?thesis by (simp add: effects_of_def)
qed

lemma journalled_effects:
  "effects_of txid (journalled txid e j db) = update_rows e (journal_column_update (\<lambda>_. j)) (effects_of txid db)"
proof -
  have "map (\<lambda>(key, row). (snd key, row)) (filter (\<lambda>(key, row). fst key = txid) (update_rows (txid, e) new rows)) =
      update_rows e new (map (\<lambda>(key, row). (snd key, row)) (filter (\<lambda>(key, row). fst key = txid) rows))"
    for new and rows :: "((pystr \<times> pystr) \<times> effect_row) list"
    by (induction rows) (auto simp: update_rows_def)
  then show ?thesis by (simp add: effects_of_def journalled_def)
qed

lemma journalled_reads [simp]:
  "record_table (journalled txid e j db) = record_table db" "blob_table (journalled txid e j db) = blob_table db"
  "active_table (journalled txid e j db) = active_table db"
  "active_recorded (journalled txid e j db) = active_recorded db"
  by (simp_all add: journalled_def active_recorded_def)

lemma journal_vector_iff:
  "journal_vector spec rows = Inr js \<longleftrightarrow>
   list_all2 (\<lambda>effect j. \<exists>row. map_of rows (effect_id_of effect) = Some row \<and>
     j = EffectJournalState (effect_id_of effect) (journal_column row)) (spec_effects spec) js"
proof -
  have "bindr (lookup_or KeyError (map_of rows) e) (\<lambda>row. Inr (EffectJournalState e (journal_column row))) = Inr j \<longleftrightarrow>
      (\<exists>row. map_of rows e = Some row \<and> j = EffectJournalState e (journal_column row))" for e j
    by (auto simp: bindr_Inr_iff lookup_or_Inr_iff)
  then show ?thesis by (simp add: journal_vector_def traverse_Inr_iff)
qed

lemma journal_vector_update:
  assumes "journal_vector spec rows = Inr js" "matching_rows js e = [index]"
  shows "journal_vector spec (update_rows e (journal_column_update (\<lambda>_. j)) rows) =
    Inr (js[index := EffectJournalState (row_effect_id (js ! index)) j])"
proof -
  have match: "i < length js \<and> row_effect_id (js ! i) = e \<longleftrightarrow> i = index" for i
    using assms(2) matching_rows_iff [of i js e] by auto
  have row: "row_effect_id (js ! i) = effect_id_of (spec_effects spec ! i)" if "i < length js" for i
    using assms(1) that by (auto simp: journal_vector_iff list_all2_conv_all_nth)
  have "\<exists>r. map_of (update_rows e (journal_column_update (\<lambda>_. j)) rows) (effect_id_of (spec_effects spec ! i)) = Some r \<and>
      js[index := EffectJournalState (row_effect_id (js ! index)) j] ! i =
        EffectJournalState (effect_id_of (spec_effects spec ! i)) (journal_column r)" if i: "i < length js" for i
  proof -
    from assms(1) i obtain r where r: "map_of rows (effect_id_of (spec_effects spec ! i)) = Some r"
        "js ! i = EffectJournalState (effect_id_of (spec_effects spec ! i)) (journal_column r)"
      by (auto simp: journal_vector_iff list_all2_conv_all_nth)
    show ?thesis
    proof (cases "i = index")
      case True
      then show ?thesis using r i match [of i] row [OF i] by (simp add: update_rows_lookup)
    next
      case False
      then show ?thesis using r i match [of i] row [OF i] by (simp add: update_rows_lookup)
    qed
  qed
  then show ?thesis using assms(1) by (simp add: journal_vector_iff list_all2_conv_all_nth)
qed

lemma effect_findings_update:
  "effect_findings spec (update_rows e (journal_column_update (\<lambda>_. j)) rows) = effect_findings spec rows"
proof -
  have "map_option variant_column (map_of (update_rows e (journal_column_update (\<lambda>_. j)) rows) k) =
      map_option variant_column (map_of rows k)" for k
    by (cases "map_of rows k"; cases "k = e") (simp_all add: update_rows_lookup)
  then show ?thesis by (simp add: effect_findings_def update_rows_keys)
qed

lemma findings_identifiers:
  assumes "compile_findings u spec = Inr []" "effect \<in> set (spec_effects spec)"
  shows "is_valid_identifier (effect_id_of effect)"
proof -
  from assms(1) obtain c where "compile_spec u spec = Inr c"
    by (auto simp: compile_findings_def split: sum.splits error.splits)
  then have "effect_ok effect" using assms(2) by (simp add: compile_spec_iff well_formed_def)
  then show ?thesis by (cases effect) auto
qed

lemma effect_persisted:
  assumes "row_projects depth db txid r spec s" "coherence_findings u depth db txid = Inr []"
    "is_valid_identifier txid" "apply_step u s (TransitionEffectState e a b) = Inr s'"
  shows "store_transaction u depth True [(False, SetJournalState txid e b)] db = (journalled txid e b db, Inr ()) \<and>
    row_projects depth (journalled txid e b db) txid r spec s' \<and>
    coherence_findings u depth (journalled txid e b db) txid = Inr []"
proof -
  from assms(4) obtain index where t: "matching_rows (journals s) e = [index]" "effect_recovery_edge a b"
      "rebuild u (s\<lparr>journals := (journals s)[index := EffectJournalState (row_effect_id (journals s ! index)) b]\<rparr>) = Inr s'"
    by (auto dest: transition_effect_Inr)
  from rebuild_Inr [OF t(3)] obtain scratch where s': "s' = s\<lparr>journals := (journals s)[index :=
      EffectJournalState (row_effect_id (journals s ! index)) b], scratch_observations := scratch\<rparr>"
    and v: "valid_snapshot u s'" by auto
  have vector: "journal_vector spec (effects_of txid db) = Inr (journals s)"
    using assms(1) by (simp add: row_projects_def)
  have index: "index < length (journals s)" "row_effect_id (journals s ! index) = e"
    using t(1) matching_rows_iff [of index "journals s" e] by auto
  then have i: "index < length (spec_effects spec)" "effect_id_of (spec_effects spec ! index) = e"
      "\<exists>row. map_of (effect_table db) (txid, e) = Some row"
    using vector by (auto simp: journal_vector_iff list_all2_conv_all_nth effects_of_lookup)
  then obtain effect row where e: "effect \<in> set (spec_effects spec)" "effect_id_of effect = e"
      "map_of (effect_table db) (txid, e) = Some row"
    using nth_mem [OF i(1)] by blast
  have proj: "row_projects depth (journalled txid e b db) txid r spec s'"
    using assms(1) journal_vector_update [OF vector t(1)] by (simp add: row_projects_def journalled_effects s')
  have coh: "coherence_findings u depth (journalled txid e b db) txid = Inr []"
    using projection_coherent [OF proj] coherent_row [OF assms(1,2)] v
    by (simp add: valid_snapshot_iff blob_findings_def journalled_effects effect_findings_update)
  have "b \<noteq> J_STARTED" using t(2) by (auto simp: effect_recovery_edge_def)
  then have "sql_update_journal txid e b db = Inr (journalled txid e b db, 1)"
    using assms(1) e(3)
    by (simp add: sql_update_journal_def trg_journal_start_gate_def trg_assembly_halt_freezes_journal_def
        row_projects_def guard_def journalled_def)
  then have "run_body [(False, SetJournalState txid e b)] (begin_transaction db) =
      (one_touched txid (journalled txid e b db), Inr ())"
    using assms(3) findings_identifiers [OF coherent_row(2) [OF assms(1,2)] e(1)] e(2)
    by (simp add: txn_set_journal_state_def checked_def require_store_identifier_def guard_def execute_one_def
        done_with_def mutating_done)
  from commit_one [OF this coh] proj coh show ?thesis by blast
qed

section \<open>The loop\<close>

lemma nonstop_active: "apply_step u s step = Inr s' \<Longrightarrow> \<not> stops step \<Longrightarrow> active s' = active s"
  by (cases step)
    (auto simp: reduce_preserve_external_def guard_Inr_iff dest!: transition_transaction_Inr transition_effect_Inr rebuild_Inr)

lemma step_compiled: "apply_step u s step = Inr s' \<Longrightarrow> compiled s' = compiled s"
  using step_keeps [of u s step s'] by (simp add: keeps_issued_def same_transaction_def)

text \<open>The lease holds the projection of the snapshot in a coherent row with this text and this evidence.\<close>

definition holds_projection ::
  "unicode_tables \<Rightarrow> nat \<Rightarrow> pystr \<Rightarrow> transaction_spec \<Rightarrow> pystr \<Rightarrow> pystr \<Rightarrow> recovery_snapshot \<Rightarrow> lease \<Rightarrow> bool" where
  "holds_projection u depth txid spec json evidence s l \<longleftrightarrow>
     lease_live l \<and> active_table (lease_db l) = Some txid \<and> coherence_findings u depth (lease_db l) txid = Inr [] \<and>
     (\<exists>r. row_projects depth (lease_db l) txid r spec s \<and> spec_json r = json \<and> evidence_column r = evidence)"

lemma persist_one_refines:
  assumes "holds_projection u depth txid spec json evidence s l" "is_valid_identifier txid" "4 \<le> depth"
    "apply_step u s step = Inr s'" "\<not> stops step" "storable_step step"
  shows "\<exists>l'. persist_one u depth txid step l = (l', Inr ()) \<and> lease_binding l' = lease_binding l \<and>
    holds_projection u depth txid spec json evidence s' l'"
proof (cases step)
  case (TransitionTransactionState a b result diag)
  from assms(1) obtain r where r: "row_projects depth (lease_db l) txid r spec s" "spec_json r = json" "evidence_column r = evidence"
      "coherence_findings u depth (lease_db l) txid = Inr []" by (auto simp: holds_projection_def)
  from transition_persisted [OF r(1,4) assms(2,3), of a b result diag s'] assms(4,6) TransitionTransactionState
  obtain db' r' where "store_transaction u depth True (transition_body txid b result diag) (lease_db l) = (db', Inr ())"
    "row_projects depth db' txid r' spec s'" "coherence_findings u depth db' txid = Inr []"
    "active_table db' = active_table (lease_db l)" "spec_json r' = spec_json r" "evidence_column r' = evidence_column r"
    by blast
  with assms(1) r TransitionTransactionState show ?thesis
    by (auto simp: in_transaction_def holds_projection_def)
next
  case (TransitionEffectState e a b)
  from assms(1) obtain r where r: "row_projects depth (lease_db l) txid r spec s" "spec_json r = json" "evidence_column r = evidence"
      "coherence_findings u depth (lease_db l) txid = Inr []" by (auto simp: holds_projection_def)
  from effect_persisted [OF r(1,4) assms(2), of e a b s'] assms(1,4) r TransitionEffectState show ?thesis
    by (auto simp: in_transaction_def holds_projection_def)
next
  case (PreserveExternal nodes)
  with assms show ?thesis by (auto simp: reduce_preserve_external_def guard_Inr_iff)
qed (use assms(5) in auto)

lemma persist_steps_refine:
  assumes "holds_projection u depth txid spec json evidence s l" "is_valid_identifier txid" "4 \<le> depth"
    "apply_steps u s steps = Inr final" "list_all storable_step steps"
  shows "\<exists>l' n s'. persist_steps u depth txid cursor steps l = (l', Inr (cursor + n)) \<and> n \<le> length steps \<and>
    list_all (\<lambda>step. \<not> stops step) (take n steps) \<and> (n = length steps \<or> stops (steps ! n)) \<and>
    apply_steps u s (take n steps) = Inr s' \<and> active s' = active s \<and> compiled s' = compiled s \<and>
    lease_binding l' = lease_binding l \<and> holds_projection u depth txid spec json evidence s' l'"
  using assms
proof (induction steps arbitrary: s l cursor)
  case Nil
  then show ?case by (auto simp: apply_steps_def)
next
  case (Cons step steps)
  show ?case
  proof (cases "stops step")
    case True
    with Cons.prems show ?thesis
      by (intro exI [of _ l] exI [of _ 0] exI [of _ s]) (simp add: apply_steps_def)
  next
    case False
    from Cons.prems(4) obtain t where t: "apply_step u s step = Inr t" "apply_steps u t steps = Inr final"
      by (auto simp: apply_steps_def bindr_Inr_iff)
    from persist_one_refines [OF Cons.prems(1-3) t(1) False] Cons.prems(5) obtain l1 where
      l1: "persist_one u depth txid step l = (l1, Inr ())" "lease_binding l1 = lease_binding l"
        "holds_projection u depth txid spec json evidence t l1" by auto
    from Cons.IH [OF l1(3) Cons.prems(2,3) t(2), of "Suc cursor"] Cons.prems(5) obtain l' n s' where
      n: "persist_steps u depth txid (Suc cursor) steps l1 = (l', Inr (Suc cursor + n))" "n \<le> length steps"
        "list_all (\<lambda>step. \<not> stops step) (take n steps)" "n = length steps \<or> stops (steps ! n)"
        "apply_steps u t (take n steps) = Inr s'" "active s' = active t" "compiled s' = compiled t"
        "lease_binding l' = lease_binding l1" "holds_projection u depth txid spec json evidence s' l'"
      by auto
    show ?thesis
      using n l1 t(1) False nonstop_active [OF t(1) False] step_compiled [OF t(1)]
      by (intro exI [of _ l'] exI [of _ "Suc n"] exI [of _ s']) (auto simp: followed_by_def apply_steps_def)
  qed
qed

section \<open>Reading the record\<close>

definition projected_record ::
  "pystr \<Rightarrow> transaction_spec \<Rightarrow> pystr option \<Rightarrow> pystr option \<Rightarrow> pystr \<Rightarrow> recovery_snapshot \<Rightarrow> stored_record" where
  "projected_record txid spec registration settlement evidence s =
     \<lparr>stored_txid = txid, stored_spec = spec, stored_state = tx_state s, stored_committed = commit_decision s,
      stored_result = rollback_result s, stored_diagnostic = halt_diagnostic s, stored_registration = registration,
      stored_settlement = settlement, stored_evidence = evidence, stored_assembly_halt = None,
      stored_journals = journals s\<rparr>"

lemma projection_reads:
  assumes "row_projects depth db txid r spec s" "coherence_findings u depth db txid = Inr []"
    "decode_approval_evidence u depth (evidence_column r) = Inr document"
  shows "load_record u depth db txid =
    Inr (Some (projected_record txid spec (registration_column r) (settlement_column r) (evidence_column r) s))"
  using assms
  by (simp add: load_record_def guard_def row_projects_def optional_result_def materialize_record_def
      load_assembly_halt_def projected_record_def)

lemma protocol_as_Inr [simp]: "protocol_as f r = Inr x \<longleftrightarrow> r = Inr x"
  by (induction f r rule: protocol_as.induct) auto

lemma loaded_record:
  assumes "load_record u depth db txid = Inr (Some record)" "stored_registration record \<noteq> None"
    "stored_assembly_halt record = None" "require_fields_match record s = Inr ()"
  obtains r document where "row_projects depth db txid r (stored_spec record) s"
    "coherence_findings u depth db txid = Inr []" "decode_approval_evidence u depth (evidence_column r) = Inr document"
    "stored_txid record = txid"
proof -
  from assms(1) obtain r where r: "map_of (record_table db) txid = Some r" "coherence_findings u depth db txid = Inr []"
      "materialize_record u depth db txid r = Inr record"
    by (auto simp: load_record_def bindr_Inr_iff guard_Inr_iff optional_result_def split: option.splits)
  from r(3) obtain document where m: "decode_approval_evidence u depth (evidence_column r) = Inr document"
      "from_canonical_json depth (spec_json r) = Inr (stored_spec record)"
      "load_assembly_halt depth txid r = Inr (stored_assembly_halt record)"
      "optional_result (decode_diagnostic depth) (diagnostic_column r) = Inr (stored_diagnostic record)"
      "journal_vector (stored_spec record) (effects_of txid db) = Inr (stored_journals record)"
      "stored_registration record = registration_column r" "stored_state record = state_column r"
      "stored_committed record = committed_column r" "stored_result record = result_column r" "stored_txid record = txid"
    by (auto simp: materialize_record_def bindr_Inr_iff)
  from m(3) assms(3) have "assembly_column r = None"
    by (auto simp: load_assembly_halt_def optional_result_def bindr_Inr_iff split: option.splits)
  with r m assms(2,4) have "row_projects depth db txid r (stored_spec record) s"
    by (simp add: row_projects_def require_fields_match_def guard_Inr_iff)
  with that r(2) m(1,10) show thesis by blast
qed

lemma fields_projected: "require_fields_match (projected_record txid spec g h e s) s = (if active s then Inr () else Inl (step_err PlanDetached))"
  by (simp add: require_fields_match_def projected_record_def guard_def)

section \<open>Properties\<close>

lemma reduce_prefix:
  "k \<le> length (plan_steps plan) \<Longrightarrow>
   reduce_recovery_plan_prefix u (bound_snapshot plan) plan k = apply_steps u (bound_snapshot plan) (take k (plan_steps plan))"
  by (simp add: reduce_recovery_plan_prefix_def guard_def apply_steps_def)

text \<open>A lease whose active record matches a projection holds it, and what it holds is read as that record.\<close>

lemma lease_projection:
  assumes "lease_active u depth l = Inr (Some r)" and "stored_registration r \<noteq> None" and "stored_assembly_halt r = None"
    and "require_fields_match r s = Inr ()"
  obtains canonical evidence document where
    "holds_projection u depth (stored_txid r) (stored_spec r) canonical evidence s l"
    "decode_approval_evidence u depth evidence = Inr document"
proof -
  from assms(1) obtain txid where "lease_live l" "active_table (lease_db l) = Some txid"
      "load_record u depth (lease_db l) txid = Inr (Some r)"
    by (auto simp: lease_active_def read_active_def guard_Inr_iff split: option.splits)
  moreover from loaded_record [OF this(3) assms(2-4)] obtain row document where
      "row_projects depth (lease_db l) txid row (stored_spec r) s" "coherence_findings u depth (lease_db l) txid = Inr []"
      "decode_approval_evidence u depth (evidence_column row) = Inr document" "stored_txid r = txid" .
  ultimately show thesis
    using that [of "spec_json row" "evidence_column row" document] by (auto simp: holds_projection_def)
qed

lemma projection_active:
  assumes "holds_projection u depth txid spec canonical evidence s l"
    and "decode_approval_evidence u depth evidence = Inr document"
  obtains g h where "lease_active u depth l = Inr (Some (projected_record txid spec g h evidence s))"
  using assms projection_reads
  by (fastforce simp: holds_projection_def lease_active_def read_active_def guard_def)

text \<open>
  C6: Persisting a plan refines reducing it. If the plan reduces to its end and the durable record
  of the active, registered transaction is the projection of the plan reduced to \<open>start\<close>, then
  \<open>persist_plan_prefix\<close> succeeds, stops at the next step that mutates or detaches or at the end, and
  the record read afterwards is the projection of the plan reduced to the returned cursor: the
  check with which the next call begins holds there. The plan may not leave the rolled back state,
  and its diagnostics have to be storable.
\<close>

theorem persist_prefix_refines:
  assumes "require_admitted l approved = Inr ()" and "lease_active u depth l = Inr (Some record)"
    and "stored_txid record = approved_txid approved" and "is_valid_identifier (approved_txid approved)"
    and "stored_registration record \<noteq> None" and "stored_assembly_halt record = None" and "4 \<le> depth"
    and "start \<le> length (plan_steps plan)" and "require_projection_matches u record plan start approved = Inr ()"
    and "apply_recovery_plan u (bound_snapshot plan) plan = Inr final" and "list_all storable_step (plan_steps plan)"
  shows "\<exists>l' cursor record'. persist_plan_prefix u depth approved plan (int start) l = (l', Inr cursor) \<and>
    start \<le> cursor \<and> cursor \<le> length (plan_steps plan) \<and>
    list_all (\<lambda>step. \<not> stops step) (drop start (take cursor (plan_steps plan))) \<and>
    (cursor = length (plan_steps plan) \<or> stops (plan_steps plan ! cursor)) \<and>
    require_admitted l' approved = Inr () \<and> lease_active u depth l' = Inr (Some record') \<and>
    stored_txid record' = approved_txid approved \<and>
    require_projection_matches u record' plan cursor approved = Inr ()"
proof -
  let ?s0 = "bound_snapshot plan" and ?steps = "plan_steps plan" and ?txid = "approved_txid approved"
  from assms(9) obtain s canonical where s: "compiled ?s0 = approved_compiled approved" "topology ?s0 = approved_topology approved"
      "apply_steps u ?s0 (take start ?steps) = Inr s" "canonical_json (stored_spec record) = Inr canonical"
      "canonical_json (compiled_of (compiled s)) = Inr canonical" "require_fields_match record s = Inr ()"
    using assms(8) by (auto simp: require_projection_matches_def guard_Inr_iff bindr_Inr_iff reduce_prefix)
  from lease_projection [OF assms(2,5,6) s(6)] obtain canon evidence document
    where holds: "holds_projection u depth ?txid (stored_spec record) canon evidence s l"
      and decodes: "decode_approval_evidence u depth evidence = Inr document"
    using assms(3) by metis
  have "apply_steps u s (drop start ?steps) = Inr final"
    using assms(10) s(3) apply_steps_append [of u ?s0 "take start ?steps" "drop start ?steps"]
    by (simp add: apply_recovery_plan_def reduce_prefix)
  moreover have "list_all storable_step (drop start ?steps)"
    using assms(11) by (auto simp: list_all_iff dest: in_set_dropD)
  ultimately obtain l' n s' where n: "persist_steps u depth ?txid start (drop start ?steps) l = (l', Inr (start + n))"
      "n \<le> length (drop start ?steps)" "list_all (\<lambda>step. \<not> stops step) (take n (drop start ?steps))"
      "n = length (drop start ?steps) \<or> stops (drop start ?steps ! n)"
      "apply_steps u s (take n (drop start ?steps)) = Inr s'" "active s' = active s" "compiled s' = compiled s"
      "lease_binding l' = lease_binding l"
      "holds_projection u depth ?txid (stored_spec record) canon evidence s' l'"
    using persist_steps_refine [OF holds assms(4,7), of "drop start ?steps" final start] by blast
  from projection_active [OF n(9) decodes] obtain g h
    where reads: "lease_active u depth l' = Inr (Some (projected_record ?txid (stored_spec record) g h evidence s'))" .
  let ?loaded = "projected_record ?txid (stored_spec record) g h evidence s'"
  have "active s" using s(6) by (simp add: require_fields_match_def guard_Inr_iff)
  have "apply_steps u ?s0 (take (start + n) ?steps) = Inr s'"
    using s(3) n(5) apply_steps_append [of u ?s0 "take start ?steps" "take n (drop start ?steps)"] by (simp add: take_add)
  then have match: "require_projection_matches u ?loaded plan (start + n) approved = Inr ()"
    using s n(2,6,7) assms(8) \<open>active s\<close> fields_projected
    by (simp add: require_projection_matches_def guard_def reduce_prefix) (simp add: projected_record_def)
  have persisted: "persist_plan_prefix u depth approved plan (int start) l = (l', Inr (start + n))"
    using assms(1-3,8,9) n(1) by (simp add: persist_plan_prefix_def after_def guard_def proof_record_def)
  have "require_admitted l' approved = Inr ()" using assms(1) n(8) by (simp add: require_admitted_def)
  then show ?thesis
    using persisted match reads n(2-4) assms(8)
    by (intro exI [of _ l'] exI [of _ "start + n"] exI [of _ ?loaded])
      (auto simp: projected_record_def take_drop add.commute)
qed

text \<open>
  C39: A halt diagnostic survives the store. For every diagnostic the snapshot factory validates,
  the text \<open>set_halt_diagnostic\<close> writes for it reads back as that diagnostic, with every slot,
  journal, entry and relation; its strings may hold any code point but a surrogate pair written as
  two, which the reader would join.
\<close>

theorem diagnostic_round_trip:
  assumes "validate_halt_diagnostic u (Some d) = Inr ()" and "encode_diagnostic d = Inr payload"
    and "list_all unpaired (diagnostic_texts d)" and "4 \<le> depth"
  shows "decode_diagnostic depth payload = Inr d"
  using diagnostic_reads_back [OF assms(2) _ assms(4)] validated_diagnostic_admissible [OF assms(1)] assms(3)
  by (simp add: diagnostic_keeps_def)

section \<open>A halt of a transaction that is rolled back\<close>

text \<open>A transaction that sets the state of a rolled back row to halted leaves its result in place.\<close>

lemma halted_result_refused:
  assumes "store_transaction u depth live (transition_body txid Tx_HALTED None (Some d)) db = (db', Inr v)"
    "map_of (record_table db) txid = Some r" "result_column r \<noteq> None"
  shows False
proof -
  from assms(1) obtain t where t: "run_body (transition_body txid Tx_HALTED None (Some d)) (begin_transaction db) = (t, Inr ())"
      "run_barrier u depth t = Inr ()"
    by (auto simp: store_transaction_def guard_def split: if_splits prod.splits sum.splits)
  from t(1) obtain t1 where t1: "txn_set_transaction_state txid Tx_HALTED (begin_transaction db) = (t1, Inr ())"
      "txn_set_halt_diagnostic txid d t1 = (t, Inr ())"
    by (auto simp: transition_body_def done_with_def split: prod.splits sum.splits)
  from t1(1) obtain r1 where r1: "map_of (record_table (working t1)) txid = Some r1" "state_column r1 = Tx_HALTED"
      "result_column r1 = result_column r"
    using assms(2) by (auto simp: txn_set_transaction_state_def write_simps sql_update_state_def update_record_Inr
        update_rows_lookup)
  from t1(2) r1 obtain r2 where r2: "map_of (record_table (working t)) txid = Some r2" "state_column r2 = Tx_HALTED"
      "result_column r2 = result_column r" "txid \<in> set (touched t)"
    by (auto simp: txn_set_halt_diagnostic_def write_simps sql_update_diagnostic_def bindr_Inr_iff update_record_Inr
        update_rows_lookup)
  from t(2) r2(4) have "coherence_findings u depth (working t) txid = Inr []"
    by (auto simp: run_barrier_def bindr_Inr_iff for_each_Inr barrier_record_def guard_Inr_iff)
  with r2 assms(3) show False
    by (auto simp: coherence_findings_def record_findings_iff presence_findings_def)
qed

text \<open>
  C40: A halt of a transaction that is already rolled back cannot be stored. The classifier halts
  such a transaction when its record contradicts itself, and the halt plan reduces, but no durable
  state has a place for it: the row keeps its rollback result, which the barrier refuses for a row that is
  halted, and no method takes it back. \<open>_persist_halt\<close> raises, whatever the store holds, and
  changes nothing; the halt is not recorded, and the next recovery meets the same record.
\<close>

theorem rolled_back_halt_unstorable:
  assumes "issued u s" and "classify_recovery u s = Inr (HaltPlan b d steps)" and "tx_state s = Tx_ROLLED_BACK"
  shows "\<exists>e. persist_halt u depth approved (HaltPlan b d steps) l = (l, Inl e)"
proof -
  let ?step = "TransitionTransactionState Tx_ROLLED_BACK Tx_HALTED None (Some d)"
  have plan: "b = s" "steps = [?step]"
    using classify_halt [OF assms(1,2)] assms(3) by (auto simp: sound_halt_def)
  have result: "rollback_result s \<noteq> None"
    using issued_valid [OF assms(1)] assms(3) by (simp add: valid_snapshot_iff terminal_payloads_iff)
  have "\<exists>e. persist_plan_prefix u depth approved (HaltPlan s d [?step]) 0 l = (l, Inl e)"
  proof (cases "snd (persist_plan_prefix u depth approved (HaltPlan s d [?step]) 0 l)")
    case (Inl e)
    then show ?thesis
      using refused
      by (fastforce simp: persist_plan_prefix_def after_def in_transaction_def followed_by_def
          split: sum.splits prod.splits)
  next
    case (Inr n)
    then obtain found where p: "proof_record u depth (step_err NoActiveRecord) (step_err ActiveNotTheProof) approved l = Inr found"
        "require_projection_matches u found (HaltPlan s d [?step]) 0 approved = Inr ()"
        "snd (persist_steps u depth (stored_txid found) 0 [?step] l) = Inr n"
      by (auto simp: persist_plan_prefix_def after_def split: sum.splits)
    from p(2) have "stored_result found = rollback_result s"
      by (auto simp: require_projection_matches_def require_fields_match_def guard_Inr_iff bindr_Inr_iff
          reduce_recovery_plan_prefix_def)
    moreover from p(1) obtain txid where "load_record u depth (lease_db l) txid = Inr (Some found)"
      by (auto simp: proof_record_def lease_active_def read_active_def bindr_Inr_iff guard_Inr_iff split: option.splits)
    then obtain r where "map_of (record_table (lease_db l)) (stored_txid found) = Some r" "result_column r = stored_result found"
      by (auto simp: load_record_def bindr_Inr_iff guard_Inr_iff optional_result_def materialize_record_def split: option.splits)
    moreover from p(3) obtain db' v where
      "store_transaction u depth (lease_live l) (transition_body (stored_txid found) Tx_HALTED None (Some d)) (lease_db l) = (db', Inr v)"
      by (auto simp: followed_by_def in_transaction_def split: prod.splits sum.splits)
    ultimately show ?thesis using halted_result_refused result by metis
  qed
  then show ?thesis by (auto simp: persist_halt_def followed_by_def plan)
qed

end
