(* ===== verification/StoreExamples.thy ===== *)
theory StoreExamples
  imports StoreAdmission PersistCorrect RecoveryExamples
begin

text \<open>
  Durable databases on which the properties of the store and of the coordinator are instantiated:
  the small transaction of \<open>RecoveryExamples\<close>, approved, prepared and crashed while it was applied,
  and the rows of a root that is registered.
\<close>

section \<open>Approval\<close>

definition small_txid :: pystr where "small_txid = py ''t1''"

definition small_directory :: json where
  "small_directory =
     JObj [(py ''identity'', JObj [(py ''st_dev'', JInt 1), (py ''st_ino'', JInt 2)]),
           (py ''lookup_proof'', JStr (py ''exact_bytes'')), (py ''name_max'', JInt 255),
           (py ''node'', JStr (py ''project_root'')), (py ''path'', JStr [])]"

definition small_document :: json where
  "small_document =
     JObj [(py ''directories'', JList [small_directory]), (py ''mount_id'', JInt 1), (py ''work_root'', JNull)]"

definition small_approved :: project_approved_spec where
  "small_approved =
     \<lparr>approved_compiled = small_compiled,
      approved_binding = \<lparr>binding_identity = 3, binding_mount = 1, binding_live = True\<rparr>,
      approved_txid = small_txid, approved_topology = small_topology,
      approved_directories = [ApprovedExistingDirectory ProjectRoot (FilesystemIdentity 1 2) (DirectoryConstraints EXACT_BYTES 255)],
      approved_directory_paths = [([], ProjectRoot)], approved_work_base = None\<rparr>"

lemma small_document_sorted: "sorted_json small_document = small_document"
  by code_simp

lemma small_document_fits: "plain_in (\<lambda>_. True) small_document" "nested_in small_document 4"
  by (simp_all add: small_document_def small_directory_def)

lemma small_document_writable: "JsonCorrect.writable small_document"
  by (simp add: small_document_def small_directory_def)

definition small_evidence :: pystr where
  "small_evidence = projr (json_dumps small_document)"

lemma small_evidence: "json_dumps small_document = Inr small_evidence" "utf8_encodable small_evidence"
  using dumps_writable [OF small_document_writable]
  by (auto simp: small_evidence_def utf8_encodable_def list_all_iff encodable_def)

lemma small_evidence_written: "encode_approval_evidence small_approved = Inr small_evidence"
proof -
  have "bindr (approval_document small_approved) json_dumps = json_dumps small_document"
    by code_simp
  then show ?thesis by (simp add: encode_approval_evidence_def small_evidence)
qed

lemma small_directories: "decoded_directories plain_tables (JList [small_directory]) = Inr [py ''project_root'']"
  by code_simp

lemma small_evidence_decodes: "4 \<le> depth \<Longrightarrow> decode_approval_evidence plain_tables depth small_evidence = Inr small_document"
proof -
  assume "4 \<le> depth"
  with loads_dumps [OF small_evidence(1) small_document_fits(1)] nested_in_mono [OF small_document_fits(2)]
  have "json_loads (unique_keys e) depth small_evidence = Inr small_document" for e
    by (simp add: small_document_sorted)
  then show ?thesis
    using small_evidence(1) small_directories
    by (simp add: decode_approval_evidence_def small_document_def closed_object_def evidence_item_def lookup_or_def
        guard_def nonnegative_integer_def decoded_work_root_def insert_commute)
qed

section \<open>The prepared transaction\<close>

lemma small_python_texts: "python_texts small_spec"
  by code_simp

definition small_json :: pystr where
  "small_json = projr (canonical_json (compiled_of small_compiled))"

lemma small_json:
  "canonical_json (compiled_of small_compiled) = Inr small_json" "utf8_encodable small_json"
  "4 \<le> depth \<Longrightarrow> from_canonical_json depth small_json = Inr (compiled_of small_compiled)"
proof -
  have written: "canonical_json (compiled_of small_compiled) = Inr small_json \<and> utf8_encodable small_json \<and>
      from_canonical_json depth small_json = Inr (compiled_of small_compiled)" if deep: "4 \<le> depth" for depth
  proof -
    obtain t where "canonical_json (compiled_of small_compiled) = Inr t" "utf8_encodable t"
      "from_canonical_json depth t = Inr (compiled_of small_compiled)"
      by (rule compiled_canonical [OF small_compiles small_python_texts deep])
    then show ?thesis by (simp only: small_json_def sum.sel)
  qed
  from written [of 4] show "canonical_json (compiled_of small_compiled) = Inr small_json" "utf8_encodable small_json"
    by simp_all
  show "4 \<le> depth \<Longrightarrow> from_canonical_json depth small_json = Inr (compiled_of small_compiled)"
    using written by simp
qed

lemma small_references: "referenced_digests (compiled_of small_compiled) = []"
  by code_simp

definition small_prepared :: database where
  "small_prepared = prepared_database small_txid (compiled_of small_compiled) small_json small_evidence [] empty_database"

lemma small_preflight: "preflight empty_database [] verify_staged verify_leaf [] = Inr ()"
  by (simp add: preflight_def guard_def)

lemma small_txid_valid: "is_valid_identifier small_txid"
  by code_simp

lemma small_prepare_commits:
  "store_transaction plain_tables 100 True
     (prepare_body small_approved [] (\<lambda>_. Inr ()) (\<lambda>_ _. Inr ()) (Inr ()) [] small_evidence) empty_database =
   (small_prepared, Inr ())"
  unfolding small_prepared_def
  by (rule prepare_commits(1) [OF small_compiles small_json(1,2) small_json(3) small_evidence(2) small_txid_valid
        empty_effects_recorded _ _ small_preflight])
    (simp_all add: small_references small_approved_def empty_database_def)

lemma small_prepared_stored: "stored plain_tables 100 small_prepared"
  using store_step.transact [OF small_prepare_commits] by blast

section \<open>The transaction crashed\<close>

definition small_row :: record_row where
  "small_row =
     (admitted_row small_json small_evidence)\<lparr>state_column := Tx_APPLYING, registration_column := Some (replicate 64 97)\<rparr>"

definition small_effect :: "pystr \<Rightarrow> effect_variant \<Rightarrow> journal_state \<Rightarrow> (pystr \<times> pystr) \<times> effect_row" where
  "small_effect e v j = ((small_txid, e), \<lparr>variant_column = v, journal_column = j\<rparr>)"

definition small_crashed :: database where
  "small_crashed =
     \<lparr>record_table = [(small_txid, small_row)],
      effect_table = [small_effect id0 DELETE_PATH J_DONE, small_effect id1 CREATE_DIRECTORY J_STARTED],
      blob_table = [], active_table = Some small_txid, lifecycle_table = None, operation_table = None\<rparr>"

definition small_lease :: "database \<Rightarrow> lease" where
  "small_lease db =
     \<lparr>lease_binding = \<lparr>binding_identity = 3, binding_mount = 1, binding_live = True\<rparr>, lease_live = True, lease_db = db\<rparr>"

lemma small_effects:
  "effects_of small_txid small_crashed =
     [(id0, \<lparr>variant_column = DELETE_PATH, journal_column = J_DONE\<rparr>),
      (id1, \<lparr>variant_column = CREATE_DIRECTORY, journal_column = J_STARTED\<rparr>)]"
  by (simp add: effects_of_def small_crashed_def small_effect_def)

lemma small_vector:
  "journal_vector (compiled_of small_compiled)
     [(id0, \<lparr>variant_column = DELETE_PATH, journal_column = J_DONE\<rparr>),
      (id1, \<lparr>variant_column = CREATE_DIRECTORY, journal_column = J_STARTED\<rparr>)] = Inr (journals crashed)"
  by code_simp

lemma small_effect_findings:
  "effect_findings (compiled_of small_compiled)
     [(id0, \<lparr>variant_column = DELETE_PATH, journal_column = J_DONE\<rparr>),
      (id1, \<lparr>variant_column = CREATE_DIRECTORY, journal_column = J_STARTED\<rparr>)] = []"
  by code_simp

lemma crashed_projected:
  "row_projects 100 small_crashed small_txid small_row (compiled_of small_compiled) crashed"
  unfolding row_projects_def small_effects small_vector
  by (simp add: small_crashed_def small_row_def admitted_row_def small_json(3) crashed_def small_def optional_result_def)

lemma crashed_coherent: "coherence_findings plain_tables 100 small_crashed small_txid = Inr []"
proof (rule projection_coherent [OF crashed_projected])
  show "effect_findings (compiled_of small_compiled) (effects_of small_txid small_crashed) = []"
    by (simp only: small_effects small_effect_findings)
  show "validate_terminal_payloads crashed = Inr ()" using crashed_valid by (simp add: valid_snapshot_iff)
qed (use compiled_again [OF small_compiles] in \<open>simp_all add: small_row_def admitted_row_def small_json(1)
  compile_findings_def blob_findings_def small_references active_recorded_def small_crashed_def\<close>)

definition small_record :: stored_record where
  "small_record = projected_record small_txid (compiled_of small_compiled) (Some (replicate 64 97)) None small_evidence crashed"

lemma crashed_active: "lease_active plain_tables 100 (small_lease small_crashed) = Inr (Some small_record)"
  using projection_reads [OF crashed_projected crashed_coherent, of small_document]
  by (simp add: lease_active_def read_active_def guard_def small_lease_def small_crashed_def small_row_def
      admitted_row_def small_evidence_decodes small_record_def)

lemma crashed_matches: "require_projection_matches plain_tables small_record crashed_plan 0 small_approved = Inr ()"
proof -
  have "require_fields_match small_record crashed = Inr ()"
    unfolding small_record_def fields_projected by (simp add: crashed_def small_def)
  then show ?thesis
    by (simp add: require_projection_matches_def guard_def crashed_plan_def reduce_recovery_plan_prefix_def
        small_json(1) small_record_def projected_record_def)
      (simp add: crashed_def small_def small_approved_def small_json(1))
qed

section \<open>Instances\<close>

theorem store_coherent_example:
  "coherence_findings plain_tables 100 small_prepared small_txid = Inr [] \<and> gated small_prepared"
  by (rule store_coherent [OF small_prepared_stored])

theorem prepared_reads_back_example:
  "\<exists>l'. prepare_transaction plain_tables 100 small_approved (approved_txid small_approved) [] (\<lambda>_. Inr ()) (\<lambda>_ _. Inr ())
      (Inr ()) [] (small_lease empty_database) = (l', Inr ()) \<and>
    lease_active plain_tables 100 l' = Inr (Some
      \<lparr>stored_txid = approved_txid small_approved, stored_spec = compiled_of (approved_compiled small_approved),
       stored_state = Tx_PREPARED, stored_committed = Decision_UNCOMMITTED, stored_result = None,
       stored_diagnostic = None, stored_registration = None, stored_settlement = None, stored_evidence = small_evidence,
       stored_assembly_halt = None,
       stored_journals = map (\<lambda>effect. EffectJournalState (effect_id_of effect) J_PENDING)
         (spec_effects (compiled_of (approved_compiled small_approved)))\<rparr>)"
  by (rule prepared_reads_back [where spec = small_spec and document = small_document])
    (simp_all add: small_lease_def require_admitted_def guard_def small_approved_def small_compiles small_python_texts
      small_txid_valid small_evidence small_evidence_written [unfolded small_approved_def] small_evidence_decodes
      small_preflight small_references, simp_all add: empty_database_def)

text \<open>A journal of the crashed transaction is written.\<close>

lemma crashed_journal_step:
  "\<exists>t. apply_step plain_tables crashed (TransitionEffectState id1 J_STARTED J_UNDO_STARTED) = Inr t"
proof -
  have "case apply_step plain_tables crashed (TransitionEffectState id1 J_STARTED J_UNDO_STARTED) of Inr _ \<Rightarrow> True | Inl _ \<Rightarrow> False"
    by code_simp
  then show ?thesis by (simp split: sum.splits)
qed

lemma crashed_later: "later plain_tables 100 small_crashed (journalled small_txid id1 J_UNDO_STARTED small_crashed)"
  using crashed_journal_step effect_persisted [OF crashed_projected crashed_coherent small_txid_valid]
  by (blast intro: store_step.transact)

theorem store_write_once_example:
  "\<exists>r'. map_of (record_table (journalled small_txid id1 J_UNDO_STARTED small_crashed)) small_txid = Some r' \<and>
    spec_json r' = spec_json small_row \<and> evidence_column r' = evidence_column small_row \<and>
    registration_column r' = registration_column small_row"
  using store_write_once [OF crashed_later, of small_txid small_row]
  by (auto simp: small_crashed_def small_row_def)

theorem persist_prefix_refines_example:
  "\<exists>l' cursor record'. persist_plan_prefix plain_tables 100 small_approved crashed_plan (int 0) (small_lease small_crashed) = (l', Inr cursor) \<and>
    0 \<le> cursor \<and> cursor \<le> length (plan_steps crashed_plan) \<and>
    list_all (\<lambda>step. \<not> stops step) (drop 0 (take cursor (plan_steps crashed_plan))) \<and>
    (cursor = length (plan_steps crashed_plan) \<or> stops (plan_steps crashed_plan ! cursor)) \<and>
    require_admitted l' small_approved = Inr () \<and> lease_active plain_tables 100 l' = Inr (Some record') \<and>
    stored_txid record' = approved_txid small_approved \<and>
    require_projection_matches plain_tables record' crashed_plan cursor small_approved = Inr ()"
proof (rule persist_prefix_refines [OF _ crashed_active _ _ _ _ _ _ crashed_matches])
  show "apply_recovery_plan plain_tables (bound_snapshot crashed_plan) crashed_plan = Inr recovered"
    using crashed_steps_apply
    by (simp add: crashed_plan_def apply_recovery_plan_def reduce_recovery_plan_prefix_def guard_def crashed_steps_def)
qed (simp_all add: small_lease_def require_admitted_def guard_def small_approved_def small_record_def
  projected_record_def small_txid_valid crashed_plan_def crashed_steps_def)

text \<open>A record that says that the transaction is rolled back and that it is committed.\<close>

definition contradicted :: recovery_snapshot where
  "contradicted = recovered\<lparr>active := True, commit_decision := Decision_COMMITTED\<rparr>"

definition contradicted_diagnostic :: halt_diagnostic where
  "contradicted_diagnostic = the (halt_parts (classify_recovery plain_tables contradicted))"

lemma contradicted_classifies:
  "classify_recovery plain_tables contradicted =
     Inr (HaltPlan contradicted contradicted_diagnostic
       [TransitionTransactionState Tx_ROLLED_BACK Tx_HALTED None (Some contradicted_diagnostic)])"
  by code_simp

lemma contradicted_issued: "issued plain_tables contradicted"
proof (rule small_compiled_issued)
  show "valid_snapshot plain_tables contradicted" unfolding valid_snapshot_iff by code_simp
qed (simp add: contradicted_def recovered_def small_def)

text \<open>The store holds that record: it is coherent, it is read, and it proves the halt plan.\<close>

definition contradicted_row :: record_row where
  "contradicted_row =
     small_row\<lparr>state_column := Tx_ROLLED_BACK, committed_column := Decision_COMMITTED, result_column := Some Result_RESTORED\<rparr>"

definition small_contradicted :: database where
  "small_contradicted = small_crashed
     \<lparr>record_table := [(small_txid, contradicted_row)],
      effect_table := [small_effect id0 DELETE_PATH J_UNDONE, small_effect id1 CREATE_DIRECTORY J_UNDONE]\<rparr>"

lemma contradicted_effects:
  "effects_of small_txid small_contradicted =
     [(id0, \<lparr>variant_column = DELETE_PATH, journal_column = J_UNDONE\<rparr>),
      (id1, \<lparr>variant_column = CREATE_DIRECTORY, journal_column = J_UNDONE\<rparr>)]"
  by (simp add: effects_of_def small_contradicted_def small_effect_def)

lemma contradicted_vector:
  "journal_vector (compiled_of small_compiled)
     [(id0, \<lparr>variant_column = DELETE_PATH, journal_column = J_UNDONE\<rparr>),
      (id1, \<lparr>variant_column = CREATE_DIRECTORY, journal_column = J_UNDONE\<rparr>)] = Inr (journals contradicted)"
  "effect_findings (compiled_of small_compiled)
     [(id0, \<lparr>variant_column = DELETE_PATH, journal_column = J_UNDONE\<rparr>),
      (id1, \<lparr>variant_column = CREATE_DIRECTORY, journal_column = J_UNDONE\<rparr>)] = []"
  by code_simp+

lemma contradicted_projected:
  "row_projects 100 small_contradicted small_txid contradicted_row (compiled_of small_compiled) contradicted"
  unfolding row_projects_def contradicted_effects contradicted_vector
  by (simp add: small_contradicted_def contradicted_row_def small_row_def admitted_row_def small_json(3)
      contradicted_def recovered_def small_def optional_result_def)

lemma contradicted_coherent: "coherence_findings plain_tables 100 small_contradicted small_txid = Inr []"
proof (rule projection_coherent [OF contradicted_projected])
  show "effect_findings (compiled_of small_compiled) (effects_of small_txid small_contradicted) = []"
    by (simp only: contradicted_effects contradicted_vector)
  show "validate_terminal_payloads contradicted = Inr ()"
    using issued_valid [OF contradicted_issued] by (simp add: valid_snapshot_iff)
qed (use compiled_again [OF small_compiles] in \<open>simp_all add: contradicted_row_def small_row_def admitted_row_def
  small_json(1) compile_findings_def blob_findings_def small_references active_recorded_def small_contradicted_def
  small_crashed_def\<close>)

definition contradicted_record :: stored_record where
  "contradicted_record =
     projected_record small_txid (compiled_of small_compiled) (Some (replicate 64 97)) None small_evidence contradicted"

lemma contradicted_active:
  "lease_active plain_tables 100 (small_lease small_contradicted) = Inr (Some contradicted_record)"
  using projection_reads [OF contradicted_projected contradicted_coherent, of small_document]
  by (simp add: lease_active_def read_active_def guard_def small_lease_def small_contradicted_def small_crashed_def
      contradicted_row_def small_row_def admitted_row_def small_evidence_decodes contradicted_record_def)

lemma contradicted_matches:
  "require_projection_matches plain_tables contradicted_record
     (HaltPlan contradicted contradicted_diagnostic
       [TransitionTransactionState Tx_ROLLED_BACK Tx_HALTED None (Some contradicted_diagnostic)]) 0 small_approved = Inr ()"
proof -
  have "require_fields_match contradicted_record contradicted = Inr ()"
    unfolding contradicted_record_def fields_projected by (simp add: contradicted_def)
  then show ?thesis
    by (simp add: require_projection_matches_def guard_def reduce_recovery_plan_prefix_def
        small_json(1) contradicted_record_def projected_record_def)
      (simp add: contradicted_def recovered_def small_def small_approved_def small_json(1))
qed

theorem rolled_back_halt_unstorable_example:
  "lease_active plain_tables 100 (small_lease small_contradicted) = Inr (Some contradicted_record) \<and>
   require_projection_matches plain_tables contradicted_record
     (HaltPlan contradicted contradicted_diagnostic
       [TransitionTransactionState Tx_ROLLED_BACK Tx_HALTED None (Some contradicted_diagnostic)]) 0 small_approved = Inr () \<and>
   (\<exists>e. persist_halt plain_tables 100 small_approved
      (HaltPlan contradicted contradicted_diagnostic
        [TransitionTransactionState Tx_ROLLED_BACK Tx_HALTED None (Some contradicted_diagnostic)]) (small_lease small_contradicted) =
      (small_lease small_contradicted, Inl e))"
proof (intro conjI)
  show "\<exists>e. persist_halt plain_tables 100 small_approved
      (HaltPlan contradicted contradicted_diagnostic
        [TransitionTransactionState Tx_ROLLED_BACK Tx_HALTED None (Some contradicted_diagnostic)]) (small_lease small_contradicted) =
      (small_lease small_contradicted, Inl e)"
    by (rule rolled_back_halt_unstorable [OF contradicted_issued contradicted_classifies])
      (simp add: contradicted_def recovered_def small_def)
qed (rule contradicted_active, rule contradicted_matches)

lemma unattributed_payload: "\<exists>payload. encode_diagnostic unattributed_diagnostic = Inr payload"
proof -
  have "case encode_diagnostic unattributed_diagnostic of Inr _ \<Rightarrow> True | Inl _ \<Rightarrow> False"
    by code_simp
  then show ?thesis by (simp split: sum.splits)
qed

lemma small_unpaired: "\<forall>c \<in> set s. int c < 128 \<Longrightarrow> unpaired s"
  by (induction s rule: unpaired.induct) (auto simp: high_surrogate_def)

theorem diagnostic_round_trip_example:
  "\<exists>payload. encode_diagnostic unattributed_diagnostic = Inr payload \<and>
    decode_diagnostic 4 payload = Inr unattributed_diagnostic"
proof -
  obtain payload where p: "encode_diagnostic unattributed_diagnostic = Inr payload"
    using unattributed_payload by blast
  have "validate_halt_diagnostic plain_tables (Some unattributed_diagnostic) = Inr ()" by code_simp
  moreover have "list_all (list_all (\<lambda>c. int c < 128)) (diagnostic_texts unattributed_diagnostic)" by code_simp
  then have "list_all unpaired (diagnostic_texts unattributed_diagnostic)"
    by (simp add: list_all_iff small_unpaired)
  ultimately show ?thesis using diagnostic_round_trip [of plain_tables, OF _ p] p by simp
qed

subsection \<open>A root that is registered\<close>

definition root_hex :: pystr where "root_hex = replicate 32 49"

definition registering :: transaction_body where
  "registering =
     [(False, InsertRootOperation root_hex register_kind [123, 125] (replicate 64 50)),
      (False, InsertRootLifecycle unserviceable root_hex [47] register_kind)]"

definition registered_root :: transaction_body where
  "registered_root = [(False, SetTreeProof [123, 125] (Some (replicate 64 51))), (False, SetRootLifecycleState root_writable)]"

definition root_lifecycle_row :: "pystr \<Rightarrow> root_lifecycle" where
  "root_lifecycle_row state = \<lparr>lifecycle_state = state, machine_id = root_hex, root_path = [47], lifecycle_origin = register_kind\<rparr>"

definition root_operation_row :: root_operation where
  "root_operation_row =
     \<lparr>operation_id = root_hex, operation_kind = register_kind, operation_phase = recorded, request_json = [123, 125],
      request_hash = replicate 64 50, source_snapshot = None, destination_snapshot = None, genesis_digest = None\<rparr>"

definition recorded_root :: database where
  "recorded_root = empty_database\<lparr>lifecycle_table := Some (root_lifecycle_row unserviceable), operation_table := Some root_operation_row\<rparr>"

definition writable_root :: database where
  "writable_root = empty_database\<lparr>lifecycle_table := Some (root_lifecycle_row root_writable),
     operation_table := Some (root_operation_row\<lparr>operation_phase := tree_durable, destination_snapshot := Some [123, 125],
       genesis_digest := Some (replicate 64 51)\<rparr>)\<rparr>"

lemma root_steps:
  "store_transaction plain_tables 100 True registering empty_database = (recorded_root, Inr ())"
  "store_transaction plain_tables 100 True registered_root recorded_root = (writable_root, Inr ())"
  by code_simp+

lemma root_histories:
  "stored plain_tables 100 recorded_root" "later plain_tables 100 recorded_root writable_root"
  using root_steps [THEN store_step.transact] by blast+

theorem root_rows_follow_operation_example:
  "\<exists>l'. lifecycle_table writable_root = Some l' \<and> lifecycle_later (root_lifecycle_row unserviceable) l' \<and>
    require_root_row_pair (Some l') (operation_table writable_root) = Inr ()"
  using root_rows_follow_operation [OF root_histories, of "root_lifecycle_row unserviceable"]
  by (auto simp: recorded_root_def)

end
