(* ===== verification/Spec2Isabelle.thy ===== *)
theory Spec2Isabelle
  imports CompilerErrors RollbackVectors SharedPaths StepCorrect TopologyCorrect CanonicalCorrect AssemblyCorrect
    ChainAppendCorrect StoreExamples
begin

text \<open>
  A model of the core of \<open>atoms\<close> (\<open>src/python/src/atoms\<close>): transactions of file system
  effects that are compiled before they run and recovered after a crash.

  The program. A caller declares a transaction: an ordered list of effects (create a
  directory, create, replace, delete or move an entry), the state of every touched path before
  and after, dependencies and registered objects. The compiler checks the declaration and
  derives the timeline of every path. The coordinator executes the effects one at a time,
  journalling each as started and done, and builds every new or displaced entry in a scratch
  name first. After a crash the coordinator observes the touched paths and scratch names,
  builds a snapshot of transaction, journal and observations, and asks the classifier for a
  recovery plan: a list of steps that rolls back, cleans up, or halts with a diagnostic. Each
  step is reduced on the snapshot to predict its result and is authorized against a fresh
  observation before it runs. Specifications are stored as canonical JSON, and an assembly that
  finds the approved topology changed leaves a halt payload. What was decided is published in
  the project as a chain: files named by the SHA-256 digest of their bytes, each naming the one
  before it, that record a genesis, intents, registrations and settlements of transactions.

  The model, by theory, with the modules of \<open>src/python/src/atoms\<close> it translates:

    \<^item> \<open>Prelude\<close>, \<open>Faults\<close>: results (an error or a value), loops that may raise, sorting and
      dictionaries; the errors the modules raise, one constructor per message.
    \<^item> \<open>Lexical\<close> (\<open>core/fingerprint.py\<close>, \<open>identifiers.py\<close>, \<open>paths.py\<close>, \<open>scratch.py\<close>): states of a
      path, identifiers, project paths, scratch names. Strings are lists of code points.
      Normalisation and case folding are an argument, \<open>unicode_tables\<close>.
    \<^item> \<open>Effects\<close> (\<open>core/effects.py\<close>, \<open>capabilities.py\<close>, \<open>spec.py\<close>, \<open>timeline.py\<close>) and \<open>Compiler\<close>
      (\<open>core/compiler.py\<close>): effects, specifications, timelines, and \<open>compile_spec\<close>, phases 1 to 13.
    \<^item> \<open>RecoveryModel\<close>, \<open>Snapshot\<close>, \<open>Plan\<close> (\<open>core/recovery/model.py\<close>, \<open>snapshot.py\<close>, \<open>plan.py\<close>,
      \<open>diagnostics.py\<close>): the vocabulary, the snapshot factory with its validators, plans.
    \<^item> \<open>Journal\<close> (\<open>core/recovery/journal.py\<close>): the journal vectors each state allows, what
      recovery may do in each state, and the expected state of every path.
    \<^item> \<open>Reducer\<close> (\<open>core/recovery/reducer.py\<close>): the effect of each step on a snapshot.
    \<^item> \<open>Variants\<close> (\<open>core/recovery/variants.py\<close>): the decision tables of the five effects.
    \<^item> \<open>Classifier\<close> (\<open>core/recovery/classifier.py\<close>, \<open>authorization.py\<close>): recovery plans and the
      authorization of a step.
    \<^item> \<open>Bytes\<close>, \<open>Json\<close>, \<open>Sha256\<close>: what the source uses of Python's standard library, that is
      UTF-8, strict Base64, \<open>json.dumps\<close> with sorted keys and compact separators, \<open>json.loads\<close> with
      a hook for pairs and a bound on nesting, and SHA-256.
    \<^item> \<open>Canonical\<close> (\<open>core/canonical.py\<close>) and \<open>Assembly\<close> (\<open>core/assembly.py\<close>): the stored forms of
      specifications and of assembly halts, encoders, decoders and validators.
    \<^item> \<open>ChainModel\<close> (\<open>chain/model.py\<close>): entries of the chain and their envelopes. \<open>ChainInspect\<close>
      (\<open>chain/inspect.py\<close>, and the provenance of a descriptor in \<open>fs/audit.py\<close>): the scan of the
      directory, the linkage, the rules of the classes.
      \<open>ChainFiles\<close> (\<open>chain/read.py\<close>, \<open>append.py\<close>): validation, survivors and appending, as steps on a
      directory of leaves that record every directory seen.
    \<^item> \<open>StoreDiagnostic\<close>, \<open>StoreRecords\<close> (\<open>store/records.py\<close>): the stored form of a halt diagnostic, the
      rules that make a record coherent, reading a record and the rows of a root. \<open>StoreSchema\<close>
      (\<open>store/schema.py\<close>): the tables as association lists in the order of insertion, and each statement with
      the constraints and the triggers that may refuse it. \<open>StoreTransactions\<close> (\<open>store/connection.py\<close>,
      \<open>blobs.py\<close>): a transaction as a list of method calls on a working copy, what a failed or a
      caught call leaves, the barrier, commit and rollback, public reads.
    \<^item> \<open>Approval\<close> (\<open>fs/approval.py\<close>): the approved specification and its evidence. \<open>Coordinator\<close>
      (\<open>coordinator/lease.py\<close>, \<open>prepare.py\<close>, \<open>transitions.py\<close>, \<open>recover.py\<close>): preparation, the persistence
      of the steps of a plan, detachment, and what the record and the chain ask of each other.

  A Python exception is the left side of a result; \<open>KeyError\<close>, \<open>IndexError\<close> and
  \<open>AttributeError\<close> are kept beside the module's own errors, so that a theorem that a function
  returns also excludes them. The exact-type tests of the source are the types of the model.
  Entry identities (device and inode) are numbers.

  The lemmas:

    \<^item> \<open>CompilerTries\<close>, \<open>CompilerMeaning\<close>, \<open>CompilerCorrect\<close>: lookups in the path tries, the
      declarative meaning of each phase, and the correctness of the compiler: what it accepts,
      that the compiled effects execute from the initial to the final surface, timelines,
      independence of the order of listing, idempotence, and that dependencies are checked but
      never required. \<open>CompilerErrors\<close>: which exceptions it raises, and exactly when.
    \<^item> \<open>ReducerCorrect\<close>: what every step keeps; an interface \<open>run_invariant\<close> for properties that
      steps preserve, interpreted for snapshots the factory issues. \<open>StepCorrect\<close>: what a step
      may write. \<open>TopologyCorrect\<close>: the worklist of the tree test.
    \<^item> \<open>JournalCorrect\<close>: the journal languages, where an open undo is illegal, frontiers.
    \<^item> \<open>DecisionCorrect\<close>: each decision table, where it does not halt, settles its effect,
      conserves foreign entries and restores the state before the effect. \<open>RollbackCorrect\<close>
      follows the rollback loop with the state its iterations keep. \<open>ClassifierCorrect\<close> composes
      them: plans apply, converge, restore, and lose nothing foreign. \<open>HaltCorrect\<close>: halts land
      and are stable. \<open>RollbackVectors\<close>: the journals after every step of a rollback plan, and
      which of them a crash may leave for recovery to take on again. \<open>SharedPaths\<close>: where
      frontiers with one expected state per path mislead.
    \<^item> \<open>JsonCorrect\<close>: what is dumped loads back, with sorted keys. The interfaces \<open>codec\<close> and
      \<open>exact_codec\<close> (an encoder with a decoder that reads what it writes, and nothing else) are
      interpreted for UTF-8, for assembly halts, for the facts of a path state and for the
      envelopes of the chain. \<open>CanonicalCorrect\<close>, \<open>AssemblyCorrect\<close>: round trips and exactness.
    \<^item> \<open>ChainModelCorrect\<close>: numerals (interface \<open>numeral_text\<close>), facts and envelopes are exact.
      \<open>ChainErrors\<close>: decoding fails closed. \<open>ChainInspectCorrect\<close>, \<open>ChainClasses\<close>, \<open>ChainScan\<close>: an
      inspected chain is one linked history that keeps the class rules; the scan raises for its
      descriptor alone, and the inspection is total.
      \<open>ChainFilesCorrect\<close>, \<open>ChainAppendCorrect\<close>: appending is atomic under crashes.
    \<^item> \<open>StoreDiagnosticCorrect\<close>: diagnostics read back. \<open>StoreCorrect\<close>: a step relation on databases,
      one step per transaction that commits or raises, and invariants of single statements that
      carry over to everything a store can reach: every record is coherent. \<open>StoreHistory\<close>: the
      gates between states, registrations and settlements, columns that are written once, the rows of a root.
      \<open>StoreAdmission\<close>: what is prepared reads back. \<open>PersistCorrect\<close>: persisting the steps of a plan
      refines their reduction, and the one halt that cannot be persisted.
    \<^item> \<open>Examples\<close>, \<open>RecoveryExamples\<close>, \<open>StoreExamples\<close>: small transactions and databases on which the
      definitions are evaluated.

  Bounds. Every loop is structural or has a measure (the tries by their nodes, the tree test by
  the nodes not yet visited, the walk along a chain by the digests not yet visited, a write by
  the bytes left). Python bounds the nesting that \<open>json.loads\<close> reads; the bound is the argument
  \<open>depth\<close>, and theorems that need a value to be read ask for the four or five levels of its form.

  SQLite. A statement either changes the rows it names or is refused and changes nothing; a
  refused statement does not end its transaction, which is why the store poisons it. \<open>TEXT\<close> that
  is not encodable as UTF-8 is refused when it is bound. The liveness of a store is a flag that no
  statement changes, and the files of a workspace are what the preflight sees of them.

  Not modelled. Opening, creating and migrating the database, the audit of its files and of the blob
  directory, workspaces and descriptors; observing the project, resolving paths, and the mutations
  on it: these drive system calls, file locks and the SQLite library. Of the chain, the creation of
  its directory, file descriptors and flushes are left out; a flush leaves what is seen unchanged,
  so that a crash before it leaves one of the directories that the model records. Of the
  coordinator, the commands, the root lifecycle commands and the loop that executes a plan.
\<close>

end
